(* ===== verification/Prelude.thy ===== *)
theory Prelude
  imports Main "HOL-Library.List_Lexorder" "HOL-Library.Char_ord" "HOL-Library.Product_Lexorder"
begin

text \<open>
  Shared vocabulary of the development: the Go types the runner uses (byte strings, 64-bit
  signed integers with their wrap-around, time stamps kept in string fields), the pieces of
  Go's \<open>strings\<close> and \<open>fmt\<close> packages the modelled code calls, the theorem collections, and
  the generic lemmas on maps and lists that the component theories rely on.
\<close>

named_theorems post_log \<open>rules for the final state of a logged mutation\<close>
named_theorems post_intros \<open>structural rules for the final state of an operation\<close>

section \<open>64-bit signed integers\<close>

text \<open>Go's \<open>int64\<close>: an \<open>int\<close> whose increments wrap around as the machine's do.\<close>

type_synonym int64 = int

definition wrap64 :: "int \<Rightarrow> int64" where
  "wrap64 x = (x + 2 ^ 63) mod 2 ^ 64 - 2 ^ 63"

definition inc64 :: "int64 \<Rightarrow> int64" where
  "inc64 x = wrap64 (x + 1)"

definition max_int64 :: int64 where
  "max_int64 = 2 ^ 63 - 1"

definition in_int64 :: "int \<Rightarrow> bool" where
  "in_int64 x \<longleftrightarrow> - (2 ^ 63) \<le> x \<and> x < 2 ^ 63"

section \<open>Byte strings\<close>

definition NUL :: char where
  "NUL = CHR 0x00"

definition nul_free :: "string \<Rightarrow> bool" where
  "nul_free x \<longleftrightarrow> NUL \<notin> set x"

text \<open>
  The white space of Go's \<open>unicode.IsSpace\<close>, each as its UTF-8 byte sequence, and
  \<open>strings.TrimSpace\<close>, which strips such sequences from both ends.
\<close>

definition go_spaces :: "string list" where
  "go_spaces =
     [[CHR 0x09], [CHR 0x0A], [CHR 0x0B], [CHR 0x0C], [CHR 0x0D], [CHR 0x20],
      [CHR 0xC2, CHR 0x85], [CHR 0xC2, CHR 0xA0], [CHR 0xE1, CHR 0x9A, CHR 0x80],
      [CHR 0xE2, CHR 0x80, CHR 0x80], [CHR 0xE2, CHR 0x80, CHR 0x81],
      [CHR 0xE2, CHR 0x80, CHR 0x82], [CHR 0xE2, CHR 0x80, CHR 0x83],
      [CHR 0xE2, CHR 0x80, CHR 0x84], [CHR 0xE2, CHR 0x80, CHR 0x85],
      [CHR 0xE2, CHR 0x80, CHR 0x86], [CHR 0xE2, CHR 0x80, CHR 0x87],
      [CHR 0xE2, CHR 0x80, CHR 0x88], [CHR 0xE2, CHR 0x80, CHR 0x89],
      [CHR 0xE2, CHR 0x80, CHR 0x8A], [CHR 0xE2, CHR 0x80, CHR 0xA8],
      [CHR 0xE2, CHR 0x80, CHR 0xA9], [CHR 0xE2, CHR 0x80, CHR 0xAF],
      [CHR 0xE2, CHR 0x81, CHR 0x9F], [CHR 0xE3, CHR 0x80, CHR 0x80]]"

definition is_prefix :: "string \<Rightarrow> string \<Rightarrow> bool" where
  "is_prefix p x \<longleftrightarrow> take (length p) x = p"

text \<open>Strip leading occurrences of the patterns; the first argument bounds the strips.\<close>

fun strip_front :: "nat \<Rightarrow> string list \<Rightarrow> string \<Rightarrow> string" where
  "strip_front 0 ps x = x"
| "strip_front (Suc n) ps x =
     (case find (\<lambda>p. p \<noteq> [] \<and> is_prefix p x) ps of
        None \<Rightarrow> x
      | Some p \<Rightarrow> strip_front n ps (drop (length p) x))"

definition TrimSpace :: "string \<Rightarrow> string" where
  "TrimSpace x =
     (let l = strip_front (length x) go_spaces x
      in rev (strip_front (length l) (map rev go_spaces) (rev l)))"

definition is_digit :: "char \<Rightarrow> bool" where
  "is_digit c \<longleftrightarrow> CHR ''0'' \<le> c \<and> c \<le> CHR ''9''"

text \<open>
  \<open>strings.ToLower\<close>: ASCII capitals, and the two non-ASCII letters whose lower case is
  ASCII (U+0130 and U+212A). Other non-ASCII letters stay as they are: Go maps them to
  non-ASCII letters again, and the code only compares the result with ASCII words.
\<close>

definition lower_char :: "char \<Rightarrow> char" where
  "lower_char c = (if CHR ''A'' \<le> c \<and> c \<le> CHR ''Z'' then char_of (of_char c + 32 :: nat) else c)"

fun ToLower :: "string \<Rightarrow> string" where
  "ToLower [] = []"
| "ToLower (c # cs) =
     (case cs of
        [] \<Rightarrow> [lower_char c]
      | d # ds \<Rightarrow>
          if c = CHR 0xC4 \<and> d = CHR 0xB0 then CHR ''i'' # ToLower ds
          else (case ds of
                  [] \<Rightarrow> lower_char c # ToLower cs
                | e # es \<Rightarrow>
                    if c = CHR 0xE2 \<and> d = CHR 0x84 \<and> e = CHR 0xAA then CHR ''k'' # ToLower es
                    else lower_char c # ToLower cs))"

definition HasPrefix :: "string \<Rightarrow> string \<Rightarrow> bool" where
  "HasPrefix x p \<longleftrightarrow> is_prefix p x"

text \<open>Decimal digits, and \<open>fmt\<close>'s \<open>%d\<close> of an integer.\<close>

fun digits_of :: "nat \<Rightarrow> string" where
  "digits_of n =
     (if n < 10 then [char_of (48 + n)]
      else digits_of (n div 10) @ [char_of (48 + n mod 10)])"

declare digits_of.simps [simp del]

definition fmt_d :: "int \<Rightarrow> string" where
  "fmt_d n = (if n < 0 then ''-'' @ digits_of (nat (- n)) else digits_of (nat n))"

section \<open>Time stamps\<close>

text \<open>
  Instants are nanoseconds. A Go string field that holds a time is empty, holds the
  RFC3339Nano text of an instant (which \<open>time.Parse\<close> reads back exactly), or holds text that
  \<open>time.Parse\<close> rejects.
\<close>

type_synonym time = int

datatype tstamp = TEmpty | TAt time | TBad string

fun parse_time :: "tstamp \<Rightarrow> time option" where
  "parse_time (TAt t) = Some t"
| "parse_time _ = None"

section \<open>Lemmas\<close>

lemma inc64_less_max: "in_int64 x \<Longrightarrow> x < max_int64 \<Longrightarrow> inc64 x = x + 1"
  by (simp add: inc64_def wrap64_def max_int64_def in_int64_def)

lemma succ_mod_neq:
  fixes y n :: int
  assumes "1 < n"
  shows "(y + 1) mod n \<noteq> y"
proof
  assume eq: "(y + 1) mod n = y"
  with assms have "0 \<le> y" and "y < n"
    by (metis assms less_trans pos_mod_sign zero_less_one, metis assms eq less_trans pos_mod_bound zero_less_one)
  with eq assms show False
    by (cases "y + 1 = n") (auto simp: mod_pos_pos_trivial)
qed

lemma inc64_neq [simp]: "inc64 x \<noteq> x"
  using succ_mod_neq [of "2 ^ 64" "x + 2 ^ 63"] by (simp add: inc64_def wrap64_def algebra_simps)

lemma in_int64_inc64 [simp]: "in_int64 (inc64 x)"
  by (simp add: inc64_def wrap64_def in_int64_def)

lemma NUL_not_in: "nul_free x \<Longrightarrow> NUL \<notin> set x"
  by (simp add: nul_free_def)

lemma split_at_sep:
  assumes "x \<notin> set a" and "x \<notin> set b" and "a @ x # c = b @ x # d"
  shows "a = b \<and> c = d"
  using assms
proof (induction a arbitrary: b)
  case Nil
  then show ?case by (cases b) auto
next
  case (Cons y a)
  then show ?case by (cases b) auto
qed

lemma digits_of_nonempty: "digits_of n \<noteq> []"
  by (subst digits_of.simps) simp

lemma ToLower_words [simp]:
  "ToLower ''completed'' = ''completed''" "ToLower ''failed'' = ''failed''"
  "ToLower ''cancelled'' = ''cancelled''" "ToLower ''canceled'' = ''canceled''"
  by (simp_all add: lower_char_def less_eq_char_def)

end
