(* ===== verification/Dispatch_Record.thy ===== *)
theory Dispatch_Record
  imports Prelude
begin

text \<open>
  The durable turn-dispatch record of \<open>runner/dispatch_record.go\<close>: its data types, the two
  closed edge tables (dispatch states and settle phases), the transition guards, receipt
  equality, the terminal-outcome parser and the hash helpers. SHA-256 and JSON encoding are
  functions of the record \<open>golib\<close>: nothing below depends on what they compute.
\<close>

section \<open>Enumerations\<close>

text \<open>
  Go's string-typed enumerations. The last constructor of each is a string outside the
  declared constants; the zero value \<open>""\<close> of a state is \<open>DispatchStateOther ''''\<close>.
\<close>

datatype DispatchState =
    DispatchPrepared
  | DispatchSendClaimed
  | DispatchSendStarted
  | DispatchProviderAccepted
  | DispatchUncertain
  | DispatchTerminalCompleted
  | DispatchTerminalFailed
  | DispatchTerminalCancelled
  | DispatchStateOther string

fun state_string :: "DispatchState \<Rightarrow> string" where
  "state_string DispatchPrepared = ''prepared''"
| "state_string DispatchSendClaimed = ''send_claimed''"
| "state_string DispatchSendStarted = ''send_started''"
| "state_string DispatchProviderAccepted = ''provider_accepted''"
| "state_string DispatchUncertain = ''uncertain''"
| "state_string DispatchTerminalCompleted = ''terminal_completed''"
| "state_string DispatchTerminalFailed = ''terminal_failed''"
| "state_string DispatchTerminalCancelled = ''terminal_cancelled''"
| "state_string (DispatchStateOther x) = x"

datatype SettlePhase =
    SettleNone
  | SettlePending
  | SettleGateEvaluated
  | SettleCompletionCommitted
  | SettleGraphSettled
  | SettleDependentsReleased
  | SettleFinalized
  | SettleSupersededReprompt
  | SettlePhaseOther string

fun settle_string :: "SettlePhase \<Rightarrow> string" where
  "settle_string SettleNone = ''''"
| "settle_string SettlePending = ''settle_pending''"
| "settle_string SettleGateEvaluated = ''gate_evaluated''"
| "settle_string SettleCompletionCommitted = ''completion_committed''"
| "settle_string SettleGraphSettled = ''graph_settled''"
| "settle_string SettleDependentsReleased = ''dependents_released''"
| "settle_string SettleFinalized = ''finalized''"
| "settle_string SettleSupersededReprompt = ''settle_superseded_reprompt''"
| "settle_string (SettlePhaseOther x) = x"

definition StopOutcomeStoppedBeforeSend :: string where
  "StopOutcomeStoppedBeforeSend = ''stopped_before_send''"

definition StopOutcomeCancelledInFlight :: string where
  "StopOutcomeCancelledInFlight = ''cancelled_in_flight''"

datatype PreSendStopSource = PreSendStopSelf | PreSendStopParentFence

fun source_string :: "PreSendStopSource \<Rightarrow> string" where
  "source_string PreSendStopSelf = ''self''"
| "source_string PreSendStopParentFence = ''parent_fence''"

datatype RecoveryUnknownDecision = RecoveryNoDecision | RecoveryClassifiedUncertain | RecoveryCancelRequired

datatype ResolveAction =
    ResolveMarkCompleted | ResolveMarkFailed | ResolveConfirmCancelled | ResolveAbandon
  | ResolveActionOther string

fun resolve_string :: "ResolveAction \<Rightarrow> string" where
  "resolve_string ResolveMarkCompleted = ''mark_completed''"
| "resolve_string ResolveMarkFailed = ''mark_failed''"
| "resolve_string ResolveConfirmCancelled = ''confirm_cancelled''"
| "resolve_string ResolveAbandon = ''abandon''"
| "resolve_string (ResolveActionOther x) = x"

datatype RepairAction = RepairActionRetryLoad | RepairActionAbandon

fun repair_action_string :: "RepairAction \<Rightarrow> string" where
  "repair_action_string RepairActionRetryLoad = ''retry_load''"
| "repair_action_string RepairActionAbandon = ''abandon''"

datatype RepairOutcome =
    RepairResolvedRetryLoad | RepairFailedStillOpen | RepairResolvedAbandon
  | RepairOutcomeOther string

fun repair_outcome_string :: "RepairOutcome \<Rightarrow> string" where
  "repair_outcome_string RepairResolvedRetryLoad = ''resolved_retry_load''"
| "repair_outcome_string RepairFailedStillOpen = ''failed_still_open''"
| "repair_outcome_string RepairResolvedAbandon = ''resolved_abandon''"
| "repair_outcome_string (RepairOutcomeOther x) = x"

datatype ReleaseManifestState = ReleasePending | ReleaseCreated | ReleaseSuppressed

datatype StopReason = StopReasonUser | StopReasonParent | StopReasonSystem | StopReasonRepair

fun stop_reason_string :: "StopReason \<Rightarrow> string" where
  "stop_reason_string StopReasonUser = ''user''"
| "stop_reason_string StopReasonParent = ''parent''"
| "stop_reason_string StopReasonSystem = ''system''"
| "stop_reason_string StopReasonRepair = ''repair''"

section \<open>Structs\<close>

text \<open>Optional structs (Go pointers) are \<open>option\<close>s; copying a struct is the identity here.\<close>

record ReceiptEvidence =
  re_ProviderKey :: string
  re_ReceiptID :: string
  re_EvidenceKind :: string
  re_PayloadCanonicalJSON :: string
  re_PayloadSHA256 :: string
  re_ObservedAt :: tstamp

record TerminalEvidence =
  te_ProviderKey :: string
  te_EvidenceKind :: string
  te_Outcome :: string
  te_ReceiptIdentity :: string
  te_PayloadCanonicalJSON :: string
  te_PayloadSHA256 :: string
  te_ObservedAt :: tstamp

record AttachedEffectPayload =
  ap_Kind :: string
  ap_CanonicalJSON :: string
  ap_SHA256 :: string
  ap_ObservedAt :: tstamp

record ParentStopFence =
  pf_ParentRunID :: string
  pf_ExpectedStopGeneration :: int64

record RunStopState =
  rs_RunID :: string
  rs_Generation :: int64
  rs_Revision :: int64
  rs_Stopped :: bool

text \<open>\<open>ExpiresAt\<close> is a \<open>time.Time\<close>; \<open>None\<close> is its zero value.\<close>

record RecoveryAttachToken =
  tk_Epoch :: int64
  tk_Owner :: string
  tk_ExpiresAt :: "time option"

record DispatchRecord =
  d_ProtocolVersion :: int
  d_TurnID :: string
  d_RunID :: string
  d_ProjectID :: string
  d_IntentOwnerRunID :: string
  d_State :: DispatchState
  d_StopOutcome :: string
  d_Revision :: int64
  d_ClaimOwner :: string
  d_ClaimExpiresAt :: tstamp
  d_RecoveryAttachEpoch :: int64
  d_RecoveryAttachOwner :: string
  d_RecoveryAttachExpiresAt :: tstamp
  d_CancelRequested :: bool
  d_StopGeneration :: int64
  d_OuterIntentKey :: string
  d_OuterIntentGen :: int64
  d_EnvelopeHash :: string
  d_ReceiptEvidence :: "ReceiptEvidence option"
  d_TerminalEvidence :: "TerminalEvidence option"
  d_SettleOwed :: bool
  d_SettlePhase :: SettlePhase
  d_PredecessorTurnID :: string
  d_Outcome :: string
  d_ParentStopFence :: "ParentStopFence option"
  d_CreatedAt :: tstamp
  d_UpdatedAt :: tstamp

record SkillSelection =
  sk_Name :: string
  sk_Path :: string
  sk_Source :: string

record AttachmentRef =
  ar_Ref :: string
  ar_SHA256 :: string

record DispatchEnvelope =
  v_TurnID :: string
  v_RunID :: string
  v_StepID :: string
  v_ProviderKey :: string
  v_ProviderAccountID :: string
  v_ProviderSessionIDAtPrepare :: string
  v_PromptRef :: string
  v_PromptSHA256 :: string
  v_Model :: string
  v_ReasoningEffort :: string
  v_Yolo :: bool
  v_SelectedSkills :: "SkillSelection list"
  v_Scenario :: string
  v_Attachments :: "AttachmentRef list"
  v_FlowContextInjected :: bool
  v_CreatedAt :: tstamp
  v_EnvelopeHash :: string

record DurableIntent =
  di_ChildTurnID :: string
  di_ChildRunID :: string
  di_IntentKey :: string
  di_IntentGen :: int64
  di_Envelope :: "DispatchEnvelope option"
  di_EnvelopeHash :: string
  di_ParentStopFence :: ParentStopFence
  di_IntentHash :: string

record ReleaseManifestItem =
  rm_RunID :: string
  rm_TurnID :: string
  rm_DependentRunID :: string
  rm_Intent :: DurableIntent
  rm_State :: ReleaseManifestState
  rm_Revision :: int64
  rm_StopGeneration :: int64
  rm_CreatedAt :: tstamp
  rm_UpdatedAt :: tstamp

record OperatorEvidence =
  oe_Actor :: string
  oe_Detail :: string
  oe_CapturedAt :: tstamp

record RepairRecord =
  rp_RunID :: string
  rp_RepairRevision :: int64
  rp_Reason :: string
  rp_QuarantineBlob :: string
  rp_QuarantineHash :: string
  rp_State :: string
  rp_ResolvedAction :: string
  rp_ResolutionID :: string
  rp_AttemptClaim :: string
  rp_AttemptExpiresAt :: tstamp
  rp_CreatedAt :: tstamp
  rp_ResolvedAt :: tstamp

record EffectDone =
  ef_RunID :: string
  ef_TurnID :: string
  ef_EffectKind :: string
  ef_Payload :: string
  ef_PayloadHash :: string
  ef_Revision :: int64
  ef_CreatedAt :: tstamp

record AttentionItem =
  at_Kind :: string
  at_RunID :: string
  at_TurnID :: string
  at_Reason :: string
  at_UpdatedAt :: tstamp
  at_Revision :: int64

record AuditEntry =
  au_Seq :: int64
  au_RunID :: string
  au_TurnID :: string
  au_Kind :: string
  au_Detail :: string
  au_At :: tstamp
  au_Actor :: string

record ResolutionResult =
  rr_ResolutionID :: string
  rr_RunID :: string
  rr_TurnID :: string
  rr_Action :: string
  rr_Revision :: int64
  rr_NewTurnID :: string
  rr_Record :: DispatchRecord

section \<open>Errors\<close>

text \<open>
  One constructor per sentinel or typed error of the package (an error that wraps a sentinel
  with \<open>%w\<close> is that sentinel) and one per unwrapped \<open>fmt.Errorf\<close>. \<open>ErrCommit\<close> is what the
  commit hook returns when the durable line cannot be written.
\<close>

datatype error =
    ErrRunStopFence int64
  | ErrParentStopFence int64
  | ErrStaleDispatch
  | ErrRecoveryLeaseLost
  | ErrRecoveryAttachRevoked
  | ErrRecoveryAttachActive
  | ErrReceiptConflict
  | ErrEffectConflict
  | ErrSuperseded
  | ErrNotFound
  | ErrAlreadyExists
  | ErrIllegalTransition
  | ErrRepairNotOpen
  | ErrDispatchLocked
  | RepairResolutionReplay int64 string
  | ErrIdsRequired
  | ErrEnvelopeHashMismatch
  | ErrMustStartPrepared
  | ErrInvalidOutcome string
  | ErrUnknownResolveAction string
  | ErrMissingEnvelope
  | ErrUnknownRepairOutcome string
  | ErrGateRequired
  | ErrGate string
  | ErrUnknownSettlePhase
  | ErrReconcileFailed nat
  | ErrCommit string

section \<open>Tables and predicates\<close>

definition DispatchProtocolV2 :: int where
  "DispatchProtocolV2 = 2"

fun dispatchLegal :: "DispatchState \<Rightarrow> DispatchState list" where
  "dispatchLegal DispatchPrepared = [DispatchSendClaimed, DispatchTerminalCancelled]"
| "dispatchLegal DispatchSendClaimed = [DispatchSendStarted, DispatchTerminalCancelled]"
| "dispatchLegal DispatchSendStarted =
     [DispatchProviderAccepted, DispatchUncertain, DispatchTerminalCompleted,
      DispatchTerminalFailed, DispatchTerminalCancelled]"
| "dispatchLegal DispatchProviderAccepted =
     [DispatchUncertain, DispatchTerminalCompleted, DispatchTerminalFailed, DispatchTerminalCancelled]"
| "dispatchLegal DispatchUncertain =
     [DispatchTerminalCompleted, DispatchTerminalFailed, DispatchTerminalCancelled]"
| "dispatchLegal _ = []"

fun settleLegal :: "SettlePhase \<Rightarrow> SettlePhase list" where
  "settleLegal SettleNone = [SettlePending]"
| "settleLegal SettlePending = [SettleGateEvaluated, SettleSupersededReprompt]"
| "settleLegal SettleGateEvaluated = [SettleCompletionCommitted, SettleSupersededReprompt]"
| "settleLegal SettleCompletionCommitted = [SettleGraphSettled]"
| "settleLegal SettleGraphSettled = [SettleDependentsReleased]"
| "settleLegal SettleDependentsReleased = [SettleFinalized]"
| "settleLegal _ = []"

fun IsTerminal :: "DispatchState \<Rightarrow> bool" where
  "IsTerminal DispatchTerminalCompleted = True"
| "IsTerminal DispatchTerminalFailed = True"
| "IsTerminal DispatchTerminalCancelled = True"
| "IsTerminal _ = False"

fun IsSent :: "DispatchState \<Rightarrow> bool" where
  "IsSent DispatchSendStarted = True"
| "IsSent DispatchProviderAccepted = True"
| "IsSent _ = False"

fun IsSettleFinal :: "SettlePhase \<Rightarrow> bool" where
  "IsSettleFinal SettleFinalized = True"
| "IsSettleFinal SettleSupersededReprompt = True"
| "IsSettleFinal SettleNone = True"
| "IsSettleFinal _ = False"

definition isLegalEdge :: "DispatchState \<Rightarrow> DispatchState \<Rightarrow> bool" where
  "isLegalEdge from to \<longleftrightarrow> to \<in> set (dispatchLegal from)"

definition canTransition :: "DispatchRecord \<Rightarrow> DispatchState \<Rightarrow> error option" where
  "canTransition r to =
     (if d_CancelRequested r \<and> to = DispatchSendStarted then Some ErrIllegalTransition
      else if d_CancelRequested r \<and> \<not> IsTerminal (d_State r) \<and>
              (d_State r = DispatchPrepared \<or> d_State r = DispatchSendClaimed) \<and>
              to \<noteq> DispatchTerminalCancelled
        then Some ErrIllegalTransition
      else if to \<in> set (dispatchLegal (d_State r)) then None
      else Some ErrIllegalTransition)"

definition canAdvanceSettle :: "SettlePhase \<Rightarrow> SettlePhase \<Rightarrow> error option" where
  "canAdvanceSettle from to =
     (if to \<in> set (settleLegal from) then None else Some ErrIllegalTransition)"

definition allDispatchStates :: "DispatchState list" where
  "allDispatchStates =
     [DispatchPrepared, DispatchSendClaimed, DispatchSendStarted, DispatchProviderAccepted,
      DispatchUncertain, DispatchTerminalCompleted, DispatchTerminalFailed,
      DispatchTerminalCancelled]"

definition receiptEqual :: "ReceiptEvidence option \<Rightarrow> ReceiptEvidence option \<Rightarrow> bool" where
  "receiptEqual a b =
     (case (a, b) of
        (Some x, Some y) \<Rightarrow>
          re_ProviderKey x = re_ProviderKey y \<and> re_ReceiptID x = re_ReceiptID y \<and>
          re_EvidenceKind x = re_EvidenceKind y \<and> re_PayloadSHA256 x = re_PayloadSHA256 y
      | (None, None) \<Rightarrow> True
      | _ \<Rightarrow> False)"

definition receiptIdentityMatch :: "ReceiptEvidence option \<Rightarrow> ReceiptEvidence option \<Rightarrow> bool" where
  "receiptIdentityMatch a b =
     (case (a, b) of
        (Some x, Some y) \<Rightarrow>
          re_ProviderKey x = re_ProviderKey y \<and> re_ReceiptID x = re_ReceiptID y \<and>
          re_EvidenceKind x = re_EvidenceKind y
      | _ \<Rightarrow> False)"

definition terminalStateFromProof :: "string \<Rightarrow> error + (DispatchState \<times> string)" where
  "terminalStateFromProof outcome =
     (let o' = ToLower (TrimSpace outcome)
      in if o' = ''completed'' then Inr (DispatchTerminalCompleted, ''completed'')
         else if o' = ''failed'' then Inr (DispatchTerminalFailed, ''failed'')
         else if o' = ''cancelled'' \<or> o' = ''canceled'' then Inr (DispatchTerminalCancelled, ''cancelled'')
         else Inl (ErrInvalidOutcome outcome))"

definition requiresGateSettlement :: "string \<Rightarrow> string \<Rightarrow> bool" where
  "requiresGateSettlement runMode stepID =
     (if TrimSpace stepID = '''' then False
      else (let m = ToLower (TrimSpace runMode)
            in m = ''flow'' \<or> m = ''workflow'' \<or> m = ''chat'' \<or> m = ''''))"

section \<open>Hashes\<close>

text \<open>
  The library functions behind the hashes: SHA-256 in hexadecimal and \<open>json.Marshal\<close> of the
  three struct types that are hashed or mirrored (it cannot fail on them), and the RFC3339Nano
  text of an instant.
\<close>

record golib =
  sha256_hex :: "string \<Rightarrow> string"
  json_envelope :: "DispatchEnvelope \<Rightarrow> string"
  json_intent :: "DurableIntent \<Rightarrow> string"
  json_release :: "ReleaseManifestItem \<Rightarrow> string"
  rfc3339nano :: "time \<Rightarrow> string"

text \<open>The text a time field holds.\<close>

fun tstamp_text :: "golib \<Rightarrow> tstamp \<Rightarrow> string" where
  "tstamp_text L TEmpty = ''''"
| "tstamp_text L (TAt t) = rfc3339nano L t"
| "tstamp_text L (TBad x) = x"

definition HashBytes :: "golib \<Rightarrow> string \<Rightarrow> string" where
  "HashBytes L b = sha256_hex L b"

text \<open>
  \<open>ComputeEnvelopeHash\<close> sorts the skills and attachments of a shallow copy, whose slices
  share their arrays with the argument: the caller's envelope is left sorted too, so the
  model returns it along with the hash.
\<close>

definition ComputeEnvelopeHash :: "golib \<Rightarrow> DispatchEnvelope \<Rightarrow> string \<times> DispatchEnvelope" where
  "ComputeEnvelopeHash L env =
     (let env1 = env\<lparr>v_SelectedSkills := sort_key sk_Name (v_SelectedSkills env),
                     v_Attachments := sort_key ar_Ref (v_Attachments env)\<rparr>
      in (sha256_hex L (json_envelope L (env1\<lparr>v_EnvelopeHash := ''''\<rparr>)), env1))"

definition ComputeIntentHash :: "golib \<Rightarrow> DurableIntent \<Rightarrow> string" where
  "ComputeIntentHash L i = sha256_hex L (json_intent L (i\<lparr>di_IntentHash := ''''\<rparr>))"

end
