(* ===== verification/Dispatch_Memory.thy ===== *)
theory Dispatch_Memory
  imports Dispatch_Record
begin

text \<open>
  The in-memory dispatch store of \<open>runner/dispatch_store_memory.go\<close> (and the key helpers of
  \<open>runner/dispatch_store.go\<close>): its state, one definition per operation, each the whole
  critical section under the store's mutex. An operation returns its Go results and the new
  state. The commit hook \<open>afterCommit\<close> is a field of the state, as in the code: a function of
  the log line and of the disk state \<open>'d\<close>, so that every property of the store holds for
  every hook. All readings of the injected clock within one operation are the same instant
  \<open>s_now\<close>. Go maps are partial functions; where the code ranges over a map, the order in
  which the loop visits the keys is a parameter.
\<close>

section \<open>State\<close>

record intentClearPayload =
  ic_OwnerRunID :: string
  ic_Key :: string
  ic_Gen :: int64

record dispatchActivation =
  da_RunID :: string
  da_ProtocolVersion :: int

record intentLiveEntry =
  il_Gen :: int64
  il_EnvelopeHash :: string

record dispatchLogLine =
  ll_Kind :: string
  ll_Seq :: int64
  ll_At :: tstamp
  ll_Record :: "DispatchRecord option"
  ll_Envelope :: "DispatchEnvelope option"
  ll_IntentClear :: "intentClearPayload option"
  ll_Effect :: "EffectDone option"
  ll_Release :: "ReleaseManifestItem option"
  ll_Repair :: "RepairRecord option"
  ll_RunStop :: "RunStopState option"
  ll_Activation :: "dispatchActivation option"
  ll_Successor :: "DispatchRecord option"

type_synonym intentClearKey = "string \<times> string \<times> int64"

record 'd memoryDispatchStore =
  s_now :: time
  s_records :: "string \<rightharpoonup> DispatchRecord"
  s_envelopes :: "string \<rightharpoonup> DispatchEnvelope"
  s_runStop :: "string \<rightharpoonup> RunStopState"
  s_activation :: "string \<rightharpoonup> int"
  s_effects :: "string \<rightharpoonup> EffectDone"
  s_releases :: "string \<rightharpoonup> ReleaseManifestItem"
  s_repairs :: "string \<rightharpoonup> RepairRecord"
  s_clears :: "intentClearKey set"
  s_audits :: "AuditEntry list"
  s_resolutions :: "string \<rightharpoonup> ResolutionResult"
  s_seq :: int64
  s_intentLive :: "string \<rightharpoonup> intentLiveEntry"
  s_afterCommit :: "(dispatchLogLine \<Rightarrow> 'd \<Rightarrow> error option \<times> 'd) option"
  s_disk :: 'd

definition newMemoryDispatchStore ::
  "time \<Rightarrow> (dispatchLogLine \<Rightarrow> 'd \<Rightarrow> error option \<times> 'd) option \<Rightarrow> 'd \<Rightarrow> 'd memoryDispatchStore" where
  "newMemoryDispatchStore t hook d =
     \<lparr>s_now = t, s_records = Map.empty, s_envelopes = Map.empty, s_runStop = Map.empty,
      s_activation = Map.empty, s_effects = Map.empty, s_releases = Map.empty,
      s_repairs = Map.empty, s_clears = {}, s_audits = [], s_resolutions = Map.empty, s_seq = 0,
      s_intentLive = Map.empty, s_afterCommit = hook, s_disk = d\<rparr>"

section \<open>Keys\<close>

definition recKey :: "string \<Rightarrow> string \<Rightarrow> string" where
  "recKey runID turnID = runID @ [NUL] @ turnID"

definition effectKey :: "string \<Rightarrow> string \<Rightarrow> string \<Rightarrow> string" where
  "effectKey runID turnID kind = runID @ [NUL] @ turnID @ [NUL] @ kind"

definition intentKey2 :: "string \<Rightarrow> string \<Rightarrow> string" where
  "intentKey2 owner key = owner @ [NUL] @ key"

definition releaseEffectKind :: "string \<Rightarrow> string" where
  "releaseEffectKind dependentRunID = ''release:'' @ dependentRunID"

text \<open>
  \<open>itoa64\<close> negates a negative number before it writes the digits; the negation of the least
  \<open>int64\<close> is itself, so its loop writes no digit and the result is a bare sign.
\<close>

definition itoa64 :: "int64 \<Rightarrow> string" where
  "itoa64 n =
     (if n = 0 then ''0''
      else let neg = n < 0; m = (if neg then wrap64 (- n) else n);
               ds = (if 0 < m then digits_of (nat m) else '''')
           in if neg then ''-'' @ ds else ds)"

definition attachedEffectKind :: "int64 \<Rightarrow> string \<Rightarrow> string" where
  "attachedEffectKind epoch eventID = ''attached:'' @ itoa64 epoch @ '':'' @ eventID"

section \<open>Locked helpers\<close>

definition clockStr :: "'d memoryDispatchStore \<Rightarrow> tstamp" where
  "clockStr s = TAt (s_now s)"

definition appendAuditLocked ::
  "'d memoryDispatchStore \<Rightarrow> string \<Rightarrow> string \<Rightarrow> string \<Rightarrow> string \<Rightarrow> string \<Rightarrow> 'd memoryDispatchStore" where
  "appendAuditLocked s runID turnID kind detail actor =
     (let n = inc64 (s_seq s)
      in s\<lparr>s_seq := n,
           s_audits := s_audits s @
             [\<lparr>au_Seq = n, au_RunID = runID, au_TurnID = turnID, au_Kind = kind,
               au_Detail = detail, au_At = clockStr s, au_Actor = actor\<rparr>]\<rparr>)"

definition uncommitAudit :: "'d memoryDispatchStore \<Rightarrow> int64 \<Rightarrow> nat \<Rightarrow> 'd memoryDispatchStore" where
  "uncommitAudit s seqBefore auditLenBefore =
     s\<lparr>s_seq := seqBefore, s_audits := take auditLenBefore (s_audits s)\<rparr>"

definition ensureActivationLocked :: "'d memoryDispatchStore \<Rightarrow> string \<Rightarrow> 'd memoryDispatchStore" where
  "ensureActivationLocked s runID =
     (let s1 = (if s_activation s runID = None
                then s\<lparr>s_activation := (s_activation s)(runID \<mapsto> DispatchProtocolV2)\<rparr> else s)
      in if s_runStop s1 runID = None
         then s1\<lparr>s_runStop := (s_runStop s1)
                 (runID \<mapsto> \<lparr>rs_RunID = runID, rs_Generation = 0, rs_Revision = 1, rs_Stopped = False\<rparr>)\<rparr>
         else s1)"

definition getRecLocked :: "'d memoryDispatchStore \<Rightarrow> string \<Rightarrow> string \<Rightarrow> error + DispatchRecord" where
  "getRecLocked s runID turnID =
     (case s_records s (recKey runID turnID) of None \<Rightarrow> Inl ErrNotFound | Some r \<Rightarrow> Inr r)"

definition revokeAttachLocked :: "DispatchRecord \<Rightarrow> DispatchRecord" where
  "revokeAttachLocked r =
     r\<lparr>d_RecoveryAttachEpoch := inc64 (d_RecoveryAttachEpoch r), d_RecoveryAttachOwner := '''',
       d_RecoveryAttachExpiresAt := TEmpty\<rparr>"

definition leaseOKLocked :: "'d memoryDispatchStore \<Rightarrow> DispatchRecord \<Rightarrow> string \<Rightarrow> bool" where
  "leaseOKLocked s r owner =
     (if d_ClaimOwner r \<noteq> owner \<or> owner = '''' then False
      else if d_ClaimExpiresAt r = TEmpty then False
      else case parse_time (d_ClaimExpiresAt r) of None \<Rightarrow> False | Some e \<Rightarrow> s_now s < e)"

definition checkOwnStopLocked :: "'d memoryDispatchStore \<Rightarrow> string \<Rightarrow> error option" where
  "checkOwnStopLocked s runID =
     (case s_runStop s runID of
        None \<Rightarrow> None
      | Some st \<Rightarrow> if rs_Stopped st then Some (ErrRunStopFence (rs_Generation st)) else None)"

definition checkParentFenceLocked :: "'d memoryDispatchStore \<Rightarrow> DispatchRecord \<Rightarrow> error option" where
  "checkParentFenceLocked s r =
     (case d_ParentStopFence r of
        None \<Rightarrow> None
      | Some f \<Rightarrow>
          (case s_runStop s (pf_ParentRunID f) of
             None \<Rightarrow> Some (ErrParentStopFence (pf_ExpectedStopGeneration f))
           | Some st \<Rightarrow>
               if rs_Stopped st \<or> rs_Generation st \<noteq> pf_ExpectedStopGeneration f
               then Some (ErrParentStopFence (rs_Generation st)) else None))"

definition effectiveStopLocked :: "'d memoryDispatchStore \<Rightarrow> DispatchRecord \<Rightarrow> bool" where
  "effectiveStopLocked s r =
     (if d_CancelRequested r then True
      else if checkOwnStopLocked s (d_RunID r) \<noteq> None then True
      else if checkParentFenceLocked s r \<noteq> None then True
      else False)"

definition deriveStopOutcomeLocked :: "'d memoryDispatchStore \<Rightarrow> DispatchRecord \<Rightarrow> string" where
  "deriveStopOutcomeLocked s r =
     (if effectiveStopLocked s r then StopOutcomeCancelledInFlight else '''')"

definition clearIntentLocked ::
  "'d memoryDispatchStore \<Rightarrow> string \<Rightarrow> string \<Rightarrow> int64 \<Rightarrow> 'd memoryDispatchStore" where
  "clearIntentLocked s ownerRunID intentKey intentGen =
     (if ownerRunID = '''' \<or> intentKey = '''' then s
      else s\<lparr>s_clears := insert (ownerRunID, intentKey, intentGen) (s_clears s),
             s_intentLive := (s_intentLive s)(intentKey2 ownerRunID intentKey := None)\<rparr>)"

definition setLiveIntentLocked ::
  "'d memoryDispatchStore \<Rightarrow> string \<Rightarrow> string \<Rightarrow> int64 \<Rightarrow> string \<Rightarrow> 'd memoryDispatchStore" where
  "setLiveIntentLocked s owner key gen envHash =
     (if owner = '''' \<or> key = '''' then s
      else s\<lparr>s_intentLive := (s_intentLive s)
               (intentKey2 owner key \<mapsto> \<lparr>il_Gen = gen, il_EnvelopeHash = envHash\<rparr>)\<rparr>)"

definition commitLine ::
  "'d memoryDispatchStore \<Rightarrow> dispatchLogLine \<Rightarrow> error option \<times> 'd memoryDispatchStore" where
  "commitLine s line =
     (case s_afterCommit s of
        None \<Rightarrow> (None, s)
      | Some hook \<Rightarrow> (case hook line (s_disk s) of (e, d) \<Rightarrow> (e, s\<lparr>s_disk := d\<rparr>)))"

text \<open>
  Every mutation ends the same way: append the audit entry (which allocates the sequence
  number), write the log line, and on failure take the audit entry back. \<open>logged\<close> is that
  sequence; \<open>commitRecord\<close> is it for the mutations of one record, followed on success by the
  write of the record and by what the operation does after it.
\<close>

definition logged ::
  "'d memoryDispatchStore \<Rightarrow> string \<Rightarrow> string \<Rightarrow> string \<Rightarrow> string \<Rightarrow> string \<Rightarrow>
   (int64 \<Rightarrow> dispatchLogLine) \<Rightarrow> error option \<times> 'd memoryDispatchStore" where
  "logged s runID turnID kind detail actor mk =
     (let s1 = appendAuditLocked s runID turnID kind detail actor
      in case commitLine s1 (mk (s_seq s1)) of
           (Some e, s2) \<Rightarrow> (Some e, uncommitAudit s2 (s_seq s) (length (s_audits s)))
         | (None, s2) \<Rightarrow> (None, s2))"

definition emptyLine :: "string \<Rightarrow> tstamp \<Rightarrow> int64 \<Rightarrow> dispatchLogLine" where
  "emptyLine kind at n =
     \<lparr>ll_Kind = kind, ll_Seq = n, ll_At = at, ll_Record = None, ll_Envelope = None,
      ll_IntentClear = None, ll_Effect = None, ll_Release = None, ll_Repair = None,
      ll_RunStop = None, ll_Activation = None, ll_Successor = None\<rparr>"

definition recordLine :: "DispatchRecord \<Rightarrow> intentClearPayload option \<Rightarrow> int64 \<Rightarrow> dispatchLogLine" where
  "recordLine cp clr n =
     (emptyLine ''record'' (d_UpdatedAt cp) n)\<lparr>ll_Record := Some cp, ll_IntentClear := clr\<rparr>"

definition putRec ::
  "'d memoryDispatchStore \<Rightarrow> string \<Rightarrow> DispatchRecord \<Rightarrow> 'd memoryDispatchStore" where
  "putRec s k r = s\<lparr>s_records := (s_records s)(k \<mapsto> r)\<rparr>"

definition commitRecord ::
  "'d memoryDispatchStore \<Rightarrow> string \<Rightarrow> string \<Rightarrow> DispatchRecord \<Rightarrow> DispatchRecord \<Rightarrow>
   string \<Rightarrow> string \<Rightarrow> string \<Rightarrow> intentClearPayload option \<Rightarrow>
   ('d memoryDispatchStore \<Rightarrow> 'd memoryDispatchStore) \<Rightarrow>
   int64 \<times> error option \<times> 'd memoryDispatchStore" where
  "commitRecord s runID turnID r cp kind detail actor clr after =
     (case logged s runID turnID kind detail actor (recordLine cp clr) of
        (Some e, s') \<Rightarrow> (d_Revision r, Some e, s')
      | (None, s') \<Rightarrow> (d_Revision cp, None, after (putRec s' (recKey runID turnID) cp)))"

definition clearPayload :: "string \<Rightarrow> string \<Rightarrow> int64 \<Rightarrow> intentClearPayload option" where
  "clearPayload owner key gen = Some \<lparr>ic_OwnerRunID = owner, ic_Key = key, ic_Gen = gen\<rparr>"

section \<open>Mutations of one record\<close>

text \<open>
  The steps of \<open>CreatePrepared\<close> that complete its arguments: the envelope hash (also computed
  by \<open>CommitReleaseManifestItem\<close>), the defaults of protocol version and state, and the
  owner, the times and the first revision.
\<close>

definition hashedEnvelope :: "golib \<Rightarrow> DispatchEnvelope \<Rightarrow> DispatchEnvelope" where
  "hashedEnvelope L env0 =
     (if v_EnvelopeHash env0 = ''''
      then (case ComputeEnvelopeHash L env0 of (h, env1) \<Rightarrow> env1\<lparr>v_EnvelopeHash := h\<rparr>)
      else env0)"

definition defaultedRecord :: "DispatchRecord \<Rightarrow> DispatchRecord" where
  "defaultedRecord r =
     (let r1 = (if d_ProtocolVersion r = 0 then r\<lparr>d_ProtocolVersion := DispatchProtocolV2\<rparr> else r)
      in if d_State r1 = DispatchStateOther '''' then r1\<lparr>d_State := DispatchPrepared\<rparr> else r1)"

definition stampedRecord :: "tstamp \<Rightarrow> DispatchRecord \<Rightarrow> DispatchRecord" where
  "stampedRecord now r =
     (let r1 = (if d_IntentOwnerRunID r = '''' then r\<lparr>d_IntentOwnerRunID := d_RunID r\<rparr> else r);
          r2 = (if d_CreatedAt r1 = TEmpty then r1\<lparr>d_CreatedAt := now\<rparr> else r1)
      in r2\<lparr>d_UpdatedAt := now, d_Revision := 1\<rparr>)"

definition CreatePrepared ::
  "golib \<Rightarrow> 'd memoryDispatchStore \<Rightarrow> DispatchRecord \<Rightarrow> DispatchEnvelope \<Rightarrow>
   error option \<times> 'd memoryDispatchStore" where
  "CreatePrepared L s rec0 env0 =
     (if d_TurnID rec0 = '''' \<or> d_RunID rec0 = '''' then (Some ErrIdsRequired, s)
      else let k = recKey (d_RunID rec0) (d_TurnID rec0) in
      if s_records s k \<noteq> None then
        (case s_envelopes s k of
           Some e \<Rightarrow> if v_EnvelopeHash e = v_EnvelopeHash env0 then (None, s) else (Some ErrAlreadyExists, s)
         | None \<Rightarrow> (Some ErrAlreadyExists, s))
      else let
        env = hashedEnvelope L env0;
        rec1 = (if d_EnvelopeHash rec0 = '''' then rec0\<lparr>d_EnvelopeHash := v_EnvelopeHash env\<rparr> else rec0)
      in if d_EnvelopeHash rec1 \<noteq> v_EnvelopeHash env then (Some ErrEnvelopeHashMismatch, s)
      else let
        rec2 = defaultedRecord rec1
      in if d_State rec2 \<noteq> DispatchPrepared \<and> DispatchProtocolV2 \<le> d_ProtocolVersion rec2
         then (Some ErrMustStartPrepared, s)
      else let
        cp = stampedRecord (clockStr s) rec2;
        s0 = ensureActivationLocked s (d_RunID cp)
      in case logged s0 (d_RunID cp) (d_TurnID cp) ''create_prepared'' ''state=prepared'' ''system''
                (\<lambda>n. (emptyLine ''record'' (clockStr s) n)
                   \<lparr>ll_Record := Some cp, ll_Envelope := Some env,
                    ll_Activation := Some \<lparr>da_RunID = d_RunID cp, da_ProtocolVersion = DispatchProtocolV2\<rparr>,
                    ll_RunStop := s_runStop s0 (d_RunID cp)\<rparr>) of
           (Some e, s') \<Rightarrow> (Some e, s')
         | (None, s') \<Rightarrow>
             let s1 = putRec s' k cp; s2 = s1\<lparr>s_envelopes := (s_envelopes s1)(k \<mapsto> env)\<rparr>
             in (None,
                 if d_OuterIntentKey cp \<noteq> ''''
                 then setLiveIntentLocked s2 (d_IntentOwnerRunID cp) (d_OuterIntentKey cp)
                        (d_OuterIntentGen cp) (d_EnvelopeHash cp)
                 else s2))"

definition casAdvance ::
  "'d memoryDispatchStore \<Rightarrow> string \<Rightarrow> string \<Rightarrow> int64 \<Rightarrow> string \<Rightarrow> DispatchState \<Rightarrow> DispatchState \<Rightarrow>
   (DispatchRecord \<Rightarrow> DispatchRecord) option \<Rightarrow> bool \<Rightarrow> int64 \<times> error option \<times> 'd memoryDispatchStore" where
  "casAdvance s runID turnID expectedRev leaseOwner expected next mutate requireLease =
     (case getRecLocked s runID turnID of
        Inl e \<Rightarrow> (0, Some e, s)
      | Inr r \<Rightarrow>
          if d_Revision r \<noteq> expectedRev \<or> d_State r \<noteq> expected then (d_Revision r, Some ErrStaleDispatch, s)
          else if requireLease \<and> \<not> leaseOKLocked s r leaseOwner then (d_Revision r, Some ErrRecoveryLeaseLost, s)
          else case canTransition r next of
            Some e \<Rightarrow> (d_Revision r, Some e, s)
          | None \<Rightarrow>
              (case (if next = DispatchSendStarted
                     then (case checkOwnStopLocked s runID of
                             Some e \<Rightarrow> Some e | None \<Rightarrow> checkParentFenceLocked s r)
                     else None) of
                 Some e \<Rightarrow> (d_Revision r, Some e, s)
               | None \<Rightarrow>
                   let cp1 = (if IsSent (d_State r) \<and> next \<noteq> d_State r then revokeAttachLocked r else r);
                       cp2 = (if IsTerminal next then revokeAttachLocked cp1 else cp1);
                       cp3 = (case mutate of None \<Rightarrow> cp2 | Some f \<Rightarrow> f cp2);
                       cp = cp3\<lparr>d_State := next, d_Revision := inc64 (d_Revision cp3), d_UpdatedAt := clockStr s\<rparr>
                   in commitRecord s runID turnID r cp ''cas_advance''
                        (state_string expected @ ''->'' @ state_string next) ''system'' None id))"

definition CASAdvance ::
  "'d memoryDispatchStore \<Rightarrow> string \<Rightarrow> string \<Rightarrow> int64 \<Rightarrow> DispatchState \<Rightarrow> DispatchState \<Rightarrow>
   (DispatchRecord \<Rightarrow> DispatchRecord) option \<Rightarrow> int64 \<times> error option \<times> 'd memoryDispatchStore" where
  "CASAdvance s runID turnID expectedRev expected next mutate =
     casAdvance s runID turnID expectedRev '''' expected next mutate False"

definition CASRecoveryAdvance ::
  "'d memoryDispatchStore \<Rightarrow> string \<Rightarrow> string \<Rightarrow> int64 \<Rightarrow> string \<Rightarrow> DispatchState \<Rightarrow> DispatchState \<Rightarrow>
   (DispatchRecord \<Rightarrow> DispatchRecord) option \<Rightarrow> int64 \<times> error option \<times> 'd memoryDispatchStore" where
  "CASRecoveryAdvance s runID turnID expectedRev leaseOwner expected next mutate =
     casAdvance s runID turnID expectedRev leaseOwner expected next mutate True"

definition CASAdvanceSettle ::
  "'d memoryDispatchStore \<Rightarrow> string \<Rightarrow> string \<Rightarrow> int64 \<Rightarrow> SettlePhase \<Rightarrow> SettlePhase \<Rightarrow>
   int64 \<times> error option \<times> 'd memoryDispatchStore" where
  "CASAdvanceSettle s runID turnID expectedRev expected next =
     (case getRecLocked s runID turnID of
        Inl e \<Rightarrow> (0, Some e, s)
      | Inr r \<Rightarrow>
          if d_Revision r \<noteq> expectedRev \<or> d_SettlePhase r \<noteq> expected
          then (d_Revision r, Some ErrStaleDispatch, s)
          else case canAdvanceSettle expected next of
            Some e \<Rightarrow> (d_Revision r, Some e, s)
          | None \<Rightarrow>
              commitRecord s runID turnID r
                (r\<lparr>d_SettlePhase := next, d_Revision := inc64 (d_Revision r), d_UpdatedAt := clockStr s\<rparr>)
                ''cas_settle'' (settle_string expected @ ''->'' @ settle_string next) ''system'' None id)"

definition ClaimRecovery ::
  "'d memoryDispatchStore \<Rightarrow> string \<Rightarrow> string \<Rightarrow> int64 \<Rightarrow> string \<Rightarrow> time \<Rightarrow>
   int64 \<times> error option \<times> 'd memoryDispatchStore" where
  "ClaimRecovery s runID turnID expectedRev owner ttl =
     (case getRecLocked s runID turnID of
        Inl e \<Rightarrow> (0, Some e, s)
      | Inr r \<Rightarrow>
          if d_Revision r \<noteq> expectedRev then (d_Revision r, Some ErrStaleDispatch, s)
          else if d_ClaimOwner r \<noteq> '''' \<and> d_ClaimOwner r \<noteq> owner \<and> leaseOKLocked s r (d_ClaimOwner r)
            then (d_Revision r, Some ErrStaleDispatch, s)
          else commitRecord s runID turnID r
                 (r\<lparr>d_ClaimOwner := owner, d_ClaimExpiresAt := TAt (s_now s + ttl),
                    d_Revision := inc64 (d_Revision r), d_UpdatedAt := clockStr s\<rparr>)
                 ''claim_recovery'' (''owner='' @ owner) owner None id)"

definition SetCancelRequested ::
  "'d memoryDispatchStore \<Rightarrow> string \<Rightarrow> string \<Rightarrow> int64 \<Rightarrow> int64 \<Rightarrow>
   int64 \<times> error option \<times> 'd memoryDispatchStore" where
  "SetCancelRequested s runID turnID expectedRev stopGen =
     (case getRecLocked s runID turnID of
        Inl e \<Rightarrow> (0, Some e, s)
      | Inr r \<Rightarrow>
          if d_Revision r \<noteq> expectedRev then (d_Revision r, Some ErrStaleDispatch, s)
          else if IsTerminal (d_State r) then (d_Revision r, None, s)
          else commitRecord s runID turnID r
                 (r\<lparr>d_CancelRequested := True,
                    d_StopGeneration := (if d_StopGeneration r < stopGen then stopGen else d_StopGeneration r),
                    d_Revision := inc64 (d_Revision r), d_UpdatedAt := clockStr s\<rparr>)
                 ''set_cancel'' (''stop_gen='' @ fmt_d stopGen) ''system'' None id)"

section \<open>Run-stop authority\<close>

definition GetRunStopState :: "'d memoryDispatchStore \<Rightarrow> string \<Rightarrow> RunStopState" where
  "GetRunStopState s runID =
     (case s_runStop s runID of
        None \<Rightarrow> \<lparr>rs_RunID = runID, rs_Generation = 0, rs_Revision = 0, rs_Stopped = False\<rparr>
      | Some st \<Rightarrow> st)"

definition commitRunStop ::
  "'d memoryDispatchStore \<Rightarrow> string \<Rightarrow> RunStopState \<Rightarrow> RunStopState \<Rightarrow> string \<Rightarrow> string \<Rightarrow>
   RunStopState \<times> error option \<times> 'd memoryDispatchStore" where
  "commitRunStop s runID st cp kind detail =
     (case logged s runID '''' kind detail ''system''
             (\<lambda>n. (emptyLine ''run_stop'' (clockStr s) n)\<lparr>ll_RunStop := Some cp\<rparr>) of
        (Some e, s') \<Rightarrow> (st, Some e, s')
      | (None, s') \<Rightarrow> (cp, None, s'\<lparr>s_runStop := (s_runStop s')(runID \<mapsto> cp)\<rparr>))"

definition RequestRunStop ::
  "'d memoryDispatchStore \<Rightarrow> string \<Rightarrow> int64 \<Rightarrow> StopReason \<Rightarrow>
   RunStopState \<times> error option \<times> 'd memoryDispatchStore" where
  "RequestRunStop s runID expectedRunStopRev reason =
     (let s0 = (if s_runStop s runID = None then ensureActivationLocked s runID else s);
          st = the (s_runStop s0 runID)
      in if rs_Revision st \<noteq> expectedRunStopRev then (st, Some ErrStaleDispatch, s0)
         else commitRunStop s0 runID st
                (st\<lparr>rs_Stopped := True, rs_Generation := inc64 (rs_Generation st),
                    rs_Revision := inc64 (rs_Revision st)\<rparr>)
                ''request_run_stop'' (stop_reason_string reason))"

definition ReleaseRunStopFence ::
  "'d memoryDispatchStore \<Rightarrow> string \<Rightarrow> int64 \<Rightarrow> RunStopState \<times> error option \<times> 'd memoryDispatchStore" where
  "ReleaseRunStopFence s runID expectedRunStopRev =
     (case s_runStop s runID of
        None \<Rightarrow> (\<lparr>rs_RunID = runID, rs_Generation = 0, rs_Revision = 0, rs_Stopped = False\<rparr>, None, s)
      | Some st \<Rightarrow>
          if rs_Revision st \<noteq> expectedRunStopRev then (st, Some ErrStaleDispatch, s)
          else if \<not> rs_Stopped st then (st, None, s)
          else commitRunStop s runID st
                 (st\<lparr>rs_Stopped := False, rs_Revision := inc64 (rs_Revision st)\<rparr>)
                 ''release_run_stop_fence'' ''stopped=false'')"

section \<open>Receipts and terminals\<close>

definition CommitReceiptAndClearIntent ::
  "'d memoryDispatchStore \<Rightarrow> string \<Rightarrow> string \<Rightarrow> int64 \<Rightarrow> ReceiptEvidence \<Rightarrow> string \<Rightarrow> string \<Rightarrow> int64 \<Rightarrow>
   int64 \<times> error option \<times> 'd memoryDispatchStore" where
  "CommitReceiptAndClearIntent s runID turnID expectedRev receipt intentOwnerRunID intentKey intentGen =
     (case getRecLocked s runID turnID of
        Inl e \<Rightarrow> (0, Some e, s)
      | Inr r \<Rightarrow>
          if d_Revision r \<noteq> expectedRev then (d_Revision r, Some ErrStaleDispatch, s)
          else if d_State r \<noteq> DispatchSendStarted \<and> d_State r \<noteq> DispatchProviderAccepted then
            (if d_State r = DispatchProviderAccepted \<and> receiptEqual (d_ReceiptEvidence r) (Some receipt)
             then (d_Revision r, None, s)
             else (d_Revision r, Some ErrIllegalTransition, s))
          else if d_ReceiptEvidence r \<noteq> None \<and> receiptEqual (d_ReceiptEvidence r) (Some receipt)
            then (d_Revision r, None, s)
          else if d_ReceiptEvidence r \<noteq> None \<and> receiptIdentityMatch (d_ReceiptEvidence r) (Some receipt)
            then (d_Revision r, Some ErrReceiptConflict, s)
          else if canTransition r DispatchProviderAccepted \<noteq> None \<and> d_State r \<noteq> DispatchProviderAccepted
            then (d_Revision r, canTransition r DispatchProviderAccepted, s)
          else commitRecord s runID turnID r
                 (r\<lparr>d_ReceiptEvidence := Some receipt,
                    d_State := (if d_State r = DispatchSendStarted then DispatchProviderAccepted else d_State r),
                    d_Revision := inc64 (d_Revision r), d_UpdatedAt := clockStr s\<rparr>)
                 ''commit_receipt'' ''provider_accepted'' ''system''
                 (clearPayload intentOwnerRunID intentKey intentGen)
                 (\<lambda>s'. clearIntentLocked s' intentOwnerRunID intentKey intentGen))"

definition validateAttachTokenLocked ::
  "'d memoryDispatchStore \<Rightarrow> DispatchRecord \<Rightarrow> RecoveryAttachToken \<Rightarrow> bool \<Rightarrow> error option" where
  "validateAttachTokenLocked s r token rejectOnStop =
     (if d_RecoveryAttachEpoch r \<noteq> tk_Epoch token \<or> d_RecoveryAttachOwner r \<noteq> tk_Owner token \<or>
         tk_Owner token = '''' then Some ErrRecoveryAttachRevoked
      else if d_RecoveryAttachExpiresAt r = TEmpty then Some ErrRecoveryAttachRevoked
      else if (case parse_time (d_RecoveryAttachExpiresAt r) of None \<Rightarrow> True | Some e \<Rightarrow> \<not> s_now s < e)
        then Some ErrRecoveryAttachRevoked
      else if (case tk_ExpiresAt token of None \<Rightarrow> False | Some e \<Rightarrow> \<not> s_now s < e)
        then Some ErrRecoveryAttachRevoked
      else if rejectOnStop \<and> effectiveStopLocked s r then Some ErrRecoveryAttachRevoked
      else None)"

definition commitTerminal ::
  "'d memoryDispatchStore \<Rightarrow> string \<Rightarrow> string \<Rightarrow> int64 \<Rightarrow> string \<Rightarrow> TerminalEvidence \<Rightarrow> string \<Rightarrow> string \<Rightarrow> int64 \<Rightarrow>
   bool \<Rightarrow> RecoveryAttachToken option \<Rightarrow> int64 \<times> error option \<times> 'd memoryDispatchStore" where
  "commitTerminal s runID turnID expectedRev leaseOwner proof intentOwnerRunID intentKey intentGen
      requireLease attach =
     (case getRecLocked s runID turnID of
        Inl e \<Rightarrow> (0, Some e, s)
      | Inr r \<Rightarrow>
          if d_Revision r \<noteq> expectedRev then (d_Revision r, Some ErrStaleDispatch, s)
          else if requireLease \<and> \<not> leaseOKLocked s r leaseOwner then (d_Revision r, Some ErrRecoveryLeaseLost, s)
          else case (case attach of
                       None \<Rightarrow> None
                     | Some tok \<Rightarrow>
                         (case validateAttachTokenLocked s r tok False of
                            Some e \<Rightarrow> Some e
                          | None \<Rightarrow> if \<not> IsSent (d_State r) then Some ErrRecoveryAttachRevoked else None)) of
            Some e \<Rightarrow> (d_Revision r, Some e, s)
          | None \<Rightarrow>
              (case terminalStateFromProof (te_Outcome proof) of
                 Inl e \<Rightarrow> (d_Revision r, Some e, s)
               | Inr (next, outcome) \<Rightarrow>
                   (case canTransition r next of
                      Some e \<Rightarrow> (d_Revision r, Some e, s)
                    | None \<Rightarrow>
                        let stopOut = deriveStopOutcomeLocked s r;
                            cp = r\<lparr>d_TerminalEvidence := Some proof, d_State := next, d_Outcome := outcome,
                                   d_StopOutcome := (if stopOut \<noteq> '''' then stopOut else d_StopOutcome r),
                                   d_SettlePhase := (if d_SettleOwed r then SettlePending else SettleNone),
                                   d_ClaimOwner := '''', d_ClaimExpiresAt := TEmpty,
                                   d_RecoveryAttachEpoch := inc64 (d_RecoveryAttachEpoch r),
                                   d_RecoveryAttachOwner := '''', d_RecoveryAttachExpiresAt := TEmpty,
                                   d_Revision := inc64 (d_Revision r), d_UpdatedAt := clockStr s\<rparr>
                        in commitRecord s runID turnID r cp ''commit_terminal''
                             (state_string next @ '':'' @ outcome) ''system''
                             (clearPayload intentOwnerRunID intentKey intentGen)
                             (\<lambda>s'. clearIntentLocked s' intentOwnerRunID intentKey intentGen))))"

definition CommitTerminalAndSettleIntent ::
  "'d memoryDispatchStore \<Rightarrow> string \<Rightarrow> string \<Rightarrow> int64 \<Rightarrow> TerminalEvidence \<Rightarrow> string \<Rightarrow> string \<Rightarrow> int64 \<Rightarrow>
   int64 \<times> error option \<times> 'd memoryDispatchStore" where
  "CommitTerminalAndSettleIntent s runID turnID expectedRev proof owner key gen =
     commitTerminal s runID turnID expectedRev '''' proof owner key gen False None"

definition CommitRecoveredTerminalAndSettleIntent ::
  "'d memoryDispatchStore \<Rightarrow> string \<Rightarrow> string \<Rightarrow> int64 \<Rightarrow> string \<Rightarrow> TerminalEvidence \<Rightarrow> string \<Rightarrow> string \<Rightarrow> int64 \<Rightarrow>
   int64 \<times> error option \<times> 'd memoryDispatchStore" where
  "CommitRecoveredTerminalAndSettleIntent s runID turnID expectedRev leaseOwner proof owner key gen =
     commitTerminal s runID turnID expectedRev leaseOwner proof owner key gen True None"

definition CommitAttachedTerminalAndSettleIntent ::
  "'d memoryDispatchStore \<Rightarrow> string \<Rightarrow> string \<Rightarrow> int64 \<Rightarrow> RecoveryAttachToken \<Rightarrow> TerminalEvidence \<Rightarrow>
   string \<Rightarrow> string \<Rightarrow> int64 \<Rightarrow> int64 \<times> error option \<times> 'd memoryDispatchStore" where
  "CommitAttachedTerminalAndSettleIntent s runID turnID expectedRev token proof owner key gen =
     commitTerminal s runID turnID expectedRev '''' proof owner key gen False (Some token)"

section \<open>Recovery and attach\<close>

definition CommitRecoveryUnknownOrRequireCancel ::
  "'d memoryDispatchStore \<Rightarrow> string \<Rightarrow> string \<Rightarrow> int64 \<Rightarrow> string \<Rightarrow>
   RecoveryUnknownDecision \<times> int64 \<times> error option \<times> 'd memoryDispatchStore" where
  "CommitRecoveryUnknownOrRequireCancel s runID turnID expectedRev leaseOwner =
     (case getRecLocked s runID turnID of
        Inl e \<Rightarrow> (RecoveryNoDecision, 0, Some e, s)
      | Inr r \<Rightarrow>
          if d_Revision r \<noteq> expectedRev then (RecoveryNoDecision, d_Revision r, Some ErrStaleDispatch, s)
          else if \<not> leaseOKLocked s r leaseOwner
            then (RecoveryNoDecision, d_Revision r, Some ErrRecoveryLeaseLost, s)
          else if effectiveStopLocked s r then (RecoveryCancelRequired, d_Revision r, None, s)
          else case canTransition r DispatchUncertain of
            Some e \<Rightarrow> (RecoveryNoDecision, d_Revision r, Some e, s)
          | None \<Rightarrow>
              (case commitRecord s runID turnID r
                      ((revokeAttachLocked (r\<lparr>d_State := DispatchUncertain\<rparr>))
                         \<lparr>d_Revision := inc64 (d_Revision r), d_UpdatedAt := clockStr s\<rparr>)
                      ''recovery_uncertain'' '''' leaseOwner None id of
                 (rv, Some e, s') \<Rightarrow> (RecoveryNoDecision, rv, Some e, s')
               | (rv, None, s') \<Rightarrow> (RecoveryClassifiedUncertain, rv, None, s')))"

definition emptyToken :: RecoveryAttachToken where
  "emptyToken = \<lparr>tk_Epoch = 0, tk_Owner = '''', tk_ExpiresAt = None\<rparr>"

definition zeroRecord :: DispatchRecord where
  "zeroRecord =
     \<lparr>d_ProtocolVersion = 0, d_TurnID = '''', d_RunID = '''', d_ProjectID = '''',
      d_IntentOwnerRunID = '''', d_State = DispatchStateOther '''', d_StopOutcome = '''',
      d_Revision = 0, d_ClaimOwner = '''', d_ClaimExpiresAt = TEmpty, d_RecoveryAttachEpoch = 0,
      d_RecoveryAttachOwner = '''', d_RecoveryAttachExpiresAt = TEmpty, d_CancelRequested = False,
      d_StopGeneration = 0, d_OuterIntentKey = '''', d_OuterIntentGen = 0, d_EnvelopeHash = '''',
      d_ReceiptEvidence = None, d_TerminalEvidence = None, d_SettleOwed = False,
      d_SettlePhase = SettleNone, d_PredecessorTurnID = '''', d_Outcome = '''',
      d_ParentStopFence = None, d_CreatedAt = TEmpty, d_UpdatedAt = TEmpty\<rparr>"

definition ClaimRecoveryAttach ::
  "'d memoryDispatchStore \<Rightarrow> string \<Rightarrow> string \<Rightarrow> int64 \<Rightarrow> string \<Rightarrow> time \<Rightarrow>
   RecoveryAttachToken \<times> DispatchRecord \<times> error option \<times> 'd memoryDispatchStore" where
  "ClaimRecoveryAttach s runID turnID expectedRev leaseOwner ttl =
     (case getRecLocked s runID turnID of
        Inl e \<Rightarrow> (emptyToken, zeroRecord, Some e, s)
      | Inr r \<Rightarrow>
          if d_Revision r \<noteq> expectedRev then (emptyToken, r, Some ErrStaleDispatch, s)
          else if \<not> leaseOKLocked s r leaseOwner then (emptyToken, r, Some ErrRecoveryLeaseLost, s)
          else if effectiveStopLocked s r then (emptyToken, r, Some ErrRecoveryAttachRevoked, s)
          else if d_RecoveryAttachOwner r \<noteq> '''' \<and> d_RecoveryAttachExpiresAt r \<noteq> TEmpty \<and>
                  (case parse_time (d_RecoveryAttachExpiresAt r) of None \<Rightarrow> False | Some e \<Rightarrow> s_now s < e)
            then (emptyToken, r, Some ErrRecoveryAttachActive, s)
          else if \<not> IsSent (d_State r) then (emptyToken, r, Some ErrIllegalTransition, s)
          else let ep = inc64 (d_RecoveryAttachEpoch r);
                   cp = r\<lparr>d_RecoveryAttachEpoch := ep, d_RecoveryAttachOwner := leaseOwner,
                          d_RecoveryAttachExpiresAt := TAt (s_now s + ttl),
                          d_Revision := inc64 (d_Revision r), d_UpdatedAt := clockStr s\<rparr>;
                   tok = \<lparr>tk_Epoch = ep, tk_Owner = leaseOwner, tk_ExpiresAt = Some (s_now s + ttl)\<rparr>
               in (case commitRecord s runID turnID r cp ''claim_attach'' (''epoch='' @ fmt_d ep) leaseOwner None id of
                     (rv, Some e, s') \<Rightarrow> (emptyToken, r, Some e, s')
                   | (rv, None, s') \<Rightarrow> (tok, cp, None, s')))"

definition commitEffect ::
  "'d memoryDispatchStore \<Rightarrow> string \<Rightarrow> string \<Rightarrow> string \<Rightarrow> EffectDone \<Rightarrow> string \<Rightarrow> string \<Rightarrow> string \<Rightarrow>
   error option \<times> 'd memoryDispatchStore" where
  "commitEffect s runID turnID ek e kind detail actor =
     (case logged s runID turnID kind detail actor
             (\<lambda>n. (emptyLine ''effect'' (clockStr s) n)\<lparr>ll_Effect := Some e\<rparr>) of
        (Some er, s') \<Rightarrow> (Some er, s')
      | (None, s') \<Rightarrow> (None, s'\<lparr>s_effects := (s_effects s')(ek \<mapsto> e)\<rparr>))"

definition enterPayload :: string where
  "enterPayload =
     [CHR 0x7B, CHR 0x22] @ ''kind'' @ [CHR 0x22, CHR 0x3A, CHR 0x22] @ ''enter'' @ [CHR 0x22, CHR 0x7D]"

definition EnterRecoveryAttach ::
  "golib \<Rightarrow> 'd memoryDispatchStore \<Rightarrow> string \<Rightarrow> string \<Rightarrow> RecoveryAttachToken \<Rightarrow>
   error option \<times> 'd memoryDispatchStore" where
  "EnterRecoveryAttach L s runID turnID token =
     (case getRecLocked s runID turnID of
        Inl e \<Rightarrow> (Some e, s)
      | Inr r \<Rightarrow>
          (case validateAttachTokenLocked s r token True of
             Some e \<Rightarrow> (Some e, s)
           | None \<Rightarrow>
               if \<not> IsSent (d_State r) then (Some ErrRecoveryAttachRevoked, s)
               else let kind = attachedEffectKind (tk_Epoch token) ''enter'';
                        ek = effectKey runID turnID kind;
                        e = (case s_effects s ek of
                               Some e \<Rightarrow> e
                             | None \<Rightarrow> \<lparr>ef_RunID = runID, ef_TurnID = turnID, ef_EffectKind = kind,
                                        ef_Payload = enterPayload, ef_PayloadHash = HashBytes L enterPayload,
                                        ef_Revision = 1, ef_CreatedAt = clockStr s\<rparr>)
                    in commitEffect s runID turnID ek e ''enter_attach''
                         (''epoch='' @ fmt_d (tk_Epoch token)) (tk_Owner token)))"

definition RecordRecoveryAttachedEffect ::
  "'d memoryDispatchStore \<Rightarrow> string \<Rightarrow> string \<Rightarrow> RecoveryAttachToken \<Rightarrow> string \<Rightarrow> AttachedEffectPayload \<Rightarrow>
   bool \<times> error option \<times> 'd memoryDispatchStore" where
  "RecordRecoveryAttachedEffect s runID turnID token eventID payload =
     (case getRecLocked s runID turnID of
        Inl e \<Rightarrow> (False, Some e, s)
      | Inr r \<Rightarrow>
          (case validateAttachTokenLocked s r token True of
             Some e \<Rightarrow> (False, Some e, s)
           | None \<Rightarrow>
               let kind = attachedEffectKind (tk_Epoch token) eventID; ek = effectKey runID turnID kind
               in (case s_effects s ek of
                     Some existing \<Rightarrow>
                       if ef_PayloadHash existing \<noteq> ap_SHA256 payload then (False, Some ErrEffectConflict, s)
                       else (False, None, s)
                   | None \<Rightarrow>
                       (case commitEffect s runID turnID ek
                               \<lparr>ef_RunID = runID, ef_TurnID = turnID, ef_EffectKind = kind,
                                ef_Payload = ap_CanonicalJSON payload, ef_PayloadHash = ap_SHA256 payload,
                                ef_Revision = 1, ef_CreatedAt = clockStr s\<rparr>
                               ''attached_effect'' kind (tk_Owner token) of
                          (Some e, s') \<Rightarrow> (False, Some e, s')
                        | (None, s') \<Rightarrow> (True, None, s')))))"

section \<open>Pre-send cancellation and operator resolution\<close>

definition commitPreSend ::
  "'d memoryDispatchStore \<Rightarrow> string \<Rightarrow> string \<Rightarrow> int64 \<Rightarrow> string \<Rightarrow> string \<Rightarrow> string \<Rightarrow> int64 \<Rightarrow> int64 \<Rightarrow>
   PreSendStopSource \<Rightarrow> bool \<Rightarrow> int64 \<times> error option \<times> 'd memoryDispatchStore" where
  "commitPreSend s runID turnID expectedRev leaseOwner intentOwnerRunID intentKey intentGen stopGen source
      requireLease =
     (case getRecLocked s runID turnID of
        Inl e \<Rightarrow> (0, Some e, s)
      | Inr r \<Rightarrow>
          if d_Revision r \<noteq> expectedRev then (d_Revision r, Some ErrStaleDispatch, s)
          else if requireLease \<and> \<not> leaseOKLocked s r leaseOwner then (d_Revision r, Some ErrRecoveryLeaseLost, s)
          else if d_State r \<noteq> DispatchPrepared \<and> d_State r \<noteq> DispatchSendClaimed
            then (d_Revision r, Some ErrIllegalTransition, s)
          else case canTransition r DispatchTerminalCancelled of
            Some e \<Rightarrow> (d_Revision r, Some e, s)
          | None \<Rightarrow>
              commitRecord s runID turnID r
                ((revokeAttachLocked
                    (r\<lparr>d_State := DispatchTerminalCancelled, d_Outcome := ''cancelled'',
                       d_StopOutcome := StopOutcomeStoppedBeforeSend,
                       d_StopGeneration := (if d_StopGeneration r < stopGen then stopGen else d_StopGeneration r),
                       d_CancelRequested := True, d_SettlePhase := SettleNone, d_SettleOwed := False\<rparr>))
                   \<lparr>d_Revision := inc64 (d_Revision r), d_UpdatedAt := clockStr s\<rparr>)
                ''pre_send_cancel'' (source_string source) ''system''
                (clearPayload intentOwnerRunID intentKey intentGen)
                (\<lambda>s'. clearIntentLocked s' intentOwnerRunID intentKey intentGen))"

definition CommitPreSendCancellationAndClearIntent ::
  "'d memoryDispatchStore \<Rightarrow> string \<Rightarrow> string \<Rightarrow> int64 \<Rightarrow> string \<Rightarrow> string \<Rightarrow> int64 \<Rightarrow> int64 \<Rightarrow> PreSendStopSource \<Rightarrow>
   int64 \<times> error option \<times> 'd memoryDispatchStore" where
  "CommitPreSendCancellationAndClearIntent s runID turnID expectedRev owner key gen stopGen source =
     commitPreSend s runID turnID expectedRev '''' owner key gen stopGen source False"

definition CommitRecoveryPreSendCancellationAndClearIntent ::
  "'d memoryDispatchStore \<Rightarrow> string \<Rightarrow> string \<Rightarrow> int64 \<Rightarrow> string \<Rightarrow> string \<Rightarrow> string \<Rightarrow> int64 \<Rightarrow> int64 \<Rightarrow>
   PreSendStopSource \<Rightarrow> int64 \<times> error option \<times> 'd memoryDispatchStore" where
  "CommitRecoveryPreSendCancellationAndClearIntent s runID turnID expectedRev leaseOwner owner key gen stopGen source =
     commitPreSend s runID turnID expectedRev leaseOwner owner key gen stopGen source True"

fun resolveTarget :: "ResolveAction \<Rightarrow> (DispatchState \<times> string \<times> bool) option" where
  "resolveTarget ResolveMarkCompleted =
     Some (DispatchTerminalCompleted, ''completed,resolved_by=operator'', False)"
| "resolveTarget ResolveMarkFailed =
     Some (DispatchTerminalFailed, ''failed,resolved_by=operator'', False)"
| "resolveTarget ResolveConfirmCancelled =
     Some (DispatchTerminalCancelled, ''confirmed_cancelled,resolved_by=operator'', True)"
| "resolveTarget ResolveAbandon =
     Some (DispatchTerminalCancelled, ''abandoned,resolved_by=operator'', True)"
| "resolveTarget (ResolveActionOther _) = None"

definition intentOwnerOf :: "DispatchRecord \<Rightarrow> string" where
  "intentOwnerOf r = (if d_IntentOwnerRunID r = '''' then d_RunID r else d_IntentOwnerRunID r)"

definition putResolution ::
  "string \<Rightarrow> ResolutionResult \<Rightarrow> 'd memoryDispatchStore \<Rightarrow> 'd memoryDispatchStore" where
  "putResolution rid res s =
     (if rid \<noteq> '''' then s\<lparr>s_resolutions := (s_resolutions s)(rid \<mapsto> res)\<rparr> else s)"

definition ResolveUncertain ::
  "'d memoryDispatchStore \<Rightarrow> string \<Rightarrow> string \<Rightarrow> int64 \<Rightarrow> string \<Rightarrow> ResolveAction \<Rightarrow> OperatorEvidence \<Rightarrow>
   int64 \<times> error option \<times> 'd memoryDispatchStore" where
  "ResolveUncertain s runID turnID expectedRev resolutionID action evidence =
     (case (if resolutionID \<noteq> '''' then s_resolutions s resolutionID else None) of
        Some prev \<Rightarrow> (rr_Revision prev, None, s)
      | None \<Rightarrow>
     (case getRecLocked s runID turnID of
        Inl e \<Rightarrow> (0, Some e, s)
      | Inr r \<Rightarrow>
          if d_Revision r \<noteq> expectedRev then (d_Revision r, Some ErrStaleDispatch, s)
          else if d_State r \<noteq> DispatchUncertain then (d_Revision r, Some ErrIllegalTransition, s)
          else case resolveTarget action of
            None \<Rightarrow> (d_Revision r, Some (ErrUnknownResolveAction (resolve_string action)), s)
          | Some (next, outcome, forceNoSettle) \<Rightarrow>
              (case canTransition r next of
                 Some e \<Rightarrow> (d_Revision r, Some e, s)
               | None \<Rightarrow>
                   let cp = (revokeAttachLocked
                               (r\<lparr>d_State := next, d_Outcome := outcome,
                                  d_SettleOwed := (if forceNoSettle then False else d_SettleOwed r),
                                  d_SettlePhase := (if forceNoSettle then SettleNone
                                                    else if d_SettleOwed r then SettlePending else SettleNone)\<rparr>))
                              \<lparr>d_Revision := inc64 (d_Revision r), d_UpdatedAt := clockStr s\<rparr>
                   in commitRecord s runID turnID r cp ''resolve_uncertain''
                        (resolve_string action @ '':'' @ oe_Detail evidence) (oe_Actor evidence) None
                        (\<lambda>s'. putResolution resolutionID
                           \<lparr>rr_ResolutionID = resolutionID, rr_RunID = runID, rr_TurnID = turnID,
                            rr_Action = resolve_string action, rr_Revision = d_Revision cp,
                            rr_NewTurnID = '''', rr_Record = cp\<rparr>
                           (clearIntentLocked s' (intentOwnerOf cp) (d_OuterIntentKey cp) (d_OuterIntentGen cp))))))"

definition retrySuperseded ::
  "'d memoryDispatchStore \<Rightarrow> DispatchRecord \<Rightarrow> int64 \<Rightarrow> string \<Rightarrow> bool" where
  "retrySuperseded s r expectedIntentGen expectedEnvelopeHash =
     (let live = (case s_intentLive s (intentKey2 (intentOwnerOf r) (d_OuterIntentKey r)) of
                    Some l \<Rightarrow> l | None \<Rightarrow> \<lparr>il_Gen = 0, il_EnvelopeHash = ''''\<rparr>)
      in d_OuterIntentKey r \<noteq> '''' \<and>
         (il_Gen live \<noteq> 0 \<and> il_Gen live \<noteq> expectedIntentGen \<or>
          expectedEnvelopeHash \<noteq> '''' \<and> d_EnvelopeHash r \<noteq> expectedEnvelopeHash \<or>
          il_EnvelopeHash live \<noteq> '''' \<and> il_EnvelopeHash live \<noteq> expectedEnvelopeHash \<and>
          expectedEnvelopeHash \<noteq> ''''))"

definition RetryAsNew ::
  "'d memoryDispatchStore \<Rightarrow> string \<Rightarrow> string \<Rightarrow> int64 \<Rightarrow> string \<Rightarrow> string \<Rightarrow> int64 \<Rightarrow> string \<Rightarrow>
   int64 \<times> error option \<times> 'd memoryDispatchStore" where
  "RetryAsNew s runID oldTurnID expectedRev resolutionID newTurnID expectedIntentGen expectedEnvelopeHash =
     (case (if resolutionID \<noteq> '''' then s_resolutions s resolutionID else None) of
        Some prev \<Rightarrow> (rr_Revision prev, None, s)
      | None \<Rightarrow>
     (case getRecLocked s runID oldTurnID of
        Inl e \<Rightarrow> (0, Some e, s)
      | Inr r \<Rightarrow>
          if d_Revision r \<noteq> expectedRev then (d_Revision r, Some ErrStaleDispatch, s)
          else if d_State r \<noteq> DispatchUncertain then (d_Revision r, Some ErrIllegalTransition, s)
          else if retrySuperseded s r expectedIntentGen expectedEnvelopeHash
            then (d_Revision r, Some ErrSuperseded, s)
          else case checkParentFenceLocked s r of
            Some e \<Rightarrow> (d_Revision r, Some e, s)
          | None \<Rightarrow>
              let owner = intentOwnerOf r;
                  cp = (revokeAttachLocked
                          (r\<lparr>d_State := DispatchTerminalCancelled,
                             d_Outcome := ''superseded,resolved_by=operator'',
                             d_SettleOwed := False, d_SettlePhase := SettleNone\<rparr>))
                         \<lparr>d_Revision := inc64 (d_Revision r), d_UpdatedAt := clockStr s\<rparr>
              in (case s_envelopes s (recKey runID oldTurnID) of
                    None \<Rightarrow> (d_Revision r, Some ErrMissingEnvelope, s)
                  | Some env \<Rightarrow>
                      let succEnv = env\<lparr>v_TurnID := newTurnID\<rparr>;
                          succ = zeroRecord\<lparr>d_ProtocolVersion := DispatchProtocolV2, d_TurnID := newTurnID,
                                    d_RunID := runID, d_IntentOwnerRunID := owner,
                                    d_State := DispatchPrepared, d_Revision := 1,
                                    d_OuterIntentKey := d_OuterIntentKey cp,
                                    d_OuterIntentGen := expectedIntentGen,
                                    d_EnvelopeHash := v_EnvelopeHash succEnv,
                                    d_SettleOwed := requiresGateSettlement ''flow'' (v_StepID succEnv),
                                    d_PredecessorTurnID := oldTurnID,
                                    d_ParentStopFence := d_ParentStopFence cp,
                                    d_CreatedAt := clockStr s, d_UpdatedAt := clockStr s\<rparr>;
                          sk = recKey runID newTurnID
                      in if s_records s sk \<noteq> None then (d_Revision r, Some ErrAlreadyExists, s)
                         else (case logged s runID oldTurnID ''retry_as_new'' (''new='' @ newTurnID) ''operator''
                                     (\<lambda>n. (emptyLine ''retry_as_new'' (clockStr s) n)
                                        \<lparr>ll_Record := Some cp, ll_Successor := Some succ,
                                         ll_Envelope := Some succEnv\<rparr>) of
                                 (Some e, s') \<Rightarrow> (d_Revision r, Some e, s')
                               | (None, s') \<Rightarrow>
                                   let s1 = putRec (putRec s' (recKey runID oldTurnID) cp) sk succ;
                                       s2 = s1\<lparr>s_envelopes := (s_envelopes s1)(sk \<mapsto> succEnv)\<rparr>;
                                       s3 = setLiveIntentLocked s2 owner (d_OuterIntentKey cp)
                                              expectedIntentGen (v_EnvelopeHash succEnv)
                                   in (d_Revision cp, None,
                                       putResolution resolutionID
                                         \<lparr>rr_ResolutionID = resolutionID, rr_RunID = runID,
                                          rr_TurnID = oldTurnID, rr_Action = ''retry_as_new'',
                                          rr_Revision = d_Revision cp, rr_NewTurnID = newTurnID,
                                          rr_Record = cp\<rparr> s3)))))"

section \<open>Effects and release manifests\<close>

definition RecordEffectDone ::
  "'d memoryDispatchStore \<Rightarrow> string \<Rightarrow> string \<Rightarrow> string \<Rightarrow> string \<Rightarrow> string \<Rightarrow>
   int64 \<times> error option \<times> 'd memoryDispatchStore" where
  "RecordEffectDone s runID turnID effectKind payload payloadHash =
     (let ek = effectKey runID turnID effectKind
      in case s_effects s ek of
           Some existing \<Rightarrow>
             if ef_PayloadHash existing \<noteq> payloadHash then (ef_Revision existing, Some ErrEffectConflict, s)
             else (ef_Revision existing, None, s)
         | None \<Rightarrow>
             (case commitEffect s runID turnID ek
                     \<lparr>ef_RunID = runID, ef_TurnID = turnID, ef_EffectKind = effectKind,
                      ef_Payload = payload, ef_PayloadHash = payloadHash, ef_Revision = 1,
                      ef_CreatedAt = clockStr s\<rparr> ''effect_done'' effectKind ''system'' of
                (Some e, s') \<Rightarrow> (0, Some e, s')
              | (None, s') \<Rightarrow> (1, None, s')))"

definition CreateReleaseManifestItem ::
  "golib \<Rightarrow> 'd memoryDispatchStore \<Rightarrow> string \<Rightarrow> string \<Rightarrow> string \<Rightarrow> DurableIntent \<Rightarrow>
   ReleaseManifestItem \<times> error option \<times> 'd memoryDispatchStore" where
  "CreateReleaseManifestItem L s runID turnID dependentRunID intent0 =
     (let intent = (if di_IntentHash intent0 = ''''
                    then intent0\<lparr>di_IntentHash := ComputeIntentHash L intent0\<rparr> else intent0);
          kind = releaseEffectKind dependentRunID; ek = effectKey runID turnID kind
      in case s_releases s ek of
           Some existing \<Rightarrow>
             if di_IntentHash (rm_Intent existing) \<noteq> di_IntentHash intent
             then (existing, Some ErrEffectConflict, s) else (existing, None, s)
         | None \<Rightarrow>
             let item = \<lparr>rm_RunID = runID, rm_TurnID = turnID, rm_DependentRunID = dependentRunID,
                         rm_Intent = intent, rm_State = ReleasePending, rm_Revision = 1,
                         rm_StopGeneration = 0, rm_CreatedAt = clockStr s, rm_UpdatedAt = clockStr s\<rparr>
             in (case logged s runID turnID ''release_create'' dependentRunID ''system''
                       (\<lambda>n. (emptyLine ''release'' (clockStr s) n)\<lparr>ll_Release := Some item\<rparr>) of
                   (Some e, s') \<Rightarrow> (item, Some e, s')
                 | (None, s') \<Rightarrow>
                     (item, None,
                      s'\<lparr>s_releases := (s_releases s')(ek \<mapsto> item),
                         s_effects := (s_effects s')
                           (ek \<mapsto> \<lparr>ef_RunID = runID, ef_TurnID = turnID, ef_EffectKind = kind,
                                   ef_Payload = json_release L item, ef_PayloadHash = di_IntentHash intent,
                                   ef_Revision = 1, ef_CreatedAt = clockStr s\<rparr>)\<rparr>)))"

text \<open>The child record \<open>CommitReleaseManifestItem\<close> creates, completed from the item.\<close>

definition releaseChild ::
  "tstamp \<Rightarrow> ReleaseManifestItem \<Rightarrow> DispatchRecord \<Rightarrow> DispatchEnvelope \<Rightarrow> DispatchRecord" where
  "releaseChild now item child0 env =
     (let c1 = (if d_TurnID child0 = ''''
                then child0\<lparr>d_TurnID := di_ChildTurnID (rm_Intent item)\<rparr> else child0);
          c2 = (if d_RunID c1 = '''' then c1\<lparr>d_RunID := di_ChildRunID (rm_Intent item)\<rparr> else c1);
          c3 = (if d_ParentStopFence c2 = None
                then c2\<lparr>d_ParentStopFence := Some (di_ParentStopFence (rm_Intent item))\<rparr> else c2);
          c4 = c3\<lparr>d_State := DispatchPrepared\<rparr>;
          c5 = (if d_ProtocolVersion c4 = 0 then c4\<lparr>d_ProtocolVersion := DispatchProtocolV2\<rparr> else c4)
      in c5\<lparr>d_EnvelopeHash := v_EnvelopeHash env, d_Revision := 1,
            d_CreatedAt := now, d_UpdatedAt := now\<rparr>)"

definition CommitReleaseManifestItem ::
  "golib \<Rightarrow> 'd memoryDispatchStore \<Rightarrow> string \<Rightarrow> string \<Rightarrow> string \<Rightarrow> int64 \<Rightarrow> DispatchRecord \<Rightarrow> DispatchEnvelope \<Rightarrow>
   int64 \<times> error option \<times> 'd memoryDispatchStore" where
  "CommitReleaseManifestItem L s runID turnID dependentRunID expectedEffectRev child0 env0 =
     (let ek = effectKey runID turnID (releaseEffectKind dependentRunID)
      in case s_releases s ek of
           None \<Rightarrow> (0, Some ErrNotFound, s)
         | Some item \<Rightarrow>
             if rm_Revision item \<noteq> expectedEffectRev then (rm_Revision item, Some ErrStaleDispatch, s)
             else if rm_State item = ReleaseCreated then (rm_Revision item, None, s)
             else if rm_State item \<noteq> ReleasePending then (rm_Revision item, Some ErrIllegalTransition, s)
             else case checkOwnStopLocked s runID of
               Some e \<Rightarrow> (rm_Revision item, Some e, s)
             | None \<Rightarrow>
                 let env = hashedEnvelope L env0;
                     child = releaseChild (clockStr s) item child0 env;
                     ck = recKey (d_RunID child) (d_TurnID child);
                     itemCp = item\<lparr>rm_State := ReleaseCreated, rm_Revision := inc64 (rm_Revision item),
                                   rm_UpdatedAt := clockStr s\<rparr>
                 in (case logged s runID turnID ''release_commit'' dependentRunID ''system''
                           (\<lambda>n. (emptyLine ''release'' (clockStr s) n)
                              \<lparr>ll_Release := Some itemCp,
                               ll_Record := (case s_records s ck of Some r \<Rightarrow> Some r | None \<Rightarrow> Some child),
                               ll_Envelope := (if s_records s ck \<noteq> None then s_envelopes s ck else Some env)\<rparr>) of
                       (Some e, s') \<Rightarrow> (rm_Revision item, Some e, s')
                     | (None, s') \<Rightarrow>
                         let s1 = (if s_records s ck = None
                                   then (let t = putRec (ensureActivationLocked s' (d_RunID child)) ck child
                                         in t\<lparr>s_envelopes := (s_envelopes t)(ck \<mapsto> env)\<rparr>)
                                   else s')
                         in (rm_Revision itemCp, None,
                             s1\<lparr>s_releases := (s_releases s1)(ek \<mapsto> itemCp)\<rparr>)))"

definition SuppressReleaseManifestItem ::
  "'d memoryDispatchStore \<Rightarrow> string \<Rightarrow> string \<Rightarrow> string \<Rightarrow> int64 \<Rightarrow> int64 \<Rightarrow>
   int64 \<times> error option \<times> 'd memoryDispatchStore" where
  "SuppressReleaseManifestItem s runID turnID dependentRunID expectedEffectRev stopGen =
     (let ek = effectKey runID turnID (releaseEffectKind dependentRunID)
      in case s_releases s ek of
           None \<Rightarrow> (0, Some ErrNotFound, s)
         | Some item \<Rightarrow>
             if rm_Revision item \<noteq> expectedEffectRev then (rm_Revision item, Some ErrStaleDispatch, s)
             else if rm_State item = ReleaseSuppressed then (rm_Revision item, None, s)
             else if rm_State item \<noteq> ReleasePending then (rm_Revision item, Some ErrIllegalTransition, s)
             else let itemCp = item\<lparr>rm_State := ReleaseSuppressed, rm_StopGeneration := stopGen,
                                    rm_Revision := inc64 (rm_Revision item), rm_UpdatedAt := clockStr s\<rparr>
                  in (case logged s runID turnID ''release_suppress'' dependentRunID ''system''
                            (\<lambda>n. (emptyLine ''release'' (clockStr s) n)\<lparr>ll_Release := Some itemCp\<rparr>) of
                        (Some e, s') \<Rightarrow> (rm_Revision item, Some e, s')
                      | (None, s') \<Rightarrow>
                          (rm_Revision itemCp, None,
                           s'\<lparr>s_releases := (s_releases s')(ek \<mapsto> itemCp)\<rparr>)))"

section \<open>Repairs\<close>

definition OpenRepair ::
  "golib \<Rightarrow> 'd memoryDispatchStore \<Rightarrow> string \<Rightarrow> string \<Rightarrow> string \<Rightarrow> string \<Rightarrow>
   int64 \<times> error option \<times> 'd memoryDispatchStore" where
  "OpenRepair L s runID reason rawBlob rawHash0 =
     (if (case s_repairs s runID of Some ex \<Rightarrow> rp_State ex = ''open'' | None \<Rightarrow> False)
      then (rp_RepairRevision (the (s_repairs s runID)), None, s)
      else let
        rawHash = (if rawHash0 = '''' then HashBytes L rawBlob else rawHash0);
        nextRev = (case s_repairs s runID of None \<Rightarrow> 1 | Some ex \<Rightarrow> inc64 (rp_RepairRevision ex));
        rec = \<lparr>rp_RunID = runID, rp_RepairRevision = nextRev, rp_Reason = reason,
               rp_QuarantineBlob = rawBlob, rp_QuarantineHash = rawHash, rp_State = ''open'',
               rp_ResolvedAction = '''', rp_ResolutionID = '''', rp_AttemptClaim = '''',
               rp_AttemptExpiresAt = TEmpty, rp_CreatedAt = clockStr s, rp_ResolvedAt = TEmpty\<rparr>
      in (case logged s runID '''' ''open_repair'' reason ''system''
                (\<lambda>n. (emptyLine ''repair'' (clockStr s) n)\<lparr>ll_Repair := Some rec\<rparr>) of
            (Some e, s') \<Rightarrow> (0, Some e, s')
          | (None, s') \<Rightarrow> (nextRev, None, s'\<lparr>s_repairs := (s_repairs s')(runID \<mapsto> rec)\<rparr>)))"

definition GetOpenRepair :: "'d memoryDispatchStore \<Rightarrow> string \<Rightarrow> RepairRecord option" where
  "GetOpenRepair s runID =
     (case s_repairs s runID of
        None \<Rightarrow> None
      | Some r \<Rightarrow> if rp_State r \<noteq> ''open'' then None else Some r)"

definition BeginRepairResolution ::
  "'d memoryDispatchStore \<Rightarrow> string \<Rightarrow> int64 \<Rightarrow> string \<Rightarrow> RepairAction \<Rightarrow>
   int64 \<times> string \<times> error option \<times> 'd memoryDispatchStore" where
  "BeginRepairResolution s runID expectedRepairRev resolutionID action =
     (case s_repairs s runID of
        None \<Rightarrow> (0, '''', Some ErrRepairNotOpen, s)
      | Some r \<Rightarrow>
          if rp_State r \<noteq> ''open'' then
            (if rp_State r = ''resolved'' \<and> resolutionID \<noteq> '''' \<and> rp_ResolutionID r = resolutionID
             then (0, '''', Some (RepairResolutionReplay (rp_RepairRevision r) (rp_ResolvedAction r)), s)
             else (0, '''', Some ErrRepairNotOpen, s))
          else if rp_RepairRevision r \<noteq> expectedRepairRev then (rp_RepairRevision r, '''', Some ErrStaleDispatch, s)
          else if rp_AttemptClaim r \<noteq> '''' \<and> rp_AttemptExpiresAt r \<noteq> TEmpty \<and>
                  (case parse_time (rp_AttemptExpiresAt r) of None \<Rightarrow> False | Some e \<Rightarrow> s_now s < e) \<and>
                  rp_ResolutionID r \<noteq> resolutionID
            then (rp_RepairRevision r, '''', Some ErrStaleDispatch, s)
          else let rp = r\<lparr>rp_AttemptClaim := repair_action_string action, rp_ResolutionID := resolutionID,
                          rp_AttemptExpiresAt := TAt (s_now s + 30000000000),
                          rp_RepairRevision := inc64 (rp_RepairRevision r)\<rparr>
               in (case logged s runID '''' ''begin_repair'' (repair_action_string action) ''operator''
                         (\<lambda>n. (emptyLine ''repair'' (clockStr s) n)\<lparr>ll_Repair := Some rp\<rparr>) of
                     (Some e, s') \<Rightarrow> (rp_RepairRevision r, '''', Some e, s')
                   | (None, s') \<Rightarrow>
                       (rp_RepairRevision rp, rp_QuarantineBlob r, None,
                        s'\<lparr>s_repairs := (s_repairs s')(runID \<mapsto> rp)\<rparr>)))"

text \<open>
  The abandon loop of \<open>CommitRepairResolution\<close>: terminalize the records at the given keys one
  by one, each with its own durable line, stopping at the first failure.
\<close>

definition abandonRecord :: "'d memoryDispatchStore \<Rightarrow> DispatchRecord \<Rightarrow> DispatchRecord" where
  "abandonRecord s rec =
     rec\<lparr>d_State := DispatchTerminalCancelled, d_Outcome := ''abandoned,resolved_by=operator'',
         d_SettleOwed := False, d_SettlePhase := SettleNone,
         d_RecoveryAttachEpoch := inc64 (d_RecoveryAttachEpoch rec), d_RecoveryAttachOwner := '''',
         d_RecoveryAttachExpiresAt := TEmpty, d_ClaimOwner := '''', d_ClaimExpiresAt := TEmpty,
         d_Revision := inc64 (d_Revision rec), d_UpdatedAt := clockStr s\<rparr>"

fun abandonLoop :: "string list \<Rightarrow> 'd memoryDispatchStore \<Rightarrow> error option \<times> 'd memoryDispatchStore" where
  "abandonLoop [] s = (None, s)"
| "abandonLoop (k # ks) s =
     (case s_records s k of
        None \<Rightarrow> abandonLoop ks s
      | Some rec \<Rightarrow>
          (case canTransition rec DispatchTerminalCancelled of
             Some e \<Rightarrow> (Some e, s)
           | None \<Rightarrow>
               (case logged s (d_RunID rec) (d_TurnID rec) ''repair_abandon_terminalize''
                       ''abandoned,resolved_by=operator'' ''operator''
                       (recordLine (abandonRecord s rec) None) of
                  (Some e, s') \<Rightarrow> (Some e, s')
                | (None, s') \<Rightarrow>
                    abandonLoop ks
                      (clearIntentLocked (putRec s' k (abandonRecord s rec)) (intentOwnerOf rec)
                         (d_OuterIntentKey rec) (d_OuterIntentGen rec)))))"

definition strandedKeys :: "'d memoryDispatchStore \<Rightarrow> string \<Rightarrow> string list \<Rightarrow> string list" where
  "strandedKeys s runID order =
     sort (filter (\<lambda>k. case s_records s k of
                         None \<Rightarrow> False
                       | Some rec \<Rightarrow> d_RunID rec = runID \<and> \<not> IsTerminal (d_State rec)) order)"

definition CommitRepairResolution ::
  "string list \<Rightarrow> 'd memoryDispatchStore \<Rightarrow> string \<Rightarrow> int64 \<Rightarrow> string \<Rightarrow> RepairOutcome \<Rightarrow> string \<Rightarrow>
   int64 \<times> error option \<times> 'd memoryDispatchStore" where
  "CommitRepairResolution order s runID attemptRev resolutionID outcome detail =
     (case s_repairs s runID of
        None \<Rightarrow> (0, Some ErrRepairNotOpen, s)
      | Some r \<Rightarrow>
          if rp_RepairRevision r \<noteq> attemptRev then (rp_RepairRevision r, Some ErrStaleDispatch, s)
          else if rp_ResolutionID r \<noteq> '''' \<and> rp_ResolutionID r \<noteq> resolutionID
            then (rp_RepairRevision r, Some ErrStaleDispatch, s)
          else if (case outcome of RepairOutcomeOther _ \<Rightarrow> True | _ \<Rightarrow> False)
            then (rp_RepairRevision r, Some (ErrUnknownRepairOutcome (repair_outcome_string outcome)), s)
          else case (if outcome = RepairResolvedAbandon
                     then abandonLoop (strandedKeys s runID order) s else (None, s)) of
            (Some e, s1) \<Rightarrow> (rp_RepairRevision r, Some e, s1)
          | (None, s1) \<Rightarrow>
              let rp0 = (if outcome = RepairFailedStillOpen
                         then r\<lparr>rp_State := ''open'', rp_AttemptClaim := '''', rp_AttemptExpiresAt := TEmpty\<rparr>
                         else r\<lparr>rp_State := ''resolved'', rp_ResolvedAction := repair_outcome_string outcome,
                                rp_ResolvedAt := clockStr s1\<rparr>);
                  rp = rp0\<lparr>rp_RepairRevision := inc64 (rp_RepairRevision r)\<rparr>
              in (case logged s1 runID '''' ''commit_repair''
                         (repair_outcome_string outcome @ '':'' @ detail) ''operator''
                         (\<lambda>n. (emptyLine ''repair'' (clockStr s1) n)\<lparr>ll_Repair := Some rp\<rparr>) of
                    (Some e, s') \<Rightarrow> (rp_RepairRevision r, Some e, s')
                  | (None, s') \<Rightarrow>
                      (rp_RepairRevision rp, None, s'\<lparr>s_repairs := (s_repairs s')(runID \<mapsto> rp)\<rparr>)))"

section \<open>Reads\<close>

definition GetRunProtocolVersion :: "'d memoryDispatchStore \<Rightarrow> string \<Rightarrow> int" where
  "GetRunProtocolVersion s runID = (case s_activation s runID of Some v \<Rightarrow> v | None \<Rightarrow> 0)"

definition Get :: "'d memoryDispatchStore \<Rightarrow> string \<Rightarrow> string \<Rightarrow> error + DispatchRecord" where
  "Get s runID turnID = getRecLocked s runID turnID"

definition GetEnvelope :: "'d memoryDispatchStore \<Rightarrow> string \<Rightarrow> string \<Rightarrow> error + DispatchEnvelope" where
  "GetEnvelope s runID turnID =
     (case s_envelopes s (recKey runID turnID) of None \<Rightarrow> Inl ErrNotFound | Some e \<Rightarrow> Inr e)"

text \<open>The values a \<open>range\<close> over a map yields, when it visits the keys in the given order.\<close>

definition range_over :: "('k \<rightharpoonup> 'v) \<Rightarrow> 'k list \<Rightarrow> 'v list" where
  "range_over m order = List.map_filter m order"

definition recoverable :: "DispatchRecord \<Rightarrow> bool" where
  "recoverable r \<longleftrightarrow>
     \<not> IsTerminal (d_State r) \<or> (d_SettleOwed r \<and> \<not> IsSettleFinal (d_SettlePhase r))"

definition ListRecoverable ::
  "golib \<Rightarrow> string list \<Rightarrow> 'd memoryDispatchStore \<Rightarrow> string \<Rightarrow> DispatchRecord list" where
  "ListRecoverable L order s runID =
     sort_key (\<lambda>r. (tstamp_text L (d_CreatedAt r), d_TurnID r))
       (filter (\<lambda>r. \<not> (runID \<noteq> '''' \<and> d_RunID r \<noteq> runID) \<and> recoverable r)
          (range_over (s_records s) order))"

definition FindActiveByOuterIntent ::
  "string list \<Rightarrow> 'd memoryDispatchStore \<Rightarrow> string \<Rightarrow> string \<Rightarrow> int64 \<Rightarrow> DispatchRecord option" where
  "FindActiveByOuterIntent order s runID intentKey intentGen =
     find (\<lambda>r. d_RunID r = runID \<and> d_OuterIntentKey r = intentKey \<and> d_OuterIntentGen r = intentGen \<and>
               \<not> IsTerminal (d_State r))
       (range_over (s_records s) order)"

definition recordAttention :: "DispatchRecord \<Rightarrow> AttentionItem list" where
  "recordAttention r =
     (if d_State r = DispatchUncertain
      then [\<lparr>at_Kind = ''uncertain'', at_RunID = d_RunID r, at_TurnID = d_TurnID r, at_Reason = '''',
             at_UpdatedAt = d_UpdatedAt r, at_Revision = d_Revision r\<rparr>] else []) @
     (if d_CancelRequested r \<and> (d_State r = DispatchSendStarted \<or> d_State r = DispatchProviderAccepted)
      then [\<lparr>at_Kind = ''cancel_required'', at_RunID = d_RunID r, at_TurnID = d_TurnID r,
             at_Reason = ''stop-then-crash: provider cancel required'',
             at_UpdatedAt = d_UpdatedAt r, at_Revision = d_Revision r\<rparr>] else []) @
     (if IsTerminal (d_State r) \<and> d_SettleOwed r \<and> \<not> IsSettleFinal (d_SettlePhase r)
      then [\<lparr>at_Kind = ''settle_pending'', at_RunID = d_RunID r, at_TurnID = d_TurnID r,
             at_Reason = ''terminal bookkeeping is awaiting durable settlement'',
             at_UpdatedAt = d_UpdatedAt r, at_Revision = d_Revision r\<rparr>] else [])"

definition repairAttention :: "RepairRecord \<Rightarrow> AttentionItem list" where
  "repairAttention rep =
     (if rp_State rep = ''open''
      then [\<lparr>at_Kind = ''repair_required'', at_RunID = rp_RunID rep, at_TurnID = '''',
             at_Reason = rp_Reason rep, at_UpdatedAt = rp_CreatedAt rep,
             at_Revision = rp_RepairRevision rep\<rparr>] else [])"

definition ListAttention ::
  "string list \<Rightarrow> string list \<Rightarrow> 'd memoryDispatchStore \<Rightarrow> AttentionItem list" where
  "ListAttention order repairOrder s =
     sort_key (\<lambda>i. (at_RunID i, at_TurnID i))
       (concat (map recordAttention (range_over (s_records s) order)) @
        concat (map repairAttention (range_over (s_repairs s) repairOrder)))"

definition ListAudit :: "'d memoryDispatchStore \<Rightarrow> string \<Rightarrow> string \<Rightarrow> AuditEntry list" where
  "ListAudit s runID turnID =
     filter (\<lambda>a. \<not> (runID \<noteq> '''' \<and> au_RunID a \<noteq> runID) \<and> \<not> (turnID \<noteq> '''' \<and> au_TurnID a \<noteq> turnID))
       (s_audits s)"

definition ListEffects :: "string list \<Rightarrow> 'd memoryDispatchStore \<Rightarrow> string \<Rightarrow> string \<Rightarrow> EffectDone list" where
  "ListEffects order s runID turnID =
     sort_key ef_EffectKind
       (filter (\<lambda>e. \<not> (ef_RunID e \<noteq> runID \<or> ef_TurnID e \<noteq> turnID)) (range_over (s_effects s) order))"

definition GetResolutionResult :: "'d memoryDispatchStore \<Rightarrow> string \<Rightarrow> ResolutionResult option" where
  "GetResolutionResult s resolutionID = s_resolutions s resolutionID"

definition IsIntentCleared :: "'d memoryDispatchStore \<Rightarrow> string \<Rightarrow> string \<Rightarrow> int64 \<Rightarrow> bool" where
  "IsIntentCleared s ownerRunID intentKey intentGen \<longleftrightarrow> (ownerRunID, intentKey, intentGen) \<in> s_clears s"

definition HasNonTerminal :: "golib \<Rightarrow> string list \<Rightarrow> 'd memoryDispatchStore \<Rightarrow> string \<Rightarrow> bool" where
  "HasNonTerminal L order s runID \<longleftrightarrow>
     (\<exists>r \<in> set (ListRecoverable L order s runID). d_RunID r = runID)"

text \<open>
  \<open>numericIDSuffix\<close> (of \<open>interactive_service.go\<close>) and the ceiling over all persisted ids.
  \<open>parse_int64\<close> is \<open>strconv.ParseInt(_, 10, 64)\<close>: an optional sign, then digits, in range.
\<close>

definition digits_value :: "string \<Rightarrow> int" where
  "digits_value ds = foldl (\<lambda>n c. 10 * n + int (of_char c) - 48) 0 ds"

definition parse_int64 :: "string \<Rightarrow> int64 option" where
  "parse_int64 x =
     (let (neg, ds) = (case x of [] \<Rightarrow> (False, []) | c # cs \<Rightarrow>
                         if c = CHR ''-'' then (True, cs) else if c = CHR ''+'' then (False, cs) else (False, x));
          v = (if neg then - digits_value ds else digits_value ds)
      in if ds = [] \<or> \<not> list_all is_digit ds \<or> \<not> in_int64 v then None else Some v)"

definition numericIDSuffix :: "string \<Rightarrow> int64" where
  "numericIDSuffix i =
     (if CHR ''-'' \<notin> set i then 0
      else let suf = rev (takeWhile (\<lambda>c. c \<noteq> CHR ''-'') (rev i))
           in if suf = [] then 0 else case parse_int64 suf of None \<Rightarrow> 0 | Some n \<Rightarrow> n)"

definition considerID :: "string \<Rightarrow> int64 \<Rightarrow> int64" where
  "considerID i m = (let n = numericIDSuffix i in if m < n then n else m)"

definition MaxPersistedIDSuffix ::
  "string list \<Rightarrow> string list \<Rightarrow> string list \<Rightarrow> 'd memoryDispatchStore \<Rightarrow> int64" where
  "MaxPersistedIDSuffix recOrder stopOrder actOrder s =
     fold considerID actOrder
       (fold considerID stopOrder
          (fold (\<lambda>r m. considerID (d_TurnID r) (considerID (d_RunID r) m)) (range_over (s_records s) recOrder) 0))"

end
