(* ===== verification/Store_Calculus.thy ===== *)
theory Store_Calculus
  imports Dispatch_Memory
begin

text \<open>
  How operations of the store are reasoned about. \<open>post Q t\<close> says that the state \<open>t\<close> an
  operation ends in satisfies \<open>Q\<close>; the rules of \<open>post_log\<close> and \<open>post_intros\<close> take an
  operation apart along its guards and its commit, and leave one goal per branch. The
  operations return two, three or four components, the state last, hence the three variants of
  each rule. The section on frames says which parts of the state the helpers leave unchanged.
\<close>

definition post :: "('s \<Rightarrow> bool) \<Rightarrow> 's \<Rightarrow> bool" where
  "post Q t \<longleftrightarrow> Q t"

text \<open>What the commit hook answers to a line, and the disk it leaves.\<close>

definition hook_run :: "'d memoryDispatchStore \<Rightarrow> dispatchLogLine \<Rightarrow> error option \<times> 'd" where
  "hook_run s line = (case s_afterCommit s of None \<Rightarrow> (None, s_disk s) | Some h \<Rightarrow> h line (s_disk s))"

section \<open>Logging\<close>

lemma appendAudit_frame [simp]:
  "s_records (appendAuditLocked s a b c d e) = s_records s"
  "s_envelopes (appendAuditLocked s a b c d e) = s_envelopes s"
  "s_runStop (appendAuditLocked s a b c d e) = s_runStop s"
  "s_activation (appendAuditLocked s a b c d e) = s_activation s"
  "s_effects (appendAuditLocked s a b c d e) = s_effects s"
  "s_releases (appendAuditLocked s a b c d e) = s_releases s"
  "s_repairs (appendAuditLocked s a b c d e) = s_repairs s"
  "s_clears (appendAuditLocked s a b c d e) = s_clears s"
  "s_resolutions (appendAuditLocked s a b c d e) = s_resolutions s"
  "s_intentLive (appendAuditLocked s a b c d e) = s_intentLive s"
  "s_afterCommit (appendAuditLocked s a b c d e) = s_afterCommit s"
  "s_now (appendAuditLocked s a b c d e) = s_now s"
  "s_disk (appendAuditLocked s a b c d e) = s_disk s"
  "s_seq (appendAuditLocked s a b c d e) = inc64 (s_seq s)"
  "clockStr (appendAuditLocked s a b c d e) = clockStr s"
  by (simp_all add: appendAuditLocked_def Let_def clockStr_def)

text \<open>
  The two outcomes of a logged mutation: the hook refuses and the state is as before but for
  the disk, or the hook accepts and the audit entry stays.
\<close>

lemma logged_cases:
  obtains (failed) er dk where "hook_run s (mk (inc64 (s_seq s))) = (Some er, dk)"
      and "logged s a b c d e mk = (Some er, s\<lparr>s_disk := dk\<rparr>)"
  | (written) dk where "hook_run s (mk (inc64 (s_seq s))) = (None, dk)"
      and "logged s a b c d e mk = (None, (appendAuditLocked s a b c d e)\<lparr>s_disk := dk\<rparr>)"
proof -
  let ?s1 = "appendAuditLocked s a b c d e"
  obtain er dk where h: "hook_run s (mk (inc64 (s_seq s))) = (er, dk)" by fastforce
  then have c: "commitLine ?s1 (mk (s_seq ?s1)) = (er, ?s1\<lparr>s_disk := dk\<rparr>)"
    by (auto simp: hook_run_def commitLine_def split: option.splits)
  show ?thesis
  proof (cases er)
    case None
    with c have "logged s a b c d e mk = (None, ?s1\<lparr>s_disk := dk\<rparr>)" by (simp add: logged_def)
    with h None show ?thesis by (intro written) simp_all
  next
    case (Some x)
    with c have "logged s a b c d e mk = (Some x, s\<lparr>s_disk := dk\<rparr>)"
      by (simp add: logged_def uncommitAudit_def appendAuditLocked_def Let_def)
    with h Some show ?thesis by (intro failed) simp_all
  qed
qed

section \<open>Rules\<close>

lemma post_ret1 [post_intros]: "Q s \<Longrightarrow> post Q (snd (a, s))"
  by (simp add: post_def)

lemma post_if1 [post_intros]:
  "(c \<Longrightarrow> post Q (snd (x))) \<Longrightarrow> (\<not> c \<Longrightarrow> post Q (snd (y))) \<Longrightarrow>
   post Q (snd (if c then x else y))"
  by simp

lemma post_opt1 [post_intros]:
  "(x = None \<Longrightarrow> post Q (snd (u))) \<Longrightarrow> (\<And>y. x = Some y \<Longrightarrow> post Q (snd (f y))) \<Longrightarrow>
   post Q (snd (case x of None \<Rightarrow> u | Some y \<Rightarrow> f y))"
  by (cases x) simp_all

lemma post_sum1 [post_intros]:
  "(\<And>e. x = Inl e \<Longrightarrow> post Q (snd (f e))) \<Longrightarrow> (\<And>r. x = Inr r \<Longrightarrow> post Q (snd (g r))) \<Longrightarrow>
   post Q (snd (case x of Inl e \<Rightarrow> f e | Inr r \<Rightarrow> g r))"
  by (cases x) simp_all

lemma post_prod1 [post_intros]:
  "(\<And>u v. x = (u, v) \<Longrightarrow> post Q (snd (f u v))) \<Longrightarrow> post Q (snd (case x of (u, v) \<Rightarrow> f u v))"
  by (cases x) simp_all

lemma post_logged1 [post_log]:
  assumes "\<And>er dk. hook_run s (mk (inc64 (s_seq s))) = (Some er, dk) \<Longrightarrow>
      post Q (snd (g er (s\<lparr>s_disk := dk\<rparr>)))"
    and "\<And>dk. hook_run s (mk (inc64 (s_seq s))) = (None, dk) \<Longrightarrow>
      post Q (snd (f ((appendAuditLocked s a b c d e)\<lparr>s_disk := dk\<rparr>)))"
  shows "post Q (snd (case logged s a b c d e mk of (Some er, t) \<Rightarrow> g er t | (None, t) \<Rightarrow> f t))"
  by (rule logged_cases [of s mk a b c d e]) (simp_all add: assms)

lemma post_ret2 [post_intros]: "Q s \<Longrightarrow> post Q (snd (snd (a, b, s)))"
  by (simp add: post_def)

lemma post_if2 [post_intros]:
  "(c \<Longrightarrow> post Q (snd (snd (x)))) \<Longrightarrow> (\<not> c \<Longrightarrow> post Q (snd (snd (y)))) \<Longrightarrow>
   post Q (snd (snd (if c then x else y)))"
  by simp

lemma post_opt2 [post_intros]:
  "(x = None \<Longrightarrow> post Q (snd (snd (u)))) \<Longrightarrow> (\<And>y. x = Some y \<Longrightarrow> post Q (snd (snd (f y)))) \<Longrightarrow>
   post Q (snd (snd (case x of None \<Rightarrow> u | Some y \<Rightarrow> f y)))"
  by (cases x) simp_all

lemma post_sum2 [post_intros]:
  "(\<And>e. x = Inl e \<Longrightarrow> post Q (snd (snd (f e)))) \<Longrightarrow> (\<And>r. x = Inr r \<Longrightarrow> post Q (snd (snd (g r)))) \<Longrightarrow>
   post Q (snd (snd (case x of Inl e \<Rightarrow> f e | Inr r \<Rightarrow> g r)))"
  by (cases x) simp_all

lemma post_prod2 [post_intros]:
  "(\<And>u v. x = (u, v) \<Longrightarrow> post Q (snd (snd (f u v)))) \<Longrightarrow> post Q (snd (snd (case x of (u, v) \<Rightarrow> f u v)))"
  by (cases x) simp_all

lemma post_logged2 [post_log]:
  assumes "\<And>er dk. hook_run s (mk (inc64 (s_seq s))) = (Some er, dk) \<Longrightarrow>
      post Q (snd (snd (g er (s\<lparr>s_disk := dk\<rparr>))))"
    and "\<And>dk. hook_run s (mk (inc64 (s_seq s))) = (None, dk) \<Longrightarrow>
      post Q (snd (snd (f ((appendAuditLocked s a b c d e)\<lparr>s_disk := dk\<rparr>))))"
  shows "post Q (snd (snd (case logged s a b c d e mk of (Some er, t) \<Rightarrow> g er t | (None, t) \<Rightarrow> f t)))"
  by (rule logged_cases [of s mk a b c d e]) (simp_all add: assms)

lemma post_ret3 [post_intros]: "Q s \<Longrightarrow> post Q (snd (snd (snd (a, b, c, s))))"
  by (simp add: post_def)

lemma post_if3 [post_intros]:
  "(c \<Longrightarrow> post Q (snd (snd (snd (x))))) \<Longrightarrow> (\<not> c \<Longrightarrow> post Q (snd (snd (snd (y))))) \<Longrightarrow>
   post Q (snd (snd (snd (if c then x else y))))"
  by simp

lemma post_opt3 [post_intros]:
  "(x = None \<Longrightarrow> post Q (snd (snd (snd (u))))) \<Longrightarrow> (\<And>y. x = Some y \<Longrightarrow> post Q (snd (snd (snd (f y))))) \<Longrightarrow>
   post Q (snd (snd (snd (case x of None \<Rightarrow> u | Some y \<Rightarrow> f y))))"
  by (cases x) simp_all

lemma post_sum3 [post_intros]:
  "(\<And>e. x = Inl e \<Longrightarrow> post Q (snd (snd (snd (f e))))) \<Longrightarrow> (\<And>r. x = Inr r \<Longrightarrow> post Q (snd (snd (snd (g r))))) \<Longrightarrow>
   post Q (snd (snd (snd (case x of Inl e \<Rightarrow> f e | Inr r \<Rightarrow> g r))))"
  by (cases x) simp_all

lemma post_prod3 [post_intros]:
  "(\<And>u v. x = (u, v) \<Longrightarrow> post Q (snd (snd (snd (f u v))))) \<Longrightarrow> post Q (snd (snd (snd (case x of (u, v) \<Rightarrow> f u v))))"
  by (cases x) simp_all

lemma post_logged3 [post_log]:
  assumes "\<And>er dk. hook_run s (mk (inc64 (s_seq s))) = (Some er, dk) \<Longrightarrow>
      post Q (snd (snd (snd (g er (s\<lparr>s_disk := dk\<rparr>)))))"
    and "\<And>dk. hook_run s (mk (inc64 (s_seq s))) = (None, dk) \<Longrightarrow>
      post Q (snd (snd (snd (f ((appendAuditLocked s a b c d e)\<lparr>s_disk := dk\<rparr>)))))"
  shows "post Q (snd (snd (snd (case logged s a b c d e mk of (Some er, t) \<Rightarrow> g er t | (None, t) \<Rightarrow> f t))))"
  by (rule logged_cases [of s mk a b c d e]) (simp_all add: assms)

lemma commitRecord_cases:
  obtains (failed) er dk where "hook_run s (recordLine cp clr (inc64 (s_seq s))) = (Some er, dk)"
      and "commitRecord s runID turnID r cp kind det act clr after = (d_Revision r, Some er, s\<lparr>s_disk := dk\<rparr>)"
  | (written) dk where "hook_run s (recordLine cp clr (inc64 (s_seq s))) = (None, dk)"
      and "commitRecord s runID turnID r cp kind det act clr after =
        (d_Revision cp, None,
         after (putRec ((appendAuditLocked s runID turnID kind det act)\<lparr>s_disk := dk\<rparr>) (recKey runID turnID) cp))"
  by (rule logged_cases [of s "recordLine cp clr" runID turnID kind det act])
    (simp_all add: commitRecord_def)

lemma post_commitRecord [post_log]:
  assumes "\<And>er dk. hook_run s (recordLine cp clr (inc64 (s_seq s))) = (Some er, dk) \<Longrightarrow> Q (s\<lparr>s_disk := dk\<rparr>)"
    and "\<And>dk. hook_run s (recordLine cp clr (inc64 (s_seq s))) = (None, dk) \<Longrightarrow>
      Q (after (putRec ((appendAuditLocked s runID turnID kind det act)\<lparr>s_disk := dk\<rparr>) (recKey runID turnID) cp))"
  shows "post Q (snd (snd (commitRecord s runID turnID r cp kind det act clr after)))"
  by (rule commitRecord_cases [of s cp clr runID turnID r kind det act after])
    (simp_all add: assms post_def)

lemma post_commitRecord_case [post_log]:
  assumes "\<And>er dk. hook_run s (recordLine cp clr (inc64 (s_seq s))) = (Some er, dk) \<Longrightarrow>
      post Q (snd (snd (snd (g (d_Revision r) er (s\<lparr>s_disk := dk\<rparr>)))))"
    and "\<And>dk. hook_run s (recordLine cp clr (inc64 (s_seq s))) = (None, dk) \<Longrightarrow>
      post Q (snd (snd (snd (f (d_Revision cp)
        (after (putRec ((appendAuditLocked s runID turnID kind det act)\<lparr>s_disk := dk\<rparr>) (recKey runID turnID) cp))))))"
  shows "post Q (snd (snd (snd (case commitRecord s runID turnID r cp kind det act clr after of
           (rv, Some er, t) \<Rightarrow> g rv er t | (rv, None, t) \<Rightarrow> f rv t))))"
  by (rule commitRecord_cases [of s cp clr runID turnID r kind det act after]) (simp_all add: assms)

abbreviation effectLine :: "'d memoryDispatchStore \<Rightarrow> EffectDone \<Rightarrow> int64 \<Rightarrow> dispatchLogLine" where
  "effectLine s e n \<equiv> (emptyLine ''effect'' (clockStr s) n)\<lparr>ll_Effect := Some e\<rparr>"

lemma commitEffect_cases:
  obtains (failed) er dk where "hook_run s (effectLine s e (inc64 (s_seq s))) = (Some er, dk)"
      and "commitEffect s runID turnID ek e kind det act = (Some er, s\<lparr>s_disk := dk\<rparr>)"
  | (written) dk where "hook_run s (effectLine s e (inc64 (s_seq s))) = (None, dk)"
      and "commitEffect s runID turnID ek e kind det act =
        (None, (appendAuditLocked s runID turnID kind det act)
           \<lparr>s_disk := dk, s_effects := (s_effects s)(ek \<mapsto> e)\<rparr>)"
  by (rule logged_cases [of s "effectLine s e" runID turnID kind det act]) (simp_all add: commitEffect_def)

lemma post_commitEffect [post_log]:
  assumes "\<And>er dk. hook_run s (effectLine s e (inc64 (s_seq s))) = (Some er, dk) \<Longrightarrow> Q (s\<lparr>s_disk := dk\<rparr>)"
    and "\<And>dk. hook_run s (effectLine s e (inc64 (s_seq s))) = (None, dk) \<Longrightarrow>
      Q ((appendAuditLocked s runID turnID kind det act)\<lparr>s_disk := dk, s_effects := (s_effects s)(ek \<mapsto> e)\<rparr>)"
  shows "post Q (snd (commitEffect s runID turnID ek e kind det act))"
  by (rule commitEffect_cases [of s e runID turnID ek kind det act]) (simp_all add: assms post_def)

lemma post_commitEffect_case [post_log]:
  assumes "\<And>er dk. hook_run s (effectLine s e (inc64 (s_seq s))) = (Some er, dk) \<Longrightarrow>
      post Q (snd (snd (g er (s\<lparr>s_disk := dk\<rparr>))))"
    and "\<And>dk. hook_run s (effectLine s e (inc64 (s_seq s))) = (None, dk) \<Longrightarrow>
      post Q (snd (snd (f ((appendAuditLocked s runID turnID kind det act)
        \<lparr>s_disk := dk, s_effects := (s_effects s)(ek \<mapsto> e)\<rparr>))))"
  shows "post Q (snd (snd (case commitEffect s runID turnID ek e kind det act of
           (Some er, t) \<Rightarrow> g er t | (None, t) \<Rightarrow> f t)))"
  by (rule commitEffect_cases [of s e runID turnID ek kind det act]) (simp_all add: assms)

abbreviation runStopLine :: "'d memoryDispatchStore \<Rightarrow> RunStopState \<Rightarrow> int64 \<Rightarrow> dispatchLogLine" where
  "runStopLine s cp n \<equiv> (emptyLine ''run_stop'' (clockStr s) n)\<lparr>ll_RunStop := Some cp\<rparr>"

lemma post_commitRunStop [post_log]:
  assumes "\<And>er dk. hook_run s (runStopLine s cp (inc64 (s_seq s))) = (Some er, dk) \<Longrightarrow> Q (s\<lparr>s_disk := dk\<rparr>)"
    and "\<And>dk. hook_run s (runStopLine s cp (inc64 (s_seq s))) = (None, dk) \<Longrightarrow>
      Q ((appendAuditLocked s runID '''' kind det ''system'')
           \<lparr>s_disk := dk, s_runStop := (s_runStop s)(runID \<mapsto> cp)\<rparr>)"
  shows "post Q (snd (snd (commitRunStop s runID st cp kind det)))"
  by (rule logged_cases [of s "runStopLine s cp" runID "''''" kind det "''system''"])
    (simp_all add: assms post_def commitRunStop_def)

section \<open>Frames\<close>

lemma getRec_Inr [simp]: "getRecLocked s a b = Inr r \<longleftrightarrow> s_records s (recKey a b) = Some r"
  by (simp add: getRecLocked_def split: option.split)

lemma getRec_Inl: "getRecLocked s a b = Inl e \<longleftrightarrow> s_records s (recKey a b) = None \<and> e = ErrNotFound"
  by (auto simp: getRecLocked_def split: option.split)

lemma helper_records [simp]:
  "s_records (clearIntentLocked s ow k g) = s_records s"
  "s_records (setLiveIntentLocked s ow k g h) = s_records s"
  "s_records (putResolution rid res s) = s_records s"
  "s_records (ensureActivationLocked s x) = s_records s"
  "s_records (putRec s k r) = (s_records s)(k \<mapsto> r)"
  by (simp_all add: clearIntentLocked_def setLiveIntentLocked_def putResolution_def
      ensureActivationLocked_def putRec_def Let_def)

end
