(* ===== verification/Dispatch_Evolution.thy ===== *)
theory Dispatch_Evolution
  imports Store_Calculus
begin

text \<open>
  The abstract specification of a dispatch record, and the proof that every operation of the
  store implements it. \<open>rec_step\<close> is one revision compare-and-swap on a record: identity,
  envelope hash and intent are frozen, the revision advances by one, the state stays or follows
  an edge of the closed table, a cancel request is never withdrawn, a terminal verdict is final
  (only its settlement advances, along the table of phases) and ends every attachment. \<open>quiet_step\<close> is a step that does not start a send. \<open>evolves\<close> lifts a step relation
  to the whole store; one lemma per operation says which relation it evolves along.
\<close>

section \<open>Abstract steps\<close>

definition rec_step :: "DispatchRecord \<Rightarrow> DispatchRecord \<Rightarrow> bool" where
  "rec_step r r' \<longleftrightarrow>
     d_TurnID r' = d_TurnID r \<and> d_RunID r' = d_RunID r \<and>
     d_ProtocolVersion r' = d_ProtocolVersion r \<and> d_EnvelopeHash r' = d_EnvelopeHash r \<and>
     d_OuterIntentKey r' = d_OuterIntentKey r \<and> d_OuterIntentGen r' = d_OuterIntentGen r \<and>
     d_IntentOwnerRunID r' = d_IntentOwnerRunID r \<and> d_ParentStopFence r' = d_ParentStopFence r \<and>
     d_Revision r' = inc64 (d_Revision r) \<and>
     (d_State r' = d_State r \<or> isLegalEdge (d_State r) (d_State r')) \<and>
     (d_CancelRequested r \<longrightarrow> d_CancelRequested r') \<and>
     (d_CancelRequested r \<longrightarrow> d_State r' = DispatchSendStarted \<longrightarrow> d_State r = DispatchSendStarted) \<and>
     (d_CancelRequested r \<longrightarrow> d_State r \<in> {DispatchPrepared, DispatchSendClaimed} \<longrightarrow>
        d_State r' = d_State r \<or> d_State r' = DispatchTerminalCancelled) \<and>
     d_StopGeneration r \<le> d_StopGeneration r' \<and>
     (IsTerminal (d_State r) \<longrightarrow>
        d_Outcome r' = d_Outcome r \<and> d_TerminalEvidence r' = d_TerminalEvidence r \<and>
        d_SettleOwed r' = d_SettleOwed r \<and>
        (d_SettlePhase r' = d_SettlePhase r \<or> canAdvanceSettle (d_SettlePhase r) (d_SettlePhase r') = None)) \<and>
     (IsTerminal (d_State r') \<longrightarrow>
        d_RecoveryAttachOwner r' = (if IsTerminal (d_State r) then d_RecoveryAttachOwner r else ''''))"

definition quiet_step :: "DispatchRecord \<Rightarrow> DispatchRecord \<Rightarrow> bool" where
  "quiet_step r r' \<longleftrightarrow>
     rec_step r r' \<and> (d_State r' = DispatchSendStarted \<longrightarrow> d_State r = DispatchSendStarted)"

definition fresh_record :: "DispatchRecord \<Rightarrow> bool" where
  "fresh_record r \<longleftrightarrow>
     d_Revision r = 1 \<and>
     (DispatchProtocolV2 \<le> d_ProtocolVersion r \<longrightarrow> d_State r = DispatchPrepared)"

definition evolves ::
  "(DispatchRecord \<Rightarrow> DispatchRecord \<Rightarrow> bool) \<Rightarrow> 'd memoryDispatchStore \<Rightarrow> 'd memoryDispatchStore \<Rightarrow> bool" where
  "evolves R s s' \<longleftrightarrow>
     (\<forall>k r. s_records s k = Some r \<longrightarrow> (\<exists>r'. s_records s' k = Some r' \<and> (r' = r \<or> R r r'))) \<and>
     (\<forall>k r'. s_records s k = None \<longrightarrow> s_records s' k = Some r' \<longrightarrow>
        fresh_record r' \<and> k = recKey (d_RunID r') (d_TurnID r'))"

text \<open>
  A \<open>mutate\<close> argument of the compare-and-swap operations that writes none of the fields the
  specification freezes. (The production callers pass none.)
\<close>

definition benign_mutate :: "(DispatchRecord \<Rightarrow> DispatchRecord) option \<Rightarrow> bool" where
  "benign_mutate m \<longleftrightarrow>
     (\<forall>f. m = Some f \<longrightarrow>
        (\<forall>r. d_TurnID (f r) = d_TurnID r \<and> d_RunID (f r) = d_RunID r \<and>
             d_ProtocolVersion (f r) = d_ProtocolVersion r \<and> d_EnvelopeHash (f r) = d_EnvelopeHash r \<and>
             d_OuterIntentKey (f r) = d_OuterIntentKey r \<and> d_OuterIntentGen (f r) = d_OuterIntentGen r \<and>
             d_IntentOwnerRunID (f r) = d_IntentOwnerRunID r \<and>
             d_ParentStopFence (f r) = d_ParentStopFence r \<and> d_Revision (f r) = d_Revision r \<and>
             d_CancelRequested (f r) = d_CancelRequested r \<and> d_StopGeneration (f r) = d_StopGeneration r \<and>
             d_RecoveryAttachOwner (f r) = d_RecoveryAttachOwner r))"

section \<open>Edge tables\<close>

lemma terminal_no_edge [simp]: "IsTerminal a \<Longrightarrow> \<not> isLegalEdge a b"
  by (cases a) (simp_all add: isLegalEdge_def)

lemma terminal_not_sent [simp]: "IsTerminal a \<Longrightarrow> \<not> IsSent a"
  by (cases a) simp_all

lemma canTransition_NoneD:
  assumes "canTransition r to = None"
  shows "isLegalEdge (d_State r) to"
    and "d_CancelRequested r \<Longrightarrow> to \<noteq> DispatchSendStarted"
    and "d_CancelRequested r \<Longrightarrow> d_State r \<in> {DispatchPrepared, DispatchSendClaimed} \<Longrightarrow>
      to = DispatchTerminalCancelled"
  using assms by (auto simp: canTransition_def isLegalEdge_def split: if_splits)

lemma canTransition_None_iff:
  "canTransition r to = None \<longleftrightarrow>
     isLegalEdge (d_State r) to \<and>
     (d_CancelRequested r \<longrightarrow> to \<noteq> DispatchSendStarted \<and>
        (d_State r \<in> {DispatchPrepared, DispatchSendClaimed} \<longrightarrow> to = DispatchTerminalCancelled))"
  by (auto simp: canTransition_def isLegalEdge_def)

section \<open>Evolution\<close>

lemma evolves_refl [simp]: "evolves R s s"
  by (simp add: evolves_def)

lemma evolves_same: "s_records s' = s_records s \<Longrightarrow> evolves R s s'"
  by (simp add: evolves_def)

lemma evolves_upd:
  assumes "s_records s k = Some r" and "R r cp" and "s_records s' = (s_records s)(k \<mapsto> cp)"
  shows "evolves R s s'"
  using assms by (auto simp: evolves_def)

lemma evolves_new:
  assumes "s_records s (recKey (d_RunID r) (d_TurnID r)) = None" and "fresh_record r"
    and "s_records s' = (s_records s)(recKey (d_RunID r) (d_TurnID r) \<mapsto> r)"
  shows "evolves R s s'"
  using assms by (auto simp: evolves_def split: if_splits)

lemma evolves_mono:
  assumes "evolves R s s'" and "\<And>a b. R a b \<Longrightarrow> Q a b"
  shows "evolves Q s s'"
  using assms unfolding evolves_def by meson

lemma evolves_disk: "evolves R s (s\<lparr>s_disk := dk\<rparr>)"
  by (simp add: evolves_same)

lemma commitRecord_evolves:
  assumes "s_records s (recKey runID turnID) = Some r" and "R r cp"
    and "\<And>x. s_records (after x) = s_records x"
  shows "post (evolves R s) (snd (snd (commitRecord s runID turnID r cp kind det act clr after)))"
  by (intro post_log evolves_disk evolves_upd [of s "recKey runID turnID" r R cp])
    (simp_all add: assms)

lemma commitRecord_id_evolves:
  assumes "s_records s (recKey runID turnID) = Some r" and "R r cp"
  shows "post (evolves R s) (snd (snd (commitRecord s runID turnID r cp kind det act clr id)))"
  using assms by (rule commitRecord_evolves) simp

lemma commitRecord_clear_evolves:
  assumes "s_records s (recKey runID turnID) = Some r" and "R r cp"
  shows "post (evolves R s) (snd (snd (commitRecord s runID turnID r cp kind det act clr
           (\<lambda>s'. clearIntentLocked s' ow ky gn))))"
  using assms by (rule commitRecord_evolves) simp

lemma commitRecord_resolve_evolves:
  assumes "s_records s (recKey runID turnID) = Some r" and "R r cp"
  shows "post (evolves R s) (snd (snd (commitRecord s runID turnID r cp kind det act clr
           (\<lambda>s'. putResolution rid res (clearIntentLocked s' ow ky gn)))))"
  using assms by (rule commitRecord_evolves) simp

lemmas evolution_rules = commitRecord_id_evolves commitRecord_clear_evolves commitRecord_resolve_evolves
  evolves_refl evolves_disk

section \<open>One lemma per operation\<close>

lemma quiet_imp_rec: "quiet_step a b \<Longrightarrow> rec_step a b"
  by (simp add: quiet_step_def)

lemma terminalState_terminal:
  "terminalStateFromProof oc = Inr (n, w) \<Longrightarrow> IsTerminal n"
  by (auto simp: terminalStateFromProof_def Let_def split: if_splits)

lemma resolveTarget_terminal: "resolveTarget act = Some (n, oc, f) \<Longrightarrow> IsTerminal n"
  by (cases act) auto

lemma terminal_not_started [simp]: "\<not> IsTerminal DispatchSendStarted"
  by simp

lemma casAdvance_evolves:
  assumes "benign_mutate m"
  shows "post (evolves rec_step s) (snd (snd (casAdvance s a b rv ow x y m rl)))"
  unfolding casAdvance_def Let_def
  by (intro evolution_rules post_log post_intros)
    (use assms in \<open>auto simp: rec_step_def revokeAttachLocked_def benign_mutate_def
      canTransition_None_iff split: option.splits\<close>)

lemma CASAdvanceSettle_evolves:
  "post (evolves quiet_step s) (snd (snd (CASAdvanceSettle s a b rv x y)))"
  unfolding CASAdvanceSettle_def
  by (intro evolution_rules post_log post_intros) (auto simp: quiet_step_def rec_step_def)

lemma ClaimRecovery_evolves:
  "post (evolves quiet_step s) (snd (snd (ClaimRecovery s a b rv x y)))"
  unfolding ClaimRecovery_def
  by (intro evolution_rules post_log post_intros) (auto simp: quiet_step_def rec_step_def)

lemma SetCancelRequested_evolves:
  "post (evolves quiet_step s) (snd (snd (SetCancelRequested s a b rv x)))"
  unfolding SetCancelRequested_def
  by (intro evolution_rules post_log post_intros) (auto simp: quiet_step_def rec_step_def)

lemma CommitReceipt_evolves:
  "post (evolves quiet_step s) (snd (snd (CommitReceiptAndClearIntent s a b rv x y z w)))"
  unfolding CommitReceiptAndClearIntent_def
  by (intro evolution_rules post_log post_intros)
    (auto simp: quiet_step_def rec_step_def isLegalEdge_def)

lemma commitTerminal_evolves:
  "post (evolves quiet_step s) (snd (snd (commitTerminal s a b rv x y z w g rl att)))"
  unfolding commitTerminal_def Let_def
  by (intro evolution_rules post_log post_intros)
    (auto simp: quiet_step_def rec_step_def canTransition_None_iff dest!: terminalState_terminal)

lemma quiet_uncertain:
  "canTransition r DispatchUncertain = None \<Longrightarrow>
   quiet_step r ((revokeAttachLocked (r\<lparr>d_State := DispatchUncertain\<rparr>))
     \<lparr>d_Revision := inc64 (d_Revision r), d_UpdatedAt := t\<rparr>)"
  by (auto simp: quiet_step_def rec_step_def revokeAttachLocked_def canTransition_None_iff)

lemma CommitRecoveryUnknown_evolves:
  "post (evolves quiet_step s) (snd (snd (snd (CommitRecoveryUnknownOrRequireCancel s a b rv ow))))"
  unfolding CommitRecoveryUnknownOrRequireCancel_def
  by (intro evolution_rules post_log post_intros) (auto intro: evolves_upd quiet_uncertain)

lemma ClaimRecoveryAttach_evolves:
  "post (evolves quiet_step s) (snd (snd (snd (ClaimRecoveryAttach s a b rv ow ttl))))"
  unfolding ClaimRecoveryAttach_def Let_def
  by (intro evolution_rules post_log post_intros)
    (auto simp: quiet_step_def rec_step_def intro!: evolves_upd)

lemma commitPreSend_evolves:
  "post (evolves quiet_step s) (snd (snd (commitPreSend s a b rv lo ow ky gn sg src rl)))"
  unfolding commitPreSend_def
  by (intro evolution_rules post_log post_intros)
    (auto simp: quiet_step_def rec_step_def revokeAttachLocked_def canTransition_None_iff)

lemma ResolveUncertain_evolves:
  "post (evolves quiet_step s) (snd (snd (ResolveUncertain s a b rv rid act ev)))"
  unfolding ResolveUncertain_def Let_def
  by (intro evolution_rules post_log post_intros)
    (auto simp: quiet_step_def rec_step_def revokeAttachLocked_def canTransition_None_iff
      dest!: resolveTarget_terminal)

lemma EnterRecoveryAttach_evolves:
  "post (evolves R s) (snd (EnterRecoveryAttach L s a b tok))"
  unfolding EnterRecoveryAttach_def Let_def
  by (intro evolution_rules post_log post_intros) (simp add: evolves_same)

lemma RecordAttachedEffect_evolves:
  "post (evolves R s) (snd (snd (RecordRecoveryAttachedEffect s a b tok ev p)))"
  unfolding RecordRecoveryAttachedEffect_def Let_def
  by (intro evolution_rules post_log post_intros) (simp add: evolves_same)

lemma RecordEffectDone_evolves:
  "post (evolves R s) (snd (snd (RecordEffectDone s a b k p h)))"
  unfolding RecordEffectDone_def Let_def
  by (intro evolution_rules post_log post_intros) (simp add: evolves_same)

lemma RequestRunStop_evolves:
  "post (evolves R s) (snd (snd (RequestRunStop s a rv rs)))"
  unfolding RequestRunStop_def Let_def
  by (intro post_log post_intros) (simp_all add: evolves_same)

lemma ReleaseRunStopFence_evolves:
  "post (evolves R s) (snd (snd (ReleaseRunStopFence s a rv)))"
  unfolding ReleaseRunStopFence_def
  by (intro post_log post_intros) (simp_all add: evolves_same)

lemma evolves_retry:
  assumes "s_records s k = Some r" and "R r cp" and "s_records s sk = None"
    and "fresh_record su" and "sk = recKey (d_RunID su) (d_TurnID su)"
    and "s_records t = (s_records s)(k \<mapsto> cp, sk \<mapsto> su)"
  shows "evolves R s t"
  using assms by (auto simp: evolves_def split: if_splits)

lemma RetryAsNew_evolves:
  "post (evolves quiet_step s) (snd (snd (RetryAsNew s a b rv rid nt g h)))"
  unfolding RetryAsNew_def Let_def
  by (intro evolution_rules post_log post_intros)
    (auto intro!: evolves_retry [of s "recKey a b"]
      simp: quiet_step_def rec_step_def revokeAttachLocked_def isLegalEdge_def fresh_record_def)

lemma stampedRecord_simps [simp]:
  "d_RunID (stampedRecord t r) = d_RunID r" "d_TurnID (stampedRecord t r) = d_TurnID r"
  "d_State (stampedRecord t r) = d_State r" "d_Revision (stampedRecord t r) = 1"
  "d_ProtocolVersion (stampedRecord t r) = d_ProtocolVersion r"
  "d_EnvelopeHash (stampedRecord t r) = d_EnvelopeHash r"
  "d_CancelRequested (stampedRecord t r) = d_CancelRequested r"
  "d_ParentStopFence (stampedRecord t r) = d_ParentStopFence r"
  by (simp_all add: stampedRecord_def Let_def)

lemma defaultedRecord_simps [simp]:
  "d_RunID (defaultedRecord r) = d_RunID r" "d_TurnID (defaultedRecord r) = d_TurnID r"
  "d_EnvelopeHash (defaultedRecord r) = d_EnvelopeHash r"
  "d_CancelRequested (defaultedRecord r) = d_CancelRequested r"
  "d_ParentStopFence (defaultedRecord r) = d_ParentStopFence r"
  by (simp_all add: defaultedRecord_def Let_def)

lemma releaseChild_simps [simp]:
  "d_State (releaseChild t item c env) = DispatchPrepared"
  "d_Revision (releaseChild t item c env) = 1"
  "d_EnvelopeHash (releaseChild t item c env) = v_EnvelopeHash env"
  by (simp_all add: releaseChild_def Let_def)

lemma CreatePrepared_evolves:
  "post (evolves R s) (snd (CreatePrepared L s r env))"
  unfolding CreatePrepared_def Let_def
  apply (intro evolution_rules post_log post_intros)
   apply (simp add: evolves_same)
  by (rule evolves_new [of s "stampedRecord (clockStr s) (defaultedRecord
    (if d_EnvelopeHash r = '''' then r\<lparr>d_EnvelopeHash := v_EnvelopeHash (hashedEnvelope L env)\<rparr> else r))"])
    (auto simp: fresh_record_def)

lemma CreateRelease_evolves:
  "post (evolves R s) (snd (snd (CreateReleaseManifestItem L s a b c i)))"
  unfolding CreateReleaseManifestItem_def Let_def
  by (intro evolution_rules post_log post_intros) (simp add: evolves_same)

lemma evolves_maybe_new:
  assumes "fresh_record r"
    and "s_records s' = (let k = recKey (d_RunID r) (d_TurnID r)
           in if s_records s k = None then (s_records s)(k \<mapsto> r) else s_records s)"
  shows "evolves R s s'"
  using assms by (cases "s_records s (recKey (d_RunID r) (d_TurnID r))")
    (simp_all add: evolves_new [of s r] evolves_same)

lemma CommitRelease_evolves:
  "post (evolves R s) (snd (snd (CommitReleaseManifestItem L s a b c rv ch env)))"
  unfolding CommitReleaseManifestItem_def Let_def
  apply (intro evolution_rules post_log post_intros)
  subgoal for item dk
    by (rule evolves_maybe_new [of "releaseChild (clockStr s) item ch (hashedEnvelope L env)"])
      (simp_all add: fresh_record_def Let_def)
  done

lemma SuppressRelease_evolves:
  "post (evolves R s) (snd (snd (SuppressReleaseManifestItem s a b c rv g)))"
  unfolding SuppressReleaseManifestItem_def Let_def
  by (intro evolution_rules post_log post_intros) (simp add: evolves_same)

lemma OpenRepair_evolves:
  "post (evolves R s) (snd (snd (OpenRepair L s a rs bl h)))"
  unfolding OpenRepair_def Let_def
  by (intro evolution_rules post_log post_intros) (simp add: evolves_same)

lemma BeginRepair_evolves:
  "post (evolves R s) (snd (snd (snd (BeginRepairResolution s a rv rid ac))))"
  unfolding BeginRepairResolution_def Let_def
  by (intro evolution_rules post_log post_intros) (simp add: evolves_same)

lemma quiet_abandon: "canTransition r DispatchTerminalCancelled = None \<Longrightarrow> quiet_step r (abandonRecord s r)"
  by (auto simp: quiet_step_def rec_step_def abandonRecord_def canTransition_None_iff)

abbreviation abandonNext ::
  "'d memoryDispatchStore \<Rightarrow> string \<Rightarrow> DispatchRecord \<Rightarrow> 'd \<Rightarrow> 'd memoryDispatchStore" where
  "abandonNext t k r dk \<equiv>
     clearIntentLocked
       (putRec ((appendAuditLocked t (d_RunID r) (d_TurnID r) ''repair_abandon_terminalize''
                  ''abandoned,resolved_by=operator'' ''operator'')\<lparr>s_disk := dk\<rparr>) k (abandonRecord t r))
       (intentOwnerOf r) (d_OuterIntentKey r) (d_OuterIntentGen r)"

lemma abandonLoop_inv:
  assumes "Q s"
    and failed: "\<And>t ln er dk. Q t \<Longrightarrow> hook_run t ln = (Some er, dk) \<Longrightarrow> Q (t\<lparr>s_disk := dk\<rparr>)"
    and written: "\<And>t k r dk. Q t \<Longrightarrow> s_records t k = Some r \<Longrightarrow>
      canTransition r DispatchTerminalCancelled = None \<Longrightarrow>
      hook_run t (recordLine (abandonRecord t r) None (inc64 (s_seq t))) = (None, dk) \<Longrightarrow>
      Q (abandonNext t k r dk)"
  shows "Q (snd (abandonLoop ks s))"
  using assms(1)
proof (induction ks arbitrary: s)
  case Nil
  then show ?case by simp
next
  case (Cons k ks)
  show ?case
  proof (cases "\<exists>r. s_records s k = Some r \<and> canTransition r DispatchTerminalCancelled = None")
    case False
    with Cons show ?thesis by (auto split: option.split)
  next
    case True
    then obtain r where r: "s_records s k = Some r" "canTransition r DispatchTerminalCancelled = None" by blast
    show ?thesis
      by (rule logged_cases [of s "recordLine (abandonRecord s r) None" "d_RunID r" "d_TurnID r"
            "''repair_abandon_terminalize''" "''abandoned,resolved_by=operator''" "''operator''"])
        (simp_all add: r failed [OF Cons.prems] Cons.IH written [OF Cons.prems r])
  qed
qed

text \<open>A record the loop has visited is terminal, so that it is not written again.\<close>

lemma abandonLoop_records:
  "s_records (snd (abandonLoop ks s)) k = s_records s k \<or>
   (\<exists>r r'. s_records s k = Some r \<and> s_records (snd (abandonLoop ks s)) k = Some r' \<and> quiet_step r r' \<and>
      d_State r' = DispatchTerminalCancelled)"
proof (rule abandonLoop_inv [where Q = "\<lambda>t. s_records t k = s_records s k \<or>
    (\<exists>r r'. s_records s k = Some r \<and> s_records t k = Some r' \<and> quiet_step r r' \<and>
       d_State r' = DispatchTerminalCancelled)"])
  fix t :: "'a memoryDispatchStore" and k' r dk
  assume Q: "s_records t k = s_records s k \<or>
      (\<exists>r r'. s_records s k = Some r \<and> s_records t k = Some r' \<and> quiet_step r r' \<and>
         d_State r' = DispatchTerminalCancelled)"
    and r: "s_records t k' = Some r" and ct: "canTransition r DispatchTerminalCancelled = None"
  have "d_State r \<noteq> DispatchTerminalCancelled"
    using canTransition_NoneD(1) [OF ct] by (auto simp: isLegalEdge_def)
  with Q r quiet_abandon [OF ct, of t]
  show "s_records (abandonNext t k' r dk) k = s_records s k \<or>
      (\<exists>r0 r'. s_records s k = Some r0 \<and> s_records (abandonNext t k' r dk) k = Some r' \<and> quiet_step r0 r' \<and>
         d_State r' = DispatchTerminalCancelled)"
    by (cases "k' = k") (auto simp: abandonRecord_def)
qed simp_all

lemma abandonLoop_evolves: "evolves quiet_step s (snd (abandonLoop ks s))"
  unfolding evolves_def
proof (intro conjI allI impI)
  fix k r assume "s_records s k = Some r"
  then show "\<exists>r'. s_records (snd (abandonLoop ks s)) k = Some r' \<and> (r' = r \<or> quiet_step r r')"
    using abandonLoop_records [of ks s k] by auto
next
  fix k r' assume "s_records s k = None" "s_records (snd (abandonLoop ks s)) k = Some r'"
  then show "fresh_record r'" "k = recKey (d_RunID r') (d_TurnID r')"
    using abandonLoop_records [of ks s k] by auto
qed

lemma abandon_evolves:
  assumes "(if c then abandonLoop ks s else (None, s)) = (e, t)"
  shows "evolves quiet_step s t"
  using assms abandonLoop_evolves [of s ks] by (auto split: if_splits)

lemma evolves_then: "evolves R s t \<Longrightarrow> s_records u = s_records t \<Longrightarrow> evolves R s u"
  by (simp add: evolves_def)

lemma CommitRepair_evolves:
  "post (evolves quiet_step s) (snd (snd (CommitRepairResolution od s a rv rid oc dt)))"
  unfolding CommitRepairResolution_def Let_def
  by (intro evolution_rules post_log post_intros)
   (auto dest!: abandon_evolves intro: evolves_then)

end
