(* ===== verification/Store_Frames.thy ===== *)
theory Store_Frames
  imports Dispatch_Evolution
begin

text \<open>
  What the operations of the store leave alone. The store only grows: activations, intent
  clears and resolutions are never taken back, an envelope is written once and with the record
  whose hash it has, and the audit log is extended by consecutively numbered entries
  (\<open>grows\<close>). An operation that fails leaves the memory as it was (\<open>only_disk\<close>), run-stop
  states and effects keep their values unless the operation is about them (\<open>tame\<close>). Five
  operations have weaker frames, stated by the last lemmas: \<open>CreatePrepared\<close> and
  \<open>RequestRunStop\<close> may leave an activation behind when they fail, \<open>CommitRepairResolution\<close> may
  leave records abandoned, \<open>RequestRunStop\<close> and \<open>ReleaseRunStopFence\<close> write run-stop states,
  and \<open>CreateReleaseManifestItem\<close> overwrites an effect of the same key.
\<close>

section \<open>Frames\<close>

fun seq_chain :: "int64 \<Rightarrow> AuditEntry list \<Rightarrow> int64 \<Rightarrow> bool" where
  "seq_chain a [] b \<longleftrightarrow> b = a"
| "seq_chain a (x # xs) b \<longleftrightarrow> au_Seq x = inc64 a \<and> seq_chain (au_Seq x) xs b"

definition audit_extends :: "'d memoryDispatchStore \<Rightarrow> 'd memoryDispatchStore \<Rightarrow> bool" where
  "audit_extends s s' \<longleftrightarrow> (\<exists>ys. s_audits s' = s_audits s @ ys \<and> seq_chain (s_seq s) ys (s_seq s'))"

definition envelope_grows :: "'d memoryDispatchStore \<Rightarrow> 'd memoryDispatchStore \<Rightarrow> bool" where
  "envelope_grows s s' \<longleftrightarrow>
     (\<forall>k. s_envelopes s' k \<noteq> s_envelopes s k \<longrightarrow>
        s_records s k = None \<and>
        (\<exists>r e. s_records s' k = Some r \<and> s_envelopes s' k = Some e \<and> d_EnvelopeHash r = v_EnvelopeHash e))"

definition grows :: "'d memoryDispatchStore \<Rightarrow> 'd memoryDispatchStore \<Rightarrow> bool" where
  "grows s s' \<longleftrightarrow>
     s_now s' = s_now s \<and> s_afterCommit s' = s_afterCommit s \<and>
     s_activation s \<subseteq>\<^sub>m s_activation s' \<and> s_clears s \<subseteq> s_clears s' \<and>
     s_resolutions s \<subseteq>\<^sub>m s_resolutions s' \<and> envelope_grows s s' \<and> audit_extends s s'"

definition initialStop :: "string \<Rightarrow> RunStopState" where
  "initialStop runID = \<lparr>rs_RunID = runID, rs_Generation = 0, rs_Revision = 1, rs_Stopped = False\<rparr>"

definition stops_grow :: "'d memoryDispatchStore \<Rightarrow> 'd memoryDispatchStore \<Rightarrow> bool" where
  "stops_grow s s' \<longleftrightarrow>
     (\<forall>x. s_runStop s' x = s_runStop s x \<or> s_runStop s x = None \<and> s_runStop s' x = Some (initialStop x))"

definition only_disk :: "'d memoryDispatchStore \<Rightarrow> 'd memoryDispatchStore \<Rightarrow> bool" where
  "only_disk s s' \<longleftrightarrow> s' = s\<lparr>s_disk := s_disk s'\<rparr>"

definition tame :: "'d memoryDispatchStore \<Rightarrow> error option \<times> 'd memoryDispatchStore \<Rightarrow> bool" where
  "tame s x \<longleftrightarrow> (case x of (e, s') \<Rightarrow>
     grows s s' \<and> stops_grow s s' \<and> s_effects s \<subseteq>\<^sub>m s_effects s' \<and>
     (e \<noteq> None \<longrightarrow> only_disk s s'))"

definition abandon_frame :: "'d memoryDispatchStore \<Rightarrow> 'd memoryDispatchStore \<Rightarrow> bool" where
  "abandon_frame s t \<longleftrightarrow>
     s_now t = s_now s \<and> s_afterCommit t = s_afterCommit s \<and> s_activation t = s_activation s \<and>
     s_clears s \<subseteq> s_clears t \<and> s_resolutions t = s_resolutions s \<and> s_envelopes t = s_envelopes s \<and>
     s_runStop t = s_runStop s \<and> s_effects t = s_effects s \<and> s_releases t = s_releases s \<and>
     s_repairs t = s_repairs s \<and> audit_extends s t"

section \<open>Rules for the pair of error and state\<close>

lemma post_ret0 [post_intros]: "Q (a, s) \<Longrightarrow> post Q (a, s)"
  by (simp add: post_def)

lemma post_if0 [post_intros]:
  "(c \<Longrightarrow> post Q x) \<Longrightarrow> (\<not> c \<Longrightarrow> post Q y) \<Longrightarrow> post Q (if c then x else y)"
  by simp

lemma post_opt0 [post_intros]:
  "(x = None \<Longrightarrow> post Q u) \<Longrightarrow> (\<And>y. x = Some y \<Longrightarrow> post Q (f y)) \<Longrightarrow>
   post Q (case x of None \<Rightarrow> u | Some y \<Rightarrow> f y)"
  by (cases x) simp_all

lemma post_sum0 [post_intros]:
  "(\<And>e. x = Inl e \<Longrightarrow> post Q (f e)) \<Longrightarrow> (\<And>r. x = Inr r \<Longrightarrow> post Q (g r)) \<Longrightarrow>
   post Q (case x of Inl e \<Rightarrow> f e | Inr r \<Rightarrow> g r)"
  by (cases x) simp_all

lemma post_logged0 [post_log]:
  assumes "\<And>er dk. hook_run s (mk (inc64 (s_seq s))) = (Some er, dk) \<Longrightarrow> post Q (g er (s\<lparr>s_disk := dk\<rparr>))"
    and "\<And>dk. hook_run s (mk (inc64 (s_seq s))) = (None, dk) \<Longrightarrow>
      post Q (f ((appendAuditLocked s a b c d e)\<lparr>s_disk := dk\<rparr>))"
  shows "post Q (case logged s a b c d e mk of (Some er, t) \<Rightarrow> g er t | (None, t) \<Rightarrow> f t)"
  by (rule logged_cases [of s mk a b c d e]) (simp_all add: assms)

section \<open>Growth\<close>

lemma seq_chain_append: "seq_chain a xs b \<Longrightarrow> seq_chain b ys c \<Longrightarrow> seq_chain a (xs @ ys) c"
  by (induction xs arbitrary: a) auto

lemma audit_extends_refl [simp]: "s_audits s' = s_audits s \<Longrightarrow> s_seq s' = s_seq s \<Longrightarrow> audit_extends s s'"
  by (simp add: audit_extends_def)

lemma audit_extends_append [simp]:
  "s_audits s' = s_audits (appendAuditLocked s a b c d e) \<Longrightarrow> s_seq s' = inc64 (s_seq s) \<Longrightarrow> audit_extends s s'"
  by (simp add: audit_extends_def appendAuditLocked_def Let_def)

lemma audit_extends_trans: "audit_extends s t \<Longrightarrow> audit_extends t u \<Longrightarrow> audit_extends s u"
  unfolding audit_extends_def by (metis append_assoc seq_chain_append)

lemma envelope_grows_same [simp]: "s_envelopes s' = s_envelopes s \<Longrightarrow> envelope_grows s s'"
  by (simp add: envelope_grows_def)

lemma envelope_grows_new:
  assumes "s_records s k = None" and "s_envelopes s' = (s_envelopes s)(k \<mapsto> e)"
    and "s_records s' k = Some r" and "d_EnvelopeHash r = v_EnvelopeHash e"
  shows "envelope_grows s s'"
  using assms by (simp add: envelope_grows_def)

lemma helper_frames [simp]:
  "s_envelopes (clearIntentLocked s ow k g) = s_envelopes s"
  "s_runStop (clearIntentLocked s ow k g) = s_runStop s"
  "s_activation (clearIntentLocked s ow k g) = s_activation s"
  "s_effects (clearIntentLocked s ow k g) = s_effects s"
  "s_resolutions (clearIntentLocked s ow k g) = s_resolutions s"
  "s_now (clearIntentLocked s ow k g) = s_now s"
  "s_afterCommit (clearIntentLocked s ow k g) = s_afterCommit s"
  "s_audits (clearIntentLocked s ow k g) = s_audits s"
  "s_seq (clearIntentLocked s ow k g) = s_seq s"
  "s_repairs (clearIntentLocked s ow k g) = s_repairs s"
  "s_releases (clearIntentLocked s ow k g) = s_releases s"
  by (simp_all add: clearIntentLocked_def)

lemma putRec_frames [simp]:
  "s_envelopes (putRec s k r) = s_envelopes s" "s_runStop (putRec s k r) = s_runStop s"
  "s_activation (putRec s k r) = s_activation s" "s_effects (putRec s k r) = s_effects s"
  "s_resolutions (putRec s k r) = s_resolutions s" "s_now (putRec s k r) = s_now s"
  "s_afterCommit (putRec s k r) = s_afterCommit s" "s_audits (putRec s k r) = s_audits s"
  "s_seq (putRec s k r) = s_seq s" "s_clears (putRec s k r) = s_clears s"
  "s_repairs (putRec s k r) = s_repairs s" "s_releases (putRec s k r) = s_releases s"
  by (simp_all add: putRec_def)

lemma live_frames [simp]:
  "s_envelopes (setLiveIntentLocked s ow k g h) = s_envelopes s"
  "s_runStop (setLiveIntentLocked s ow k g h) = s_runStop s"
  "s_activation (setLiveIntentLocked s ow k g h) = s_activation s"
  "s_effects (setLiveIntentLocked s ow k g h) = s_effects s"
  "s_resolutions (setLiveIntentLocked s ow k g h) = s_resolutions s"
  "s_now (setLiveIntentLocked s ow k g h) = s_now s"
  "s_afterCommit (setLiveIntentLocked s ow k g h) = s_afterCommit s"
  "s_audits (setLiveIntentLocked s ow k g h) = s_audits s"
  "s_seq (setLiveIntentLocked s ow k g h) = s_seq s"
  "s_clears (setLiveIntentLocked s ow k g h) = s_clears s"
  by (simp_all add: setLiveIntentLocked_def)

lemma resolution_frames [simp]:
  "s_envelopes (putResolution rid res s) = s_envelopes s"
  "s_runStop (putResolution rid res s) = s_runStop s"
  "s_activation (putResolution rid res s) = s_activation s"
  "s_effects (putResolution rid res s) = s_effects s"
  "s_now (putResolution rid res s) = s_now s"
  "s_afterCommit (putResolution rid res s) = s_afterCommit s"
  "s_audits (putResolution rid res s) = s_audits s"
  "s_seq (putResolution rid res s) = s_seq s"
  "s_clears (putResolution rid res s) = s_clears s"
  by (simp_all add: putResolution_def)

lemma ensure_frames [simp]:
  "s_envelopes (ensureActivationLocked s x) = s_envelopes s"
  "s_effects (ensureActivationLocked s x) = s_effects s"
  "s_resolutions (ensureActivationLocked s x) = s_resolutions s"
  "s_now (ensureActivationLocked s x) = s_now s"
  "s_afterCommit (ensureActivationLocked s x) = s_afterCommit s"
  "s_audits (ensureActivationLocked s x) = s_audits s"
  "s_seq (ensureActivationLocked s x) = s_seq s"
  "s_clears (ensureActivationLocked s x) = s_clears s"
  "s_disk (ensureActivationLocked s x) = s_disk s"
  "hook_run (ensureActivationLocked s x) l = hook_run s l"
  "clockStr (ensureActivationLocked s x) = clockStr s"
  by (simp_all add: ensureActivationLocked_def Let_def hook_run_def clockStr_def split: option.split)

lemma clears_grow [simp]: "s_clears s \<subseteq> s_clears (clearIntentLocked s ow k g)"
  by (auto simp: clearIntentLocked_def)

lemma activation_grow [simp]: "s_activation s \<subseteq>\<^sub>m s_activation (ensureActivationLocked s x)"
  by (auto simp: ensureActivationLocked_def Let_def map_le_def)

lemma stops_grow_same [simp]: "s_runStop s' = s_runStop s \<Longrightarrow> stops_grow s s'"
  by (simp add: stops_grow_def)

lemma stops_grow_ensure:
  "s_runStop s' = s_runStop (ensureActivationLocked t x) \<Longrightarrow> s_runStop t = s_runStop s \<Longrightarrow> stops_grow s s'"
  by (auto simp: stops_grow_def ensureActivationLocked_def Let_def initialStop_def)

lemma resolution_grow:
  "rid = '''' \<or> m rid = None \<Longrightarrow> s_resolutions s = m \<Longrightarrow> m \<subseteq>\<^sub>m s_resolutions (putResolution rid res s)"
  by (auto simp: putResolution_def map_le_def)

section \<open>One lemma per operation\<close>

lemma tame_refl [simp]: "tame s (e, s)"
  by (simp add: tame_def grows_def only_disk_def)

lemma tame_failed [simp]: "tame s (e, s\<lparr>s_disk := dk\<rparr>)"
  by (simp add: tame_def grows_def only_disk_def)

lemma post_commitRecord0 [post_log]:
  assumes "\<And>er dk. hook_run s (recordLine cp clr (inc64 (s_seq s))) = (Some er, dk) \<Longrightarrow> Q (Some er, s\<lparr>s_disk := dk\<rparr>)"
    and "\<And>dk. hook_run s (recordLine cp clr (inc64 (s_seq s))) = (None, dk) \<Longrightarrow>
      Q (None, after (putRec ((appendAuditLocked s runID turnID kind det act)\<lparr>s_disk := dk\<rparr>) (recKey runID turnID) cp))"
  shows "post Q (snd (commitRecord s runID turnID r cp kind det act clr after))"
  by (rule commitRecord_cases [of s cp clr runID turnID r kind det act after])
    (simp_all add: assms post_def)

lemma commitRecord_id_tame:
  "post (tame s) (snd (commitRecord s runID turnID r cp kind det act clr id))"
  by (intro post_log tame_failed) (simp add: tame_def grows_def audit_extends_append)

lemma commitRecord_clear_tame:
  "post (tame s) (snd (commitRecord s runID turnID r cp kind det act clr
           (\<lambda>s'. clearIntentLocked s' ow ky gn)))"
  by (intro post_log tame_failed) (auto simp add: tame_def grows_def clearIntentLocked_def)

lemma commitRecord_resolve_tame:
  assumes "rid = '''' \<or> s_resolutions s rid = None"
  shows "post (tame s) (snd (commitRecord s runID turnID r cp kind det act clr
           (\<lambda>s'. putResolution rid res (clearIntentLocked s' ow ky gn))))"
  by (intro post_log tame_failed)
   (use assms in \<open>auto simp add: tame_def grows_def clearIntentLocked_def intro!: resolution_grow\<close>)

lemmas tame_rules = commitRecord_id_tame commitRecord_clear_tame tame_refl tame_failed

lemma commitEffect_tame:
  assumes "s_effects s ek = None \<or> s_effects s ek = Some e"
  shows "post (tame s) (commitEffect s runID turnID ek e kind det act)"
  by (rule commitEffect_cases [of s e runID turnID ek kind det act])
    (use assms in \<open>auto simp: post_def tame_def grows_def only_disk_def map_le_def\<close>)

lemma commitEffect_case_tame:
  assumes "s_effects s ek = None"
  shows "post (tame s) (snd (case commitEffect s runID turnID ek e kind det act of
           (Some er, t) \<Rightarrow> (x, Some er, t) | (None, t) \<Rightarrow> (y, None, t)))"
  by (rule commitEffect_cases [of s e runID turnID ek kind det act])
    (use assms in \<open>auto simp: post_def tame_def grows_def only_disk_def map_le_def\<close>)

lemma casAdvance_tame: "post (tame s) (snd (casAdvance s a b rv ow x y m rl))"
  unfolding casAdvance_def Let_def by (intro tame_rules post_log post_intros)

lemma CASAdvanceSettle_tame: "post (tame s) (snd (CASAdvanceSettle s a b rv x y))"
  unfolding CASAdvanceSettle_def by (intro tame_rules post_log post_intros)

lemma ClaimRecovery_tame: "post (tame s) (snd (ClaimRecovery s a b rv x y))"
  unfolding ClaimRecovery_def by (intro tame_rules post_log post_intros)

lemma SetCancelRequested_tame: "post (tame s) (snd (SetCancelRequested s a b rv x))"
  unfolding SetCancelRequested_def by (intro tame_rules post_log post_intros)

lemma CommitReceipt_tame: "post (tame s) (snd (CommitReceiptAndClearIntent s a b rv x y z w))"
  unfolding CommitReceiptAndClearIntent_def by (intro tame_rules post_log post_intros)

lemma commitTerminal_tame: "post (tame s) (snd (commitTerminal s a b rv x y z w g rl att))"
  unfolding commitTerminal_def Let_def by (intro tame_rules post_log post_intros)

lemma commitPreSend_tame: "post (tame s) (snd (commitPreSend s a b rv lo ow ky gn sg src rl))"
  unfolding commitPreSend_def by (intro tame_rules post_log post_intros)

lemma commitRecord_case_tame:
  "post (tame s) (snd (snd (case commitRecord s runID turnID r cp kind det act clr id of
           (rv, Some er, t) \<Rightarrow> (x, y rv, Some er, t) | (rv, None, t) \<Rightarrow> (z, w rv, None, t))))"
  by (rule commitRecord_cases [of s cp clr runID turnID r kind det act id])
    (use commitRecord_id_tame [of s runID turnID r cp kind det act clr] in \<open>simp_all add: post_def\<close>)

lemma CommitRecoveryUnknown_tame:
  "post (tame s) (snd (snd (CommitRecoveryUnknownOrRequireCancel s a b rv ow)))"
  unfolding CommitRecoveryUnknownOrRequireCancel_def
  by (intro tame_rules commitRecord_case_tame post_intros)

lemma ClaimRecoveryAttach_tame:
  "post (tame s) (snd (snd (ClaimRecoveryAttach s a b rv ow ttl)))"
  unfolding ClaimRecoveryAttach_def Let_def
  by (intro tame_rules commitRecord_case_tame post_intros)

lemma EnterRecoveryAttach_tame: "post (tame s) (EnterRecoveryAttach L s a b tok)"
  unfolding EnterRecoveryAttach_def Let_def
  by (intro tame_rules commitEffect_tame post_intros) (simp split: option.split)

lemma RecordAttachedEffect_tame:
  "post (tame s) (snd (RecordRecoveryAttachedEffect s a b tok ev p))"
  unfolding RecordRecoveryAttachedEffect_def Let_def
  by (intro tame_rules commitEffect_case_tame post_intros)

lemma RecordEffectDone_tame: "post (tame s) (snd (RecordEffectDone s a b k p h))"
  unfolding RecordEffectDone_def Let_def
  by (intro tame_rules commitEffect_case_tame post_intros)

lemma ResolveUncertain_tame: "post (tame s) (snd (ResolveUncertain s a b rv rid act ev))"
  unfolding ResolveUncertain_def Let_def
  by (intro tame_rules commitRecord_resolve_tame post_intros) (auto split: if_splits)

lemma RetryAsNew_tame: "post (tame s) (snd (RetryAsNew s a b rv rid nt g h))"
  unfolding RetryAsNew_def Let_def
  apply (intro tame_rules post_log post_intros)
  subgoal for r env
    by (auto simp: tame_def grows_def intro!: resolution_grow
      envelope_grows_new [of s "recKey a nt"] split: if_splits)
  done

lemma CommitRelease_tame:
  "post (tame s) (snd (CommitReleaseManifestItem L s a b c rv ch env))"
  unfolding CommitReleaseManifestItem_def Let_def
  apply (intro tame_rules post_log post_intros)
  subgoal for item dk
    by (cases "s_records s (recKey (d_RunID (releaseChild (clockStr s) item ch (hashedEnvelope L env)))
          (d_TurnID (releaseChild (clockStr s) item ch (hashedEnvelope L env))))")
      (auto simp: tame_def grows_def intro: map_le_trans [OF _ activation_grow] stops_grow_ensure
        envelope_grows_new [of s "recKey (d_RunID (releaseChild (clockStr s) item ch (hashedEnvelope L env)))
          (d_TurnID (releaseChild (clockStr s) item ch (hashedEnvelope L env)))"])
  done

lemma SuppressRelease_tame:
  "post (tame s) (snd (SuppressReleaseManifestItem s a b c rv g))"
  unfolding SuppressReleaseManifestItem_def Let_def
  by (intro tame_rules post_log post_intros) (simp add: tame_def grows_def)

lemma OpenRepair_tame: "post (tame s) (snd (OpenRepair L s a rs bl h))"
  unfolding OpenRepair_def Let_def
  by (intro tame_rules post_log post_intros) (simp add: tame_def grows_def)

lemma BeginRepair_tame:
  "post (tame s) (snd (snd (BeginRepairResolution s a rv rid ac)))"
  unfolding BeginRepairResolution_def Let_def
  by (intro tame_rules post_log post_intros) (simp add: tame_def grows_def)


lemma grows_refl [simp]: "grows s s"
  by (simp add: grows_def)

lemma grows_disk [simp]: "grows s (s\<lparr>s_disk := dk\<rparr>)"
  by (simp add: grows_def)

lemma ensure_audit [simp]:
  "s_audits (appendAuditLocked (ensureActivationLocked s x) a b c d e) = s_audits (appendAuditLocked s a b c d e)"
  by (simp add: appendAuditLocked_def Let_def)

lemma ensure_grows [simp]: "grows s (ensureActivationLocked s x)"
  by (simp add: grows_def)

lemma CreatePrepared_grows:
  "post (\<lambda>(e, s'). grows s s' \<and> stops_grow s s' \<and> s_effects s \<subseteq>\<^sub>m s_effects s' \<and>
     (e \<noteq> None \<longrightarrow> only_disk s s' \<or> only_disk (ensureActivationLocked s (d_RunID r)) s'))
     (CreatePrepared L s r env)"
  unfolding CreatePrepared_def Let_def
  apply (intro post_log post_intros)
  apply (simp_all add: only_disk_def stops_grow_ensure [OF _ refl])
  apply (auto simp: grows_def intro!: envelope_grows_new [of s "recKey (d_RunID r) (d_TurnID r)"])
  done

lemma post_commitRunStop0 [post_log]:
  assumes "\<And>er dk. hook_run s (runStopLine s cp (inc64 (s_seq s))) = (Some er, dk) \<Longrightarrow> Q (Some er, s\<lparr>s_disk := dk\<rparr>)"
    and "\<And>dk. hook_run s (runStopLine s cp (inc64 (s_seq s))) = (None, dk) \<Longrightarrow>
      Q (None, (appendAuditLocked s runID '''' kind det ''system'')
           \<lparr>s_disk := dk, s_runStop := (s_runStop s)(runID \<mapsto> cp)\<rparr>)"
  shows "post Q (snd (commitRunStop s runID st cp kind det))"
  by (rule logged_cases [of s "runStopLine s cp" runID "''''" kind det "''system''"])
    (simp_all add: assms post_def commitRunStop_def)

lemma RequestRunStop_grows:
  "post (\<lambda>(e, s'). grows s s' \<and> s_effects s' = s_effects s \<and>
     (e \<noteq> None \<longrightarrow> only_disk s s' \<or> s_runStop s a = None \<and> only_disk (ensureActivationLocked s a) s'))
     (snd (RequestRunStop s a rv rs))"
  unfolding RequestRunStop_def Let_def
  by (intro post_log post_intros) (auto simp: only_disk_def grows_def)

lemma ReleaseRunStopFence_grows:
  "post (\<lambda>(e, s'). grows s s' \<and> s_effects s' = s_effects s \<and> (e \<noteq> None \<longrightarrow> only_disk s s'))
     (snd (ReleaseRunStopFence s a rv))"
  unfolding ReleaseRunStopFence_def
  by (intro post_log post_intros) (simp_all add: only_disk_def grows_def)

lemma CreateRelease_grows:
  "post (\<lambda>(e, s'). grows s s' \<and> s_runStop s' = s_runStop s \<and> (e \<noteq> None \<longrightarrow> only_disk s s'))
     (snd (CreateReleaseManifestItem L s a b c i))"
  unfolding CreateReleaseManifestItem_def Let_def
  by (intro post_log post_intros) (simp_all add: only_disk_def grows_def)

lemma abandonLoop_frame: "abandon_frame s (snd (abandonLoop ks s))"
proof (rule abandonLoop_inv)
  show "abandon_frame s s" by (simp add: abandon_frame_def)
next
  fix t ln er and dk :: 'a
  assume "abandon_frame s t"
  then show "abandon_frame s (t\<lparr>s_disk := dk\<rparr>)"
    using audit_extends_trans [of s t "t\<lparr>s_disk := dk\<rparr>"] by (simp add: abandon_frame_def)
next
  fix t k r dk
  assume "abandon_frame s t"
  then show "abandon_frame s (abandonNext t k r dk)"
    using audit_extends_trans [of s t "abandonNext t k r dk"]
    by (auto simp: abandon_frame_def clearIntentLocked_def)
qed

lemma abandon_frame_grows: "abandon_frame s t \<Longrightarrow> grows s t"
  by (simp add: abandon_frame_def grows_def)

lemma abandon_framed:
  assumes "(if c then abandonLoop ks s else (None, s)) = (e, t)"
  shows "abandon_frame s t"
  using assms abandonLoop_frame [of s ks] abandonLoop_frame [of s "[]"] by (auto split: if_splits)

lemma abandon_frame_disk: "abandon_frame s t \<Longrightarrow> abandon_frame s (t\<lparr>s_disk := dk\<rparr>)"
  using audit_extends_trans [of s t "t\<lparr>s_disk := dk\<rparr>"] by (simp add: abandon_frame_def)

lemma abandon_frame_repair:
  assumes "abandon_frame s t"
    and "u = (appendAuditLocked t a b c d e)\<lparr>s_disk := dk, s_repairs := rp\<rparr>"
  shows "grows s u \<and> s_runStop u = s_runStop s \<and> s_effects u = s_effects s"
  using assms audit_extends_trans [of s t u] by (simp add: abandon_frame_def grows_def)

lemma abandon_frame_keeps:
  "abandon_frame s t \<Longrightarrow> grows s t \<and> s_runStop t = s_runStop s \<and> s_effects t = s_effects s"
  by (simp add: abandon_frame_def grows_def)

lemma abandon_frame_refl [simp]: "abandon_frame s s"
  by (simp add: abandon_frame_def)

lemma CommitRepair_grows:
  "post (\<lambda>(e, s'). grows s s' \<and> s_runStop s' = s_runStop s \<and> s_effects s' = s_effects s \<and>
      (e \<noteq> None \<longrightarrow> abandon_frame s s' \<and> (oc \<noteq> RepairResolvedAbandon \<longrightarrow> only_disk s s')))
     (snd (CommitRepairResolution od s a rv rid oc dt))"
  unfolding CommitRepairResolution_def Let_def
  apply (intro post_log post_intros)
  subgoal by (simp add: only_disk_def)
  subgoal by (simp add: only_disk_def)
  subgoal by (simp add: only_disk_def)
  subgoal by (simp add: only_disk_def)
  subgoal premises p for r e t er dk
    using p(5) abandon_framed [OF p(5)] abandon_frame_keeps [OF abandon_frame_disk, of s t dk]
    by (auto simp: only_disk_def abandon_frame_disk)
  subgoal premises p for r e t dk
    using abandon_framed [OF p(5)] abandon_frame_repair [OF _ refl, of s t] by auto
  subgoal premises p for r e t er
    using p(5) abandon_framed [OF p(5)] abandon_frame_keeps [of s t] by (auto simp: only_disk_def split: if_splits)
  done
end
