(* ===== verification/Dispatch_Interface.thy ===== *)
theory Dispatch_Interface
  imports Store_Frames
begin

text \<open>
  The interface \<open>DispatchStore\<close> of \<open>runner/dispatch_store.go\<close> as one datatype of mutating
  calls (the calls the runner makes pass no \<open>mutate\<close> closure; \<open>OpTick\<close> is the passage of
  time), \<open>exec\<close> that dispatches a call to the in-memory store, and the contracts the store
  gives its clients. \<open>cas_store\<close> is a store of versioned entries where a call changes an entry
  by at most one step of a relation: interpreted on the dispatch records and, a second time, on
  the run-stop states. \<open>fenced_store\<close> extends it with a fence that keeps unsent entries
  unsent: interpreted on the cancel flag of a record and on the stop of a run.
\<close>

section \<open>Calls\<close>

text \<open>The calls that compare and swap one record, without the record and the expected revision.\<close>

datatype (plugins only: size) cas_call =
    Advance DispatchState DispatchState
  | RecoveryAdvance string DispatchState DispatchState
  | AdvanceSettle SettlePhase SettlePhase
  | TakeLease string time
  | SetCancel int64
  | Receipt ReceiptEvidence string string int64
  | Terminal TerminalEvidence string string int64
  | RecoveredTerminal string TerminalEvidence string string int64
  | RecoveryUnknown string
  | TakeAttach string time
  | AttachedTerminal RecoveryAttachToken TerminalEvidence string string int64
  | PreSend string string int64 int64 PreSendStopSource
  | RecoveryPreSend string string string int64 int64 PreSendStopSource
  | Resolve string ResolveAction OperatorEvidence
  | Retry string string int64 string

datatype (plugins only: size) dispatch_op =
    OpTick time
  | OpCreatePrepared DispatchRecord DispatchEnvelope
  | OpCAS string string int64 cas_call
  | OpRequestRunStop string int64 StopReason
  | OpReleaseRunStopFence string int64
  | OpEnterRecoveryAttach string string RecoveryAttachToken
  | OpRecordAttachedEffect string string RecoveryAttachToken string AttachedEffectPayload
  | OpRecordEffectDone string string string string string
  | OpCreateRelease string string string DurableIntent
  | OpCommitRelease string string string int64 DispatchRecord DispatchEnvelope
  | OpSuppressRelease string string string int64 int64
  | OpOpenRepair string string string string
  | OpBeginRepair string int64 string RepairAction
  | OpCommitRepair "string list" string int64 string RepairOutcome string

primrec exec_cas ::
  "cas_call \<Rightarrow> 'd memoryDispatchStore \<Rightarrow> string \<Rightarrow> string \<Rightarrow> int64 \<Rightarrow> error option \<times> 'd memoryDispatchStore" where
  "exec_cas (Advance x y) s a b rv = snd (CASAdvance s a b rv x y None)"
| "exec_cas (RecoveryAdvance ow x y) s a b rv = snd (CASRecoveryAdvance s a b rv ow x y None)"
| "exec_cas (AdvanceSettle x y) s a b rv = snd (CASAdvanceSettle s a b rv x y)"
| "exec_cas (TakeLease ow ttl) s a b rv = snd (ClaimRecovery s a b rv ow ttl)"
| "exec_cas (SetCancel g) s a b rv = snd (SetCancelRequested s a b rv g)"
| "exec_cas (Receipt rc ow ky g) s a b rv = snd (CommitReceiptAndClearIntent s a b rv rc ow ky g)"
| "exec_cas (Terminal pf ow ky g) s a b rv = snd (CommitTerminalAndSettleIntent s a b rv pf ow ky g)"
| "exec_cas (RecoveredTerminal lo pf ow ky g) s a b rv =
     snd (CommitRecoveredTerminalAndSettleIntent s a b rv lo pf ow ky g)"
| "exec_cas (RecoveryUnknown lo) s a b rv = snd (snd (CommitRecoveryUnknownOrRequireCancel s a b rv lo))"
| "exec_cas (TakeAttach lo ttl) s a b rv = snd (snd (ClaimRecoveryAttach s a b rv lo ttl))"
| "exec_cas (AttachedTerminal tok pf ow ky g) s a b rv =
     snd (CommitAttachedTerminalAndSettleIntent s a b rv tok pf ow ky g)"
| "exec_cas (PreSend ow ky g sg src) s a b rv =
     snd (CommitPreSendCancellationAndClearIntent s a b rv ow ky g sg src)"
| "exec_cas (RecoveryPreSend lo ow ky g sg src) s a b rv =
     snd (CommitRecoveryPreSendCancellationAndClearIntent s a b rv lo ow ky g sg src)"
| "exec_cas (Resolve rid act ev) s a b rv = snd (ResolveUncertain s a b rv rid act ev)"
| "exec_cas (Retry rid nt g h) s a b rv = snd (RetryAsNew s a b rv rid nt g h)"

primrec exec :: "golib \<Rightarrow> dispatch_op \<Rightarrow> 'd memoryDispatchStore \<Rightarrow> error option \<times> 'd memoryDispatchStore" where
  "exec L (OpTick d) s = (None, s\<lparr>s_now := s_now s + \<bar>d\<bar>\<rparr>)"
| "exec L (OpCreatePrepared r env) s = CreatePrepared L s r env"
| "exec L (OpCAS a b rv c) s = exec_cas c s a b rv"
| "exec L (OpRequestRunStop a rv rs) s = snd (RequestRunStop s a rv rs)"
| "exec L (OpReleaseRunStopFence a rv) s = snd (ReleaseRunStopFence s a rv)"
| "exec L (OpEnterRecoveryAttach a b tok) s = EnterRecoveryAttach L s a b tok"
| "exec L (OpRecordAttachedEffect a b tok ev p) s = snd (RecordRecoveryAttachedEffect s a b tok ev p)"
| "exec L (OpRecordEffectDone a b k p h) s = snd (RecordEffectDone s a b k p h)"
| "exec L (OpCreateRelease a b c i) s = snd (CreateReleaseManifestItem L s a b c i)"
| "exec L (OpCommitRelease a b c rv ch env) s = snd (CommitReleaseManifestItem L s a b c rv ch env)"
| "exec L (OpSuppressRelease a b c rv g) s = snd (SuppressReleaseManifestItem s a b c rv g)"
| "exec L (OpOpenRepair a rs bl h) s = snd (OpenRepair L s a rs bl h)"
| "exec L (OpBeginRepair a rv rid ac) s = snd (snd (BeginRepairResolution s a rv rid ac))"
| "exec L (OpCommitRepair od a rv rid oc dt) s = snd (CommitRepairResolution od s a rv rid oc dt)"

definition after_op :: "golib \<Rightarrow> dispatch_op \<Rightarrow> 'd memoryDispatchStore \<Rightarrow> 'd memoryDispatchStore" where
  "after_op L op s = snd (exec L op s)"

definition after_ops :: "golib \<Rightarrow> dispatch_op list \<Rightarrow> 'd memoryDispatchStore \<Rightarrow> 'd memoryDispatchStore" where
  "after_ops L ops s = fold (after_op L) ops s"

text \<open>A call that replays an operator resolution already recorded.\<close>

fun is_replay :: "'d memoryDispatchStore \<Rightarrow> cas_call \<Rightarrow> bool" where
  "is_replay s (Resolve rid act ev) \<longleftrightarrow> rid \<noteq> '''' \<and> s_resolutions s rid \<noteq> None"
| "is_replay s (Retry rid nt g h) \<longleftrightarrow> rid \<noteq> '''' \<and> s_resolutions s rid \<noteq> None"
| "is_replay s _ \<longleftrightarrow> False"

fun is_advance :: "cas_call \<Rightarrow> bool" where
  "is_advance (Advance x y) = True"
| "is_advance (RecoveryAdvance ow x y) = True"
| "is_advance _ = False"

fun writes_stop :: "dispatch_op \<Rightarrow> string option" where
  "writes_stop (OpRequestRunStop a rv rs) = Some a"
| "writes_stop (OpReleaseRunStopFence a rv) = Some a"
| "writes_stop _ = None"

section \<open>Contracts\<close>

text \<open>
  A store of entries under keys: no call removes an entry, a call changes an entry by at most
  one step of \<open>R\<close>, and a new entry is \<open>fresh\<close>.
\<close>

locale cas_store =
  fixes step :: "'op \<Rightarrow> 's \<Rightarrow> 's"
    and look :: "'s \<Rightarrow> 'k \<Rightarrow> 'r option"
    and R :: "'r \<Rightarrow> 'r \<Rightarrow> bool"
    and fresh :: "'k \<Rightarrow> 'r \<Rightarrow> bool"
  assumes keeps: "look s k = Some r \<Longrightarrow> \<exists>r'. look (step op s) k = Some r' \<and> (r' = r \<or> R r r')"
    and creates: "look s k = None \<Longrightarrow> look (step op s) k = Some r' \<Longrightarrow> fresh k r'"
begin

lemma history_keeps:
  assumes "look s k = Some r"
  shows "\<exists>r'. look (fold step ops s) k = Some r' \<and> R\<^sup>*\<^sup>* r r'"
  using assms
proof (induction ops arbitrary: s r)
  case Nil
  then show ?case by auto
next
  case (Cons op ops)
  from keeps [OF Cons.prems, of op] obtain r1
    where r1: "look (step op s) k = Some r1" "r1 = r \<or> R r r1" by blast
  from Cons.IH [OF r1(1)] obtain r' where "look (fold step ops (step op s)) k = Some r'" "R\<^sup>*\<^sup>* r1 r'"
    by blast
  with r1(2) show ?case by (auto intro: converse_rtranclp_into_rtranclp)
qed

lemma history_stable:
  assumes "look s k = Some r" and "P r" and "\<And>a b. P a \<Longrightarrow> R a b \<Longrightarrow> P b"
  shows "\<exists>r'. look (fold step ops s) k = Some r' \<and> P r'"
proof -
  have "P r'" if "R\<^sup>*\<^sup>* r r'" for r'
    using that by induction (use assms in auto)
  with history_keeps [OF assms(1), of ops] show ?thesis by blast
qed

lemma history_invariant:
  assumes "\<And>k r. look s k = Some r \<Longrightarrow> P k r"
    and "\<And>k r. fresh k r \<Longrightarrow> P k r" and "\<And>k a b. P k a \<Longrightarrow> R a b \<Longrightarrow> P k b"
    and "look (fold step ops s) k = Some r"
  shows "P k r"
  using assms(1,4)
proof (induction ops arbitrary: s)
  case Nil
  then show ?case by simp
next
  case (Cons op ops)
  have "P k r" if "look (step op s) k = Some r" for k r
    using that keeps [of s k _ op] creates [of s k op] Cons.prems(1) assms(2,3)
    by (cases "look s k") fastforce+
  with Cons.IH [of "step op s"] Cons.prems(2) show ?case by simp
qed

end

text \<open>
  A fence over such a store: while the fence of a key is up, no call sends the entry, and only
  the calls \<open>lifts\<close> names take it down.
\<close>

locale fenced_store = cas_store step look R fresh
  for step :: "'op \<Rightarrow> 's \<Rightarrow> 's" and look :: "'s \<Rightarrow> 'k \<Rightarrow> 'r option" and R fresh +
  fixes unsent :: "'r \<Rightarrow> bool"
    and fence :: "'s \<Rightarrow> 'k \<Rightarrow> bool"
    and lifts :: "'op \<Rightarrow> 'k \<Rightarrow> bool"
  assumes holds: "look s k = Some r \<Longrightarrow> unsent r \<Longrightarrow> fence s k \<Longrightarrow>
      look (step op s) k = Some r' \<Longrightarrow> unsent r'"
    and stays: "look s k = Some r \<Longrightarrow> fence s k \<Longrightarrow> \<not> lifts op k \<Longrightarrow> fence (step op s) k"
begin

lemma never_sent:
  assumes "look s k = Some r" and "unsent r" and "fence s k" and "\<forall>op \<in> set ops. \<not> lifts op k"
  shows "\<exists>r'. look (fold step ops s) k = Some r' \<and> unsent r'"
  using assms
proof (induction ops arbitrary: s r)
  case Nil
  then show ?case by auto
next
  case (Cons op ops)
  from keeps [OF Cons.prems(1), of op] obtain r1 where r1: "look (step op s) k = Some r1" by blast
  have "unsent r1" by (rule holds [OF Cons.prems(1-3) r1])
  moreover have "fence (step op s) k" using stays [OF Cons.prems(1,3)] Cons.prems(4) by simp
  ultimately show ?case using Cons.IH [OF r1] Cons.prems(4) by simp
qed

end

section \<open>Records\<close>

lemma post_snd_fst: "post Q (snd x) \<Longrightarrow> Q (snd x)"
  by (simp add: post_def)

lemmas record_evolves =
  casAdvance_evolves [of None] CASAdvanceSettle_evolves ClaimRecovery_evolves SetCancelRequested_evolves
  CommitReceipt_evolves commitTerminal_evolves CommitRecoveryUnknown_evolves ClaimRecoveryAttach_evolves
  commitPreSend_evolves ResolveUncertain_evolves RetryAsNew_evolves

lemma evolves_quiet_rec: "evolves quiet_step s t \<Longrightarrow> evolves rec_step s t"
  by (erule evolves_mono) (rule quiet_imp_rec)

lemma exec_cas_quiet:
  "\<not> is_advance c \<Longrightarrow> evolves quiet_step s (snd (exec_cas c s a b rv))"
  using record_evolves [unfolded post_def]
  by (cases c) (simp_all add: CommitTerminalAndSettleIntent_def CommitRecoveredTerminalAndSettleIntent_def
      CommitAttachedTerminalAndSettleIntent_def CommitPreSendCancellationAndClearIntent_def
      CommitRecoveryPreSendCancellationAndClearIntent_def)

lemma exec_cas_evolves: "evolves rec_step s (snd (exec_cas c s a b rv))"
proof (cases "is_advance c")
  case True
  then show ?thesis
    using casAdvance_evolves [of None, unfolded post_def]
    by (cases c) (simp_all add: CASAdvance_def CASRecoveryAdvance_def benign_mutate_def)
next
  case False
  then show ?thesis by (rule evolves_quiet_rec [OF exec_cas_quiet])
qed

lemmas other_evolves =
  CreatePrepared_evolves RequestRunStop_evolves ReleaseRunStopFence_evolves EnterRecoveryAttach_evolves
  RecordAttachedEffect_evolves RecordEffectDone_evolves CreateRelease_evolves CommitRelease_evolves
  SuppressRelease_evolves OpenRepair_evolves BeginRepair_evolves CommitRepair_evolves

lemma exec_quiet:
  assumes "\<And>a b rv c. op = OpCAS a b rv c \<Longrightarrow> \<not> is_advance c"
  shows "evolves quiet_step s (after_op L op s)"
  using assms other_evolves [unfolded post_def]
  by (cases op) (simp_all add: after_op_def evolves_same exec_cas_quiet)

lemma exec_evolves: "evolves rec_step s (after_op L op s)"
proof (cases "\<exists>a b rv c. op = OpCAS a b rv c \<and> is_advance c")
  case True
  then show ?thesis by (auto simp: after_op_def exec_cas_evolves)
next
  case False
  then show ?thesis by (intro evolves_quiet_rec exec_quiet) auto
qed

definition fresh_at :: "string \<Rightarrow> DispatchRecord \<Rightarrow> bool" where
  "fresh_at k r \<longleftrightarrow> fresh_record r \<and> k = recKey (d_RunID r) (d_TurnID r)"

interpretation recs: cas_store "after_op L" s_records rec_step fresh_at
  for L :: golib
proof
  fix s :: "'a memoryDispatchStore" and k r r' op
  show "\<exists>r'. s_records (after_op L op s) k = Some r' \<and> (r' = r \<or> rec_step r r')"
    if "s_records s k = Some r"
    using that exec_evolves [of s L op] unfolding evolves_def by blast
  show "fresh_at k r'" if "s_records s k = None" "s_records (after_op L op s) k = Some r'"
    using that exec_evolves [of s L op] unfolding evolves_def fresh_at_def by blast
qed

section \<open>Frames of a call\<close>

lemmas cas_tame =
  casAdvance_tame CASAdvanceSettle_tame ClaimRecovery_tame SetCancelRequested_tame CommitReceipt_tame
  commitTerminal_tame CommitRecoveryUnknown_tame ClaimRecoveryAttach_tame commitPreSend_tame
  ResolveUncertain_tame RetryAsNew_tame

lemmas cas_defs =
  CASAdvance_def CASRecoveryAdvance_def CommitTerminalAndSettleIntent_def
  CommitRecoveredTerminalAndSettleIntent_def CommitAttachedTerminalAndSettleIntent_def
  CommitPreSendCancellationAndClearIntent_def CommitRecoveryPreSendCancellationAndClearIntent_def

lemma exec_cas_tame: "tame s (exec_cas c s a b rv)"
  using cas_tame [unfolded post_def] by (cases c) (simp_all add: cas_defs)

definition stop_step :: "RunStopState \<Rightarrow> RunStopState \<Rightarrow> bool" where
  "stop_step a b \<longleftrightarrow>
     rs_RunID b = rs_RunID a \<and> rs_Revision b = inc64 (rs_Revision a) \<and>
     (if rs_Stopped b then rs_Generation b = inc64 (rs_Generation a)
      else rs_Stopped a \<and> rs_Generation b = rs_Generation a)"

definition fresh_stop :: "string \<Rightarrow> RunStopState \<Rightarrow> bool" where
  "fresh_stop x st \<longleftrightarrow> st = initialStop x \<or> stop_step (initialStop x) st"

definition stops_evolve :: "'d memoryDispatchStore \<Rightarrow> 'd memoryDispatchStore \<Rightarrow> bool" where
  "stops_evolve s s' \<longleftrightarrow>
     (\<forall>x. s_runStop s' x = s_runStop s x \<or>
        (\<exists>st'. s_runStop s' x = Some st' \<and>
           (case s_runStop s x of None \<Rightarrow> fresh_stop x st' | Some st \<Rightarrow> stop_step st st')))"

lemma stops_grow_evolve: "stops_grow s s' \<Longrightarrow> stops_evolve s s'"
  unfolding stops_grow_def stops_evolve_def fresh_stop_def by (auto split: option.split) 

lemma ensure_stop:
  "s_runStop s x = None \<Longrightarrow> s_runStop (ensureActivationLocked s x) = (s_runStop s)(x \<mapsto> initialStop x)"
  by (simp add: ensureActivationLocked_def initialStop_def Let_def)

lemma RequestRunStop_stops: "post (stops_evolve s) (snd (snd (RequestRunStop s a rv rs)))"
  unfolding RequestRunStop_def Let_def
  by (intro post_log post_intros)
    (auto simp: stops_evolve_def stop_step_def fresh_stop_def ensure_stop split: option.splits)

lemma RequestRunStop_other:
  "x \<noteq> a \<Longrightarrow> post (\<lambda>s'. s_runStop s' x = s_runStop s x) (snd (snd (RequestRunStop s a rv rs)))"
  unfolding RequestRunStop_def Let_def
  by (intro post_log post_intros) (auto simp: ensure_stop)

lemma ReleaseRunStopFence_stops: "post (stops_evolve s) (snd (snd (ReleaseRunStopFence s a rv)))"
  unfolding ReleaseRunStopFence_def
  by (intro post_log post_intros) (auto simp: stops_evolve_def stop_step_def)

lemma ReleaseRunStopFence_other:
  "x \<noteq> a \<Longrightarrow> post (\<lambda>s'. s_runStop s' x = s_runStop s x) (snd (snd (ReleaseRunStopFence s a rv)))"
  unfolding ReleaseRunStopFence_def
  by (intro post_log post_intros) auto

lemmas call_tame = exec_cas_tame
  EnterRecoveryAttach_tame [unfolded post_def] RecordAttachedEffect_tame [unfolded post_def]
  RecordEffectDone_tame [unfolded post_def] CommitRelease_tame [unfolded post_def]
  SuppressRelease_tame [unfolded post_def] OpenRepair_tame [unfolded post_def] BeginRepair_tame [unfolded post_def]

lemmas call_grows =
  CreatePrepared_grows [unfolded post_def case_prod_beta] RequestRunStop_grows [unfolded post_def case_prod_beta]
  ReleaseRunStopFence_grows [unfolded post_def case_prod_beta]
  CreateRelease_grows [unfolded post_def case_prod_beta] CommitRepair_grows [unfolded post_def case_prod_beta]

lemma tame_stops: "tame s x \<Longrightarrow> stops_grow s (snd x)"
  by (auto simp: tame_def)

lemma tame_grows: "tame s x \<Longrightarrow> grows s (snd x)"
  by (auto simp: tame_def)

lemma tame_effects: "tame s x \<Longrightarrow> s_effects s \<subseteq>\<^sub>m s_effects (snd x)"
  by (auto simp: tame_def)

lemma tame_error: "tame s x \<Longrightarrow> fst x = Some e \<Longrightarrow> only_disk s (snd x)"
  by (auto simp: tame_def)

lemma exec_stops_grow: "writes_stop op = None \<Longrightarrow> stops_grow s (after_op L op s)"
  by (cases op) (simp_all add: after_op_def call_grows call_tame [THEN tame_stops])

lemma exec_stops: "stops_evolve s (after_op L op s)"
proof (cases "writes_stop op")
  case None
  then show ?thesis by (intro stops_grow_evolve exec_stops_grow)
next
  case (Some x)
  then show ?thesis
    using RequestRunStop_stops [unfolded post_def] ReleaseRunStopFence_stops [unfolded post_def]
    by (cases op) (auto simp: after_op_def)
qed

lemma exec_grows: "(\<nexists>d. op = OpTick d) \<Longrightarrow> grows s (after_op L op s)"
  by (cases op) (simp_all add: after_op_def call_grows call_tame [THEN tame_grows])

interpretation stops: cas_store "after_op L" s_runStop stop_step fresh_stop
  for L :: golib
proof
  fix s :: "'a memoryDispatchStore" and x st st' op
  have ev: "stops_evolve s (after_op L op s)" by (rule exec_stops)
  show "\<exists>st'. s_runStop (after_op L op s) x = Some st' \<and> (st' = st \<or> stop_step st st')"
    if "s_runStop s x = Some st"
    using ev that by (auto simp: stops_evolve_def dest: spec [of _ x])
  show "fresh_stop x st'" if "s_runStop s x = None" "s_runStop (after_op L op s) x = Some st'"
    using ev that by (auto simp: stops_evolve_def dest: spec [of _ x])
qed

lemma exec_runStop_other:
  assumes "s_runStop s x = Some st" and "writes_stop op \<noteq> Some x"
  shows "s_runStop (after_op L op s) x = Some st"
proof (cases "writes_stop op")
  case None
  with assms(1) exec_stops_grow [of op s L] show ?thesis by (auto simp: stops_grow_def dest: spec [of _ x])
next
  case (Some y)
  with assms show ?thesis
    by (cases op) (auto simp: after_op_def RequestRunStop_other [unfolded post_def]
      ReleaseRunStopFence_other [unfolded post_def])
qed

lemma RequestRunStop_stopped:
  "s_runStop s a = Some st \<Longrightarrow> rs_Stopped st \<Longrightarrow>
   post (\<lambda>s'. \<exists>st'. s_runStop s' a = Some st' \<and> rs_Stopped st') (snd (snd (RequestRunStop s a rv rs)))"
  unfolding RequestRunStop_def Let_def
  by (intro post_log post_intros) auto

section \<open>Starting a send\<close>

lemma edge_to_started [simp]: "isLegalEdge a DispatchSendStarted \<longleftrightarrow> a = DispatchSendClaimed"
  by (cases a) (simp_all add: isLegalEdge_def)

lemma casAdvance_started:
  assumes "s_records s (recKey a b) = Some r" and "d_State r \<noteq> DispatchSendStarted"
  shows "post (\<lambda>s'. \<forall>r'. s_records s' (recKey a b) = Some r' \<longrightarrow> d_State r' = DispatchSendStarted \<longrightarrow>
      d_State r = DispatchSendClaimed \<and> \<not> d_CancelRequested r \<and> checkOwnStopLocked s a = None \<and>
      checkParentFenceLocked s r = None \<and> rv = d_Revision r)
    (snd (snd (casAdvance s a b rv ow x y m rl)))"
  unfolding casAdvance_def Let_def
  by (intro post_log post_intros)
    (use assms in \<open>auto simp: canTransition_None_iff split: option.splits if_splits\<close>)

lemma casAdvance_other_key:
  assumes "k \<noteq> recKey a b"
  shows "post (\<lambda>s'. s_records s' k = s_records s k) (snd (snd (casAdvance s a b rv ow x y m rl)))"
  unfolding casAdvance_def Let_def
  by (intro post_log post_intros) (use assms in auto)

text \<open>What holds of a record, and of the store, at the moment a call starts its send.\<close>

definition may_start :: "'d memoryDispatchStore \<Rightarrow> string \<Rightarrow> DispatchRecord \<Rightarrow> bool" where
  "may_start s runID r \<longleftrightarrow>
     d_State r = DispatchSendClaimed \<and> \<not> d_CancelRequested r \<and>
     (\<forall>st. s_runStop s runID = Some st \<longrightarrow> \<not> rs_Stopped st) \<and>
     (\<forall>f. d_ParentStopFence r = Some f \<longrightarrow>
        (\<exists>st. s_runStop s (pf_ParentRunID f) = Some st \<and> \<not> rs_Stopped st \<and>
           rs_Generation st = pf_ExpectedStopGeneration f))"

lemma may_startI:
  assumes "d_State r = DispatchSendClaimed" "\<not> d_CancelRequested r" "checkOwnStopLocked s a = None"
    and "checkParentFenceLocked s r = None"
  shows "may_start s a r"
  using assms by (auto simp: may_start_def checkOwnStopLocked_def checkParentFenceLocked_def
      split: option.splits if_splits)

lemma quiet_not_started:
  assumes "evolves quiet_step s s'" and "s_records s k = Some r" and "d_State r \<noteq> DispatchSendStarted"
    and "s_records s' k = Some r'"
  shows "d_State r' \<noteq> DispatchSendStarted"
  using assms unfolding evolves_def quiet_step_def by fastforce

lemma start_needs_claim:
  assumes "s_records s k = Some r" and "d_State r \<noteq> DispatchSendStarted"
    and "s_records (after_op L op s) k = Some r'" and "d_State r' = DispatchSendStarted"
  shows "\<exists>a b c. op = OpCAS a b (d_Revision r) c \<and> is_advance c \<and> k = recKey a b \<and> may_start s a r"
proof (cases "\<exists>a b rv c. op = OpCAS a b rv c \<and> is_advance c")
  case False
  with assms quiet_not_started [OF exec_quiet assms(1,2)] show ?thesis by blast
next
  case True
  then obtain a b rv c where op: "op = OpCAS a b rv c" and c: "is_advance c" by blast
  obtain ow x y rl where ca: "after_op L op s = snd (snd (casAdvance s a b rv ow x y None rl))"
    using op c by (cases c) (auto simp: after_op_def cas_defs)
  have k: "k = recKey a b"
    using casAdvance_other_key [of k a b s, unfolded post_def] assms ca by force
  with assms ca casAdvance_started [of s a b r, unfolded post_def] op c show ?thesis
    by (auto intro!: may_startI)
qed

section \<open>Fences\<close>

definition unsent :: "DispatchRecord \<Rightarrow> bool" where
  "unsent r \<longleftrightarrow> d_State r \<in> {DispatchPrepared, DispatchSendClaimed, DispatchTerminalCancelled}"

definition cancel_fence :: "'d memoryDispatchStore \<Rightarrow> string \<Rightarrow> bool" where
  "cancel_fence s k \<longleftrightarrow> (\<exists>r. s_records s k = Some r \<and> d_CancelRequested r)"

definition stop_fence :: "string \<Rightarrow> 'd memoryDispatchStore \<Rightarrow> string \<Rightarrow> bool" where
  "stop_fence runID s k \<longleftrightarrow>
     nul_free runID \<and> (\<exists>turnID. nul_free turnID \<and> k = recKey runID turnID) \<and>
     (\<exists>st. s_runStop s runID = Some st \<and> rs_Stopped st)"

definition generation_fence :: "string \<Rightarrow> 'd memoryDispatchStore \<Rightarrow> string \<Rightarrow> bool" where
  "generation_fence parent s k \<longleftrightarrow>
     (\<exists>r f st. s_records s k = Some r \<and> d_ParentStopFence r = Some f \<and> pf_ParentRunID f = parent \<and>
        s_runStop s parent = Some st \<and> rs_Generation st \<noteq> pf_ExpectedStopGeneration f)"

definition releases_stop :: "string \<Rightarrow> dispatch_op \<Rightarrow> bool" where
  "releases_stop runID op \<longleftrightarrow> (\<exists>rv. op = OpReleaseRunStopFence runID rv)"

definition requests_stop :: "string \<Rightarrow> dispatch_op \<Rightarrow> bool" where
  "requests_stop runID op \<longleftrightarrow> (\<exists>rv rs. op = OpRequestRunStop runID rv rs)"

lemma rec_step_fence: "rec_step a b \<Longrightarrow> d_ParentStopFence b = d_ParentStopFence a"
  by (simp add: rec_step_def)

lemma rec_step_cancel: "rec_step a b \<Longrightarrow> d_CancelRequested a \<Longrightarrow> d_CancelRequested b"
  by (simp add: rec_step_def)

lemma recKey_inject:
  assumes "nul_free a" and "nul_free b" and "recKey a b = recKey c d"
  shows "c = a \<and> d = b"
proof -
  have "count_list (recKey a b) NUL = 1"
    using assms(1,2) by (simp add: recKey_def nul_free_def count_notin)
  then have "count_list c NUL = 0"
    unfolding assms(3) by (simp add: recKey_def)
  then have "NUL \<notin> set c" by (simp add: count_list_0_iff)
  with assms split_at_sep [of NUL a c b d] show ?thesis by (auto simp: recKey_def nul_free_def)
qed

lemma unsent_step:
  assumes "r' = r \<or> rec_step r r'" and "unsent r" and "d_State r' \<noteq> DispatchSendStarted"
  shows "unsent r'"
  using assms by (auto simp: rec_step_def unsent_def isLegalEdge_def)

lemma unsent_kept:
  assumes "s_records s k = Some r" and "unsent r" and "s_records (after_op L op s) k = Some r'"
    and "\<And>a b c. op = OpCAS a b (d_Revision r) c \<Longrightarrow> k = recKey a b \<Longrightarrow> \<not> may_start s a r"
  shows "unsent r'"
proof -
  have "d_State r \<noteq> DispatchSendStarted" using assms(2) by (auto simp: unsent_def)
  with assms start_needs_claim [OF assms(1) _ assms(3)] have "d_State r' \<noteq> DispatchSendStarted" by blast
  moreover have "r' = r \<or> rec_step r r'" using recs.keeps [OF assms(1), of L op] assms(3) by auto
  ultimately show ?thesis using assms(2) unsent_step by blast
qed

lemma Release_generation:
  "s_runStop s x = Some st \<Longrightarrow>
   post (\<lambda>s'. \<exists>st'. s_runStop s' x = Some st' \<and> rs_Generation st' = rs_Generation st)
     (snd (snd (ReleaseRunStopFence s a rv)))"
  unfolding ReleaseRunStopFence_def by (intro post_log post_intros) auto

lemma exec_stop_stays:
  assumes "s_runStop s x = Some st" and "rs_Stopped st" and "\<not> releases_stop x op"
  shows "\<exists>st'. s_runStop (after_op L op s) x = Some st' \<and> rs_Stopped st'"
proof (cases "writes_stop op = Some x")
  case False
  with assms exec_runStop_other show ?thesis by blast
next
  case True
  with assms RequestRunStop_stopped [OF assms(1,2), unfolded post_def] show ?thesis
    by (cases op) (auto simp: after_op_def releases_stop_def)
qed

lemma exec_generation_stays:
  assumes "s_runStop s x = Some st" and "\<not> requests_stop x op"
  shows "\<exists>st'. s_runStop (after_op L op s) x = Some st' \<and> rs_Generation st' = rs_Generation st"
proof (cases "writes_stop op = Some x")
  case False
  with assms exec_runStop_other show ?thesis by blast
next
  case True
  with assms Release_generation [OF assms(1), unfolded post_def] show ?thesis
    by (cases op) (auto simp: after_op_def requests_stop_def)
qed

interpretation cancelled: fenced_store "after_op L" s_records rec_step fresh_at unsent cancel_fence "\<lambda>_ _. False"
  for L :: golib
proof
  fix s :: "'a memoryDispatchStore" and k r op r'
  assume r: "s_records s k = Some r"
  show "unsent r'" if "unsent r" "cancel_fence s k" "s_records (after_op L op s) k = Some r'"
    by (rule unsent_kept [OF r that(1,3)]) (use r that(2) in \<open>auto simp: cancel_fence_def may_start_def\<close>)
  show "cancel_fence (after_op L op s) k" if "cancel_fence s k"
    using that r recs.keeps [OF r, of L op] rec_step_cancel by (fastforce simp: cancel_fence_def)
qed

interpretation stopped: fenced_store "after_op L" s_records rec_step fresh_at unsent "stop_fence x"
    "\<lambda>op _. releases_stop x op"
  for L :: golib and x
proof
  fix s :: "'a memoryDispatchStore" and k r op r'
  assume r: "s_records s k = Some r" and f: "stop_fence x s k"
  show "unsent r'" if "unsent r" "s_records (after_op L op s) k = Some r'"
  proof (rule unsent_kept [OF r that])
    fix a b c assume "k = recKey a b"
    with f have "a = x" unfolding stop_fence_def by (metis recKey_inject)
    with f show "\<not> may_start s a r" by (auto simp: stop_fence_def may_start_def)
  qed
  show "stop_fence x (after_op L op s) k" if "\<not> releases_stop x op"
    using f exec_stop_stays [OF _ _ that, of s _ L] by (auto simp: stop_fence_def)
qed

interpretation outdated: fenced_store "after_op L" s_records rec_step fresh_at unsent "generation_fence p"
    "\<lambda>op _. requests_stop p op"
  for L :: golib and p
proof
  fix s :: "'a memoryDispatchStore" and k r op r'
  assume r: "s_records s k = Some r" and f: "generation_fence p s k"
  show "unsent r'" if "unsent r" "s_records (after_op L op s) k = Some r'"
    by (rule unsent_kept [OF r that]) (use f r in \<open>auto simp: generation_fence_def may_start_def\<close>)
  show "generation_fence p (after_op L op s) k" if nr: "\<not> requests_stop p op"
  proof -
    from f r obtain f0 st where st: "d_ParentStopFence r = Some f0" "pf_ParentRunID f0 = p"
      "s_runStop s p = Some st" "rs_Generation st \<noteq> pf_ExpectedStopGeneration f0"
      by (auto simp: generation_fence_def)
    obtain r1 where "s_records (after_op L op s) k = Some r1" "d_ParentStopFence r1 = Some f0"
      using recs.keeps [OF r, of L op] st(1) rec_step_fence by metis
    moreover obtain st1 where "s_runStop (after_op L op s) p = Some st1" "rs_Generation st1 = rs_Generation st"
      using exec_generation_stays [OF st(3) nr, of L] by blast
    ultimately show ?thesis unfolding generation_fence_def using st(2,4) by metis
  qed
qed

section \<open>Stale writers\<close>

lemma exec_cas_stale:
  assumes "s_records s (recKey a b) = Some r" and "d_Revision r \<noteq> rv" and "\<not> is_replay s c"
  shows "exec_cas c s a b rv = (Some ErrStaleDispatch, s)"
proof -
  have g: "getRecLocked s a b = Inr r" using assms(1) by simp
  show ?thesis
    using assms(2,3)
    by (cases c) (auto simp: g cas_defs casAdvance_def CASAdvanceSettle_def ClaimRecovery_def
        SetCancelRequested_def CommitReceiptAndClearIntent_def commitTerminal_def
        CommitRecoveryUnknownOrRequireCancel_def ClaimRecoveryAttach_def commitPreSend_def
        ResolveUncertain_def RetryAsNew_def simp del: getRec_Inr)
qed

lemma exec_cas_missing:
  assumes "s_records s (recKey a b) = None" and "\<not> is_replay s c"
  shows "exec_cas c s a b rv = (Some ErrNotFound, s)"
proof -
  have g: "getRecLocked s a b = Inl ErrNotFound" using assms(1) by (simp add: getRec_Inl)
  show ?thesis
    using assms(2)
    by (cases c) (auto simp: g cas_defs casAdvance_def CASAdvanceSettle_def ClaimRecovery_def
        SetCancelRequested_def CommitReceiptAndClearIntent_def commitTerminal_def
        CommitRecoveryUnknownOrRequireCancel_def ClaimRecoveryAttach_def commitPreSend_def
        ResolveUncertain_def RetryAsNew_def)
qed

end
