(* ===== verification/Dispatch_Demo.thy ===== *)
theory Dispatch_Demo
  imports Dispatch_Interface
begin

text \<open>
  Concrete inputs on which the witnesses of the properties evaluate: a library, a record and
  its envelope, stores that hold a claimed turn, a stopped run, a child of a stopped parent, and
  a store whose commit hook refuses every line.
\<close>

definition demo_lib :: golib where
  "demo_lib =
     \<lparr>sha256_hex = (\<lambda>x. ''h'' @ x), json_envelope = v_TurnID, json_intent = di_ChildTurnID,
      json_release = rm_RunID, rfc3339nano = fmt_d\<rparr>"

definition demo_record :: DispatchRecord where
  "demo_record = zeroRecord\<lparr>d_RunID := ''run-1'', d_TurnID := ''turn-1''\<rparr>"

definition demo_envelope :: DispatchEnvelope where
  "demo_envelope =
     \<lparr>v_TurnID = ''turn-1'', v_RunID = ''run-1'', v_StepID = '''', v_ProviderKey = ''p'',
      v_ProviderAccountID = '''', v_ProviderSessionIDAtPrepare = '''', v_PromptRef = '''',
      v_PromptSHA256 = '''', v_Model = '''', v_ReasoningEffort = '''', v_Yolo = False,
      v_SelectedSkills = [], v_Scenario = '''', v_Attachments = [], v_FlowContextInjected = False,
      v_CreatedAt = TEmpty, v_EnvelopeHash = ''e1''\<rparr>"

definition demo_key :: string where
  "demo_key = recKey ''run-1'' ''turn-1''"

definition demo_new :: "unit memoryDispatchStore" where
  "demo_new = newMemoryDispatchStore 100 None ()"

definition demo_stored :: "DispatchRecord \<Rightarrow> unit memoryDispatchStore" where
  "demo_stored r = demo_new\<lparr>s_records := [demo_key \<mapsto> r]\<rparr>"

definition demo_claimed :: DispatchRecord where
  "demo_claimed = demo_record\<lparr>d_ProtocolVersion := 2, d_State := DispatchSendClaimed, d_Revision := 2\<rparr>"

definition demo_start :: dispatch_op where
  "demo_start = OpCAS ''run-1'' ''turn-1'' 2 (Advance DispatchSendClaimed DispatchSendStarted)"

definition demo_stopped :: "unit memoryDispatchStore" where
  "demo_stopped = (demo_stored demo_claimed)
     \<lparr>s_runStop := [''run-1'' \<mapsto> \<lparr>rs_RunID = ''run-1'', rs_Generation = 1, rs_Revision = 2, rs_Stopped = True\<rparr>]\<rparr>"

definition demo_fence :: ParentStopFence where
  "demo_fence = \<lparr>pf_ParentRunID = ''run-0'', pf_ExpectedStopGeneration = 0\<rparr>"

definition demo_child :: "unit memoryDispatchStore" where
  "demo_child = (demo_stored (demo_claimed\<lparr>d_ParentStopFence := Some demo_fence\<rparr>))
     \<lparr>s_runStop := [''run-0'' \<mapsto> \<lparr>rs_RunID = ''run-0'', rs_Generation = 1, rs_Revision = 2, rs_Stopped = True\<rparr>]\<rparr>"

definition demo_refusing :: "unit memoryDispatchStore" where
  "demo_refusing = (demo_stored demo_claimed)\<lparr>s_afterCommit := Some (\<lambda>line d. (Some (ErrCommit ''fsync''), d))\<rparr>"

lemma demo_key_simps [simp]: "recKey ''run-1'' ''turn-1'' = demo_key"
  by (simp add: demo_key_def)

lemma demo_new_simps [simp]:
  "s_runStop demo_new = Map.empty" "s_records demo_new = Map.empty" "s_afterCommit demo_new = None"
  "s_resolutions demo_new = Map.empty" "s_seq demo_new = 0" "s_now demo_new = 100"
  by (simp_all add: demo_new_def newMemoryDispatchStore_def)

lemma demo_stored_simps [simp]:
  "s_records (demo_stored r) = [demo_key \<mapsto> r]" "s_runStop (demo_stored r) = Map.empty"
  "s_resolutions (demo_stored r) = Map.empty" "s_afterCommit (demo_stored r) = None"
  by (simp_all add: demo_stored_def)

lemma demo_claimed_simps [simp]:
  "d_State demo_claimed = DispatchSendClaimed" "d_Revision demo_claimed = 2"
  "d_CancelRequested demo_claimed = False" "d_ParentStopFence demo_claimed = None"
  "d_ProtocolVersion demo_claimed = 2" "d_RunID demo_claimed = ''run-1''" "d_TurnID demo_claimed = ''turn-1''"
  by (simp_all add: demo_claimed_def demo_record_def zeroRecord_def)

lemma inc64_2: "inc64 2 = 3"
  by (simp add: inc64_def wrap64_def)

lemma demo_no_hook [simp]:
  "s_afterCommit s = None \<Longrightarrow> logged s a b c d e mk = (None, appendAuditLocked s a b c d e)"
  by (simp add: logged_def commitLine_def Let_def)

lemma demo_started:
  "\<exists>r'. s_records (after_op L demo_start (demo_stored demo_claimed)) demo_key = Some r' \<and>
     d_State r' = DispatchSendStarted \<and> d_ProtocolVersion r' = 2"
  by (simp add: after_op_def demo_start_def CASAdvance_def casAdvance_def getRecLocked_def canTransition_def
      checkOwnStopLocked_def checkParentFenceLocked_def commitRecord_def putRec_def)

end
