(* ===== verification/Dispatch_Safety.thy ===== *)
theory Dispatch_Safety
  imports Dispatch_Demo
begin

text \<open>
  What the store promises over arbitrary sequences of calls, for every commit hook, from the
  contracts of \<open>Dispatch_Interface\<close>: when a send can start, that a stop or a cancel request
  holds, that verdicts are final, that writers with a stale revision are refused, and that a
  failing call changes nothing but the disk.
\<close>

section \<open>Definitions\<close>

definition wf_store :: "'d memoryDispatchStore \<Rightarrow> bool" where
  "wf_store s \<longleftrightarrow>
     (\<forall>k r. s_records s k = Some r \<longrightarrow> k = recKey (d_RunID r) (d_TurnID r)) \<and>
     (\<forall>k e. s_envelopes s k = Some e \<longrightarrow>
        (\<exists>r. s_records s k = Some r \<and> d_EnvelopeHash r = v_EnvelopeHash e)) \<and>
     (\<forall>x st. s_runStop s x = Some st \<longrightarrow> rs_RunID st = x) \<and>
     seq_chain 0 (s_audits s) (s_seq s)"

definition same_turn :: "DispatchRecord \<Rightarrow> DispatchRecord \<Rightarrow> bool" where
  "same_turn r r' \<longleftrightarrow>
     d_RunID r' = d_RunID r \<and> d_TurnID r' = d_TurnID r \<and> d_ProtocolVersion r' = d_ProtocolVersion r \<and>
     d_EnvelopeHash r' = d_EnvelopeHash r \<and> d_ParentStopFence r' = d_ParentStopFence r \<and>
     d_IntentOwnerRunID r' = d_IntentOwnerRunID r \<and> d_OuterIntentKey r' = d_OuterIntentKey r \<and>
     d_OuterIntentGen r' = d_OuterIntentGen r"

fun activates :: "dispatch_op \<Rightarrow> string option" where
  "activates (OpCreatePrepared r env) = Some (d_RunID r)"
| "activates (OpRequestRunStop a rv rs) = Some a"
| "activates _ = None"

fun abandons :: "dispatch_op \<Rightarrow> bool" where
  "abandons (OpCommitRepair od a rv rid oc dt) \<longleftrightarrow> oc = RepairResolvedAbandon"
| "abandons _ \<longleftrightarrow> False"

section \<open>Invariants\<close>

lemma rec_step_same_turn: "rec_step a b \<Longrightarrow> same_turn a b"
  by (simp add: rec_step_def same_turn_def)

lemma rec_step_edge: "rec_step a b \<Longrightarrow> d_State b = d_State a \<or> isLegalEdge (d_State a) (d_State b)"
  by (simp add: rec_step_def)

lemma rec_step_ids: "rec_step a b \<Longrightarrow> d_RunID b = d_RunID a \<and> d_TurnID b = d_TurnID a \<and> d_EnvelopeHash b = d_EnvelopeHash a"
  by (simp add: rec_step_def)

lemma tick_after [simp]: "after_op L (OpTick d) s = s\<lparr>s_now := s_now s + \<bar>d\<bar>\<rparr>"
  by (simp add: after_op_def)

lemma exec_envelopes: "envelope_grows s (after_op L op s)"
  using exec_grows [of op s L] by (cases "\<exists>d. op = OpTick d") (auto simp: grows_def)

lemma exec_audits: "audit_extends s (after_op L op s)"
  using exec_grows [of op s L] by (cases "\<exists>d. op = OpTick d") (auto simp: grows_def)

lemma exec_keeps_ids:
  assumes "s_records s k = Some r"
  shows "\<exists>r'. s_records (after_op L op s) k = Some r' \<and> d_EnvelopeHash r' = d_EnvelopeHash r \<and>
      d_RunID r' = d_RunID r \<and> d_TurnID r' = d_TurnID r"
  using recs.keeps [OF assms, of L op] rec_step_ids by blast

lemma wf_keys:
  assumes "wf_store s" and "s_records (after_op L op s) k = Some r"
  shows "k = recKey (d_RunID r) (d_TurnID r)"
proof (cases "s_records s k")
  case None
  then show ?thesis using recs.creates [OF None assms(2)] by (simp add: fresh_at_def)
next
  case (Some r0)
  with exec_keeps_ids [OF Some, of L op] assms show ?thesis by (simp add: wf_store_def)
qed

lemma wf_envelopes:
  assumes "wf_store s" and "s_envelopes (after_op L op s) k = Some e"
  shows "\<exists>r. s_records (after_op L op s) k = Some r \<and> d_EnvelopeHash r = v_EnvelopeHash e"
proof (cases "s_envelopes (after_op L op s) k = s_envelopes s k")
  case False
  with exec_envelopes [of s L op] assms(2) show ?thesis
    unfolding envelope_grows_def by (auto dest!: spec [of _ k])
next
  case True
  with assms obtain r where r: "s_records s k = Some r" "d_EnvelopeHash r = v_EnvelopeHash e"
    unfolding wf_store_def by force
  with exec_keeps_ids [OF r(1), of L op] show ?thesis by auto
qed

lemma wf_stops:
  assumes "wf_store s" and "s_runStop (after_op L op s) x = Some st"
  shows "rs_RunID st = x"
proof (cases "s_runStop s x")
  case None
  then show ?thesis using stops.creates [OF None assms(2)]
    by (auto simp: fresh_stop_def stop_step_def initialStop_def)
next
  case (Some st0)
  with stops.keeps [OF Some, of L op] assms show ?thesis by (auto simp: wf_store_def stop_step_def)
qed

lemma wf_audits:
  assumes "wf_store s"
  shows "seq_chain 0 (s_audits (after_op L op s)) (s_seq (after_op L op s))"
proof -
  obtain ys where "s_audits (after_op L op s) = s_audits s @ ys" "seq_chain (s_seq s) ys (s_seq (after_op L op s))"
    using exec_audits [of s L op] unfolding audit_extends_def by blast
  moreover have "seq_chain 0 (s_audits s) (s_seq s)" using assms by (simp add: wf_store_def)
  ultimately show ?thesis by (simp add: seq_chain_append)
qed

lemma wf_step: "wf_store s \<Longrightarrow> wf_store (after_op L op s)"
  using wf_keys [of s L op] wf_envelopes [of s L op] wf_stops [of s L op] wf_audits [of s L op]
  unfolding wf_store_def [of "after_op L op s"] by blast

lemma wf_steps: "wf_store s \<Longrightarrow> wf_store (after_ops L ops s)"
  by (induction ops arbitrary: s) (simp_all add: after_ops_def wf_step)

lemma wf_new: "wf_store (newMemoryDispatchStore t h d)"
  by (simp add: wf_store_def newMemoryDispatchStore_def)

section \<open>Properties\<close>

text \<open>
  C1: A send is linearized against Stop: if a call leaves a protocol-2 record in
  \<open>send_started\<close> that was not there before, the call is \<open>CASAdvance\<close>
  or \<open>CASRecoveryAdvance\<close> on that record with its current revision, the record was
  in \<open>send_claimed\<close> without a cancel request, and in the store the call started
  from neither the run is stopped nor is the parent stopped or at another stop generation than
  the record's fence expects.
\<close>

theorem send_linearized:
  assumes "s_records (after_op L op s) k = Some r'" and "d_State r' = DispatchSendStarted"
    and "DispatchProtocolV2 \<le> d_ProtocolVersion r'"
    and "\<nexists>r. s_records s k = Some r \<and> d_State r = DispatchSendStarted"
  shows "\<exists>r a b c. s_records s k = Some r \<and> op = OpCAS a b (d_Revision r) c \<and> is_advance c \<and>
           k = recKey a b \<and> may_start s a r"
proof (cases "s_records s k")
  case None
  with assms recs.creates [OF None assms(1)] show ?thesis by (simp add: fresh_at_def fresh_record_def)
next
  case (Some r)
  with assms start_needs_claim [OF Some _ assms(1,2)] show ?thesis by blast
qed

theorem send_linearized_witness:
  "\<exists>r a b c. s_records (demo_stored demo_claimed) demo_key = Some r \<and>
     demo_start = OpCAS a b (d_Revision r) c \<and> is_advance c \<and>
     demo_key = recKey a b \<and> may_start (demo_stored demo_claimed) a r"
proof -
  obtain r' where "s_records (after_op demo_lib demo_start (demo_stored demo_claimed)) demo_key = Some r'"
    "d_State r' = DispatchSendStarted" "DispatchProtocolV2 \<le> d_ProtocolVersion r'"
    using demo_started unfolding DispatchProtocolV2_def by fastforce
  then show ?thesis by (rule send_linearized) simp
qed

text \<open>
  C2: A stopped run sends nothing: while no call releases the stop fence of a run, whatever else
  is called in whatever order, a turn of the run that has not been sent stays unsent (prepared,
  claimed or cancelled).
\<close>

theorem stopped_run_sends_nothing:
  assumes "nul_free x" and "nul_free t" and "s_records s (recKey x t) = Some r" and "unsent r"
    and "s_runStop s x = Some st" and "rs_Stopped st" and "\<forall>op \<in> set ops. \<not> releases_stop x op"
  shows "\<exists>r'. s_records (after_ops L ops s) (recKey x t) = Some r' \<and> unsent r'"
  unfolding after_ops_def
  by (rule stopped.never_sent [OF assms(3,4) _ assms(7)])
    (use assms in \<open>auto simp: stop_fence_def\<close>)

theorem stopped_run_sends_nothing_witness:
  "\<exists>r'. s_records (after_ops demo_lib [demo_start, demo_start] demo_stopped) (recKey ''run-1'' ''turn-1'') = Some r'
     \<and> unsent r'"
  by (rule stopped_run_sends_nothing [where r = demo_claimed and
        st = "\<lparr>rs_RunID = ''run-1'', rs_Generation = 1, rs_Revision = 2, rs_Stopped = True\<rparr>"])
    (simp_all add: nul_free_def NUL_def demo_stopped_def unsent_def releases_stop_def demo_start_def)

text \<open>
  C3: A cancel request on an unsent turn is never lost and no sequence of calls sends the turn.
\<close>

theorem cancelled_turn_sends_nothing:
  assumes "s_records s k = Some r" and "unsent r" and "d_CancelRequested r"
  shows "\<exists>r'. s_records (after_ops L ops s) k = Some r' \<and> unsent r' \<and> d_CancelRequested r'"
proof -
  have "\<exists>r'. s_records (fold (after_op L) ops s) k = Some r' \<and> unsent r'"
    by (rule cancelled.never_sent [OF assms(1,2)]) (use assms in \<open>auto simp: cancel_fence_def\<close>)
  moreover have "\<exists>r'. s_records (fold (after_op L) ops s) k = Some r' \<and> d_CancelRequested r'"
    by (rule recs.history_stable [where P = d_CancelRequested, OF assms(1,3)]) (simp add: rec_step_def)
  ultimately show ?thesis by (auto simp: after_ops_def)
qed

theorem cancelled_turn_sends_nothing_witness:
  "\<exists>r'. s_records (after_ops demo_lib [demo_start] (demo_stored (demo_claimed\<lparr>d_CancelRequested := True\<rparr>))) demo_key
      = Some r' \<and> unsent r' \<and> d_CancelRequested r'"
  by (rule cancelled_turn_sends_nothing [where r = "demo_claimed\<lparr>d_CancelRequested := True\<rparr>"])
    (simp_all add: unsent_def)

text \<open>
  A child whose parent has moved to another stop generation is never sent, even after the
  stop fence of the parent is released, unless the parent is stopped again.
\<close>

theorem outdated_child_sends_nothing:
  assumes "s_records s k = Some r" and "unsent r" and "d_ParentStopFence r = Some f"
    and "s_runStop s (pf_ParentRunID f) = Some st" and "rs_Generation st \<noteq> pf_ExpectedStopGeneration f"
    and "\<forall>op \<in> set ops. \<not> requests_stop (pf_ParentRunID f) op"
  shows "\<exists>r'. s_records (after_ops L ops s) k = Some r' \<and> unsent r'"
  unfolding after_ops_def
  by (rule outdated.never_sent [OF assms(1,2) _ assms(6)]) (use assms in \<open>auto simp: generation_fence_def\<close>)

theorem outdated_child_sends_nothing_witness:
  "\<exists>r'. s_records (after_ops demo_lib [demo_start, OpReleaseRunStopFence ''run-0'' 2, demo_start] demo_child) demo_key
      = Some r' \<and> unsent r'"
  by (rule outdated_child_sends_nothing [where r = "demo_claimed\<lparr>d_ParentStopFence := Some demo_fence\<rparr>"
        and f = demo_fence and
        st = "\<lparr>rs_RunID = ''run-0'', rs_Generation = 1, rs_Revision = 2, rs_Stopped = True\<rparr>"])
    (simp_all add: unsent_def demo_child_def demo_fence_def requests_stop_def demo_start_def)

text \<open>
  C4: A terminal verdict is final: over any sequence of calls the state, the outcome, the
  evidence and the settle debt of a terminal record stay, no recovery attachment appears on it,
  and only its settle phase moves, along the table of settle edges.
\<close>

theorem verdict_final:
  assumes "s_records s k = Some r" and "IsTerminal (d_State r)"
  shows "\<exists>r'. s_records (after_ops L ops s) k = Some r' \<and> d_State r' = d_State r \<and>
      d_Outcome r' = d_Outcome r \<and> d_TerminalEvidence r' = d_TerminalEvidence r \<and>
      d_SettleOwed r' = d_SettleOwed r \<and> d_RecoveryAttachOwner r' = d_RecoveryAttachOwner r \<and>
      (\<lambda>p q. canAdvanceSettle p q = None)\<^sup>*\<^sup>* (d_SettlePhase r) (d_SettlePhase r')"
  unfolding after_ops_def
proof (rule recs.history_stable [OF assms(1)])
  fix a b
  assume a: "d_State a = d_State r \<and> d_Outcome a = d_Outcome r \<and> d_TerminalEvidence a = d_TerminalEvidence r \<and>
      d_SettleOwed a = d_SettleOwed r \<and> d_RecoveryAttachOwner a = d_RecoveryAttachOwner r \<and>
      (\<lambda>p q. canAdvanceSettle p q = None)\<^sup>*\<^sup>* (d_SettlePhase r) (d_SettlePhase a)" and "rec_step a b"
  moreover have "d_State b = d_State a" using calculation assms(2) by (auto simp: rec_step_def)
  ultimately show "d_State b = d_State r \<and> d_Outcome b = d_Outcome r \<and> d_TerminalEvidence b = d_TerminalEvidence r \<and>
      d_SettleOwed b = d_SettleOwed r \<and> d_RecoveryAttachOwner b = d_RecoveryAttachOwner r \<and>
      (\<lambda>p q. canAdvanceSettle p q = None)\<^sup>*\<^sup>* (d_SettlePhase r) (d_SettlePhase b)"
    using assms(2) unfolding rec_step_def by (auto intro: rtranclp.rtrancl_into_rtrancl)
qed simp

theorem verdict_final_witness:
  "\<exists>r'. s_records (after_ops demo_lib [demo_start] (demo_stored (demo_claimed\<lparr>d_State := DispatchTerminalFailed\<rparr>)))
      demo_key = Some r' \<and> d_State r' = DispatchTerminalFailed"
  using verdict_final [where s = "demo_stored (demo_claimed\<lparr>d_State := DispatchTerminalFailed\<rparr>)" and k = demo_key
      and r = "demo_claimed\<lparr>d_State := DispatchTerminalFailed\<rparr>" and L = demo_lib and ops = "[demo_start]"]
  by auto

text \<open>
  C5: Records move forward only: over any sequence of calls a record stays in the store, its
  state follows the closed edge table, and its identity, protocol, envelope hash, parent fence
  and intent are frozen.
\<close>

theorem record_forward_only:
  assumes "s_records s k = Some r"
  shows "\<exists>r'. s_records (after_ops L ops s) k = Some r' \<and> isLegalEdge\<^sup>*\<^sup>* (d_State r) (d_State r') \<and>
      same_turn r r'"
proof -
  obtain r' where r': "s_records (after_ops L ops s) k = Some r'" "rec_step\<^sup>*\<^sup>* r r'"
    using recs.history_keeps [OF assms, of L ops] by (auto simp: after_ops_def)
  from r'(2) have "isLegalEdge\<^sup>*\<^sup>* (d_State r) (d_State r') \<and> same_turn r r'"
  proof induction
    case base
    then show ?case by (simp add: same_turn_def)
  next
    case (step y z)
    then show ?case
      using rec_step_edge [OF step.hyps(2)] rec_step_same_turn [OF step.hyps(2)]
      by (auto simp: same_turn_def intro: rtranclp.rtrancl_into_rtrancl)
  qed
  with r'(1) show ?thesis by blast
qed

theorem record_forward_only_witness:
  "\<exists>r'. s_records (after_ops demo_lib [demo_start] (demo_stored demo_claimed)) demo_key = Some r' \<and>
      isLegalEdge\<^sup>*\<^sup>* DispatchSendClaimed (d_State r') \<and> same_turn demo_claimed r'"
  using record_forward_only [where s = "demo_stored demo_claimed" and k = demo_key and r = demo_claimed
      and L = demo_lib and ops = "[demo_start]"] by simp

text \<open>
  No update is lost: when some call has changed a record, a compare-and-swap with the
  revision read before that change is refused with \<open>ErrStaleDispatch\<close> and leaves
  the store as it is (replays of a recorded operator resolution apart).
\<close>

theorem no_lost_update:
  assumes "s_records s (recKey a b) = Some r" and "s_records (after_op L op s) (recKey a b) = Some r1"
    and "r1 \<noteq> r" and "\<not> is_replay (after_op L op s) c"
  shows "exec L (OpCAS a b (d_Revision r) c) (after_op L op s) = (Some ErrStaleDispatch, after_op L op s)"
proof -
  have "rec_step r r1" using recs.keeps [OF assms(1), of L op] assms(2,3) by auto
  then have "d_Revision r1 \<noteq> d_Revision r" by (simp add: rec_step_def)
  then show ?thesis using exec_cas_stale [OF assms(2) _ assms(4)] by simp
qed

theorem no_lost_update_witness:
  "exec demo_lib (OpCAS ''run-1'' ''turn-1'' 2 (SetCancel 1)) (after_op demo_lib demo_start (demo_stored demo_claimed))
     = (Some ErrStaleDispatch, after_op demo_lib demo_start (demo_stored demo_claimed))"
proof -
  obtain r1 where r1: "s_records (after_op demo_lib demo_start (demo_stored demo_claimed)) demo_key = Some r1"
    "d_State r1 = DispatchSendStarted" using demo_started by blast
  then have "r1 \<noteq> demo_claimed" by auto
  then show ?thesis
    using no_lost_update [of "demo_stored demo_claimed" "''run-1''" "''turn-1''" demo_claimed demo_lib demo_start r1
        "SetCancel 1"] r1 by simp
qed

text \<open>
  C6: Well-formedness is invariant: from a new store and over any sequence of calls and any
  commit hook, records are stored under their own key, every envelope belongs to a record with
  the same hash, run-stop states are stored under their run, and the audit log is numbered
  contiguously from 1.
\<close>

theorem store_well_formed: "wf_store (after_ops L ops (newMemoryDispatchStore t hook d))"
  by (rule wf_steps [OF wf_new])

lemma tame_failed_call: "tame s (x :: error option \<times> 'd memoryDispatchStore) \<Longrightarrow> x = (Some e, s') \<Longrightarrow> only_disk s s'"
  by (simp add: tame_def)

lemma failing_call:
  assumes "exec L op s = (Some e, s')" and "\<not> abandons op"
  shows "only_disk s s' \<or> (\<exists>x. activates op = Some x \<and> only_disk (ensureActivationLocked s x) s')"
proof (cases op)
  case (OpCreatePrepared r env)
  with assms call_grows(1) [where s = s and r = r and L = L and env = env] show ?thesis by auto
next
  case (OpRequestRunStop a rv rs)
  with assms call_grows(2) [where s = s and a = a and rv = rv and rs = rs] show ?thesis by auto
next
  case (OpReleaseRunStopFence a rv)
  with assms call_grows(3) [where s = s and a = a and rv = rv] show ?thesis by auto
next
  case (OpCreateRelease a b c i)
  with assms call_grows(4) [where s = s and L = L and a = a and b = b and c = c and i = i] show ?thesis by auto
next
  case (OpCommitRepair od a rv rid oc dt)
  with assms call_grows(5) [where s = s and oc = oc and od = od and a = a and rv = rv and rid = rid and dt = dt] show ?thesis by auto
qed (use assms call_tame [THEN tame_failed_call] in auto)

text \<open>
  C7: Disk before memory: a call that returns an error leaves the memory as it was, apart from
  the activation of the run that \<open>CreatePrepared\<close> and \<open>RequestRunStop\<close>
  may leave (the abandon loop of a repair excepted).
\<close>

theorem failed_call_changes_only_disk:
  assumes "exec L op s = (Some e, s')" and "\<not> abandons op"
  shows "s' = s\<lparr>s_disk := s_disk s'\<rparr> \<or>
    (\<exists>x. activates op = Some x \<and> s' = (ensureActivationLocked s x)\<lparr>s_disk := s_disk s'\<rparr>)"
  using failing_call [OF assms] by (simp add: only_disk_def)

theorem failed_call_changes_only_disk_witness:
  "exec demo_lib demo_start demo_refusing = (Some (ErrCommit ''fsync''), demo_refusing) \<and> 
   (demo_refusing = demo_refusing\<lparr>s_disk := s_disk demo_refusing\<rparr> \<or>
    (\<exists>x. activates demo_start = Some x \<and>
       demo_refusing = (ensureActivationLocked demo_refusing x)\<lparr>s_disk := s_disk demo_refusing\<rparr>))"
proof -
  have "exec demo_lib demo_start demo_refusing = (Some (ErrCommit ''fsync''), demo_refusing)"
    by (simp add: demo_start_def demo_refusing_def CASAdvance_def casAdvance_def getRecLocked_def canTransition_def
      checkOwnStopLocked_def checkParentFenceLocked_def commitRecord_def logged_def commitLine_def
      appendAuditLocked_def uncommitAudit_def Let_def)
  from this failed_call_changes_only_disk [OF this] show ?thesis by (simp add: demo_start_def)
qed

end
