(* ===== verification/Dispatch_Local.thy ===== *)
theory Dispatch_Local
  imports Dispatch_Safety
begin

text \<open>
  The durable store of \<open>runner/dispatch_store_local.go\<close>: the in-memory store whose commit hook
  appends one line per mutation to a log file, the load that replays the file, its compaction.
  The file is the sequence of what was appended to it: whole lines, each ended by a newline,
  and fragments left by a write that failed half-way. A line read from the file consists of the
  fragments in front of a whole line and that line; with a fragment in front it is not a JSON
  document (an object that is not closed, or two values in a row), which \<open>load\<close> treats like a
  torn tail: it stops there. Write failures are a list of outcomes that the disk consumes, one
  per line. The encoding itself is taken to be lossless: a whole line is read back as the line that
  was written.
\<close>

section \<open>The log file\<close>

datatype log_item = ILine dispatchLogLine | IPart

datatype fault = NoFault | OpenFault | ShortWrite | SyncFault

record logDisk =
  ld_log :: "log_item list"
  ld_faults :: "fault list"

type_synonym localDispatchStore = "logDisk memoryDispatchStore"

text \<open>\<open>persistLine\<close>: open for append, write, fsync; each may fail.\<close>

fun persistLine :: "dispatchLogLine \<Rightarrow> logDisk \<Rightarrow> error option \<times> logDisk" where
  "persistLine line d =
     (let d1 = d\<lparr>ld_faults := tl (ld_faults d)\<rparr>
      in case (case ld_faults d of [] \<Rightarrow> NoFault | f # fs \<Rightarrow> f) of
           NoFault \<Rightarrow> (None, d1\<lparr>ld_log := ld_log d @ [ILine line]\<rparr>)
         | OpenFault \<Rightarrow> (Some (ErrCommit ''open''), d1)
         | ShortWrite \<Rightarrow> (Some (ErrCommit ''write''), d1\<lparr>ld_log := ld_log d @ [IPart]\<rparr>)
         | SyncFault \<Rightarrow> (Some (ErrCommit ''sync''), d1\<lparr>ld_log := ld_log d @ [ILine line]\<rparr>))"

declare persistLine.simps [simp del]

text \<open>\<open>applyLine\<close>, one definition per map it writes, and their composition.\<close>

definition applyRecords :: "dispatchLogLine \<Rightarrow> (string \<rightharpoonup> DispatchRecord) \<Rightarrow> (string \<rightharpoonup> DispatchRecord)" where
  "applyRecords ll m =
     (let m1 = (case ll_Record ll of None \<Rightarrow> m | Some r \<Rightarrow> m(recKey (d_RunID r) (d_TurnID r) \<mapsto> r))
      in case ll_Successor ll of None \<Rightarrow> m1 | Some r \<Rightarrow> m1(recKey (d_RunID r) (d_TurnID r) \<mapsto> r))"

definition applyEnvelopes :: "dispatchLogLine \<Rightarrow> (string \<rightharpoonup> DispatchEnvelope) \<Rightarrow> (string \<rightharpoonup> DispatchEnvelope)" where
  "applyEnvelopes ll m =
     (case ll_Envelope ll of
        None \<Rightarrow> m
      | Some e \<Rightarrow>
          m((case ll_Record ll of
               None \<Rightarrow> recKey (v_RunID e) (v_TurnID e)
             | Some r \<Rightarrow> recKey (d_RunID r) (d_TurnID r)) \<mapsto> e))"

definition applyReleases :: "dispatchLogLine \<Rightarrow> (string \<rightharpoonup> ReleaseManifestItem) \<Rightarrow> (string \<rightharpoonup> ReleaseManifestItem)" where
  "applyReleases ll m =
     (case ll_Release ll of
        None \<Rightarrow> m
      | Some i \<Rightarrow> m(effectKey (rm_RunID i) (rm_TurnID i) (releaseEffectKind (rm_DependentRunID i)) \<mapsto> i))"

definition applyRepairs :: "dispatchLogLine \<Rightarrow> (string \<rightharpoonup> RepairRecord) \<Rightarrow> (string \<rightharpoonup> RepairRecord)" where
  "applyRepairs ll m = (case ll_Repair ll of None \<Rightarrow> m | Some r \<Rightarrow> m(rp_RunID r \<mapsto> r))"

definition applyStops :: "dispatchLogLine \<Rightarrow> (string \<rightharpoonup> RunStopState) \<Rightarrow> (string \<rightharpoonup> RunStopState)" where
  "applyStops ll m = (case ll_RunStop ll of None \<Rightarrow> m | Some st \<Rightarrow> m(rs_RunID st \<mapsto> st))"

definition applyEffects :: "dispatchLogLine \<Rightarrow> (string \<rightharpoonup> EffectDone) \<Rightarrow> (string \<rightharpoonup> EffectDone)" where
  "applyEffects ll m =
     (case ll_Effect ll of
        None \<Rightarrow> m | Some e \<Rightarrow> m(effectKey (ef_RunID e) (ef_TurnID e) (ef_EffectKind e) \<mapsto> e))"

definition applyLine :: "dispatchLogLine \<Rightarrow> localDispatchStore \<Rightarrow> localDispatchStore" where
  "applyLine ll s =
     s\<lparr>s_seq := (if s_seq s < ll_Seq ll then ll_Seq ll else s_seq s),
       s_activation := (case ll_Activation ll of
                          None \<Rightarrow> s_activation s
                        | Some a \<Rightarrow> (s_activation s)(da_RunID a \<mapsto> da_ProtocolVersion a)),
       s_runStop := applyStops ll (s_runStop s),
       s_clears := (case ll_IntentClear ll of
                      None \<Rightarrow> s_clears s
                    | Some c \<Rightarrow> insert (ic_OwnerRunID c, ic_Key c, ic_Gen c) (s_clears s)),
       s_effects := applyEffects ll (s_effects s),
       s_releases := applyReleases ll (s_releases s),
       s_repairs := applyRepairs ll (s_repairs s),
       s_records := applyRecords ll (s_records s),
       s_envelopes := applyEnvelopes ll (s_envelopes s)\<rparr>"

text \<open>
  The read loop of \<open>load\<close>: apply whole lines until the end of the file or the first fragment;
  the second result counts the drop.
\<close>

fun readLog :: "log_item list \<Rightarrow> localDispatchStore \<Rightarrow> localDispatchStore \<times> nat" where
  "readLog [] s = (s, 0)"
| "readLog (ILine ll # xs) s = readLog xs (applyLine ll s)"
| "readLog (IPart # xs) s = (s, 1)"

definition load :: "time \<Rightarrow> logDisk \<Rightarrow> localDispatchStore \<times> nat" where
  "load now d = readLog (ld_log d) (newMemoryDispatchStore now (Some persistLine) d)"

text \<open>\<open>NewLocalDispatchStore\<close>; the first argument says whether another process holds the lock.\<close>

definition NewLocalDispatchStore :: "bool \<Rightarrow> time \<Rightarrow> logDisk \<Rightarrow> error + (localDispatchStore \<times> nat)" where
  "NewLocalDispatchStore locked now d = (if locked then Inl ErrDispatchLocked else Inr (load now d))"

section \<open>Compaction\<close>

text \<open>The orders in which \<open>Compact\<close> ranges over its maps.\<close>

record compactOrder =
  co_activation :: "string list"
  co_records :: "string list"
  co_clears :: "intentClearKey list"
  co_effects :: "string list"
  co_releases :: "string list"
  co_repairs :: "string list"

definition pruned :: "'d memoryDispatchStore \<Rightarrow> time \<Rightarrow> DispatchRecord \<Rightarrow> bool" where
  "pruned s ttl r \<longleftrightarrow>
     \<not> recoverable r \<and> 0 < ttl \<and>
     (case parse_time (d_UpdatedAt r) of None \<Rightarrow> False | Some t \<Rightarrow> t < s_now s - ttl)"

definition compactRecord :: "'d memoryDispatchStore \<Rightarrow> time \<Rightarrow> string \<Rightarrow> dispatchLogLine list" where
  "compactRecord s ttl k =
     (case s_records s k of
        None \<Rightarrow> []
      | Some r \<Rightarrow>
          if pruned s ttl r then []
          else [(emptyLine ''record'' (clockStr s) (s_seq s))
                  \<lparr>ll_Record := Some r, ll_Envelope := s_envelopes s k\<rparr>])"

definition compactLines :: "compactOrder \<Rightarrow> time \<Rightarrow> 'd memoryDispatchStore \<Rightarrow> dispatchLogLine list" where
  "compactLines od ttl s =
     map (\<lambda>x. (emptyLine ''activation'' (clockStr s) (s_seq s))
           \<lparr>ll_Activation := map_option (\<lambda>v. \<lparr>da_RunID = x, da_ProtocolVersion = v\<rparr>) (s_activation s x),
            ll_RunStop := s_runStop s x\<rparr>) (co_activation od) @
     concat (map (compactRecord s ttl) (co_records od)) @
     map (\<lambda>(ow, ky, g). (emptyLine ''clear'' (clockStr s) (s_seq s))
           \<lparr>ll_IntentClear := clearPayload ow ky g\<rparr>) (co_clears od) @
     map (\<lambda>e. (emptyLine ''effect'' (clockStr s) (s_seq s))\<lparr>ll_Effect := Some e\<rparr>)
       (range_over (s_effects s) (co_effects od)) @
     map (\<lambda>i. (emptyLine ''release'' (clockStr s) (s_seq s))\<lparr>ll_Release := Some i\<rparr>)
       (range_over (s_releases s) (co_releases od)) @
     map (\<lambda>r. (emptyLine ''repair'' (clockStr s) (s_seq s))\<lparr>ll_Repair := Some r\<rparr>)
       (range_over (s_repairs s) (co_repairs od))"

text \<open>
  \<open>Compact\<close>: the lines go to a temporary file that replaces the log; the first argument is the
  error of the first file operation that fails, when one does.
\<close>

definition Compact ::
  "error option \<Rightarrow> compactOrder \<Rightarrow> time \<Rightarrow> localDispatchStore \<Rightarrow> error option \<times> localDispatchStore" where
  "Compact ioErr od ttl s =
     (case ioErr of
        Some e \<Rightarrow> (Some e, s)
      | None \<Rightarrow> (None, s\<lparr>s_disk := (s_disk s)\<lparr>ld_log := map ILine (compactLines od ttl s)\<rparr>\<rparr>))"

definition MissingLogRepairRequired :: "string list \<Rightarrow> localDispatchStore \<Rightarrow> string \<Rightarrow> bool" where
  "MissingLogRepairRequired order s runID =
     (if GetRunProtocolVersion s runID < DispatchProtocolV2 then False
      else if s_activation s runID \<noteq> None then False
      else if \<exists>r \<in> set (range_over (s_records s) order). d_RunID r = runID then False
      else True)"

definition sound_disk :: "logDisk \<Rightarrow> bool" where
  "sound_disk d \<longleftrightarrow> IPart \<notin> set (ld_log d) \<and> set (ld_faults d) \<subseteq> {NoFault, OpenFault}"

definition log_lines :: "logDisk \<Rightarrow> dispatchLogLine list" where
  "log_lines d = List.map_filter (\<lambda>i. case i of ILine l \<Rightarrow> Some l | IPart \<Rightarrow> None) (ld_log d)"

definition complete_order :: "compactOrder \<Rightarrow> 'd memoryDispatchStore \<Rightarrow> bool" where
  "complete_order od s \<longleftrightarrow>
     set (co_activation od) = dom (s_activation s) \<and> set (co_records od) = dom (s_records s) \<and>
     set (co_clears od) = s_clears s \<and> set (co_effects od) = dom (s_effects s) \<and>
     set (co_releases od) = dom (s_releases s) \<and> set (co_repairs od) = dom (s_repairs s)"

definition demo_disk :: logDisk where
  "demo_disk = \<lparr>ld_log = [], ld_faults = [NoFault, OpenFault]\<rparr>"

definition demo_order :: compactOrder where
  "demo_order = \<lparr>co_activation = [], co_records = [], co_clears = [], co_effects = [], co_releases = [], co_repairs = []\<rparr>"

definition demo_uncertain :: DispatchRecord where
  "demo_uncertain = demo_record\<lparr>d_ProtocolVersion := 2, d_State := DispatchUncertain, d_Revision := 4\<rparr>"

definition demo_log :: logDisk where
  "demo_log = \<lparr>ld_log = [ILine ((emptyLine ''record'' TEmpty 1)
     \<lparr>ll_Record := Some demo_uncertain, ll_Envelope := Some demo_envelope\<rparr>)], ld_faults = []\<rparr>"

section \<open>What a log line must carry\<close>

text \<open>
  The part of the state that a restart must bring back: records, release items, repairs, and
  the run-stop states up to runs that were never stopped.
\<close>

definition replay :: "(dispatchLogLine \<Rightarrow> 'm \<Rightarrow> 'm) \<Rightarrow> dispatchLogLine list \<Rightarrow> 'm \<Rightarrow> 'm" where
  "replay f ls m = fold f ls m"

definition stops_cover :: "(string \<rightharpoonup> RunStopState) \<Rightarrow> (string \<rightharpoonup> RunStopState) \<Rightarrow> bool" where
  "stops_cover disk ram \<longleftrightarrow>
     (\<forall>x. disk x = ram x \<or> disk x = None \<and> ram x = Some (initialStop x))"

definition covered :: "dispatchLogLine list \<Rightarrow> 'd memoryDispatchStore \<Rightarrow> bool" where
  "covered ls s \<longleftrightarrow>
     s_records s = replay applyRecords ls Map.empty \<and>
     s_releases s = replay applyReleases ls Map.empty \<and>
     s_repairs s = replay applyRepairs ls Map.empty \<and>
     stops_cover (replay applyStops ls Map.empty) (s_runStop s)"

lemmas line_simps = recordLine_def emptyLine_def applyRecords_def applyReleases_def applyRepairs_def applyStops_def

lemma replay_Nil [simp]: "replay f [] m = m"
  by (simp add: replay_def)

lemma replay_snoc [simp]: "replay f (ls @ [l]) m = f l (replay f ls m)"
  by (simp add: replay_def)

lemma replay_records_keyed:
  "replay applyRecords ls Map.empty k = Some r \<Longrightarrow> recKey (d_RunID r) (d_TurnID r) = k"
  by (induction ls rule: rev_induct)
    (auto simp: applyRecords_def Let_def split: option.splits if_splits)

lemma replay_releases_keyed:
  "replay applyReleases ls Map.empty k = Some i \<Longrightarrow>
   effectKey (rm_RunID i) (rm_TurnID i) (releaseEffectKind (rm_DependentRunID i)) = k"
  by (induction ls rule: rev_induct) (auto simp: applyReleases_def split: option.splits if_splits)

lemma replay_repairs_keyed: "replay applyRepairs ls Map.empty x = Some p \<Longrightarrow> rp_RunID p = x"
  by (induction ls rule: rev_induct) (auto simp: applyRepairs_def split: option.splits if_splits)

lemma replay_stops_keyed: "replay applyStops ls Map.empty x = Some st \<Longrightarrow> rs_RunID st = x"
  by (induction ls rule: rev_induct) (auto simp: applyStops_def split: option.splits if_splits)

lemma stops_cover_keyed:
  assumes "stops_cover (replay applyStops ls Map.empty) m" and "m x = Some st"
  shows "rs_RunID st = x"
  using assms replay_stops_keyed [of ls x st] unfolding stops_cover_def
  by (auto simp: initialStop_def dest!: spec [of _ x])

lemma after_frames [simp]:
  "s_disk (clearIntentLocked s ow k g) = s_disk s" "s_disk (putRec s k r) = s_disk s"
  "s_disk (setLiveIntentLocked s ow k g h) = s_disk s" "s_disk (putResolution rid res s) = s_disk s"
  "s_releases (setLiveIntentLocked s ow k g h) = s_releases s" "s_releases (putResolution rid res s) = s_releases s"
  "s_repairs (setLiveIntentLocked s ow k g h) = s_repairs s" "s_repairs (putResolution rid res s) = s_repairs s"
  "s_releases (ensureActivationLocked s x) = s_releases s" "s_repairs (ensureActivationLocked s x) = s_repairs s"
  by (simp_all add: clearIntentLocked_def putRec_def setLiveIntentLocked_def putResolution_def
      ensureActivationLocked_def Let_def)

text \<open>
  The contract of a commit hook: from a sound disk it leaves a sound disk, and the lines of the
  disk grow by the line it accepted and stay when it refused. The store, whatever is called,
  keeps its durable part equal to the replay of the lines.
\<close>

locale commit_hook =
  fixes hook :: "dispatchLogLine \<Rightarrow> 'd \<Rightarrow> error option \<times> 'd"
    and sound :: "'d \<Rightarrow> bool"
    and content :: "'d \<Rightarrow> dispatchLogLine list"
  assumes accepts: "sound d \<Longrightarrow> hook l d = (None, d') \<Longrightarrow> sound d' \<and> content d' = content d @ [l]"
    and refuses: "sound d \<Longrightarrow> hook l d = (Some e, d') \<Longrightarrow> sound d' \<and> content d' = content d"
begin

definition journalled :: "'d memoryDispatchStore \<Rightarrow> bool" where
  "journalled s \<longleftrightarrow>
     s_afterCommit s = Some hook \<and> sound (s_disk s) \<and> covered (content (s_disk s)) s"

lemma journalled_refused:
  assumes "journalled s" and "hook_run s l = (Some e, dk)"
  shows "journalled (s\<lparr>s_disk := dk\<rparr>)"
  using assms refuses [of "s_disk s" l e dk] by (simp add: journalled_def hook_run_def covered_def)

lemma journalled_accepted:
  assumes "journalled s" and "hook_run s l = (None, dk)"
    and "s_afterCommit s' = s_afterCommit s" and "s_disk s' = dk"
    and "s_records s' = applyRecords l (s_records s)" and "s_releases s' = applyReleases l (s_releases s)"
    and "s_repairs s' = applyRepairs l (s_repairs s)"
    and "\<And>m. stops_cover m (s_runStop s) \<Longrightarrow> stops_cover (applyStops l m) (s_runStop s')"
  shows "journalled s'"
  using assms accepts [of "s_disk s" l dk]
  by (simp add: journalled_def hook_run_def covered_def replay_def)

lemma journalled_keys:
  assumes "journalled s"
  shows "s_records s k = Some r \<Longrightarrow> recKey (d_RunID r) (d_TurnID r) = k"
    and "s_releases s k = Some i \<Longrightarrow>
      effectKey (rm_RunID i) (rm_TurnID i) (releaseEffectKind (rm_DependentRunID i)) = k"
    and "s_repairs s x = Some p \<Longrightarrow> rp_RunID p = x"
    and "s_runStop s x = Some st \<Longrightarrow> rs_RunID st = x"
  using assms by (auto simp: journalled_def covered_def
      dest: replay_records_keyed replay_releases_keyed replay_repairs_keyed stops_cover_keyed)

lemma journalled_records:
  assumes "journalled s" and "s_records s (recKey a b) = Some r" and "d_RunID cp = d_RunID r" and "d_TurnID cp = d_TurnID r"
    and "\<And>x. s_records (after x) = s_records x \<and> s_releases (after x) = s_releases x \<and>
      s_repairs (after x) = s_repairs x \<and> s_runStop (after x) = s_runStop x \<and> s_disk (after x) = s_disk x \<and>
      s_afterCommit (after x) = s_afterCommit x"
  shows "post journalled (snd (snd (commitRecord s a b r cp kind det act clr after)))"
  apply (intro post_log)
  subgoal by (rule journalled_refused [OF assms(1)])
  subgoal by (rule journalled_accepted [OF assms(1)], assumption)
    (use assms(3-5) journalled_keys(1) [OF assms(1,2)] in
     \<open>simp_all add: recordLine_def emptyLine_def applyRecords_def applyReleases_def applyRepairs_def applyStops_def putRec_def\<close>)
  done

lemma journalled_id:
  assumes "journalled s" and "s_records s (recKey a b) = Some r" and "d_RunID cp = d_RunID r" and "d_TurnID cp = d_TurnID r"
  shows "post journalled (snd (snd (commitRecord s a b r cp kind det act clr id)))"
  using assms by (rule journalled_records) simp

lemma journalled_clear:
  assumes "journalled s" and "s_records s (recKey a b) = Some r" and "d_RunID cp = d_RunID r" and "d_TurnID cp = d_TurnID r"
  shows "post journalled (snd (snd (commitRecord s a b r cp kind det act clr
    (\<lambda>s'. clearIntentLocked s' ow ky gn))))"
  using assms by (rule journalled_records) simp

lemma journalled_resolve:
  assumes "journalled s" and "s_records s (recKey a b) = Some r" and "d_RunID cp = d_RunID r" and "d_TurnID cp = d_TurnID r"
  shows "post journalled (snd (snd (commitRecord s a b r cp kind det act clr
    (\<lambda>s'. putResolution rid res (clearIntentLocked s' ow ky gn)))))"
  using assms by (rule journalled_records) simp

lemma journalled_case:
  assumes "journalled s" and "s_records s (recKey a b) = Some r" and "d_RunID cp = d_RunID r" and "d_TurnID cp = d_TurnID r"
  shows "post journalled (snd (snd (snd (case commitRecord s a b r cp kind det act clr id of
           (rv, Some er, t) \<Rightarrow> (x, y rv, Some er, t) | (rv, None, t) \<Rightarrow> (z, w rv, None, t)))))"
  by (rule commitRecord_cases [of s cp clr a b r kind det act id])
    (use journalled_id [OF assms, of kind det act clr] in \<open>simp_all add: post_def\<close>)

lemmas journal_rules = journalled_id journalled_clear journalled_resolve journalled_case

lemma casAdvance_journalled:
  assumes "journalled s"
  shows "post journalled (snd (snd (casAdvance s a b rv ow x y None rl)))"
  unfolding casAdvance_def Let_def
  by (intro assms journal_rules [OF assms] post_intros) (auto simp: revokeAttachLocked_def)

lemma CASAdvanceSettle_journalled:
  assumes "journalled s"
  shows "post journalled (snd (snd (CASAdvanceSettle s a b rv x y)))"
  unfolding CASAdvanceSettle_def by (intro assms journal_rules [OF assms] post_intros) auto

lemma ClaimRecovery_journalled:
  assumes "journalled s"
  shows "post journalled (snd (snd (ClaimRecovery s a b rv x y)))"
  unfolding ClaimRecovery_def by (intro assms journal_rules [OF assms] post_intros) auto

lemma SetCancelRequested_journalled:
  assumes "journalled s"
  shows "post journalled (snd (snd (SetCancelRequested s a b rv x)))"
  unfolding SetCancelRequested_def by (intro assms journal_rules [OF assms] post_intros) auto

lemma CommitReceipt_journalled:
  assumes "journalled s"
  shows "post journalled (snd (snd (CommitReceiptAndClearIntent s a b rv x y z w)))"
  unfolding CommitReceiptAndClearIntent_def by (intro assms journal_rules [OF assms] post_intros) auto

lemma commitTerminal_journalled:
  assumes "journalled s"
  shows "post journalled (snd (snd (commitTerminal s a b rv x y z w g rl att)))"
  unfolding commitTerminal_def Let_def by (intro assms journal_rules [OF assms] post_intros) auto

lemma CommitRecoveryUnknown_journalled:
  assumes "journalled s"
  shows "post journalled (snd (snd (snd (CommitRecoveryUnknownOrRequireCancel s a b rv ow))))"
  unfolding CommitRecoveryUnknownOrRequireCancel_def
  by (intro assms journal_rules [OF assms] post_intros) (auto simp: revokeAttachLocked_def)

lemma ClaimRecoveryAttach_journalled:
  assumes "journalled s"
  shows "post journalled (snd (snd (snd (ClaimRecoveryAttach s a b rv ow ttl))))"
  unfolding ClaimRecoveryAttach_def Let_def by (intro assms journal_rules [OF assms] post_intros) auto

lemma commitPreSend_journalled:
  assumes "journalled s"
  shows "post journalled (snd (snd (commitPreSend s a b rv lo ow ky gn sg src rl)))"
  unfolding commitPreSend_def
  by (intro assms journal_rules [OF assms] post_intros) (auto simp: revokeAttachLocked_def)

lemma ResolveUncertain_journalled:
  assumes "journalled s"
  shows "post journalled (snd (snd (ResolveUncertain s a b rv rid act ev)))"
  unfolding ResolveUncertain_def Let_def
  by (intro assms journal_rules [OF assms] post_intros) (auto simp: revokeAttachLocked_def)

lemma RetryAsNew_journalled:
  assumes "journalled s"
  shows "post journalled (snd (snd (RetryAsNew s a b rv rid nt g h)))"
  unfolding RetryAsNew_def Let_def
  apply (intro assms post_log post_intros)
   apply (erule journalled_refused [OF assms])
  apply (erule journalled_accepted [OF assms])
  apply (auto simp: line_simps revokeAttachLocked_def journalled_keys(1) [OF assms] split: option.split)
  done

lemma commitEffect_journalled:
  assumes "journalled s"
  shows "journalled (snd (commitEffect s a b ek e kind det act))"
  by (rule commitEffect_cases [of s e a b ek kind det act])
    (simp_all add: journalled_refused [OF assms] journalled_accepted [OF assms] line_simps)

lemma EnterRecoveryAttach_journalled:
  assumes "journalled s"
  shows "post journalled (snd (EnterRecoveryAttach L s a b tok))"
  unfolding EnterRecoveryAttach_def Let_def
  by (intro assms post_intros) (simp_all add: post_def commitEffect_journalled assms)

lemma commitEffect_case_journalled:
  assumes "journalled s"
  shows "post journalled (snd (snd (case commitEffect s a b ek e kind det act of
           (Some er, t) \<Rightarrow> (x, Some er, t) | (None, t) \<Rightarrow> (y, None, t))))"
  by (rule commitEffect_cases [of s e a b ek kind det act])
    (use commitEffect_journalled [OF assms, of a b ek e kind det act] in \<open>simp_all add: post_def\<close>)

lemma RecordAttachedEffect_journalled:
  assumes "journalled s"
  shows "post journalled (snd (snd (RecordRecoveryAttachedEffect s a b tok ev p)))"
  unfolding RecordRecoveryAttachedEffect_def Let_def
  by (intro assms commitEffect_case_journalled post_intros)

lemma RecordEffectDone_journalled:
  assumes "journalled s"
  shows "post journalled (snd (snd (RecordEffectDone s a b k p h)))"
  unfolding RecordEffectDone_def Let_def
  by (intro assms commitEffect_case_journalled post_intros)

lemma CreateRelease_journalled:
  assumes "journalled s"
  shows "post journalled (snd (snd (CreateReleaseManifestItem L s a b c i)))"
  unfolding CreateReleaseManifestItem_def Let_def
  apply (intro assms post_log post_intros)
   apply (erule journalled_refused [OF assms])
  apply (erule journalled_accepted [OF assms])
  apply (auto simp: line_simps)
  done

lemma SuppressRelease_journalled:
  assumes "journalled s"
  shows "post journalled (snd (snd (SuppressReleaseManifestItem s a b c rv g)))"
  unfolding SuppressReleaseManifestItem_def Let_def
  apply (intro assms post_log post_intros)
   apply (erule journalled_refused [OF assms])
  apply (erule journalled_accepted [OF assms])
  apply (auto simp: line_simps journalled_keys(2) [OF assms])
  done

lemma OpenRepair_journalled:
  assumes "journalled s"
  shows "post journalled (snd (snd (OpenRepair L s a rs bl h)))"
  unfolding OpenRepair_def Let_def
  apply (intro assms post_log post_intros)
   apply (erule journalled_refused [OF assms])
  apply (erule journalled_accepted [OF assms])
  apply (auto simp: line_simps)
  done

lemma BeginRepair_journalled:
  assumes "journalled s"
  shows "post journalled (snd (snd (snd (BeginRepairResolution s a rv rid ac))))"
  unfolding BeginRepairResolution_def Let_def
  apply (intro assms post_log post_intros)
   apply (erule journalled_refused [OF assms])
  apply (erule journalled_accepted [OF assms])
  apply (auto simp: line_simps journalled_keys(3) [OF assms])
  done

lemma abandonLoop_journalled:
  assumes "journalled s"
  shows "journalled (snd (abandonLoop ks s))"
proof (rule abandonLoop_inv [where Q = journalled, OF assms])
  fix t k r dk
  assume t: "journalled t" and r: "s_records t k = Some r"
    and h: "hook_run t (recordLine (abandonRecord t r) None (inc64 (s_seq t))) = (None, dk)"
  show "journalled (abandonNext t k r dk)"
    by (rule journalled_accepted [OF t h])
      (use journalled_keys(1) [OF t r] in \<open>simp_all add: line_simps abandonRecord_def\<close>)
qed (rule journalled_refused)

lemma abandon_journalled:
  assumes "(if c then abandonLoop ks s else (None, s)) = (e, t)" and "journalled s"
  shows "journalled t"
  using assms abandonLoop_journalled [OF assms(2), of ks] by (auto split: if_splits)

lemma CommitRepair_journalled:
  assumes "journalled s"
  shows "post journalled (snd (snd (CommitRepairResolution od s a rv rid oc dt)))"
  unfolding CommitRepairResolution_def Let_def
  apply (intro assms post_log post_intros)
  subgoal premises p for r e t er dk
    by (rule journalled_refused [OF abandon_journalled [OF p(5) assms] p(7)])
  subgoal premises p for r e t dk
    by (rule journalled_accepted [OF abandon_journalled [OF p(5) assms] p(7)])
      (use journalled_keys(3) [OF assms p(1)] in \<open>simp_all add: line_simps\<close>)
  subgoal premises p for r e t er
    by (rule abandon_journalled [OF p(5) assms])
  done

lemma stops_cover_ensure:
  "stops_cover m (s_runStop s) \<Longrightarrow> stops_cover m (s_runStop (ensureActivationLocked s x))"
  unfolding stops_cover_def ensureActivationLocked_def Let_def initialStop_def
  by (auto dest: spec [of _ x])

lemma journalled_ensure: "journalled s \<Longrightarrow> journalled (ensureActivationLocked s x)"
  by (simp add: journalled_def covered_def stops_cover_ensure)

lemma CommitRelease_journalled:
  assumes "journalled s"
  shows "post journalled (snd (snd (CommitReleaseManifestItem L s a b c rv ch env)))"
  unfolding CommitReleaseManifestItem_def Let_def
  apply (intro assms post_log post_intros)
   apply (erule journalled_refused [OF assms])
  apply (erule journalled_accepted [OF assms])
  subgoal by simp
  subgoal by simp
  subgoal for item dk
    by (auto simp: line_simps journalled_keys(1) [OF assms] split: option.split)
  subgoal for item dk
    by (auto simp: line_simps journalled_keys(2) [OF assms])
  subgoal for item dk by (simp add: line_simps)
  subgoal for item dk m
    using stops_cover_ensure [of m "(appendAuditLocked s a b ''release_commit'' c ''system'')\<lparr>s_disk := dk\<rparr>"]
    by (simp add: line_simps)
  done

lemma stops_cover_upd: "stops_cover m ram \<Longrightarrow> stops_cover (m(x \<mapsto> st)) (ram(x \<mapsto> st))"
  by (auto simp: stops_cover_def)

lemma stops_cover_set: "stops_cover m ram \<Longrightarrow> ram x = Some st \<Longrightarrow> stops_cover (m(x \<mapsto> st)) ram"
  by (auto simp: stops_cover_def)

lemma CreatePrepared_journalled:
  assumes "journalled s"
  shows "post journalled (snd (CreatePrepared L s r env))"
  unfolding CreatePrepared_def Let_def
  apply (intro assms post_log post_intros)
  apply (erule journalled_refused [OF journalled_ensure [OF assms]])
  apply (erule journalled_accepted [OF journalled_ensure [OF assms]])
  subgoal by simp
  subgoal by simp
  subgoal by (simp add: line_simps)
  subgoal by (simp add: line_simps)
  subgoal by (simp add: line_simps)
  subgoal for dk m
    using journalled_keys(4) [OF journalled_ensure [OF assms]]
    by (auto simp: line_simps stops_cover_set split: option.split)
  done

lemma ReleaseRunStopFence_journalled:
  assumes "journalled s"
  shows "post journalled (snd (snd (ReleaseRunStopFence s a rv)))"
  unfolding ReleaseRunStopFence_def
  apply (intro assms post_log post_intros)
   apply (erule journalled_refused [OF assms])
  apply (erule journalled_accepted [OF assms])
  apply (auto simp: line_simps journalled_keys(4) [OF assms] stops_cover_upd)
  done

lemma RequestRunStop_journalled:
  assumes "journalled s"
  shows "post journalled (snd (snd (RequestRunStop s a rv rs)))"
proof -
  let ?s0 = "if s_runStop s a = None then ensureActivationLocked s a else s"
  let ?st = "the (s_runStop ?s0 a)"
  have j: "journalled ?s0" using assms journalled_ensure by simp
  have "rs_RunID ?st = a"
    using journalled_keys(4) [OF j, of a ?st] by (auto simp: ensure_stop)
  then show ?thesis
    unfolding RequestRunStop_def Let_def
    apply (intro j post_log post_intros)
     apply (erule journalled_refused [OF j])
    apply (erule journalled_accepted [OF j])
    apply (auto simp: line_simps stops_cover_upd)
    done
qed

lemmas cas_journalled =
  casAdvance_journalled CASAdvanceSettle_journalled ClaimRecovery_journalled SetCancelRequested_journalled
  CommitReceipt_journalled commitTerminal_journalled CommitRecoveryUnknown_journalled
  ClaimRecoveryAttach_journalled commitPreSend_journalled ResolveUncertain_journalled RetryAsNew_journalled

lemmas call_journalled =
  CreatePrepared_journalled RequestRunStop_journalled ReleaseRunStopFence_journalled
  EnterRecoveryAttach_journalled RecordAttachedEffect_journalled RecordEffectDone_journalled
  CreateRelease_journalled CommitRelease_journalled SuppressRelease_journalled OpenRepair_journalled
  BeginRepair_journalled CommitRepair_journalled

lemma exec_cas_journalled: "journalled s \<Longrightarrow> journalled (snd (exec_cas c s a b rv))"
  by (cases c) (simp_all add: cas_defs cas_journalled [unfolded post_def])

lemma tick_journalled: "journalled s \<Longrightarrow> journalled (s\<lparr>s_now := t\<rparr>)"
  by (simp add: journalled_def covered_def)

lemma exec_journalled: "journalled s \<Longrightarrow> journalled (after_op L op s)"
  by (cases op)
    (simp_all add: after_op_def exec_cas_journalled tick_journalled call_journalled [unfolded post_def])

lemma history_journalled: "journalled s \<Longrightarrow> journalled (after_ops L ops s)"
  by (induction ops arbitrary: s) (simp_all add: after_ops_def exec_journalled)

end

section \<open>The log file as a commit hook\<close>

interpretation logfile: commit_hook persistLine sound_disk log_lines
proof
  fix d d' :: logDisk and l e
  have tl: "set (tl (ld_faults d)) \<subseteq> set (ld_faults d)" by (cases "ld_faults d") auto
  show "sound_disk d' \<and> log_lines d' = log_lines d @ [l]" if "sound_disk d" "persistLine l d = (None, d')"
    using that tl by (auto simp: persistLine.simps sound_disk_def log_lines_def map_filter_def Let_def
        split: fault.splits list.splits)
  show "sound_disk d' \<and> log_lines d' = log_lines d" if "sound_disk d" "persistLine l d = (Some e, d')"
    using that tl by (auto simp: persistLine.simps sound_disk_def log_lines_def map_filter_def Let_def
        split: fault.splits list.splits)
qed

lemma applyLine_parts [simp]:
  "s_records (applyLine l s) = applyRecords l (s_records s)"
  "s_releases (applyLine l s) = applyReleases l (s_releases s)"
  "s_repairs (applyLine l s) = applyRepairs l (s_repairs s)"
  "s_runStop (applyLine l s) = applyStops l (s_runStop s)"
  "s_envelopes (applyLine l s) = applyEnvelopes l (s_envelopes s)"
  "s_effects (applyLine l s) = applyEffects l (s_effects s)"
  "s_resolutions (applyLine l s) = s_resolutions s"
  "s_disk (applyLine l s) = s_disk s" "s_afterCommit (applyLine l s) = s_afterCommit s"
  by (simp_all add: applyLine_def)

lemma fold_applyLine:
  "s_records (fold applyLine ls s) = replay applyRecords ls (s_records s)"
  "s_releases (fold applyLine ls s) = replay applyReleases ls (s_releases s)"
  "s_repairs (fold applyLine ls s) = replay applyRepairs ls (s_repairs s)"
  "s_runStop (fold applyLine ls s) = replay applyStops ls (s_runStop s)"
  "s_envelopes (fold applyLine ls s) = replay applyEnvelopes ls (s_envelopes s)"
  "s_effects (fold applyLine ls s) = replay applyEffects ls (s_effects s)"
  "s_resolutions (fold applyLine ls s) = s_resolutions s"
  "s_disk (fold applyLine ls s) = s_disk s" "s_afterCommit (fold applyLine ls s) = s_afterCommit s"
  by (induction ls arbitrary: s) (simp_all add: replay_def)

lemma readLog_lines: "readLog (map ILine ls) s = (fold applyLine ls s, 0)"
  by (induction ls arbitrary: s) simp_all

lemma readLog_torn: "readLog (map ILine ls @ IPart # xs) s = (fold applyLine ls s, 1)"
  by (induction ls arbitrary: s) simp_all

lemma sound_log: "IPart \<notin> set xs \<Longrightarrow> xs = map ILine (List.map_filter (\<lambda>i. case i of ILine l \<Rightarrow> Some l | IPart \<Rightarrow> None) xs)"
proof (induction xs)
  case (Cons x xs)
  then show ?case by (cases x) (simp_all add: map_filter_simps)
qed (simp add: map_filter_simps)

lemma load_sound:
  "sound_disk d \<Longrightarrow> load now d = (fold applyLine (log_lines d) (newMemoryDispatchStore now (Some persistLine) d), 0)"
  using sound_log [of "ld_log d"] readLog_lines [of "log_lines d"]
  by (simp add: load_def sound_disk_def log_lines_def)

lemma new_parts [simp]:
  "s_records (newMemoryDispatchStore now h d) = Map.empty" "s_releases (newMemoryDispatchStore now h d) = Map.empty"
  "s_repairs (newMemoryDispatchStore now h d) = Map.empty" "s_runStop (newMemoryDispatchStore now h d) = Map.empty"
  "s_envelopes (newMemoryDispatchStore now h d) = Map.empty" "s_effects (newMemoryDispatchStore now h d) = Map.empty"
  "s_disk (newMemoryDispatchStore now h d) = d" "s_afterCommit (newMemoryDispatchStore now h d) = h"
  "s_resolutions (newMemoryDispatchStore now h d) = Map.empty"
  by (simp_all add: newMemoryDispatchStore_def)

lemma load_journalled: "sound_disk d \<Longrightarrow> logfile.journalled (fst (load now d))"
  by (simp add: load_sound logfile.journalled_def covered_def fold_applyLine stops_cover_def)

section \<open>Compaction\<close>

lemma replay_append: "replay f (xs @ ys) m = replay f ys (replay f xs m)"
  by (simp add: replay_def)

lemma replay_idle: "(\<And>l m. l \<in> set ls \<Longrightarrow> f l m = m) \<Longrightarrow> replay f ls m = m"
  by (induction ls arbitrary: m) (simp_all add: replay_def)

lemma replay_rows:
  assumes "\<And>k v m. s_look k = Some v \<Longrightarrow> f (row v) m = m(k \<mapsto> v)"
  shows "replay f (map row (range_over s_look ks)) m =
    (\<lambda>k. if k \<in> set ks \<and> s_look k \<noteq> None then s_look k else m k)"
proof (induction ks arbitrary: m)
  case Nil
  then show ?case by (simp add: range_over_def map_filter_simps)
next
  case (Cons k ks)
  show ?case
  proof (cases "s_look k")
    case None
    with Cons show ?thesis by (auto simp: range_over_def map_filter_simps fun_eq_iff)
  next
    case (Some v)
    have "replay f (map row (range_over s_look (k # ks))) m = replay f (map row (range_over s_look ks)) (m(k \<mapsto> v))"
      using Some assms [OF Some] by (simp add: range_over_def map_filter_simps replay_def)
    with Some show ?thesis unfolding Cons by (auto simp: fun_eq_iff)
  qed
qed

lemma replay_compactRecords:
  assumes "\<And>k r. s_records s k = Some r \<Longrightarrow> recKey (d_RunID r) (d_TurnID r) = k"
  shows "replay applyRecords (concat (map (compactRecord s ttl) ks)) m k =
    (case s_records s k of
       Some r \<Rightarrow> if k \<in> set ks \<and> \<not> pruned s ttl r then Some r else m k
     | None \<Rightarrow> m k)"
proof (induction ks arbitrary: m)
  case Nil
  then show ?case by (simp split: option.split)
next
  case (Cons x ks)
  then show ?case
    using assms [of x]
    by (auto simp: replay_append compactRecord_def line_simps emptyLine_def replay_def split: option.splits)
qed

lemma replay_compactStops:
  assumes "\<And>x st. s_runStop s x = Some st \<Longrightarrow> rs_RunID st = x"
  shows "replay applyStops (map (\<lambda>x. (emptyLine kd at n)\<lparr>ll_Activation := f x, ll_RunStop := s_runStop s x\<rparr>) xs) m x =
    (if x \<in> set xs \<and> s_runStop s x \<noteq> None then s_runStop s x else m x)"
proof (induction xs arbitrary: m)
  case (Cons y xs)
  then show ?case
    using assms [of y] by (auto simp: replay_def applyStops_def emptyLine_def split: option.splits)
qed simp

lemma compactRecord_idle:
  "l \<in> set (concat (map (compactRecord s ttl) ks)) \<Longrightarrow>
   ll_Release l = None \<and> ll_Repair l = None \<and> ll_RunStop l = None \<and> ll_Successor l = None"
  by (auto simp: compactRecord_def emptyLine_def split: option.splits if_splits)

lemma idle_sections:
  "\<forall>l\<in>set ls. ll_Record l = None \<and> ll_Successor l = None \<Longrightarrow> replay applyRecords ls m = m"
  "\<forall>l\<in>set ls. ll_Release l = None \<Longrightarrow> replay applyReleases ls m' = m'"
  "\<forall>l\<in>set ls. ll_Repair l = None \<Longrightarrow> replay applyRepairs ls m'' = m''"
  "\<forall>l\<in>set ls. ll_RunStop l = None \<Longrightarrow> replay applyStops ls m3 = m3"
  by (rule replay_idle; simp add: line_simps)+

lemma emptyLine_fields [simp]:
  "ll_Record (emptyLine k a n) = None" "ll_Envelope (emptyLine k a n) = None"
  "ll_IntentClear (emptyLine k a n) = None" "ll_Effect (emptyLine k a n) = None"
  "ll_Release (emptyLine k a n) = None" "ll_Repair (emptyLine k a n) = None"
  "ll_RunStop (emptyLine k a n) = None" "ll_Activation (emptyLine k a n) = None"
  "ll_Successor (emptyLine k a n) = None"
  by (simp_all add: emptyLine_def)

lemma idle_records:
  "replay applyReleases (concat (map (compactRecord s ttl) ks)) m1 = m1"
  "replay applyRepairs (concat (map (compactRecord s ttl) ks)) m2 = m2"
  "replay applyStops (concat (map (compactRecord s ttl) ks)) m3 = m3"
  by (rule idle_sections; use compactRecord_idle in blast)+

text \<open>The six sections of the compacted log.\<close>

lemma compact_sections:
  obtains A C E where "compactLines od ttl s = A @ concat (map (compactRecord s ttl) (co_records od)) @ C @ E @
      map (\<lambda>i. (emptyLine ''release'' (clockStr s) (s_seq s))\<lparr>ll_Release := Some i\<rparr>)
        (range_over (s_releases s) (co_releases od)) @
      map (\<lambda>r. (emptyLine ''repair'' (clockStr s) (s_seq s))\<lparr>ll_Repair := Some r\<rparr>)
        (range_over (s_repairs s) (co_repairs od))"
    and "A = map (\<lambda>x. (emptyLine ''activation'' (clockStr s) (s_seq s))
           \<lparr>ll_Activation := map_option (\<lambda>v. \<lparr>da_RunID = x, da_ProtocolVersion = v\<rparr>) (s_activation s x),
            ll_RunStop := s_runStop s x\<rparr>) (co_activation od)"
    and "\<forall>l\<in>set A. ll_Record l = None \<and> ll_Successor l = None \<and> ll_Release l = None \<and> ll_Repair l = None"
    and "\<forall>l\<in>set (C @ E). ll_Record l = None \<and> ll_Successor l = None \<and> ll_Release l = None \<and>
           ll_Repair l = None \<and> ll_RunStop l = None"
  by (rule that [OF _ refl]) (auto simp: compactLines_def emptyLine_def)

lemma compact_records:
  assumes "logfile.journalled s" and "set (co_records od) = dom (s_records s)"
  shows "replay applyRecords (compactLines od ttl s) Map.empty =
    (\<lambda>k. case s_records s k of Some r \<Rightarrow> if pruned s ttl r then None else Some r | None \<Rightarrow> None)"
proof (rule compact_sections [of od ttl s], goal_cases)
  case (1 A C E)
  show ?case
    unfolding 1(1) replay_append
    using 1(3,4) assms(2)
    by (simp add: idle_sections(1) fun_eq_iff
        replay_compactRecords [OF logfile.journalled_keys(1) [OF assms(1)]])
      (auto split: option.split)
qed

lemma compact_releases:
  assumes "logfile.journalled s" and "set (co_releases od) = dom (s_releases s)"
  shows "replay applyReleases (compactLines od ttl s) Map.empty = s_releases s"
proof (rule compact_sections [of od ttl s], goal_cases)
  case (1 A C E)
  have rows: "applyReleases ((emptyLine ''release'' (clockStr s) (s_seq s))\<lparr>ll_Release := Some i\<rparr>) m = m(k \<mapsto> i)"
    if "s_releases s k = Some i" for k i m
    using logfile.journalled_keys(2) [OF assms(1) that] by (simp add: line_simps)
  show ?case
    unfolding 1(1) replay_append
    using 1(3,4) assms(2)
    by (simp add: idle_sections(2) idle_records replay_rows [OF rows] fun_eq_iff dom_def)
qed

lemma compact_repairs:
  assumes "logfile.journalled s" and "set (co_repairs od) = dom (s_repairs s)"
  shows "replay applyRepairs (compactLines od ttl s) Map.empty = s_repairs s"
proof (rule compact_sections [of od ttl s], goal_cases)
  case (1 A C E)
  have rows: "applyRepairs ((emptyLine ''repair'' (clockStr s) (s_seq s))\<lparr>ll_Repair := Some p\<rparr>) m = m(x \<mapsto> p)"
    if "s_repairs s x = Some p" for x p m
    using logfile.journalled_keys(3) [OF assms(1) that] by (simp add: line_simps)
  show ?case
    unfolding 1(1) replay_append
    using 1(3,4) assms(2)
    by (simp add: idle_sections(3) idle_records replay_rows [OF rows] fun_eq_iff dom_def)
qed

lemma compact_stops:
  assumes "logfile.journalled s" and "set (co_activation od) = dom (s_activation s)" and "s_activation s x \<noteq> None"
  shows "replay applyStops (compactLines od ttl s) Map.empty x = s_runStop s x"
proof (rule compact_sections [of od ttl s], goal_cases)
  case (1 A C E)
  show ?case
    unfolding 1(1) replay_append
    using 1(4) assms(2,3)
    by (simp add: idle_sections(4) idle_records 1(2)
        replay_compactStops [OF logfile.journalled_keys(4) [OF assms(1)]]) auto
qed

section \<open>Restarts\<close>

lemma journalled_reload:
  assumes "logfile.journalled s"
  shows "snd (load now (s_disk s)) = 0" "s_records (fst (load now (s_disk s))) = s_records s"
    "s_releases (fst (load now (s_disk s))) = s_releases s" "s_repairs (fst (load now (s_disk s))) = s_repairs s"
    "stops_cover (s_runStop (fst (load now (s_disk s)))) (s_runStop s)"
  using assms by (simp_all add: logfile.journalled_def covered_def load_sound fold_applyLine)

lemma replay_cong_disk: "applyLine l (s\<lparr>s_disk := d\<rparr>) = (applyLine l s)\<lparr>s_disk := d\<rparr>"
  by (cases s) (simp add: applyLine_def split: option.split)

lemma readLog_disk: "readLog xs (s\<lparr>s_disk := d\<rparr>) = (case readLog xs s of (t, n) \<Rightarrow> (t\<lparr>s_disk := d\<rparr>, n))"
  by (induction xs s rule: readLog.induct) (simp_all add: replay_cong_disk)

lemma readLog_stuck: "IPart \<in> set xs \<Longrightarrow> readLog (xs @ ys) s = readLog xs s"
  by (induction xs s rule: readLog.induct) simp_all

lemma readLog_resolutions: "s_resolutions (fst (readLog xs s)) = s_resolutions s"
  by (induction xs s rule: readLog.induct) simp_all

lemma compact_reload:
  assumes "logfile.journalled s" and "complete_order od s" and "Compact None od ttl s = (None, u)"
  shows "load now (s_disk u) = (fold applyLine (compactLines od ttl s)
           (newMemoryDispatchStore now (Some persistLine) (s_disk u)), 0)"
  using assms readLog_lines [of "compactLines od ttl s"] by (auto simp: load_def Compact_def)

lemma envelopes_after_line:
  assumes "logfile.journalled s" and "hook_run s l = (None, dk)"
  shows "s_envelopes (fst (load now dk)) = applyEnvelopes l (s_envelopes (fst (load now (s_disk s))))"
  using assms logfile.accepts [of "s_disk s" l dk]
  by (simp add: logfile.journalled_def hook_run_def load_sound fold_applyLine)

lemma retry_reload:
  assumes j: "logfile.journalled s" and nr: "\<not> is_replay s (Retry rid nt g h)"
    and env: "s_envelopes (fst (load now (s_disk s))) (recKey a nt) = None"
  shows "post (\<lambda>(e, u). e = None \<longrightarrow> GetEnvelope (fst (load now (s_disk u))) a nt = Inl ErrNotFound \<and>
      (\<exists>v. GetEnvelope u a nt = Inr v)) (snd (RetryAsNew s a b rv rid nt g h))"
  unfolding RetryAsNew_def Let_def
  apply (intro post_log post_intros)
           apply (use nr in \<open>simp_all split: if_splits\<close>)
  apply (auto simp: GetEnvelope_def envelopes_after_line [OF j] applyEnvelopes_def env
      revokeAttachLocked_def logfile.journalled_keys(1) [OF j])
  done

section \<open>Properties\<close>

text \<open>
  C8: A restart brings the durable state back: open a store on a log without fragments, make
  any calls, each of which may fail to open the file, and load the log again; nothing is
  dropped, the records, the release items and the repairs are those of the memory before the
  restart, and so is every run-stop state but those of runs that were never stopped.
\<close>

theorem restart_restores:
  assumes "sound_disk d" and "t = after_ops L ops (fst (load now d))"
  shows "snd (load now' (s_disk t)) = 0 \<and> s_records (fst (load now' (s_disk t))) = s_records t \<and>
    s_releases (fst (load now' (s_disk t))) = s_releases t \<and> s_repairs (fst (load now' (s_disk t))) = s_repairs t \<and>
    stops_cover (s_runStop (fst (load now' (s_disk t)))) (s_runStop t)"
  using journalled_reload [OF logfile.history_journalled [OF load_journalled [OF assms(1)]]] assms(2) by simp

theorem restart_restores_witness:
  "sound_disk demo_disk \<and>
   s_records (fst (load 7 (s_disk (after_ops demo_lib [OpCreatePrepared demo_record demo_envelope] (fst (load 5 demo_disk))))))
     = s_records (after_ops demo_lib [OpCreatePrepared demo_record demo_envelope] (fst (load 5 demo_disk)))"
proof -
  have "sound_disk demo_disk" by (simp add: sound_disk_def demo_disk_def)
  with restart_restores [OF this refl, where L = demo_lib and ops = "[OpCreatePrepared demo_record demo_envelope]"
      and now = 5 and now' = 7]
  show ?thesis by simp
qed

text \<open>
  C9: Compaction keeps the live state: after \<open>Compact\<close> and a restart, the records
  are those before less the pruned ones (terminal, settled and older than the time to live), the
  release items and the repairs are the same, and so are the run-stop states of the activated
  runs.
\<close>

theorem compaction_keeps_live_state:
  assumes "sound_disk d" and "t = after_ops L ops (fst (load now d))" and "complete_order od t"
    and "Compact None od ttl t = (None, u)" and "v = fst (load now' (s_disk u))"
  shows "s_records v = (\<lambda>k. case s_records t k of
            Some r \<Rightarrow> if pruned t ttl r then None else Some r | None \<Rightarrow> None) \<and>
    s_releases v = s_releases t \<and> s_repairs v = s_repairs t \<and>
    (\<forall>x. s_activation t x \<noteq> None \<longrightarrow> s_runStop v x = s_runStop t x)"
proof -
  have j: "logfile.journalled t"
    using logfile.history_journalled [OF load_journalled [OF assms(1)]] assms(2) by simp
  have v: "v = fold applyLine (compactLines od ttl t) (newMemoryDispatchStore now' (Some persistLine) (s_disk u))"
    using compact_reload [OF j assms(3,4)] assms(5) by simp
  show ?thesis
    using assms(3) compact_records [OF j] compact_releases [OF j] compact_repairs [OF j] compact_stops [OF j]
    by (simp add: v fold_applyLine complete_order_def)
qed

theorem compaction_keeps_live_state_witness:
  "s_records (fst (load 9 (s_disk (snd (Compact None demo_order 1 (fst (load 5 demo_disk))))))) = Map.empty"
proof -
  let ?t = "after_ops demo_lib [] (fst (load 5 demo_disk))"
  have s: "sound_disk demo_disk" by (simp add: sound_disk_def demo_disk_def)
  have l: "fst (load 5 demo_disk) = newMemoryDispatchStore 5 (Some persistLine) demo_disk"
    by (simp add: load_def demo_disk_def)
  have "complete_order demo_order ?t"
    by (simp add: l after_ops_def complete_order_def demo_order_def newMemoryDispatchStore_def)
  then show ?thesis
    using compaction_keeps_live_state [OF s refl, where L = demo_lib and ops = "[]" and now = 5 and od = demo_order
        and ttl = 1 and u = "snd (Compact None demo_order 1 ?t)" and v = "fst (load 9 (s_disk (snd (Compact None demo_order 1 ?t))))"
        and now' = 9]
    by (simp add: l after_ops_def Compact_def)
qed

text \<open>
  A torn tail is dropped and nothing else: when the log ends in a fragment, loading it
  gives the store of the whole lines before the fragment, and counts one drop.
\<close>

theorem torn_tail_dropped:
  assumes "ld_log d = map ILine ls @ [IPart]"
  shows "load now d = ((fst (load now (d\<lparr>ld_log := map ILine ls\<rparr>)))\<lparr>s_disk := d\<rparr>, 1)"
proof -
  define d0 where "d0 = d\<lparr>ld_log := map ILine ls\<rparr>"
  define n0 where "n0 = newMemoryDispatchStore now (Some persistLine) d0"
  have n: "newMemoryDispatchStore now (Some persistLine) d = n0\<lparr>s_disk := d\<rparr>"
    by (simp add: n0_def newMemoryDispatchStore_def)
  have "fold applyLine ls (n0\<lparr>s_disk := d\<rparr>) = (fold applyLine ls n0)\<lparr>s_disk := d\<rparr>"
    using readLog_disk [where xs = "map ILine ls" and s = n0 and d = d] by (simp add: readLog_lines)
  moreover have "load now d0 = (fold applyLine ls n0, 0)"
    by (simp add: load_def readLog_lines n0_def d0_def)
  moreover have "load now d = (fold applyLine ls (n0\<lparr>s_disk := d\<rparr>), 1)"
    by (simp add: load_def assms readLog_torn n)
  ultimately show ?thesis by (simp add: d0_def)
qed

theorem torn_tail_dropped_witness:
  "load 5 \<lparr>ld_log = [IPart], ld_faults = []\<rparr> =
     ((fst (load 5 \<lparr>ld_log = [], ld_faults = []\<rparr>))\<lparr>s_disk := \<lparr>ld_log = [IPart], ld_faults = []\<rparr>\<rparr>, 1)"
  using torn_tail_dropped [where d = "\<lparr>ld_log = [IPart], ld_faults = []\<rparr>" and ls = "[]" and now = 5] by simp

text \<open>
  A line appended after a fragment is lost: when a failed write has left a fragment in the
  log, a later append succeeds, but loading the log gives what it gave before that append.
\<close>

theorem append_after_fragment_lost:
  assumes "IPart \<in> set (ld_log d)" and "persistLine l d = (None, d')"
  shows "load now d' = (case load now d of (s, n) \<Rightarrow> (s\<lparr>s_disk := d'\<rparr>, n))"
proof -
  have l: "ld_log d' = ld_log d @ [ILine l]"
    using assms(2) by (auto simp: persistLine.simps Let_def split: fault.splits)
  have n: "newMemoryDispatchStore now (Some persistLine) d' = (newMemoryDispatchStore now (Some persistLine) d)\<lparr>s_disk := d'\<rparr>"
    by (simp add: newMemoryDispatchStore_def)
  show ?thesis by (simp add: load_def l readLog_stuck [OF assms(1)] n readLog_disk)
qed

theorem append_after_fragment_lost_witness:
  "fst (persistLine (emptyLine ''record'' TEmpty 1) \<lparr>ld_log = [IPart], ld_faults = []\<rparr>) = None \<and>
   s_records (fst (load 5 (snd (persistLine (emptyLine ''record'' TEmpty 1) \<lparr>ld_log = [IPart], ld_faults = []\<rparr>)))) = Map.empty"
  using append_after_fragment_lost [where d = "\<lparr>ld_log = [IPart], ld_faults = []\<rparr>" and now = 5
      and l = "emptyLine ''record'' TEmpty 1"
      and d' = "\<lparr>ld_log = [IPart, ILine (emptyLine ''record'' TEmpty 1)], ld_faults = []\<rparr>"]
  by (simp add: persistLine.simps load_def)

text \<open>
  \<open>MissingLogRepairRequired\<close> never reports a missing log: without an
  activation entry the protocol version reads as 0, and with one the method returns false.
\<close>

theorem missing_log_never_reported: "\<not> MissingLogRepairRequired order s runID"
  by (simp add: MissingLogRepairRequired_def GetRunProtocolVersion_def DispatchProtocolV2_def split: option.split)

text \<open>
  A restart forgets every operator resolution: whatever the log holds, no resolution id is
  known after loading it.
\<close>

theorem resolutions_not_restored: "GetResolutionResult (fst (load now d)) rid = None"
  by (simp add: GetResolutionResult_def load_def readLog_resolutions)

text \<open>
  After a restart the successor of \<open>RetryAsNew\<close> has a record and no envelope:
  memory holds the envelope under the new turn, the log line files it under the old one.
\<close>

theorem retry_envelope_lost_on_restart:
  assumes "sound_disk d" and "t = after_ops L ops (fst (load now d))"
    and "RetryAsNew t a b rv rid nt g h = (rv', None, u)" and "\<not> is_replay t (Retry rid nt g h)"
    and "GetEnvelope (fst (load now' (s_disk t))) a nt = Inl ErrNotFound"
  shows "Get (fst (load now' (s_disk u))) a nt = Get u a nt \<and> (\<exists>e. GetEnvelope u a nt = Inr e) \<and>
    GetEnvelope (fst (load now' (s_disk u))) a nt = Inl ErrNotFound"
proof -
  have j: "logfile.journalled t"
    using logfile.history_journalled [OF load_journalled [OF assms(1)]] assms(2) by simp
  have u: "u = after_op L (OpCAS a b rv (Retry rid nt g h)) t" using assms(3) by (simp add: after_op_def)
  have "s_envelopes (fst (load now' (s_disk t))) (recKey a nt) = None"
    using assms(5) by (simp add: GetEnvelope_def split: option.splits)
  from retry_reload [OF j assms(4) this, of b rv] assms(3)
  have "GetEnvelope (fst (load now' (s_disk u))) a nt = Inl ErrNotFound \<and> (\<exists>v. GetEnvelope u a nt = Inr v)"
    by (simp add: post_def)
  moreover have "Get (fst (load now' (s_disk u))) a nt = Get u a nt"
    using journalled_reload(2) [OF logfile.exec_journalled [OF j, of L "OpCAS a b rv (Retry rid nt g h)"], of now'] u
    by (simp add: Get_def getRecLocked_def)
  ultimately show ?thesis by blast
qed

lemma demo_uncertain_simps [simp]:
  "d_State demo_uncertain = DispatchUncertain" "d_Revision demo_uncertain = 4"
  "d_RunID demo_uncertain = ''run-1''" "d_TurnID demo_uncertain = ''turn-1''"
  "d_ParentStopFence demo_uncertain = None" "d_OuterIntentKey demo_uncertain = ''''"
  by (simp_all add: demo_uncertain_def demo_record_def zeroRecord_def)

lemma demo_load_parts [simp]:
  "s_records (fst (load n demo_log)) = [demo_key \<mapsto> demo_uncertain]"
  "s_envelopes (fst (load n demo_log)) = [demo_key \<mapsto> demo_envelope]"
  "s_resolutions (fst (load n demo_log)) = Map.empty"
  "s_disk (fst (load n demo_log)) = demo_log" "s_afterCommit (fst (load n demo_log)) = Some persistLine"
  by (simp_all add: load_def demo_log_def applyRecords_def applyEnvelopes_def)

lemma demo_key_other: "recKey ''run-1'' ''turn-2'' \<noteq> demo_key"
  by (simp add: demo_key_def recKey_def)

lemma demo_log_faults: "ld_faults demo_log = []"
  by (simp add: demo_log_def)

lemma demo_retry_succeeds:
  "fst (snd (RetryAsNew (fst (load 5 demo_log)) ''run-1'' ''turn-1'' 4 '''' ''turn-2'' 0 '''')) = None"
  by (simp add: RetryAsNew_def Let_def getRecLocked_def demo_key_other retrySuperseded_def
      checkParentFenceLocked_def logged_def commitLine_def persistLine.simps demo_log_faults)

theorem retry_envelope_lost_on_restart_witness:
  "\<exists>rv u. RetryAsNew (fst (load 5 demo_log)) ''run-1'' ''turn-1'' 4 '''' ''turn-2'' 0 '''' = (rv, None, u) \<and>
     (\<exists>e. GetEnvelope u ''run-1'' ''turn-2'' = Inr e) \<and>
     GetEnvelope (fst (load 9 (s_disk u))) ''run-1'' ''turn-2'' = Inl ErrNotFound"
proof -
  let ?t = "fst (load 5 demo_log)"
  obtain rv u where r: "RetryAsNew ?t ''run-1'' ''turn-1'' 4 '''' ''turn-2'' 0 '''' = (rv, None, u)"
    using demo_retry_succeeds by (metis prod.collapse)
  have t: "?t = after_ops demo_lib [] ?t" by (simp add: after_ops_def)
  have "sound_disk demo_log" by (simp add: sound_disk_def demo_log_def)
  from retry_envelope_lost_on_restart [OF this t r, where now' = 9] r show ?thesis
    by (auto simp: GetEnvelope_def demo_key_other)
qed

end
