(* ===== verification/Dispatch_Recovery.thy ===== *)
theory Dispatch_Recovery
  imports Dispatch_Safety
begin

text \<open>
  Boot recovery of \<open>runner/dispatch_recovery.go\<close>: the scanner that claims every recoverable
  record under a lease and classifies it. The callback \<open>EnsureLiveAndRedispatch\<close> into the
  interactive service is a parameter, a function on the store; the order in which
  \<open>ListRecoverable\<close> ranges over the records is a function of the store. The scanner's store is
  the in-memory store.
\<close>

section \<open>Scanner\<close>

record 'd RecoveryScanner =
  sc_Owner :: string
  sc_Lease :: time
  sc_EnsureLiveAndRedispatch :: "(string \<Rightarrow> 'd memoryDispatchStore \<Rightarrow> 'd memoryDispatchStore) option"

definition cancelReason :: "string \<Rightarrow> string" where
  "cancelReason turnID =
     ''cancel_required: send_started/provider_accepted after stop (turn='' @ turnID @ '')''"

definition reconcileOne ::
  "golib \<Rightarrow> 'd RecoveryScanner \<Rightarrow> 'd memoryDispatchStore \<Rightarrow> DispatchRecord \<Rightarrow> error option \<times> 'd memoryDispatchStore" where
  "reconcileOne L sc s rec =
     (if IsTerminal (d_State rec) then (None, s)
      else case ClaimRecovery s (d_RunID rec) (d_TurnID rec) (d_Revision rec) (sc_Owner sc) (sc_Lease sc) of
        (_, Some e, s1) \<Rightarrow> (None, s1)
      | (_, None, s1) \<Rightarrow>
          (case Get s1 (d_RunID rec) (d_TurnID rec) of
             Inl e \<Rightarrow> (Some e, s1)
           | Inr cur \<Rightarrow>
               if d_State cur = DispatchPrepared \<or> d_State cur = DispatchSendClaimed then
                 (if d_CancelRequested cur
                  then snd (CommitRecoveryPreSendCancellationAndClearIntent s1 (d_RunID cur) (d_TurnID cur)
                         (d_Revision cur) (sc_Owner sc) (d_IntentOwnerRunID cur) (d_OuterIntentKey cur)
                         (d_OuterIntentGen cur) (d_StopGeneration cur) PreSendStopSelf)
                  else (None, case sc_EnsureLiveAndRedispatch sc of
                                None \<Rightarrow> s1 | Some cb \<Rightarrow> cb (d_RunID cur) s1))
               else if d_State cur = DispatchSendStarted \<or> d_State cur = DispatchProviderAccepted then
                 (case CommitRecoveryUnknownOrRequireCancel s1 (d_RunID cur) (d_TurnID cur)
                         (d_Revision cur) (sc_Owner sc) of
                    (_, _, Some e, s2) \<Rightarrow> (Some e, s2)
                  | (decision, _, None, s2) \<Rightarrow>
                      if decision = RecoveryCancelRequired
                      then (None, snd (snd (OpenRepair L s2 (d_RunID cur) (cancelReason (d_TurnID cur)) '''' '''')))
                      else (None, s2))
               else (None, s1)))"

fun reconcileAll ::
  "golib \<Rightarrow> 'd RecoveryScanner \<Rightarrow> DispatchRecord list \<Rightarrow> 'd memoryDispatchStore \<Rightarrow> nat \<times> 'd memoryDispatchStore" where
  "reconcileAll L sc [] s = (0, s)"
| "reconcileAll L sc (rec # recs) s =
     (let (e, s1) = reconcileOne L sc s rec; (n, s2) = reconcileAll L sc recs s1
      in (if e = None then n else Suc n, s2))"

definition scanDefaults :: "'d RecoveryScanner \<Rightarrow> 'd RecoveryScanner" where
  "scanDefaults sc =
     (let sc1 = (if sc_Owner sc = '''' then sc\<lparr>sc_Owner := ''recovery-scanner''\<rparr> else sc)
      in if sc_Lease sc1 \<le> 0 then sc1\<lparr>sc_Lease := 30000000000\<rparr> else sc1)"

definition ScanRun ::
  "golib \<Rightarrow> ('d memoryDispatchStore \<Rightarrow> string list) \<Rightarrow> 'd RecoveryScanner \<Rightarrow> 'd memoryDispatchStore \<Rightarrow> string \<Rightarrow>
   error option \<times> 'd memoryDispatchStore" where
  "ScanRun L order sc s runID =
     (case reconcileAll L (scanDefaults sc) (ListRecoverable L (order s) s runID) s of
        (failed, s1) \<Rightarrow> (if 0 < failed then Some (ErrReconcileFailed failed) else None, s1))"

text \<open>The boot scan: every run of the list once, in the order of first occurrence.\<close>

fun scanRuns ::
  "golib \<Rightarrow> ('d memoryDispatchStore \<Rightarrow> string list) \<Rightarrow> 'd RecoveryScanner \<Rightarrow> DispatchRecord list \<Rightarrow> string list \<Rightarrow>
   'd memoryDispatchStore \<Rightarrow> nat \<times> 'd memoryDispatchStore" where
  "scanRuns L order sc [] seen s = (0, s)"
| "scanRuns L order sc (rec # recs) seen s =
     (if d_RunID rec = '''' \<or> d_RunID rec \<in> set seen then scanRuns L order sc recs seen s
      else let (e, s1) = ScanRun L order sc s (d_RunID rec);
               (n, s2) = scanRuns L order sc recs (d_RunID rec # seen) s1
           in (if e = None then n else Suc n, s2))"

definition ScanAllRecoverable ::
  "golib \<Rightarrow> ('d memoryDispatchStore \<Rightarrow> string list) \<Rightarrow> 'd RecoveryScanner \<Rightarrow> 'd memoryDispatchStore \<Rightarrow>
   error option \<times> 'd memoryDispatchStore" where
  "ScanAllRecoverable L order sc s =
     (case scanRuns L order sc (ListRecoverable L (order s) s '''') [] s of
        (failed, s1) \<Rightarrow> (if 0 < failed then Some (ErrReconcileFailed failed) else None, s1))"

definition demo_scanner :: "unit RecoveryScanner" where
  "demo_scanner = \<lparr>sc_Owner = ''boot'', sc_Lease = 30, sc_EnsureLiveAndRedispatch = None\<rparr>"

definition demo_sent :: DispatchRecord where
  "demo_sent = demo_claimed\<lparr>d_State := DispatchSendStarted\<rparr>"

definition demo_foreign :: DispatchRecord where
  "demo_foreign = demo_sent\<lparr>d_ClaimOwner := ''other'', d_ClaimExpiresAt := TAt 200\<rparr>"

definition demo_leased :: DispatchRecord where
  "demo_leased = demo_sent\<lparr>d_ClaimOwner := ''boot'', d_ClaimExpiresAt := TAt 200\<rparr>"

fun lease_of :: "cas_call \<Rightarrow> string option" where
  "lease_of (RecoveryAdvance ow x y) = Some ow"
| "lease_of (RecoveredTerminal ow pf io ky g) = Some ow"
| "lease_of (RecoveryUnknown ow) = Some ow"
| "lease_of (TakeAttach ow ttl) = Some ow"
| "lease_of (RecoveryPreSend ow io ky g sg src) = Some ow"
| "lease_of _ = None"

definition claimable :: "'d memoryDispatchStore \<Rightarrow> string \<Rightarrow> DispatchRecord \<Rightarrow> bool" where
  "claimable s owner r \<longleftrightarrow>
     s_afterCommit s = None \<and> s_records s (recKey (d_RunID r) (d_TurnID r)) = Some r \<and>
     \<not> (d_ClaimOwner r \<noteq> '''' \<and> d_ClaimOwner r \<noteq> owner \<and> leaseOKLocked s r (d_ClaimOwner r))"

definition leased :: "'d memoryDispatchStore \<Rightarrow> string \<Rightarrow> time \<Rightarrow> DispatchRecord \<Rightarrow> DispatchRecord" where
  "leased s owner ttl r =
     r\<lparr>d_ClaimOwner := owner, d_ClaimExpiresAt := TAt (s_now s + ttl),
       d_Revision := inc64 (d_Revision r), d_UpdatedAt := clockStr s\<rparr>"

definition claimed_store ::
  "'d memoryDispatchStore \<Rightarrow> string \<Rightarrow> time \<Rightarrow> DispatchRecord \<Rightarrow> 'd memoryDispatchStore" where
  "claimed_store s owner ttl r =
     putRec (appendAuditLocked s (d_RunID r) (d_TurnID r) ''claim_recovery'' (''owner='' @ owner) owner)
       (recKey (d_RunID r) (d_TurnID r)) (leased s owner ttl r)"

section \<open>A scan is a sequence of calls\<close>

text \<open>The calls the scanner makes itself: none of them starts a send.\<close>

definition quiet_op :: "dispatch_op \<Rightarrow> bool" where
  "quiet_op op \<longleftrightarrow> (\<forall>a b rv c. op = OpCAS a b rv c \<longrightarrow> \<not> is_advance c)"

definition reaches :: "golib \<Rightarrow> 'd memoryDispatchStore \<Rightarrow> 'd memoryDispatchStore \<Rightarrow> bool" where
  "reaches L s s' \<longleftrightarrow> (\<exists>ops. (\<forall>op \<in> set ops. quiet_op op) \<and> s' = after_ops L ops s)"

definition quiet_callback :: "golib \<Rightarrow> 'd RecoveryScanner \<Rightarrow> bool" where
  "quiet_callback L sc \<longleftrightarrow> (\<forall>cb x s. sc_EnsureLiveAndRedispatch sc = Some cb \<longrightarrow> reaches L s (cb x s))"

lemma reaches_refl [simp]: "reaches L s s"
  unfolding reaches_def by (rule exI [of _ "[]"]) (simp add: after_ops_def)

lemma reaches_trans: "reaches L s t \<Longrightarrow> reaches L t u \<Longrightarrow> reaches L s u"
  unfolding reaches_def by (metis (no_types, lifting) Un_iff after_ops_def comp_apply fold_append set_append)

lemma reaches_op: "quiet_op op \<Longrightarrow> after_op L op s = s' \<Longrightarrow> reaches L s s'"
  unfolding reaches_def by (rule exI [of _ "[op]"]) (simp add: after_ops_def)

lemma reaches_claim: "reaches L s (snd (snd (ClaimRecovery s a b rv ow ttl)))"
  by (rule reaches_op [of "OpCAS a b rv (TakeLease ow ttl)"]) (simp_all add: quiet_op_def after_op_def)

lemma reaches_preSend:
  "reaches L s (snd (snd (CommitRecoveryPreSendCancellationAndClearIntent s a b rv lo ow ky g sg src)))"
  by (rule reaches_op [of "OpCAS a b rv (RecoveryPreSend lo ow ky g sg src)"]) (simp_all add: quiet_op_def after_op_def)

lemma reaches_unknown: "reaches L s (snd (snd (snd (CommitRecoveryUnknownOrRequireCancel s a b rv lo))))"
  by (rule reaches_op [of "OpCAS a b rv (RecoveryUnknown lo)"]) (simp_all add: quiet_op_def after_op_def)

lemma reaches_repair: "reaches L s (snd (snd (OpenRepair L s a rs bl h)))"
  by (rule reaches_op [of "OpOpenRepair a rs bl h"]) (simp_all add: quiet_op_def after_op_def)

lemma reconcileOne_reaches:
  assumes "quiet_callback L sc"
  shows "reaches L s (snd (reconcileOne L sc s rec))"
proof -
  obtain rv e s1 where c: "ClaimRecovery s (d_RunID rec) (d_TurnID rec) (d_Revision rec) (sc_Owner sc) (sc_Lease sc)
      = (rv, e, s1)" by (metis prod_cases3)
  have s1: "reaches L s s1"
    using reaches_claim [of L s "d_RunID rec" "d_TurnID rec" "d_Revision rec" "sc_Owner sc" "sc_Lease sc"] c by simp
  have un: "reaches L s1 s2" if "CommitRecoveryUnknownOrRequireCancel s1 a b rv lo = (x, y, z, s2)" for a b rv lo x y z s2
    using reaches_unknown [of L s1 a b rv lo] that by simp
  have cb: "reaches L s1 (cb x s1)" if "sc_EnsureLiveAndRedispatch sc = Some cb" for cb x
    using assms that by (simp add: quiet_callback_def)
  have "reaches L s1 (snd (reconcileOne L sc s rec))" if "\<not> IsTerminal (d_State rec)"
    using that c
    by (auto simp: reconcileOne_def intro: un cb reaches_preSend reaches_trans [OF un reaches_repair]
        split: option.split sum.split prod.split)
  then show ?thesis using s1 by (cases "IsTerminal (d_State rec)") (auto simp: reconcileOne_def intro: reaches_trans)
qed

lemma reconcileAll_reaches: "quiet_callback L sc \<Longrightarrow> reaches L s (snd (reconcileAll L sc recs s))"
proof (induction recs arbitrary: s)
  case (Cons rec recs)
  have "reaches L s (snd (reconcileOne L sc s rec))" by (rule reconcileOne_reaches [OF Cons.prems])
  with Cons.IH [OF Cons.prems] Cons.prems show ?case
    by (simp add: Let_def case_prod_beta) (blast intro: reaches_trans)
qed simp

lemma defaults_callback: "quiet_callback L sc \<Longrightarrow> quiet_callback L (scanDefaults sc)"
  by (simp add: quiet_callback_def scanDefaults_def Let_def)

lemma ScanRun_reaches: "quiet_callback L sc \<Longrightarrow> reaches L s (snd (ScanRun L order sc s x))"
  using reconcileAll_reaches [OF defaults_callback, of L sc s "ListRecoverable L (order s) s x"]
  by (auto simp: ScanRun_def split: prod.split)

lemma scanRuns_reaches: "quiet_callback L sc \<Longrightarrow> reaches L s (snd (scanRuns L order sc recs seen s))"
proof (induction recs arbitrary: s seen)
  case (Cons rec recs)
  have "reaches L s (snd (ScanRun L order sc s (d_RunID rec)))" by (rule ScanRun_reaches [OF Cons.prems])
  with Cons.IH [OF Cons.prems] Cons.prems show ?case
    by (simp add: Let_def case_prod_beta) (blast intro: reaches_trans)
qed simp

lemma ScanAll_reaches: "quiet_callback L sc \<Longrightarrow> reaches L s (snd (ScanAllRecoverable L order sc s))"
  using scanRuns_reaches [of L sc s order "ListRecoverable L (order s) s ''''" "[]"]
  by (auto simp: ScanAllRecoverable_def split: prod.split)

lemma quiet_op_not_started:
  assumes "quiet_op op" and "s_records (after_op L op s) k = Some r'" and "d_State r' = DispatchSendStarted"
    and "DispatchProtocolV2 \<le> d_ProtocolVersion r'"
  shows "\<exists>r. s_records s k = Some r \<and> d_State r = DispatchSendStarted \<and> DispatchProtocolV2 \<le> d_ProtocolVersion r"
proof (cases "s_records s k")
  case None
  with assms recs.creates [OF None assms(2)] show ?thesis by (simp add: fresh_at_def fresh_record_def)
next
  case (Some r)
  have q: "evolves quiet_step s (after_op L op s)" using assms(1) by (intro exec_quiet) (auto simp: quiet_op_def)
  then have "r' = r \<or> quiet_step r r'" using Some assms(2) unfolding evolves_def by fastforce
  with Some assms(3,4) show ?thesis by (auto simp: quiet_step_def rec_step_def)
qed

lemma reaches_not_started:
  assumes "reaches L s s'" and "s_records s' k = Some r'" and "d_State r' = DispatchSendStarted"
    and "DispatchProtocolV2 \<le> d_ProtocolVersion r'"
  shows "\<exists>r. s_records s k = Some r \<and> d_State r = DispatchSendStarted"
proof -
  have "\<exists>r. s_records s k = Some r \<and> d_State r = DispatchSendStarted \<and> DispatchProtocolV2 \<le> d_ProtocolVersion r"
    if "\<forall>op \<in> set ops. quiet_op op" "s_records (after_ops L ops s) k = Some r'" for ops
    using that assms(3,4)
  proof (induction ops arbitrary: s)
    case (Cons op ops)
    then obtain r where "s_records (after_op L op s) k = Some r" "d_State r = DispatchSendStarted"
        "DispatchProtocolV2 \<le> d_ProtocolVersion r"
      by (fastforce simp: after_ops_def)
    with Cons.prems(1) show ?case by (intro quiet_op_not_started) auto
  qed (simp add: after_ops_def)
  with assms show ?thesis unfolding reaches_def by blast
qed

section \<open>Properties\<close>

text \<open>
  The boot scan starts no send: when the redispatch callback, too, makes only calls that
  are not state advances, a protocol-2 record that is in \<open>send_started\<close> after
  \<open>ScanAllRecoverable\<close> was so before, whatever the commit hook answers and whatever
  errors the scan meets.
\<close>

theorem boot_scan_starts_no_send:
  assumes "quiet_callback L sc" and "ScanAllRecoverable L order sc s = (e, s')"
    and "s_records s' k = Some r'" and "d_State r' = DispatchSendStarted"
    and "DispatchProtocolV2 \<le> d_ProtocolVersion r'"
  shows "\<exists>r. s_records s k = Some r \<and> d_State r = DispatchSendStarted"
  using reaches_not_started [OF _ assms(3-5)] ScanAll_reaches [OF assms(1), of s order] assms(2) by simp

section \<open>Classification\<close>

text \<open>
  The store the scanner works on when no log line is refused and the record is not leased to
  another owner.
\<close>

lemma no_hook_commit:
  "s_afterCommit s = None \<Longrightarrow> commitRecord s a b r cp kd det act clr after =
     (d_Revision cp, None, after (putRec (appendAuditLocked s a b kd det act) (recKey a b) cp))"
  by (simp add: commitRecord_def)

lemma claim_succeeds:
  assumes "claimable s owner r"
  shows "ClaimRecovery s (d_RunID r) (d_TurnID r) (d_Revision r) owner ttl =
      (inc64 (d_Revision r), None, claimed_store s owner ttl r)"
  using assms by (auto simp: claimable_def ClaimRecovery_def getRecLocked_def no_hook_commit leased_def claimed_store_def)

lemma claimed_store_parts [simp]:
  "s_records (claimed_store s owner ttl r) = (s_records s)(recKey (d_RunID r) (d_TurnID r) \<mapsto> leased s owner ttl r)"
  "s_afterCommit (claimed_store s owner ttl r) = s_afterCommit s" "s_runStop (claimed_store s owner ttl r) = s_runStop s"
  "s_now (claimed_store s owner ttl r) = s_now s" "s_repairs (claimed_store s owner ttl r) = s_repairs s"
  by (simp_all add: claimed_store_def appendAuditLocked_def Let_def)

lemma leased_parts [simp]:
  "d_State (leased s owner ttl r) = d_State r" "d_CancelRequested (leased s owner ttl r) = d_CancelRequested r"
  "d_RunID (leased s owner ttl r) = d_RunID r" "d_TurnID (leased s owner ttl r) = d_TurnID r"
  "d_ParentStopFence (leased s owner ttl r) = d_ParentStopFence r" "d_Revision (leased s owner ttl r) = inc64 (d_Revision r)"
  by (simp_all add: leased_def)

lemma lease_holds: "owner \<noteq> '''' \<Longrightarrow> 0 < ttl \<Longrightarrow> leaseOKLocked (claimed_store s owner ttl r) (leased s owner ttl r) owner"
  by (simp add: leaseOKLocked_def leased_def)

lemma stop_unchanged: "effectiveStopLocked (claimed_store s owner ttl r) (leased s owner ttl r) = effectiveStopLocked s r"
  by (simp add: effectiveStopLocked_def checkOwnStopLocked_def checkParentFenceLocked_def cong: option.case_cong)

lemma leased_transition [simp]: "canTransition (leased s owner ttl r) x = canTransition r x"
  by (simp add: canTransition_def)

text \<open>What the scanner does to a record it claims, by the state of the record.\<close>

lemma reconcile_claimed:
  assumes "claimable s (sc_Owner sc) r" and "\<not> IsTerminal (d_State r)"
  shows "reconcileOne L sc s r =
    (let s1 = claimed_store s (sc_Owner sc) (sc_Lease sc) r; cur = leased s (sc_Owner sc) (sc_Lease sc) r
     in if d_State r = DispatchPrepared \<or> d_State r = DispatchSendClaimed then
          (if d_CancelRequested r
           then snd (CommitRecoveryPreSendCancellationAndClearIntent s1 (d_RunID r) (d_TurnID r)
                  (d_Revision cur) (sc_Owner sc) (d_IntentOwnerRunID cur) (d_OuterIntentKey cur)
                  (d_OuterIntentGen cur) (d_StopGeneration cur) PreSendStopSelf)
           else (None, case sc_EnsureLiveAndRedispatch sc of None \<Rightarrow> s1 | Some cb \<Rightarrow> cb (d_RunID cur) s1))
        else if d_State r = DispatchSendStarted \<or> d_State r = DispatchProviderAccepted then
          (case CommitRecoveryUnknownOrRequireCancel s1 (d_RunID r) (d_TurnID r) (d_Revision cur) (sc_Owner sc) of
             (_, _, Some e, s2) \<Rightarrow> (Some e, s2)
           | (decision, _, None, s2) \<Rightarrow>
               if decision = RecoveryCancelRequired
               then (None, snd (snd (OpenRepair L s2 (d_RunID cur) (cancelReason (d_TurnID cur)) '''' '''')))
               else (None, s2))
        else (None, s1))"
  using assms(2) by (simp add: reconcileOne_def claim_succeeds [OF assms(1)] Get_def getRecLocked_def Let_def)

lemma reconcile_cancels:
  assumes "claimable s (sc_Owner sc) r" and "sc_Owner sc \<noteq> ''''" and "0 < sc_Lease sc"
    and "d_State r = DispatchPrepared \<or> d_State r = DispatchSendClaimed" and "d_CancelRequested r"
  shows "\<exists>s' r'. reconcileOne L sc s r = (None, s') \<and> s_records s' (recKey (d_RunID r) (d_TurnID r)) = Some r' \<and>
     d_State r' = DispatchTerminalCancelled \<and> d_StopOutcome r' = StopOutcomeStoppedBeforeSend"
proof -
  have t: "\<not> IsTerminal (d_State r)" and l: "canTransition r DispatchTerminalCancelled = None"
    using assms(4) by (auto simp: canTransition_def)
  show ?thesis
    using assms(1,4,5)
    by (auto simp: l reconcile_claimed [OF assms(1) t] Let_def cas_defs commitPreSend_def getRecLocked_def lease_holds
        assms(2,3) no_hook_commit claimable_def revokeAttachLocked_def)
qed

lemma reconcile_uncertain:
  assumes "claimable s (sc_Owner sc) r" and "sc_Owner sc \<noteq> ''''" and "0 < sc_Lease sc"
    and "IsSent (d_State r)" and "\<not> effectiveStopLocked s r"
  shows "\<exists>s' r'. reconcileOne L sc s r = (None, s') \<and> s_records s' (recKey (d_RunID r) (d_TurnID r)) = Some r' \<and>
     d_State r' = DispatchUncertain"
proof -
  have st: "d_State r = DispatchSendStarted \<or> d_State r = DispatchProviderAccepted"
    using assms(4) by (cases "d_State r") auto
  then have t: "\<not> IsTerminal (d_State r)" and l: "canTransition r DispatchUncertain = None"
    by (auto simp: canTransition_def)
  show ?thesis
    using assms(1) st assms(5)
    by (auto simp: l reconcile_claimed [OF assms(1) t] Let_def CommitRecoveryUnknownOrRequireCancel_def getRecLocked_def
        lease_holds assms(2,3) stop_unchanged no_hook_commit claimable_def revokeAttachLocked_def)
qed

lemma reconcile_repairs:
  assumes "claimable s (sc_Owner sc) r" and "sc_Owner sc \<noteq> ''''" and "0 < sc_Lease sc"
    and "IsSent (d_State r)" and "effectiveStopLocked s r"
  shows "\<exists>s' r' p. reconcileOne L sc s r = (None, s') \<and> s_records s' (recKey (d_RunID r) (d_TurnID r)) = Some r' \<and>
     d_State r' = d_State r \<and> GetOpenRepair s' (d_RunID r) = Some p"
proof -
  have st: "d_State r = DispatchSendStarted \<or> d_State r = DispatchProviderAccepted"
    using assms(4) by (cases "d_State r") auto
  then have t: "\<not> IsTerminal (d_State r)" by auto
  show ?thesis
    using assms(1) st assms(5)
    by (auto simp: reconcile_claimed [OF assms(1) t] Let_def CommitRecoveryUnknownOrRequireCancel_def getRecLocked_def
        lease_holds assms(2,3) stop_unchanged claimable_def OpenRepair_def GetOpenRepair_def split: option.splits)
qed

text \<open>
  Recovery classifies a record it can claim: an unsent record with a cancel request ends
  cancelled as stopped before the send; a sent record becomes uncertain when no stop is in
  force, and otherwise keeps its state and leaves an open repair for the operator.
\<close>

theorem recovery_classifies:
  assumes "claimable s (sc_Owner sc) r" and "sc_Owner sc \<noteq> ''''" and "0 < sc_Lease sc"
  shows "(d_State r = DispatchPrepared \<or> d_State r = DispatchSendClaimed \<longrightarrow> d_CancelRequested r \<longrightarrow>
      (\<exists>s' r'. reconcileOne L sc s r = (None, s') \<and> s_records s' (recKey (d_RunID r) (d_TurnID r)) = Some r' \<and>
         d_State r' = DispatchTerminalCancelled \<and> d_StopOutcome r' = StopOutcomeStoppedBeforeSend)) \<and>
    (IsSent (d_State r) \<longrightarrow> \<not> effectiveStopLocked s r \<longrightarrow>
      (\<exists>s' r'. reconcileOne L sc s r = (None, s') \<and> s_records s' (recKey (d_RunID r) (d_TurnID r)) = Some r' \<and>
         d_State r' = DispatchUncertain)) \<and>
    (IsSent (d_State r) \<longrightarrow> effectiveStopLocked s r \<longrightarrow>
      (\<exists>s' r' p. reconcileOne L sc s r = (None, s') \<and> s_records s' (recKey (d_RunID r) (d_TurnID r)) = Some r' \<and>
         d_State r' = d_State r \<and> GetOpenRepair s' (d_RunID r) = Some p))"
  using reconcile_cancels [OF assms] reconcile_uncertain [OF assms] reconcile_repairs [OF assms] by blast

theorem recovery_classifies_witness:
  "\<exists>s' r'. reconcileOne demo_lib demo_scanner (demo_stored demo_sent) demo_sent = (None, s') \<and>
     s_records s' demo_key = Some r' \<and> d_State r' = DispatchUncertain"
proof -
  have "claimable (demo_stored demo_sent) (sc_Owner demo_scanner) demo_sent"
    by (simp add: claimable_def demo_sent_def demo_scanner_def demo_claimed_def demo_record_def zeroRecord_def)
  moreover have "\<not> effectiveStopLocked (demo_stored demo_sent) demo_sent"
    by (simp add: effectiveStopLocked_def checkOwnStopLocked_def checkParentFenceLocked_def demo_sent_def)
  ultimately show ?thesis
    using recovery_classifies [of "demo_stored demo_sent" demo_scanner demo_sent demo_lib]
    by (simp add: demo_scanner_def demo_sent_def)
qed

lemma demo_foreign_simps [simp]:
  "d_State demo_foreign = DispatchSendStarted" "d_RunID demo_foreign = ''run-1''" "d_TurnID demo_foreign = ''turn-1''"
  "d_Revision demo_foreign = 2" "d_ClaimOwner demo_foreign = ''other''" "d_ClaimExpiresAt demo_foreign = TAt 200"
  "d_ProtocolVersion demo_foreign = 2"
  by (simp_all add: demo_foreign_def demo_sent_def)

theorem boot_scan_starts_no_send_witness:
  "ScanAllRecoverable demo_lib (\<lambda>_. [demo_key]) demo_scanner (demo_stored demo_foreign) = (None, demo_stored demo_foreign) \<and>
   (\<exists>r. s_records (demo_stored demo_foreign) demo_key = Some r \<and> d_State r = DispatchSendStarted)"
proof -
  let ?s = "demo_stored demo_foreign"
  have q: "quiet_callback demo_lib demo_scanner" by (simp add: quiet_callback_def demo_scanner_def)
  have "s_now ?s = 100" by (simp add: demo_stored_def)
  then have sc: "ScanAllRecoverable demo_lib (\<lambda>_. [demo_key]) demo_scanner ?s = (None, ?s)"
    by (simp add: ScanAllRecoverable_def ListRecoverable_def range_over_def map_filter_simps recoverable_def
        ScanRun_def scanDefaults_def reconcileOne_def ClaimRecovery_def getRecLocked_def leaseOKLocked_def
        demo_scanner_def)
  then show ?thesis
    using boot_scan_starts_no_send [OF q sc, where r' = demo_foreign and k = demo_key]
    by (simp add: DispatchProtocolV2_def)
qed

section \<open>Leases\<close>

text \<open>The owner a lease-guarded call presents.\<close>

text \<open>
  A live lease is exclusive: while another owner holds it, claiming the record and every
  lease-guarded commit (advance, terminal, unknown, attach, pre-send cancel) are refused and
  leave the store as it is.
\<close>

theorem lease_exclusive:
  assumes "s_records s (recKey a b) = Some r" and "d_ClaimOwner r \<noteq> ''''" and "leaseOKLocked s r (d_ClaimOwner r)"
    and "ow \<noteq> d_ClaimOwner r" and "lease_of c = Some ow \<or> (\<exists>ttl. c = TakeLease ow ttl)"
  shows "\<exists>e. exec_cas c s a b rv = (Some e, s) \<and> e \<in> {ErrStaleDispatch, ErrRecoveryLeaseLost}"
proof -
  have g: "getRecLocked s a b = Inr r" using assms(1) by simp
  have l: "\<not> leaseOKLocked s r ow" using assms(4) by (simp add: leaseOKLocked_def)
  show ?thesis
    using assms(2-5) l
    by (cases c) (auto simp: g cas_defs casAdvance_def commitTerminal_def CommitRecoveryUnknownOrRequireCancel_def
        ClaimRecoveryAttach_def commitPreSend_def ClaimRecovery_def simp del: getRec_Inr)
qed

theorem lease_exclusive_witness:
  "\<exists>e. exec_cas (RecoveryUnknown ''other'') (demo_stored demo_leased) ''run-1'' ''turn-1'' 2 =
     (Some e, demo_stored demo_leased) \<and> e \<in> {ErrStaleDispatch, ErrRecoveryLeaseLost}"
  by (rule lease_exclusive [where r = demo_leased and ow = "''other''"])
    (simp_all add: demo_leased_def leaseOKLocked_def demo_stored_def)

end
