(* ===== verification/Dispatch_Settle.thy ===== *)
theory Dispatch_Settle
  imports Dispatch_Recovery
begin

text \<open>
  The settle driver of \<open>runner/dispatch_settle.go\<close>: it carries a terminal record that owes a
  settlement through its phases, recording the durable effect of a phase before it advances.
  The gate and the effect builder are parameters (the gate may answer differently at each
  attempt, hence its first argument), as is the JSON text of an effect payload. The unbounded
  loop of \<open>DriveSettle\<close> has fuel; \<open>settle_terminates\<close> shows that six rounds are enough.
\<close>

section \<open>Driver\<close>

record SettleDriver =
  sd_EvaluateGate :: "(nat \<Rightarrow> string \<Rightarrow> string \<Rightarrow> error + (bool \<times> bool)) option"
  sd_BuildEffect :: "(DispatchRecord \<Rightarrow> SettlePhase \<Rightarrow> string \<Rightarrow> error + string) option"

text \<open>The JSON text of an effect payload, from run, turn, kind and the extra members.\<close>

type_synonym payload_json = "string \<Rightarrow> string \<Rightarrow> string \<Rightarrow> (string \<times> string) list \<Rightarrow> string"

fun bool_text :: "bool \<Rightarrow> string" where
  "bool_text True = ''true''"
| "bool_text False = ''false''"

definition settleEffectPayload :: "payload_json \<Rightarrow> DispatchRecord \<Rightarrow> string \<Rightarrow> (string \<times> string) list \<Rightarrow> string" where
  "settleEffectPayload J rec kind extra = J (d_RunID rec) (d_TurnID rec) kind extra"

definition planNext ::
  "payload_json \<Rightarrow> SettleDriver \<Rightarrow> nat \<Rightarrow> DispatchRecord \<Rightarrow> error + (SettlePhase \<times> string \<times> string)" where
  "planNext J D attempt rec =
     (case d_SettlePhase rec of
        SettleGateEvaluated \<Rightarrow>
          Inr (SettleCompletionCommitted, ''completion_event'',
               settleEffectPayload J rec ''completion_event'' [(''outcome'', state_string (d_State rec))])
      | SettleCompletionCommitted \<Rightarrow>
          Inr (SettleGraphSettled, ''graph_signal'',
               settleEffectPayload J rec ''graph_signal'' [(''outcome'', state_string (d_State rec))])
      | SettleGraphSettled \<Rightarrow>
          Inr (SettleDependentsReleased, ''dependents_release'',
               settleEffectPayload J rec ''dependents_release'' [(''stop_outcome'', d_StopOutcome rec)])
      | SettleDependentsReleased \<Rightarrow>
          Inr (SettleFinalized, ''finalizer'',
               settleEffectPayload J rec ''finalizer'' [(''outcome'', state_string (d_State rec))])
      | SettlePhaseOther x \<Rightarrow> Inl ErrUnknownSettlePhase
      | SettleFinalized \<Rightarrow> Inl ErrUnknownSettlePhase
      | SettleSupersededReprompt \<Rightarrow> Inl ErrUnknownSettlePhase
      | _ \<Rightarrow>
          (case sd_EvaluateGate D of
             None \<Rightarrow> Inl ErrGateRequired
           | Some gate \<Rightarrow>
               (case gate attempt (d_RunID rec) (d_TurnID rec) of
                  Inl e \<Rightarrow> Inl e
                | Inr (allow, reprompt) \<Rightarrow>
                    let payload = settleEffectPayload J rec ''gate_eval''
                          [(''allow'', bool_text allow), (''reprompt'', bool_text reprompt)]
                    in if reprompt \<or> \<not> allow then Inr (SettleSupersededReprompt, ''gate_eval'', payload)
                       else Inr (SettleGateEvaluated, ''gate_eval'', payload))))"

definition builtPayload ::
  "SettleDriver \<Rightarrow> DispatchRecord \<Rightarrow> SettlePhase \<Rightarrow> string \<Rightarrow> string \<Rightarrow> error + string" where
  "builtPayload D rec next kind payload =
     (case sd_BuildEffect D of
        None \<Rightarrow> Inr payload
      | Some f \<Rightarrow> (case f rec next kind of
                     Inl e \<Rightarrow> Inl e
                   | Inr p \<Rightarrow> Inr (if p \<noteq> '''' then p else payload)))"

text \<open>
  One round of the loop: \<open>Inl\<close> when \<open>DriveSettle\<close> returns (with its error, and whether it calls
  \<open>OnFinalized\<close>), \<open>Inr\<close> when it goes round again.
\<close>

definition settleRound ::
  "golib \<Rightarrow> payload_json \<Rightarrow> SettleDriver \<Rightarrow> nat \<Rightarrow> 'd memoryDispatchStore \<Rightarrow> string \<Rightarrow> string \<Rightarrow>
   (error option \<times> bool \<times> 'd memoryDispatchStore) + 'd memoryDispatchStore" where
  "settleRound L J D attempt s runID turnID =
     (case Get s runID turnID of
        Inl e \<Rightarrow> Inl (Some e, False, s)
      | Inr rec \<Rightarrow>
          if \<not> IsTerminal (d_State rec) then Inl (None, False, s)
          else if \<not> d_SettleOwed rec \<or> IsSettleFinal (d_SettlePhase rec) then Inl (None, False, s)
          else (case planNext J D attempt rec of
                  Inl e \<Rightarrow> Inl (Some e, False, s)
                | Inr (next, kind, payload0) \<Rightarrow>
                    (case builtPayload D rec next kind payload0 of
                       Inl e \<Rightarrow> Inl (Some e, False, s)
                     | Inr payload \<Rightarrow>
                         (case RecordEffectDone s runID turnID kind payload (HashBytes L payload) of
                            (_, Some e, s1) \<Rightarrow> Inl (Some e, False, s1)
                          | (_, None, s1) \<Rightarrow>
                              (case CASAdvanceSettle s1 runID turnID (d_Revision rec) (d_SettlePhase rec) next of
                                 (_, Some e, s2) \<Rightarrow> Inl (Some e, False, s2)
                               | (_, None, s2) \<Rightarrow>
                                   if next = SettleFinalized \<or> next = SettleSupersededReprompt
                                   then Inl (None, next = SettleFinalized, s2)
                                   else Inr s2)))))"

fun DriveSettle ::
  "nat \<Rightarrow> golib \<Rightarrow> payload_json \<Rightarrow> SettleDriver \<Rightarrow> nat \<Rightarrow> 'd memoryDispatchStore \<Rightarrow> string \<Rightarrow> string \<Rightarrow>
   (error option \<times> bool \<times> 'd memoryDispatchStore) option" where
  "DriveSettle 0 L J D attempt s runID turnID = None"
| "DriveSettle (Suc n) L J D attempt s runID turnID =
     (case settleRound L J D attempt s runID turnID of
        Inl res \<Rightarrow> Some res
      | Inr s' \<Rightarrow> DriveSettle n L J D attempt s' runID turnID)"

definition settle_fuel :: nat where
  "settle_fuel = 6"

text \<open>
  \<open>RetrySettleWithBackoff\<close>: the delays only pass time; \<open>ctxDone i\<close> is the error of the context
  when it ends during the delay after attempt \<open>i\<close>.
\<close>

fun retryLoop ::
  "nat \<Rightarrow> nat \<Rightarrow> golib \<Rightarrow> payload_json \<Rightarrow> SettleDriver \<Rightarrow> (nat \<Rightarrow> error option) \<Rightarrow> error option \<Rightarrow>
   'd memoryDispatchStore \<Rightarrow> string \<Rightarrow> string \<Rightarrow> (error option \<times> 'd memoryDispatchStore) option" where
  "retryLoop 0 i L J D ctxDone lastErr s runID turnID = Some (lastErr, s)"
| "retryLoop (Suc n) i L J D ctxDone lastErr s runID turnID =
     (case DriveSettle settle_fuel L J D i s runID turnID of
        None \<Rightarrow> None
      | Some (None, _, s') \<Rightarrow> Some (None, s')
      | Some (Some e, _, s') \<Rightarrow>
          (case ctxDone i of
             Some c \<Rightarrow> Some (Some c, s')
           | None \<Rightarrow> retryLoop n (Suc i) L J D ctxDone (Some e) s' runID turnID))"

definition RetrySettleWithBackoff ::
  "int \<Rightarrow> golib \<Rightarrow> payload_json \<Rightarrow> SettleDriver \<Rightarrow> (nat \<Rightarrow> error option) \<Rightarrow>
   'd memoryDispatchStore \<Rightarrow> string \<Rightarrow> string \<Rightarrow> (error option \<times> 'd memoryDispatchStore) option" where
  "RetrySettleWithBackoff attempts L J D ctxDone s runID turnID =
     retryLoop (nat (if attempts \<le> 0 then 5 else attempts)) 0 L J D ctxDone None s runID turnID"

section \<open>Progress\<close>

text \<open>How many phases are left.\<close>

fun phase_rank :: "SettlePhase \<Rightarrow> nat" where
  "phase_rank SettlePending = 5"
| "phase_rank SettleGateEvaluated = 4"
| "phase_rank SettleCompletionCommitted = 3"
| "phase_rank SettleGraphSettled = 2"
| "phase_rank SettleDependentsReleased = 1"
| "phase_rank _ = 0"

definition record_rank :: "'d memoryDispatchStore \<Rightarrow> string \<Rightarrow> string \<Rightarrow> nat" where
  "record_rank s runID turnID =
     (case s_records s (recKey runID turnID) of None \<Rightarrow> 0 | Some r \<Rightarrow> phase_rank (d_SettlePhase r))"

text \<open>The effect recorded before the phase that follows.\<close>

fun effect_of :: "SettlePhase \<Rightarrow> string" where
  "effect_of SettleGateEvaluated = ''completion_event''"
| "effect_of SettleCompletionCommitted = ''graph_signal''"
| "effect_of SettleGraphSettled = ''dependents_release''"
| "effect_of SettleDependentsReleased = ''finalizer''"
| "effect_of _ = ''gate_eval''"

fun effects_from :: "SettlePhase \<Rightarrow> string list" where
  "effects_from SettlePending =
     [''gate_eval'', ''completion_event'', ''graph_signal'', ''dependents_release'', ''finalizer'']"
| "effects_from SettleGateEvaluated = [''completion_event'', ''graph_signal'', ''dependents_release'', ''finalizer'']"
| "effects_from SettleCompletionCommitted = [''graph_signal'', ''dependents_release'', ''finalizer'']"
| "effects_from SettleGraphSettled = [''dependents_release'', ''finalizer'']"
| "effects_from SettleDependentsReleased = [''finalizer'']"
| "effects_from _ = []"

fun next_phase :: "SettlePhase \<Rightarrow> SettlePhase" where
  "next_phase SettlePending = SettleGateEvaluated"
| "next_phase SettleGateEvaluated = SettleCompletionCommitted"
| "next_phase SettleCompletionCommitted = SettleGraphSettled"
| "next_phase SettleGraphSettled = SettleDependentsReleased"
| "next_phase SettleDependentsReleased = SettleFinalized"
| "next_phase p = p"

text \<open>
  The commit hook, if there is one, answers no line with an error, now or after any lines that it has
  answered: a log whose disk takes what is written, for example.
\<close>

definition writes_succeed :: "'d memoryDispatchStore \<Rightarrow> bool" where
  "writes_succeed s \<longleftrightarrow>
     (\<exists>fit. fit (s_disk s) \<and>
        (\<forall>h line dk. s_afterCommit s = Some h \<longrightarrow> fit dk \<longrightarrow> fst (h line dk) = None \<and> fit (snd (h line dk))))"

text \<open>The payload of an effect when the gate allows.\<close>

definition allowed_payload :: "payload_json \<Rightarrow> DispatchRecord \<Rightarrow> string \<Rightarrow> string" where
  "allowed_payload J r kind =
     settleEffectPayload J r kind
       (if kind = ''gate_eval'' then [(''allow'', bool_text True), (''reprompt'', bool_text False)]
        else if kind = ''dependents_release'' then [(''stop_outcome'', d_StopOutcome r)]
        else [(''outcome'', state_string (d_State r))])"

text \<open>
  A turn that the driver can settle without meeting a failure: the writes succeed, and an effect of a
  phase still ahead is not recorded, or was recorded by a drive that was cut off and has the same payload.
\<close>

definition settle_ready :: "golib \<Rightarrow> payload_json \<Rightarrow> 'd memoryDispatchStore \<Rightarrow> string \<Rightarrow> string \<Rightarrow> DispatchRecord \<Rightarrow> bool" where
  "settle_ready L J s runID turnID r \<longleftrightarrow>
     writes_succeed s \<and> s_records s (recKey runID turnID) = Some r \<and> IsTerminal (d_State r) \<and>
     d_SettleOwed r \<and> \<not> IsSettleFinal (d_SettlePhase r) \<and>
     (\<forall>k \<in> set (effects_from (d_SettlePhase r)).
        case s_effects s (effectKey runID turnID k) of
          None \<Rightarrow> True
        | Some e \<Rightarrow> ef_PayloadHash e = HashBytes L (allowed_payload J r k))"

definition gate_allows :: "SettleDriver \<Rightarrow> nat \<Rightarrow> DispatchRecord \<Rightarrow> bool" where
  "gate_allows D attempt r \<longleftrightarrow>
     (\<exists>gate. sd_EvaluateGate D = Some gate \<and> gate attempt (d_RunID r) (d_TurnID r) = Inr (True, False))"

definition gate_refuses :: "SettleDriver \<Rightarrow> nat \<Rightarrow> DispatchRecord \<Rightarrow> bool" where
  "gate_refuses D attempt r \<longleftrightarrow>
     (case sd_EvaluateGate D of
        None \<Rightarrow> True
      | Some gate \<Rightarrow> (case gate attempt (d_RunID r) (d_TurnID r) of
                        Inl e \<Rightarrow> True | Inr (allow, reprompt) \<Rightarrow> reprompt \<or> \<not> allow))"

text \<open>Inputs of the witnesses: a completed turn that owes its settlement, and two drivers.\<close>

definition demo_owing :: DispatchRecord where
  "demo_owing = demo_record\<lparr>d_ProtocolVersion := 2, d_State := DispatchTerminalCompleted, d_Revision := 5,
     d_SettleOwed := True, d_SettlePhase := SettlePending\<rparr>"

definition demo_driver :: SettleDriver where
  "demo_driver = \<lparr>sd_EvaluateGate = Some (\<lambda>i x y. Inr (True, False)), sd_BuildEffect = None\<rparr>"

definition demo_no_gate :: SettleDriver where
  "demo_no_gate = \<lparr>sd_EvaluateGate = None, sd_BuildEffect = None\<rparr>"

definition demo_json :: payload_json where
  "demo_json runID turnID kind extra = kind"

lemma demo_owing_simps [simp]:
  "d_State demo_owing = DispatchTerminalCompleted" "d_SettleOwed demo_owing" "d_SettlePhase demo_owing = SettlePending"
  "s_effects (demo_stored r) = Map.empty"
  by (simp_all add: demo_owing_def demo_stored_def demo_new_def newMemoryDispatchStore_def)

lemma demo_ready:
  "settle_ready L J (demo_stored demo_owing) ''run-1'' ''turn-1'' demo_owing" "gate_allows demo_driver i demo_owing"
  "sd_BuildEffect demo_driver = None"
  by (auto simp: settle_ready_def writes_succeed_def gate_allows_def demo_driver_def intro: exI [of _ "\<lambda>dk. True"])

lemma post_commitEffect_case1 [post_log]:
  assumes "\<And>er dk. hook_run s (effectLine s e (inc64 (s_seq s))) = (Some er, dk) \<Longrightarrow> post Q (snd (g er (s\<lparr>s_disk := dk\<rparr>)))"
    and "\<And>dk. hook_run s (effectLine s e (inc64 (s_seq s))) = (None, dk) \<Longrightarrow>
      post Q (snd (f ((appendAuditLocked s runID turnID kind det act)
        \<lparr>s_disk := dk, s_effects := (s_effects s)(ek \<mapsto> e)\<rparr>)))"
  shows "post Q (snd (case commitEffect s runID turnID ek e kind det act of
           (Some er, t) \<Rightarrow> g er t | (None, t) \<Rightarrow> f t))"
  by (rule commitEffect_cases [of s e runID turnID ek kind det act]) (simp_all add: assms)

lemma RecordEffectDone_effect:
  assumes "RecordEffectDone s a b k p h = (rv, None, s')"
  shows "s_records s' = s_records s" "s_effects s \<subseteq>\<^sub>m s_effects s'" "s_effects s' (effectKey a b k) \<noteq> None"
proof -
  have "post (\<lambda>(e, t). e = None \<longrightarrow> s_records t = s_records s \<and> s_effects t (effectKey a b k) \<noteq> None)
      (snd (RecordEffectDone s a b k p h))"
    unfolding RecordEffectDone_def Let_def
    by (intro post_log post_intros) simp_all
  with assms show "s_records s' = s_records s" "s_effects s' (effectKey a b k) \<noteq> None"
    by (simp_all add: post_def)
  show "s_effects s \<subseteq>\<^sub>m s_effects s'"
    using RecordEffectDone_tame [of s a b k p h] assms by (simp add: post_def tame_def)
qed

lemma CASAdvanceSettle_done:
  assumes "CASAdvanceSettle s a b rv x y = (rv', None, s')"
  shows "\<exists>r r'. s_records s (recKey a b) = Some r \<and> d_SettlePhase r = x \<and> canAdvanceSettle x y = None \<and>
     s_records s' (recKey a b) = Some r' \<and> d_SettlePhase r' = y \<and> d_State r' = d_State r \<and>
     d_SettleOwed r' = d_SettleOwed r \<and> s_effects s' = s_effects s"
proof -
  have "post (\<lambda>(e, t). e = None \<longrightarrow> (\<exists>r r'. s_records s (recKey a b) = Some r \<and> d_SettlePhase r = x \<and>
     canAdvanceSettle x y = None \<and>
     s_records t (recKey a b) = Some r' \<and> d_SettlePhase r' = y \<and> d_State r' = d_State r \<and>
     d_SettleOwed r' = d_SettleOwed r \<and> s_effects t = s_effects s)) (snd (CASAdvanceSettle s a b rv x y))"
    unfolding CASAdvanceSettle_def by (intro post_log post_intros) auto
  with assms show ?thesis by (simp add: post_def)
qed

lemma planNext_effect: "planNext J D n r = Inr (nx, kind, p) \<Longrightarrow> kind = effect_of (d_SettlePhase r)"
  by (auto simp: planNext_def Let_def split: SettlePhase.splits option.splits sum.splits if_splits)

lemma advance_rank:
  "canAdvanceSettle x y = None \<Longrightarrow> y \<noteq> SettleFinalized \<Longrightarrow> y \<noteq> SettleSupersededReprompt \<Longrightarrow> x \<noteq> SettleNone \<Longrightarrow>
   phase_rank x = Suc (phase_rank y) \<and> \<not> IsSettleFinal y"
  by (cases x) (auto simp: canAdvanceSettle_def split: if_splits)

text \<open>A round that writes: the effect first, then the phase.\<close>

lemma round_writes:
  assumes "settleRound L J D n s a b = x" and "s_records s (recKey a b) = Some r"
    and "IsTerminal (d_State r)" "d_SettleOwed r" "\<not> IsSettleFinal (d_SettlePhase r)"
    and "x = Inr s' \<or> x = Inl (None, f, s')"
  shows "\<exists>r'. s_records s' (recKey a b) = Some r' \<and> canAdvanceSettle (d_SettlePhase r) (d_SettlePhase r') = None \<and>
      d_State r' = d_State r \<and> d_SettleOwed r' = d_SettleOwed r \<and> s_effects s \<subseteq>\<^sub>m s_effects s' \<and>
      s_effects s' (effectKey a b (effect_of (d_SettlePhase r))) \<noteq> None \<and>
      (x = Inr s' \<longrightarrow> d_SettlePhase r' \<noteq> SettleFinalized \<and> d_SettlePhase r' \<noteq> SettleSupersededReprompt) \<and>
      (x = Inl (None, f, s') \<longrightarrow> f = (d_SettlePhase r' = SettleFinalized) \<and>
         (d_SettlePhase r' = SettleFinalized \<or> d_SettlePhase r' = SettleSupersededReprompt))"
proof -
  have g: "Get s a b = Inr r" using assms(2) by (simp add: Get_def)
  from assms g obtain nx kind p0 p rv1 s1 rv2 where
    pl: "planNext J D n r = Inr (nx, kind, p0)" and
    re: "RecordEffectDone s a b kind p (HashBytes L p) = (rv1, None, s1)" and
    ca: "CASAdvanceSettle s1 a b (d_Revision r) (d_SettlePhase r) nx = (rv2, None, s')" and
    x: "x = (if nx = SettleFinalized \<or> nx = SettleSupersededReprompt then Inl (None, nx = SettleFinalized, s') else Inr s')"
    by (auto simp: settleRound_def split: sum.splits prod.splits option.splits if_splits)
  note e = RecordEffectDone_effect [OF re]
  have k: "kind = effect_of (d_SettlePhase r)" by (rule planNext_effect [OF pl])
  from CASAdvanceSettle_done [OF ca] e(1) assms(2) obtain r' where r':
    "s_records s' (recKey a b) = Some r'" "d_SettlePhase r' = nx" "canAdvanceSettle (d_SettlePhase r) nx = None"
    "d_State r' = d_State r" "d_SettleOwed r' = d_SettleOwed r" "s_effects s' = s_effects s1" by auto
  with e(2,3) k x show ?thesis by (intro exI [of _ r']) (auto split: if_splits)
qed

text \<open>A round that does not write ends the loop.\<close>

lemma round_idle:
  assumes "\<nexists>r. s_records s (recKey a b) = Some r \<and> IsTerminal (d_State r) \<and> d_SettleOwed r \<and>
    \<not> IsSettleFinal (d_SettlePhase r)"
  shows "\<exists>e. settleRound L J D n s a b = Inl (e, False, s)"
  using assms by (auto simp: settleRound_def Get_def getRecLocked_def split: option.splits)

lemma round_rank:
  assumes "settleRound L J D n s a b = Inr s'"
  shows "record_rank s a b = Suc (record_rank s' a b)"
proof -
  obtain r where r: "s_records s (recKey a b) = Some r" "IsTerminal (d_State r)" "d_SettleOwed r"
    "\<not> IsSettleFinal (d_SettlePhase r)"
    using round_idle [of s a b L J D n] assms by auto
  then have "d_SettlePhase r \<noteq> SettleNone" by auto
  with round_writes [OF assms r, of s' True] r advance_rank show ?thesis
    by (fastforce simp: record_rank_def)
qed

lemma drive_enough: "record_rank s a b < n \<Longrightarrow> DriveSettle n L J D i s a b \<noteq> None"
proof (induction n arbitrary: s)
  case (Suc n)
  then show ?case using round_rank [of L J D i s a b] by (auto split: sum.split)
qed simp

lemma record_rank_bound: "record_rank s a b \<le> 5"
proof -
  have "phase_rank p \<le> 5" for p by (cases p) simp_all
  then show ?thesis by (simp add: record_rank_def split: option.split)
qed

lemma effects_step:
  assumes "canAdvanceSettle p q = None" and "\<not> IsSettleFinal p" and "q \<noteq> SettleSupersededReprompt"
  shows "effects_from p = effect_of p # effects_from q" "q = next_phase p"
  using assms by (cases p; auto simp: canAdvanceSettle_def split: if_splits)+

lemma drive_effects:
  assumes "DriveSettle n L J D i s a b = Some (None, True, s')" and "s_records s (recKey a b) = Some r"
    and "IsTerminal (d_State r)" "d_SettleOwed r" "\<not> IsSettleFinal (d_SettlePhase r)"
  shows "(\<exists>r'. s_records s' (recKey a b) = Some r' \<and> d_SettlePhase r' = SettleFinalized \<and> d_State r' = d_State r) \<and>
     s_effects s \<subseteq>\<^sub>m s_effects s' \<and>
     (\<forall>k \<in> set (effects_from (d_SettlePhase r)). s_effects s' (effectKey a b k) \<noteq> None)"
  using assms
proof (induction n arbitrary: s r)
  case (Suc n)
  show ?case
  proof (cases "settleRound L J D i s a b")
    case (Inl x)
    with Suc.prems(1) have x: "settleRound L J D i s a b = Inl (None, True, s')" by simp
    from round_writes [OF x Suc.prems(2-5) disjI2 [OF refl]] effects_step [of "d_SettlePhase r" SettleFinalized] Suc.prems(5)
    show ?thesis by auto
  next
    case (Inr s1)
    with Suc.prems(1) have d: "DriveSettle n L J D i s1 a b = Some (None, True, s')" by simp
    from round_writes [OF Inr Suc.prems(2-5) disjI1 [OF refl], of True] obtain r1 where r1:
      "s_records s1 (recKey a b) = Some r1" "canAdvanceSettle (d_SettlePhase r) (d_SettlePhase r1) = None"
      "d_State r1 = d_State r" "d_SettleOwed r1 = d_SettleOwed r" "s_effects s \<subseteq>\<^sub>m s_effects s1"
      "s_effects s1 (effectKey a b (effect_of (d_SettlePhase r))) \<noteq> None"
      "d_SettlePhase r1 \<noteq> SettleFinalized" "d_SettlePhase r1 \<noteq> SettleSupersededReprompt" by blast
    have nf: "\<not> IsSettleFinal (d_SettlePhase r1)"
      using advance_rank [OF r1(2,7,8)] Suc.prems(5) by (cases "d_SettlePhase r") auto
    from Suc.IH [OF d r1(1)] r1(3,4) nf Suc.prems(3,4)
    have ih: "(\<exists>r'. s_records s' (recKey a b) = Some r' \<and> d_SettlePhase r' = SettleFinalized \<and> d_State r' = d_State r1)"
      "s_effects s1 \<subseteq>\<^sub>m s_effects s'"
      "\<forall>k \<in> set (effects_from (d_SettlePhase r1)). s_effects s' (effectKey a b k) \<noteq> None" by auto
    have "s_effects s' (effectKey a b (effect_of (d_SettlePhase r))) \<noteq> None"
      using r1(6) ih(2) by (auto simp: map_le_def dom_def)
    moreover have "s_effects s \<subseteq>\<^sub>m s_effects s'" by (rule map_le_trans [OF r1(5) ih(2)])
    ultimately show ?thesis
      using ih r1(3) effects_step(1) [OF r1(2) Suc.prems(5) r1(8)] by auto
  qed
qed simp

lemma effectKey_inj [simp]: "effectKey a b k = effectKey a b k' \<longleftrightarrow> k = k'"
  by (simp add: effectKey_def)

lemma plan_ready:
  assumes "\<not> IsSettleFinal (d_SettlePhase r)" "effects_from (d_SettlePhase r) \<noteq> []" "gate_allows D i r"
  shows "planNext J D i r =
    Inr (next_phase (d_SettlePhase r), effect_of (d_SettlePhase r), allowed_payload J r (effect_of (d_SettlePhase r)))"
  using assms by (cases "d_SettlePhase r") (auto simp: planNext_def gate_allows_def Let_def allowed_payload_def)

lemma hook_succeeds:
  assumes "writes_succeed s" and "hook_run s line = (er, dk)"
  shows "er = None" and "s_afterCommit t = s_afterCommit s \<Longrightarrow> s_disk t = dk \<Longrightarrow> writes_succeed t"
proof -
  obtain fit where fit: "fit (s_disk s)"
    "\<And>h line dk. s_afterCommit s = Some h \<Longrightarrow> fit dk \<Longrightarrow> fst (h line dk) = None \<and> fit (snd (h line dk))"
    using assms(1) by (auto simp: writes_succeed_def)
  have "er = None \<and> fit dk"
    using assms(2) fit(1) fit(2) [of _ "s_disk s" line] by (cases "s_afterCommit s") (auto simp: hook_run_def)
  then show "er = None" and "s_afterCommit t = s_afterCommit s \<Longrightarrow> s_disk t = dk \<Longrightarrow> writes_succeed t"
    using fit(2) by (auto simp: writes_succeed_def intro!: exI [of _ fit])
qed

text \<open>The effect is recorded, or it was, and the rest of the store stays.\<close>

lemma record_ready:
  assumes "writes_succeed s"
    and "case s_effects s (effectKey a b k) of None \<Rightarrow> True | Some e \<Rightarrow> ef_PayloadHash e = HashBytes L p"
  shows "\<exists>rv s1. RecordEffectDone s a b k p (HashBytes L p) = (rv, None, s1) \<and> writes_succeed s1 \<and> s_records s1 = s_records s \<and>
     (\<forall>k'. k' \<noteq> k \<longrightarrow> s_effects s1 (effectKey a b k') = s_effects s (effectKey a b k'))"
proof (cases "s_effects s (effectKey a b k)")
  case None
  let ?e = "\<lparr>ef_RunID = a, ef_TurnID = b, ef_EffectKind = k, ef_Payload = p, ef_PayloadHash = HashBytes L p, ef_Revision = 1,
    ef_CreatedAt = clockStr s\<rparr>"
  show ?thesis
  proof (cases rule: commitEffect_cases [of s ?e a b "effectKey a b k" "''effect_done''" k "''system''"])
    case (failed er dk)
    then show ?thesis using hook_succeeds(1) [OF assms(1)] by blast
  next
    case (written dk)
    have "writes_succeed ((appendAuditLocked s a b ''effect_done'' k ''system'')\<lparr>s_disk := dk, s_effects := (s_effects s)(effectKey a b k \<mapsto> ?e)\<rparr>)"
      by (rule hook_succeeds(2) [OF assms(1) written(1)]) simp_all
    then show ?thesis
      using None written(2) by (auto simp: RecordEffectDone_def Let_def)
  qed
next
  case (Some e)
  then show ?thesis using assms by (auto simp: RecordEffectDone_def)
qed

lemma advance_ready:
  assumes "writes_succeed s" and "s_records s (recKey a b) = Some r" and "canAdvanceSettle (d_SettlePhase r) nx = None"
  shows "\<exists>rv s1 r1. CASAdvanceSettle s a b (d_Revision r) (d_SettlePhase r) nx = (rv, None, s1) \<and> writes_succeed s1 \<and>
     s_records s1 (recKey a b) = Some r1 \<and> d_SettlePhase r1 = nx \<and> d_State r1 = d_State r \<and> d_SettleOwed r1 = d_SettleOwed r \<and>
     d_StopOutcome r1 = d_StopOutcome r \<and> d_RunID r1 = d_RunID r \<and> d_TurnID r1 = d_TurnID r \<and> s_effects s1 = s_effects s"
proof -
  let ?r1 = "r\<lparr>d_SettlePhase := nx, d_Revision := inc64 (d_Revision r), d_UpdatedAt := clockStr s\<rparr>"
  let ?det = "settle_string (d_SettlePhase r) @ ''->'' @ settle_string nx"
  show ?thesis
  proof (cases rule: commitRecord_cases [of s ?r1 None a b r "''cas_settle''" ?det "''system''" id])
    case (failed er dk)
    then show ?thesis using hook_succeeds(1) [OF assms(1)] by blast
  next
    case (written dk)
    have "writes_succeed (putRec ((appendAuditLocked s a b ''cas_settle'' ?det ''system'')\<lparr>s_disk := dk\<rparr>) (recKey a b) ?r1)"
      by (rule hook_succeeds(2) [OF assms(1) written(1)]) (simp_all add: putRec_def)
    then show ?thesis
      using assms(2,3) written(2) by (auto simp: CASAdvanceSettle_def getRecLocked_def)
  qed
qed

lemma round_ready:
  assumes ready: "settle_ready L J s a b r" and gate: "gate_allows D i r" and own: "sd_BuildEffect D = None"
    and left: "effects_from (d_SettlePhase r) \<noteq> []"
  shows "\<exists>s' r'. settleRound L J D i s a b =
      (if next_phase (d_SettlePhase r) = SettleFinalized then Inl (None, True, s') else Inr s') \<and>
     s_records s' (recKey a b) = Some r' \<and> d_SettlePhase r' = next_phase (d_SettlePhase r) \<and>
     (next_phase (d_SettlePhase r) \<noteq> SettleFinalized \<longrightarrow> settle_ready L J s' a b r' \<and> gate_allows D i r')"
proof -
  let ?ph = "d_SettlePhase r"
  let ?p = "allowed_payload J r (effect_of ?ph)"
  have nf: "\<not> IsSettleFinal ?ph" and rec: "s_records s (recKey a b) = Some r" and owes: "IsTerminal (d_State r)" "d_SettleOwed r"
    using ready by (simp_all add: settle_ready_def)
  have here: "effect_of ?ph \<in> set (effects_from ?ph)"
    using left by (cases ?ph) simp_all
  obtain rv s1 where re: "RecordEffectDone s a b (effect_of ?ph) ?p (HashBytes L ?p) = (rv, None, s1)"
    and s1: "writes_succeed s1" "s_records s1 = s_records s"
      "\<And>k. k \<noteq> effect_of ?ph \<Longrightarrow> s_effects s1 (effectKey a b k) = s_effects s (effectKey a b k)"
    using record_ready [of s L ?p a b "effect_of ?ph"] ready here by (auto simp: settle_ready_def)
  have adv: "canAdvanceSettle ?ph (next_phase ?ph) = None"
    using left by (cases ?ph) (auto simp: canAdvanceSettle_def)
  obtain rv2 s2 r2 where ca: "CASAdvanceSettle s1 a b (d_Revision r) ?ph (next_phase ?ph) = (rv2, None, s2)"
    and s2: "writes_succeed s2" "s_records s2 (recKey a b) = Some r2" "s_effects s2 = s_effects s1"
    and r2: "d_SettlePhase r2 = next_phase ?ph" "d_State r2 = d_State r" "d_SettleOwed r2 = d_SettleOwed r"
      "d_StopOutcome r2 = d_StopOutcome r" "d_RunID r2 = d_RunID r" "d_TurnID r2 = d_TurnID r"
    using advance_ready [OF s1(1), of a b r "next_phase ?ph"] rec s1(2) adv by auto
  have same: "allowed_payload J r2 k = allowed_payload J r k" for k
    using r2 by (simp add: allowed_payload_def settleEffectPayload_def)
  have later: "k \<in> set (effects_from ?ph)" "k \<noteq> effect_of ?ph" if "k \<in> set (effects_from (next_phase ?ph))" for k
    using that left by (cases ?ph; auto)+
  have nonfinal: "next_phase ?ph \<noteq> SettleFinalized \<Longrightarrow> \<not> IsSettleFinal (next_phase ?ph)" "next_phase ?ph \<noteq> SettleSupersededReprompt"
    using left by (cases ?ph; simp)+
  have "settleRound L J D i s a b = (if next_phase ?ph = SettleFinalized then Inl (None, True, s2) else Inr s2)"
    using nf own nonfinal(2) owes
    by (simp add: settleRound_def Get_def getRecLocked_def builtPayload_def plan_ready [OF nf left gate] rec re ca)
  moreover have "settle_ready L J s2 a b r2" if "next_phase ?ph \<noteq> SettleFinalized"
    using ready s2 r2 nonfinal(1) [OF that] later by (auto simp: settle_ready_def same s1(3) split: option.splits)
  moreover have "gate_allows D i r2"
    using gate by (simp add: gate_allows_def r2)
  ultimately show ?thesis
    using s2(2) r2(1) by (intro exI [of _ s2] exI [of _ r2]) simp
qed

lemma next_effects:
  "effects_from p \<noteq> [] \<Longrightarrow> length (effects_from p) = Suc (length (effects_from (next_phase p))) \<and>
   (effects_from (next_phase p) = [] \<longleftrightarrow> next_phase p = SettleFinalized)"
  by (cases p) simp_all

lemma drive_ready:
  assumes "settle_ready L J s a b r" and "gate_allows D i r" and "sd_BuildEffect D = None"
    and "effects_from (d_SettlePhase r) \<noteq> []" and "length (effects_from (d_SettlePhase r)) \<le> n"
  shows "\<exists>s' r'. DriveSettle n L J D i s a b = Some (None, True, s') \<and> s_records s' (recKey a b) = Some r' \<and>
     d_SettlePhase r' = SettleFinalized"
  using assms
proof (induction n arbitrary: s r)
  case (Suc n)
  from round_ready [OF Suc.prems(1-4)] obtain s' r' where
    rd: "settleRound L J D i s a b =
      (if next_phase (d_SettlePhase r) = SettleFinalized then Inl (None, True, s') else Inr s')"
    and r': "s_records s' (recKey a b) = Some r'" "d_SettlePhase r' = next_phase (d_SettlePhase r)"
    and go: "next_phase (d_SettlePhase r) \<noteq> SettleFinalized \<Longrightarrow> settle_ready L J s' a b r' \<and> gate_allows D i r'"
    by blast
  show ?case
  proof (cases "next_phase (d_SettlePhase r) = SettleFinalized")
    case True
    with rd r' show ?thesis by simp
  next
    case False
    with Suc.IH [of s' r'] go r'(2) Suc.prems(3,5) next_effects [OF Suc.prems(4)] rd show ?thesis by simp
  qed
qed simp

text \<open>A gate that is missing, fails or does not allow.\<close>

lemma refused_plan:
  assumes "d_SettlePhase r = SettlePending" and "gate_refuses D i r" and "planNext J D i r = Inr (nx, kind, p)"
  shows "nx = SettleSupersededReprompt"
  using assms by (auto simp: planNext_def gate_refuses_def Let_def split: option.splits sum.splits if_splits)

lemma RecordEffectDone_records: "s_records (snd (snd (RecordEffectDone s a b k p h))) = s_records s"
proof -
  have "post (\<lambda>t. s_records t = s_records s) (snd (snd (RecordEffectDone s a b k p h)))"
    unfolding RecordEffectDone_def Let_def by (intro post_log post_intros) simp_all
  then show ?thesis by (simp add: post_def)
qed

lemma only_disk_records: "only_disk s s' \<Longrightarrow> s_records s' = s_records s"
  unfolding only_disk_def by (drule arg_cong [where f = s_records]) simp

lemma CASAdvanceSettle_failed:
  "CASAdvanceSettle s a b rv x y = (rv', Some e, s') \<Longrightarrow> s_records s' = s_records s"
  using CASAdvanceSettle_tame [of s a b rv x y] by (auto simp: post_def tame_def only_disk_records)

lemma refused_round:
  assumes "s_records s (recKey a b) = Some r" and "IsTerminal (d_State r)" and "d_SettleOwed r"
    and "d_SettlePhase r = SettlePending" and "gate_refuses D i r"
  shows "\<exists>e s' r'. settleRound L J D i s a b = Inl (e, False, s') \<and> s_records s' (recKey a b) = Some r' \<and>
     d_SettlePhase r' \<in> {SettlePending, SettleSupersededReprompt}"
proof (cases "planNext J D i r")
  case (Inl e)
  with assms show ?thesis by (simp add: settleRound_def Get_def getRecLocked_def)
next
  case (Inr q)
  then obtain kind p0 where pl: "planNext J D i r = Inr (SettleSupersededReprompt, kind, p0)"
    using refused_plan [OF assms(4,5)] by (metis prod_cases3)
  show ?thesis
  proof (cases "builtPayload D r SettleSupersededReprompt kind p0")
    case (Inl e)
    with assms pl show ?thesis by (simp add: settleRound_def Get_def getRecLocked_def)
  next
    case (Inr p)
    obtain rv1 e1 s1 where re: "RecordEffectDone s a b kind p (HashBytes L p) = (rv1, e1, s1)" by (metis prod_cases3)
    obtain rv2 e2 s2 where ca: "CASAdvanceSettle s1 a b (d_Revision r) SettlePending SettleSupersededReprompt = (rv2, e2, s2)"
      by (metis prod_cases3)
    have s1: "s_records s1 (recKey a b) = Some r"
      using RecordEffectDone_records [of s a b kind p "HashBytes L p"] re assms(1) by simp
    have s2: "\<exists>r'. s_records s2 (recKey a b) = Some r' \<and> d_SettlePhase r' \<in> {SettlePending, SettleSupersededReprompt}"
      using ca CASAdvanceSettle_done [of s1 a b "d_Revision r" SettlePending SettleSupersededReprompt rv2 s2]
        CASAdvanceSettle_failed [of s1 a b "d_Revision r" SettlePending SettleSupersededReprompt rv2 _ s2] s1 assms(4)
      by (cases e2) auto
    have "settleRound L J D i s a b = (case e1 of Some e \<Rightarrow> Inl (Some e, False, s1)
        | None \<Rightarrow> Inl (e2, False, s2))"
      using assms pl Inr re ca by (simp add: settleRound_def Get_def getRecLocked_def split: option.split)
    with s1 s2 assms(4) show ?thesis by (cases e1) auto
  qed
qed

section \<open>Properties\<close>

text \<open>
  C12: \<open>DriveSettle\<close> terminates: six rounds of its loop are enough for every store,
  driver, gate and commit hook; it then has returned.
\<close>

theorem settle_terminates:
  "\<exists>e f s'. DriveSettle settle_fuel L J D i s runID turnID = Some (e, f, s')"
proof -
  have "record_rank s runID turnID < settle_fuel"
    using record_rank_bound [of s runID turnID] by (simp add: settle_fuel_def)
  from drive_enough [OF this, of L J D i] show ?thesis by auto
qed

text \<open>
  C10: Effects come first: when \<open>DriveSettle\<close> reports a turn finalized, the turn is
  finalized with its verdict unchanged, and the effect of every phase from the one it started in
  is recorded.
\<close>

theorem settle_records_effects_first:
  assumes "DriveSettle n L J D i s runID turnID = Some (None, True, s')"
    and "s_records s (recKey runID turnID) = Some r" and "IsTerminal (d_State r)" and "d_SettleOwed r"
    and "\<not> IsSettleFinal (d_SettlePhase r)"
  shows "(\<exists>r'. s_records s' (recKey runID turnID) = Some r' \<and> d_SettlePhase r' = SettleFinalized \<and>
       d_State r' = d_State r) \<and>
     (\<forall>k \<in> set (effects_from (d_SettlePhase r)). s_effects s' (effectKey runID turnID k) \<noteq> None)"
  using drive_effects [OF assms] by blast

theorem settle_records_effects_first_witness:
  "\<exists>s'. DriveSettle 6 demo_lib demo_json demo_driver 0 (demo_stored demo_owing) ''run-1'' ''turn-1''
       = Some (None, True, s') \<and> s_effects s' (effectKey ''run-1'' ''turn-1'' ''finalizer'') \<noteq> None"
proof -
  obtain s' where d: "DriveSettle 6 demo_lib demo_json demo_driver 0 (demo_stored demo_owing) ''run-1'' ''turn-1''
      = Some (None, True, s')"
    using drive_ready [OF demo_ready, where n = 6 and L = demo_lib and J = demo_json] by auto
  with settle_records_effects_first [OF d, of demo_owing] show ?thesis by simp
qed

text \<open>
  A disk that takes every line, and a turn whose first effect was recorded before the runner stopped: the
  store of the witness.
\<close>

definition demo_cut_off :: "dispatchLogLine list memoryDispatchStore" where
  "demo_cut_off =
     (newMemoryDispatchStore 0 (Some (\<lambda>line lines. (None, lines @ [line]))) [])
       \<lparr>s_records := [demo_key \<mapsto> demo_owing],
        s_effects := [effectKey ''run-1'' ''turn-1'' ''gate_eval'' \<mapsto>
          \<lparr>ef_RunID = ''run-1'', ef_TurnID = ''turn-1'', ef_EffectKind = ''gate_eval'', ef_Payload = ''gate_eval'',
           ef_PayloadHash = HashBytes demo_lib ''gate_eval'', ef_Revision = 1, ef_CreatedAt = TAt 0\<rparr>]\<rparr>"

lemma demo_cut_off_ready: "settle_ready demo_lib demo_json demo_cut_off ''run-1'' ''turn-1'' demo_owing"
proof -
  have "writes_succeed demo_cut_off"
    unfolding writes_succeed_def by (rule exI [of _ "\<lambda>lines. True"]) (simp add: demo_cut_off_def newMemoryDispatchStore_def)
  then show ?thesis
    by (simp add: settle_ready_def demo_cut_off_def newMemoryDispatchStore_def allowed_payload_def settleEffectPayload_def demo_json_def)
qed

text \<open>
  C11: Settlement completes: a terminal turn that owes its settlement is finalized by one
  \<open>DriveSettle\<close> when the gate allows it and no write fails, over a store with or without a log,
  and also when a drive that was cut off has already recorded effects of the phases ahead, with
  the payloads that this drive computes.
\<close>

theorem settle_completes:
  assumes "settle_ready L J s runID turnID r" and "gate_allows D i r" and "sd_BuildEffect D = None"
    and "effects_from (d_SettlePhase r) \<noteq> []"
  shows "\<exists>s' r'. DriveSettle settle_fuel L J D i s runID turnID = Some (None, True, s') \<and>
     s_records s' (recKey runID turnID) = Some r' \<and> d_SettlePhase r' = SettleFinalized"
proof -
  have "length (effects_from p) \<le> settle_fuel" for p by (cases p) (simp_all add: settle_fuel_def)
  then show ?thesis using drive_ready [OF assms] by blast
qed

theorem settle_completes_witness:
  "\<exists>s' r'. DriveSettle settle_fuel demo_lib demo_json demo_driver 0 demo_cut_off ''run-1'' ''turn-1'' = Some (None, True, s') \<and>
     s_records s' demo_key = Some r' \<and> d_SettlePhase r' = SettleFinalized"
  using settle_completes [OF demo_cut_off_ready demo_ready(2,3)] by simp

text \<open>
  The gate fails closed: when the gate is missing, fails, or does not allow,
  \<open>DriveSettle\<close> does not finalize; the turn stays pending or is superseded by a
  reprompt.
\<close>

theorem settle_needs_gate:
  assumes "s_records s (recKey runID turnID) = Some r" and "IsTerminal (d_State r)" and "d_SettleOwed r"
    and "d_SettlePhase r = SettlePending" and "gate_refuses D i r"
  shows "\<exists>e s' r'. DriveSettle settle_fuel L J D i s runID turnID = Some (e, False, s') \<and>
     s_records s' (recKey runID turnID) = Some r' \<and> d_SettlePhase r' \<in> {SettlePending, SettleSupersededReprompt}"
  using refused_round [OF assms, of L J] by (auto simp: settle_fuel_def numeral_eq_Suc)

theorem settle_needs_gate_witness:
  "\<exists>e s' r'. DriveSettle settle_fuel demo_lib demo_json demo_no_gate 0 (demo_stored demo_owing) ''run-1'' ''turn-1''
       = Some (e, False, s') \<and>
     s_records s' demo_key = Some r' \<and> d_SettlePhase r' \<in> {SettlePending, SettleSupersededReprompt}"
  using settle_needs_gate [of "demo_stored demo_owing" "''run-1''" "''turn-1''" demo_owing demo_no_gate 0 demo_lib demo_json]
  by (simp add: gate_refuses_def demo_no_gate_def)

end
