(* ===== verification/Run_State.thy ===== *)
theory Run_State
  imports Dispatch_Memory
begin

text \<open>
  The part of a live run that the dispatch code reads and writes (the struct
  \<open>interactiveRun\<close> of \<open>runner/interactive_service.go\<close>, its other fields left out), and
  the pure code around durable idempotency keys: their two-phase values, which keys a session
  snapshot keeps, when a replayed key may be answered without a new launch, how keys written
  before the dispatch store become records (\<open>dispatch_legacy.go\<close>), and which run ids a
  context marker may carry (\<open>dispatch_marker.go\<close>).
\<close>

section \<open>The live run\<close>

record ProviderEvent =
  ev_Type :: string
  ev_ProviderTurnID :: string

definition EventTurnCompleted :: string where
  "EventTurnCompleted = ''turn_completed''"

definition EventTurnFailed :: string where
  "EventTurnFailed = ''turn_failed''"

text \<open>
  \<open>ir_dispatch\<close> is the RAM cache of records; \<open>None\<close> is the nil map. The post-turn gate is
  armed when \<open>ir_postTurnGateCancel\<close> (a non-nil cancel function) is true; the zero time of
  \<open>ir_postTurnGateStartedAt\<close> is \<open>None\<close>.
\<close>

record interactiveRun =
  ir_id :: string
  ir_projectID :: string
  ir_providerKey :: string
  ir_providerSessionID :: string
  ir_providerAccountID :: string
  ir_modelName :: string
  ir_yolo :: bool
  ir_reasoningEffort :: string
  ir_runKind :: string
  ir_dispatch :: "(string \<rightharpoonup> DispatchRecord) option"
  ir_dispatchProtocolVersion :: int
  ir_markerProvenanceRunIDs :: "string list"
  ir_pendingRestartProvenanceRunID :: string
  ir_pendingGateRepromptProvenanceRunID :: string
  ir_status :: string
  ir_events :: "ProviderEvent list"
  ir_turnInFlight :: bool
  ir_currentTurnID :: string
  ir_pendingFlowGateSettle :: bool
  ir_pendingFlowGateTurnID :: string
  ir_pendingGateRepromptPrompt :: string
  ir_gateEpoch :: int64
  ir_gateClaimID :: string
  ir_flowContextInjected :: bool
  ir_postTurnGateCancel :: bool
  ir_postTurnGateStartedAt :: "time option"
  ir_lastTurnID :: string

text \<open>The zero value of the struct.\<close>

definition zeroRun :: interactiveRun where
  "zeroRun =
     \<lparr>ir_id = '''', ir_projectID = '''', ir_providerKey = '''', ir_providerSessionID = '''',
      ir_providerAccountID = '''', ir_modelName = '''', ir_yolo = False, ir_reasoningEffort = '''',
      ir_runKind = '''', ir_dispatch = None, ir_dispatchProtocolVersion = 0,
      ir_markerProvenanceRunIDs = [], ir_pendingRestartProvenanceRunID = '''',
      ir_pendingGateRepromptProvenanceRunID = '''', ir_status = '''', ir_events = [],
      ir_turnInFlight = False, ir_currentTurnID = '''', ir_pendingFlowGateSettle = False,
      ir_pendingFlowGateTurnID = '''', ir_pendingGateRepromptPrompt = '''', ir_gateEpoch = 0,
      ir_gateClaimID = '''', ir_flowContextInjected = False, ir_postTurnGateCancel = False,
      ir_postTurnGateStartedAt = None, ir_lastTurnID = ''''\<rparr>"

definition dispatchByTurn :: "interactiveRun \<Rightarrow> string \<Rightarrow> DispatchRecord option" where
  "dispatchByTurn rs turnID = (case ir_dispatch rs of None \<Rightarrow> None | Some m \<Rightarrow> m turnID)"

text \<open>Store a record in the cache, making the map when it is nil.\<close>

definition cacheTurn :: "interactiveRun \<Rightarrow> string \<Rightarrow> DispatchRecord \<Rightarrow> interactiveRun" where
  "cacheTurn rs turnID r =
     rs\<lparr>ir_dispatch := Some ((case ir_dispatch rs of None \<Rightarrow> Map.empty | Some m \<Rightarrow> m)(turnID \<mapsto> r))\<rparr>"

section \<open>Idempotency keys\<close>

definition durableIdemPreparedPrefix :: string where
  "durableIdemPreparedPrefix = ''prep:''"

definition durableIdemPreparedValue :: "string \<Rightarrow> string" where
  "durableIdemPreparedValue turnID = durableIdemPreparedPrefix @ turnID"

definition parseDurableIdemValue :: "string \<Rightarrow> string \<times> bool" where
  "parseDurableIdemValue raw =
     (if HasPrefix raw durableIdemPreparedPrefix
      then (drop (length durableIdemPreparedPrefix) raw, False) else (raw, True))"

text \<open>The text after the last dash, and the text before it.\<close>

definition afterDash :: "string \<Rightarrow> string" where
  "afterDash k = rev (takeWhile (\<lambda>c. c \<noteq> CHR ''-'') (rev k))"

definition beforeDash :: "string \<Rightarrow> string" where
  "beforeDash k = take (length k - length (afterDash k) - 1) k"

definition durableIdemKeyParts :: "string \<Rightarrow> string \<times> int64" where
  "durableIdemKeyParts k =
     (if CHR ''-'' \<notin> set k \<or> afterDash k = [] then (k, 0)
      else case parse_int64 (afterDash k) of None \<Rightarrow> (k, 0) | Some n \<Rightarrow> (beforeDash k, n))"

definition durableIdempotencyKeyGen :: "string \<Rightarrow> int64" where
  "durableIdempotencyKeyGen k = snd (durableIdemKeyParts k)"

text \<open>The outer intent keys of the non-terminal cached records.\<close>

definition nonTerminalIdemKeys :: "string list \<Rightarrow> interactiveRun \<Rightarrow> string set" where
  "nonTerminalIdemKeys order rs =
     (case ir_dispatch rs of
        None \<Rightarrow> {}
      | Some m \<Rightarrow> set (map d_OuterIntentKey
          (filter (\<lambda>r. d_OuterIntentKey r \<noteq> '''' \<and> \<not> IsTerminal (d_State r)) (range_over m order))))"

text \<open>
  The retention of a session snapshot. The code ranges over the map \<open>m\<close> and over the map of
  namespaces: \<open>order\<close> and \<open>nsOrder\<close> are the orders in which the loops visit them. The
  comparison (newer generation first, then the key) is total on distinct keys, so the sort has
  one result.
\<close>

definition durableEntry :: "(string \<times> string) \<Rightarrow> bool" where
  "durableEntry e \<longleftrightarrow> HasPrefix (fst e) ''durable-'' \<and> snd e \<noteq> ''''"

definition mapEntries :: "string list \<Rightarrow> (string \<rightharpoonup> string) \<Rightarrow> (string \<times> string) list" where
  "mapEntries order m = List.map_filter (\<lambda>k. map_option (Pair k) (m k)) order"

definition capPerNS :: nat where
  "capPerNS = 16"

definition idemRank :: "(string \<times> string) \<Rightarrow> int \<times> string" where
  "idemRank e = (- snd (durableIdemKeyParts (fst e)), fst e)"

definition nsEntries ::
  "string set \<Rightarrow> (string \<times> string) list \<Rightarrow> string \<Rightarrow> (string \<times> string) list" where
  "nsEntries pinned es ns =
     filter (\<lambda>e. durableEntry e \<and> fst e \<notin> pinned \<and> fst (durableIdemKeyParts (fst e)) = ns) es"

definition addIfAbsent :: "(string \<times> string) \<Rightarrow> (string \<rightharpoonup> string) \<Rightarrow> (string \<rightharpoonup> string)" where
  "addIfAbsent e out = (if out (fst e) \<noteq> None then out else out(fst e \<mapsto> snd e))"

definition durableIdempotencySnapshotWithNonTerminal ::
  "string list \<Rightarrow> string list \<Rightarrow> (string \<rightharpoonup> string) \<Rightarrow> string set \<Rightarrow> string list \<Rightarrow> (string \<rightharpoonup> string)" where
  "durableIdempotencySnapshotWithNonTerminal order nsOrder m nonTerminal protectKeys =
     (let protect = filter (\<lambda>k. k \<noteq> '''' \<and> HasPrefix k ''durable-'') protectKeys;
          pinned = nonTerminal \<union> set protect;
          es = mapEntries order m;
          out1 = fold (\<lambda>e out. if durableEntry e \<and> fst e \<in> pinned then out(fst e \<mapsto> snd e) else out) es Map.empty;
          out2 = fold (\<lambda>k out. case m k of None \<Rightarrow> out | Some v \<Rightarrow> if v \<noteq> '''' then out(k \<mapsto> v) else out) protect out1
      in fold (\<lambda>ns. fold addIfAbsent (take capPerNS (sort_key idemRank (nsEntries pinned es ns)))) nsOrder out2)"

definition durableIdempotencySnapshot ::
  "string list \<Rightarrow> string list \<Rightarrow> (string \<rightharpoonup> string) \<Rightarrow> string list \<Rightarrow> (string \<rightharpoonup> string)" where
  "durableIdempotencySnapshot order nsOrder m protectKeys =
     durableIdempotencySnapshotWithNonTerminal order nsOrder m {} protectKeys"

text \<open>When a replayed idempotency key is answered without entering the launch path again.\<close>

definition terminalEventFor :: "interactiveRun \<Rightarrow> string \<Rightarrow> bool" where
  "terminalEventFor rs turnID =
     list_ex (\<lambda>ev. ev_ProviderTurnID ev = turnID \<and>
        (ev_Type ev = EventTurnCompleted \<or> ev_Type ev = EventTurnFailed)) (ir_events rs)"

definition durableIdemReplaySafe :: "interactiveRun option \<Rightarrow> string \<Rightarrow> bool \<Rightarrow> bool" where
  "durableIdemReplaySafe rso turnID launched =
     (case rso of
        None \<Rightarrow> False
      | Some rs \<Rightarrow>
          if turnID = '''' \<or> \<not> launched then False
          else if ir_turnInFlight rs \<and> ir_currentTurnID rs = turnID then True
          else if ir_lastTurnID rs = turnID then True
          else if ir_pendingFlowGateSettle rs \<and> ir_pendingFlowGateTurnID rs = turnID then True
          else terminalEventFor rs turnID)"

definition durableIntentClearOK :: "interactiveRun option \<Rightarrow> string \<Rightarrow> bool" where
  "durableIntentClearOK rs turnID = durableIdemReplaySafe rs turnID True"

section \<open>Keys of earlier versions\<close>

definition dispatchFromLegacyIdem ::
  "string \<Rightarrow> string \<Rightarrow> string \<Rightarrow> string \<Rightarrow> (string \<Rightarrow> bool) option \<Rightarrow> DispatchRecord" where
  "dispatchFromLegacyIdem runID key raw lastTurnID hasTerminal =
     (case parseDurableIdemValue raw of
        (turnID, launched) \<Rightarrow>
          let r = zeroRecord\<lparr>d_ProtocolVersion := 1, d_TurnID := turnID, d_RunID := runID,
                             d_OuterIntentKey := key, d_Revision := 1\<rparr>
          in if \<not> launched then r\<lparr>d_State := DispatchPrepared\<rparr>
             else if lastTurnID = turnID \<or> (case hasTerminal of None \<Rightarrow> False | Some f \<Rightarrow> f turnID)
               then r\<lparr>d_State := DispatchTerminalCompleted, d_Outcome := ''completed''\<rparr>
             else r\<lparr>d_State := DispatchUncertain\<rparr>)"

definition dispatchFromLegacyIdemOnRun :: "interactiveRun option \<Rightarrow> string \<Rightarrow> string \<Rightarrow> DispatchRecord" where
  "dispatchFromLegacyIdemOnRun rso key raw =
     (case rso of
        None \<Rightarrow> dispatchFromLegacyIdem '''' key raw '''' None
      | Some rs \<Rightarrow> dispatchFromLegacyIdem (ir_id rs) key raw (ir_lastTurnID rs) (Some (terminalEventFor rs)))"

definition promotePreparedIfMissingPrompt :: "DispatchRecord \<Rightarrow> bool \<Rightarrow> DispatchRecord" where
  "promotePreparedIfMissingPrompt r promptPresent =
     (if d_State r = DispatchPrepared \<and> \<not> promptPresent then r\<lparr>d_State := DispatchUncertain\<rparr> else r)"

definition legacyIdemKeys :: "(string \<rightharpoonup> string) \<Rightarrow> (string \<rightharpoonup> string)" where
  "legacyIdemKeys keys = (\<lambda>k. if HasPrefix k ''durable-'' then keys k else None)"

section \<open>Context markers\<close>

definition recordedHandoffProvenanceRunID :: "interactiveRun \<Rightarrow> string" where
  "recordedHandoffProvenanceRunID rs =
     (if ir_pendingRestartProvenanceRunID rs \<noteq> '''' then ir_pendingRestartProvenanceRunID rs
      else if ir_pendingGateRepromptProvenanceRunID rs \<noteq> '''' then ir_pendingGateRepromptProvenanceRunID rs
      else case find (\<lambda>i. i \<noteq> '''' \<and> i \<noteq> ir_id rs) (ir_markerProvenanceRunIDs rs) of
             None \<Rightarrow> '''' | Some i \<Rightarrow> i)"

definition allowedFCPMarkerIDs :: "interactiveRun option \<Rightarrow> string list" where
  "allowedFCPMarkerIDs rso =
     (case rso of
        None \<Rightarrow> []
      | Some rs \<Rightarrow>
          if ir_id rs = '''' then []
          else let p = recordedHandoffProvenanceRunID rs
               in ir_id rs # (if p \<noteq> '''' \<and> p \<noteq> ir_id rs then [p] else []))"

section \<open>What a snapshot keeps\<close>

text \<open>
  The keys that precede a key of a snapshot in its namespace: newer generation first, then the
  smaller key. A key is kept when it is pinned or has fewer than \<open>capPerNS\<close> such rivals.
\<close>

definition rivals :: "(string \<rightharpoonup> string) \<Rightarrow> string set \<Rightarrow> string \<Rightarrow> string set" where
  "rivals m pinned k =
     {k'. k' \<notin> pinned \<and> (\<exists>v'. m k' = Some v' \<and> durableEntry (k', v')) \<and>
        fst (durableIdemKeyParts k') = fst (durableIdemKeyParts k) \<and>
        (durableIdempotencyKeyGen k < durableIdempotencyKeyGen k' \<or>
         durableIdempotencyKeyGen k' = durableIdempotencyKeyGen k \<and> k' < k)}"

definition retained :: "(string \<rightharpoonup> string) \<Rightarrow> string set \<Rightarrow> string \<Rightarrow> string option" where
  "retained m pinned k =
     (case m k of
        None \<Rightarrow> None
      | Some v \<Rightarrow> if durableEntry (k, v) \<and> (k \<in> pinned \<or> card (rivals m pinned k) < capPerNS) then Some v else None)"

lemma take_strict_sorted:
  fixes f :: "'a \<Rightarrow> 'b::linorder"
  assumes "sorted_wrt (\<lambda>x y. f x < f y) xs" and "x \<in> set xs"
  shows "x \<in> set (take n xs) \<longleftrightarrow> card {y \<in> set xs. f y < f x} < n"
proof -
  from assms(2) obtain i where i: "i < length xs" "x = xs ! i" by (metis in_set_conv_nth)
  have less: "f (xs ! j) < f (xs ! l) \<longleftrightarrow> j < l" if "j < length xs" "l < length xs" for j l
    using assms(1) that by (metis sorted_wrt_nth_less less_asym less_irrefl linorder_neqE_nat)
  have "{y \<in> set xs. f y < f x} = (!) xs ` {..<i}"
  proof (intro equalityI subsetI)
    fix y assume "y \<in> {y \<in> set xs. f y < f x}"
    then obtain j where "j < length xs" "y = xs ! j" "f (xs ! j) < f (xs ! i)" using i by (auto simp: in_set_conv_nth)
    with less i show "y \<in> (!) xs ` {..<i}" by auto
  next
    fix y assume "y \<in> (!) xs ` {..<i}"
    with less i show "y \<in> {y \<in> set xs. f y < f x}" by auto
  qed
  moreover have "inj_on ((!) xs) {..<i}"
    using i less by (intro inj_onI) (metis lessThan_iff less_irrefl less_trans linorder_neqE_nat)
  ultimately have c: "card {y \<in> set xs. f y < f x} = i" by (simp add: card_image)
  have "x \<in> set (take n xs) \<longleftrightarrow> i < n"
  proof
    assume "x \<in> set (take n xs)"
    then obtain j where "j < length xs" "j < n" "x = xs ! j" by (auto simp: in_set_conv_nth)
    with i less [of i j] less [of j i] show "i < n" by (metis less_irrefl linorder_neqE_nat)
  next
    assume "i < n"
    with i show "x \<in> set (take n xs)" by (auto simp: in_set_conv_nth intro!: exI [of _ i])
  qed
  with c show ?thesis by simp
qed

lemma mapEntries_set: "set (mapEntries order m) = {(k, v). k \<in> set order \<and> m k = Some v}"
  by (force simp: mapEntries_def map_filter_def image_iff)

lemma mapEntries_distinct: "distinct order \<Longrightarrow> distinct (mapEntries order m)"
  by (induction order) (auto simp: mapEntries_def map_filter_simps mapEntries_set [unfolded mapEntries_def]
      split: option.split)

lemma fold_addIfAbsent:
  assumes "\<forall>e \<in> set es. m (fst e) = Some (snd e)" and "out \<subseteq>\<^sub>m m"
  shows "fold addIfAbsent es out = (\<lambda>k. if k \<in> fst ` set es then m k else out k)"
  using assms
proof (induction es arbitrary: out)
  case Nil
  then show ?case by simp
next
  case (Cons e es)
  have o: "addIfAbsent e out = (\<lambda>k. if k = fst e then m k else out k)"
    using Cons.prems by (auto simp: addIfAbsent_def fun_eq_iff map_le_def domIff)
  have "addIfAbsent e out \<subseteq>\<^sub>m m" using Cons.prems(2) by (auto simp: o map_le_def dom_def)
  with Cons.IH [of "addIfAbsent e out"] Cons.prems(1) show ?case by (auto simp: o fun_eq_iff)
qed

lemma fold_addIfAbsent_groups:
  assumes "\<And>g e. e \<in> set (L g) \<Longrightarrow> m (fst e) = Some (snd e)" and "out \<subseteq>\<^sub>m m"
  shows "fold (\<lambda>g. fold addIfAbsent (L g)) gs out = (\<lambda>k. if \<exists>g \<in> set gs. k \<in> fst ` set (L g) then m k else out k)"
  using assms(2)
proof (induction gs arbitrary: out)
  case Nil
  then show ?case by simp
next
  case (Cons g gs)
  have o: "fold addIfAbsent (L g) out = (\<lambda>k. if k \<in> fst ` set (L g) then m k else out k)"
    using fold_addIfAbsent [OF _ Cons.prems] assms(1) by blast
  have "fold addIfAbsent (L g) out \<subseteq>\<^sub>m m" using Cons.prems by (auto simp: o map_le_def dom_def)
  from Cons.IH [OF this] show ?case by (auto simp: o fun_eq_iff)
qed

lemma fold_put:
  assumes "\<forall>e \<in> set es. m (fst e) = Some (snd e)"
  shows "fold (\<lambda>e out. if P e then out(fst e \<mapsto> snd e) else out) es out =
    (\<lambda>k. if \<exists>e \<in> set es. P e \<and> fst e = k then m k else out k)"
  using assms by (induction es arbitrary: out) (auto simp: fun_eq_iff)

lemma fold_present:
  assumes "\<forall>k \<in> set ks. \<forall>v. m k = Some v \<longrightarrow> v \<noteq> '''' \<longrightarrow> out k = Some v"
  shows "fold (\<lambda>k out. case m k of None \<Rightarrow> out | Some v \<Rightarrow> if v \<noteq> '''' then out(k \<mapsto> v) else out) ks out = out"
  using assms by (induction ks) (auto split: option.split simp: fun_upd_idem)

lemma nsEntries_sorted:
  assumes "distinct order"
  shows "sorted_wrt (\<lambda>x y. idemRank x < idemRank y) (sort_key idemRank (nsEntries pinned (mapEntries order m) ns))"
    (is "sorted_wrt _ ?xs")
proof -
  have s: "m (fst e) = Some (snd e)" if "e \<in> set ?xs" for e
    using that by (auto simp: nsEntries_def mapEntries_set)
  have "inj_on idemRank (set ?xs)"
  proof (rule inj_onI)
    fix x y assume "x \<in> set ?xs" "y \<in> set ?xs" "idemRank x = idemRank y"
    with s [of x] s [of y] show "x = y" by (simp add: idemRank_def prod_eq_iff)
  qed
  moreover have "distinct ?xs" using mapEntries_distinct [OF assms] by (simp add: nsEntries_def)
  ultimately have "distinct (map idemRank ?xs)" by (simp add: distinct_map)
  moreover have "sorted (map idemRank ?xs)" by simp
  ultimately have "sorted_wrt (<) (map idemRank ?xs)" by (simp only: strict_sorted_iff)
  then show ?thesis by (simp only: sorted_wrt_map)
qed

lemma nsEntries_set:
  "set order = dom m \<Longrightarrow> e \<in> set (nsEntries pinned (mapEntries order m) ns) \<longleftrightarrow>
     m (fst e) = Some (snd e) \<and> durableEntry e \<and> fst e \<notin> pinned \<and> fst (durableIdemKeyParts (fst e)) = ns"
  by (cases e) (auto simp: nsEntries_def mapEntries_set)

lemma idemRank_less:
  "idemRank e < idemRank e' \<longleftrightarrow>
     durableIdempotencyKeyGen (fst e') < durableIdempotencyKeyGen (fst e) \<or>
     durableIdempotencyKeyGen (fst e) = durableIdempotencyKeyGen (fst e') \<and> fst e < fst e'"
  by (auto simp: idemRank_def durableIdempotencyKeyGen_def)

lemma top_entries:
  assumes "distinct order" and "set order = dom m" and "m k = Some v" and "durableEntry (k, v)" and "k \<notin> pinned"
  shows "k \<in> fst ` set (take n (sort_key idemRank (nsEntries pinned (mapEntries order m) ns))) \<longleftrightarrow>
    ns = fst (durableIdemKeyParts k) \<and> card (rivals m pinned k) < n"
proof (cases "ns = fst (durableIdemKeyParts k)")
  case False
  have "fst e \<noteq> k" if "e \<in> set (take n (sort_key idemRank (nsEntries pinned (mapEntries order m) ns)))" for e
    using in_set_takeD [OF that] False by (auto simp: nsEntries_def)
  with False show ?thesis by blast
next
  case True
  define xs where "xs = sort_key idemRank (nsEntries pinned (mapEntries order m) ns)"
  have set: "e \<in> set xs \<longleftrightarrow> m (fst e) = Some (snd e) \<and> durableEntry e \<and> fst e \<notin> pinned \<and>
      fst (durableIdemKeyParts (fst e)) = fst (durableIdemKeyParts k)" for e
    unfolding xs_def set_sort nsEntries_set [OF assms(2)] True ..
  have mem: "(k, v) \<in> set xs" using assms by (simp add: set)
  have "e = (k, v)" if "e \<in> set (take n xs)" "fst e = k" for e
    using in_set_takeD [OF that(1), unfolded set] that(2) assms(3) by (simp add: prod_eq_iff)
  then have "k \<in> fst ` set (take n xs) \<longleftrightarrow> (k, v) \<in> set (take n xs)" unfolding image_iff by (metis fst_conv)
  also have "\<dots> \<longleftrightarrow> card {y \<in> set xs. idemRank y < idemRank (k, v)} < n"
    unfolding xs_def by (rule take_strict_sorted [OF nsEntries_sorted [OF assms(1)] mem [unfolded xs_def]])
  also have "{y \<in> set xs. idemRank y < idemRank (k, v)} = (\<lambda>k'. (k', the (m k'))) ` rivals m pinned k"
  proof (intro equalityI subsetI)
    fix y assume y: "y \<in> {y \<in> set xs. idemRank y < idemRank (k, v)}"
    then have "fst y \<in> rivals m pinned k"
      unfolding rivals_def mem_Collect_eq set idemRank_less fst_conv
      by (metis prod.collapse)
    moreover have "\<exists>k'. k' = fst y \<and> y = (k', the (m k'))"
      using y unfolding mem_Collect_eq set by (simp add: prod_eq_iff)
    ultimately show "y \<in> (\<lambda>k'. (k', the (m k'))) ` rivals m pinned k" by blast
  next
    fix y assume "y \<in> (\<lambda>k'. (k', the (m k'))) ` rivals m pinned k"
    then obtain k' where k': "k' \<in> rivals m pinned k" and y: "y = (k', the (m k'))" by blast
    from k' obtain v' where v': "m k' = Some v'" "durableEntry (k', v')" by (auto simp: rivals_def)
    with k' show "y \<in> {y \<in> set xs. idemRank y < idemRank (k, v)}"
      unfolding y rivals_def mem_Collect_eq set idemRank_less by (simp only: fst_conv snd_conv option.sel simp_thms)
  qed
  also have "card \<dots> = card (rivals m pinned k)" by (intro card_image) (simp add: inj_on_def)
  finally show ?thesis using True unfolding xs_def by blast
qed

text \<open>
  C15: A session snapshot keeps exactly the right keys: whatever the orders in which the two
  loops visit their maps, \<open>durableIdempotencySnapshotWithNonTerminal\<close> keeps a
  non-empty durable key iff it is pinned (the key of a non-terminal record, or protected) or
  fewer than sixteen unpinned keys of its namespace precede it (newer generation, then smaller
  key), and nothing else.
\<close>

theorem idem_snapshot_retention:
  assumes "distinct order" and "set order = dom m" and "\<forall>k \<in> dom m. fst (durableIdemKeyParts k) \<in> set nsOrder"
  shows "durableIdempotencySnapshotWithNonTerminal order nsOrder m nonTerminal protectKeys k =
    retained m (nonTerminal \<union> {p \<in> set protectKeys. HasPrefix p ''durable-''}) k"
proof -
  define P where "P = nonTerminal \<union> {p \<in> set protectKeys. HasPrefix p ''durable-''}"
  define es where "es = mapEntries order m"
  have P: "nonTerminal \<union> set (filter (\<lambda>k. k \<noteq> '''' \<and> HasPrefix k ''durable-'') protectKeys) = P"
    by (auto simp: P_def HasPrefix_def is_prefix_def)
  have es: "set es = {(k, v). m k = Some v}" using assms(2) by (auto simp: es_def mapEntries_set)
  define out1 where "out1 = (\<lambda>k. if \<exists>v. m k = Some v \<and> durableEntry (k, v) \<and> k \<in> P then m k else None)"
  have o1: "fold (\<lambda>e out. if durableEntry e \<and> fst e \<in> P then out(fst e \<mapsto> snd e) else out) es Map.empty = out1"
    using fold_put [of es m "\<lambda>e. durableEntry e \<and> fst e \<in> P" Map.empty] es by (auto simp: out1_def fun_eq_iff)
  have o2: "fold (\<lambda>k out. case m k of None \<Rightarrow> out | Some v \<Rightarrow> if v \<noteq> '''' then out(k \<mapsto> v) else out)
      (filter (\<lambda>k. k \<noteq> '''' \<and> HasPrefix k ''durable-'') protectKeys) out1 = out1"
    by (intro fold_present) (auto simp: out1_def durableEntry_def P_def)
  have "out1 \<subseteq>\<^sub>m m" by (auto simp: out1_def map_le_def dom_def)
  then have "durableIdempotencySnapshotWithNonTerminal order nsOrder m nonTerminal protectKeys =
    (\<lambda>k. if \<exists>ns \<in> set nsOrder. k \<in> fst ` set (take capPerNS (sort_key idemRank (nsEntries P es ns))) then m k else out1 k)"
    unfolding durableIdempotencySnapshotWithNonTerminal_def Let_def P es_def [symmetric] o1 o2
    by (intro fold_addIfAbsent_groups) (use es in \<open>auto simp: nsEntries_def dest!: in_set_takeD\<close>)
  then have snap: "durableIdempotencySnapshotWithNonTerminal order nsOrder m nonTerminal protectKeys k =
    (if \<exists>ns \<in> set nsOrder. k \<in> fst ` set (take capPerNS (sort_key idemRank (nsEntries P es ns))) then m k else out1 k)"
    by simp
  show ?thesis
  proof (cases "\<exists>v. m k = Some v \<and> durableEntry (k, v) \<and> k \<notin> P")
    case True
    then obtain v where v: "m k = Some v" "durableEntry (k, v)" "k \<notin> P" by blast
    have "fst (durableIdemKeyParts k) \<in> set nsOrder" using assms(3) v(1) by blast
    with snap v top_entries [OF assms(1,2) v, of capPerNS, folded es_def] show ?thesis
      unfolding P_def [symmetric] by (auto simp: retained_def out1_def)
  next
    case False
    then have "\<not> (\<exists>ns \<in> set nsOrder. k \<in> fst ` set (take capPerNS (sort_key idemRank (nsEntries P es ns))))"
      using es by (auto simp: nsEntries_def dest!: in_set_takeD)
    with snap False show ?thesis
      unfolding P_def [symmetric] by (auto simp: retained_def out1_def split: option.split)
  qed
qed

theorem idem_snapshot_retention_witness:
  "durableIdempotencySnapshotWithNonTerminal [''durable-r-1'', ''other''] [''durable-r'', ''other'']
     [''durable-r-1'' \<mapsto> ''t'', ''other'' \<mapsto> ''u''] {} [] ''durable-r-1'' =
   retained [''durable-r-1'' \<mapsto> ''t'', ''other'' \<mapsto> ''u''] ({} \<union> {p \<in> set []. HasPrefix p ''durable-''}) ''durable-r-1''"
  by (rule idem_snapshot_retention)
    (auto simp: durableIdemKeyParts_def afterDash_def beforeDash_def parse_int64_def Let_def digits_value_def is_digit_def in_int64_def less_eq_char_def)

section \<open>Legacy keys\<close>

lemma parse_prepared [simp]: "parseDurableIdemValue (durableIdemPreparedValue t) = (t, False)"
  by (simp add: parseDurableIdemValue_def durableIdemPreparedValue_def HasPrefix_def is_prefix_def)

text \<open>
  A prepared key of an earlier version comes back as the prepared record of its turn, under
  protocol 1.
\<close>

theorem legacy_key_roundtrip:
  "dispatchFromLegacyIdemOnRun (Some rs) key (durableIdemPreparedValue t) =
     zeroRecord\<lparr>d_ProtocolVersion := 1, d_TurnID := t, d_RunID := ir_id rs, d_OuterIntentKey := key,
       d_Revision := 1, d_State := DispatchPrepared\<rparr>"
  by (simp add: dispatchFromLegacyIdemOnRun_def dispatchFromLegacyIdem_def Let_def)

text \<open>
  The two recovery rules agree: for a run with no turn in flight and no gate pending, a
  launched legacy key becomes a completed record iff the key may be answered without a new
  launch, and an uncertain one otherwise; it never becomes a record that is sent again.
\<close>

theorem legacy_matches_replay:
  assumes "\<not> HasPrefix raw durableIdemPreparedPrefix" and "raw \<noteq> ''''" and "\<not> ir_turnInFlight rs"
    and "\<not> ir_pendingFlowGateSettle rs"
  shows "d_State (dispatchFromLegacyIdemOnRun (Some rs) key raw) =
    (if durableIdemReplaySafe (Some rs) raw True then DispatchTerminalCompleted else DispatchUncertain)"
  using assms
  by (simp add: dispatchFromLegacyIdemOnRun_def dispatchFromLegacyIdem_def durableIdemReplaySafe_def
      parseDurableIdemValue_def Let_def)

theorem legacy_matches_replay_witness:
  "d_State (dispatchFromLegacyIdemOnRun (Some (zeroRun\<lparr>ir_lastTurnID := ''turn-9''\<rparr>)) ''durable-r-1'' ''turn-9'') =
    (if durableIdemReplaySafe (Some (zeroRun\<lparr>ir_lastTurnID := ''turn-9''\<rparr>)) ''turn-9'' True
     then DispatchTerminalCompleted else DispatchUncertain)"
  by (rule legacy_matches_replay)
    (simp_all add: HasPrefix_def is_prefix_def durableIdemPreparedPrefix_def zeroRun_def)

end
