(* ===== verification/Go_Text.thy ===== *)
theory Go_Text
  imports Prelude
begin

text \<open>
  The parts of Go's \<open>strings\<close>, \<open>path/filepath\<close> (on Unix) and \<open>regexp\<close> packages that the gate,
  the drift detector and the settle wiring call. Strings are byte strings. A regular expression
  is a tree; \<open>ends\<close> lists where its matches from a position end, in the order in which the
  leftmost-first search of \<open>regexp\<close> prefers them.
\<close>

section \<open>Strings\<close>

definition Contains :: "string \<Rightarrow> string \<Rightarrow> bool" where
  "Contains x p \<longleftrightarrow> list_ex (\<lambda>n. is_prefix p (drop n x)) [0..<Suc (length x)]"

text \<open>\<open>strings.Fields\<close>: \<open>spaceAt\<close> is the length of the white space character at the front.\<close>

definition spaceAt :: "string \<Rightarrow> nat" where
  "spaceAt x = (case find (\<lambda>p. is_prefix p x) go_spaces of Some p \<Rightarrow> length p | None \<Rightarrow> 0)"

fun fieldsFrom :: "string \<Rightarrow> string \<Rightarrow> string list" where
  "fieldsFrom field [] = (if field = '''' then [] else [field])"
| "fieldsFrom field (c # cs) =
     (case spaceAt (c # cs) of
        0 \<Rightarrow> fieldsFrom (field @ [c]) cs
      | Suc n \<Rightarrow> (if field = '''' then [] else [field]) @ fieldsFrom '''' (drop n cs))"

definition Fields :: "string \<Rightarrow> string list" where
  "Fields x = fieldsFrom '''' x"

definition HasSuffix :: "string \<Rightarrow> string \<Rightarrow> bool" where
  "HasSuffix x p \<longleftrightarrow> is_prefix (rev p) (rev x)"

fun Join :: "string list \<Rightarrow> string \<Rightarrow> string" where
  "Join [] sep = ''''"
| "Join [x] sep = x"
| "Join (x # y # xs) sep = x @ sep @ Join (y # xs) sep"

text \<open>\<open>strings.Split\<close> at a one-byte separator.\<close>

fun Split :: "string \<Rightarrow> char \<Rightarrow> string list" where
  "Split [] sep = [[]]"
| "Split (c # cs) sep =
     (if c = sep then [] # Split cs sep
      else (case Split cs sep of [] \<Rightarrow> [[c]] | x # xs \<Rightarrow> (c # x) # xs))"

text \<open>\<open>strings.Trim\<close> and \<open>strings.TrimRight\<close> for a set of ASCII bytes, and the text around a byte.\<close>

definition TrimRight :: "string \<Rightarrow> char set \<Rightarrow> string" where
  "TrimRight x cs = rev (dropWhile (\<lambda>c. c \<in> cs) (rev x))"

definition Trim :: "string \<Rightarrow> char set \<Rightarrow> string" where
  "Trim x cs = TrimRight (dropWhile (\<lambda>c. c \<in> cs) x) cs"

definition text_before :: "char \<Rightarrow> string \<Rightarrow> string" where
  "text_before c x = takeWhile (\<lambda>d. d \<noteq> c) x"

definition text_after :: "char \<Rightarrow> string \<Rightarrow> string" where
  "text_after c x = tl (dropWhile (\<lambda>d. d \<noteq> c) x)"

text \<open>
  \<open>strings.EqualFold\<close> when one of its arguments is ASCII: the fold of a text maps capitals and the
  two non-ASCII letters that fold to ASCII ones (U+017F and U+212A).
\<close>

fun foldCase :: "string \<Rightarrow> string" where
  "foldCase [] = []"
| "foldCase (c # cs) =
     (case cs of
        [] \<Rightarrow> [lower_char c]
      | d # ds \<Rightarrow>
          if c = CHR 0xC5 \<and> d = CHR 0xBF then CHR ''s'' # foldCase ds
          else (case ds of
                  [] \<Rightarrow> lower_char c # foldCase cs
                | e # es \<Rightarrow>
                    if c = CHR 0xE2 \<and> d = CHR 0x84 \<and> e = CHR 0xAA then CHR ''k'' # foldCase es
                    else lower_char c # foldCase cs))"

definition EqualFold :: "string \<Rightarrow> string \<Rightarrow> bool" where
  "EqualFold x y \<longleftrightarrow> foldCase x = foldCase y"

text \<open>Punctuation outside ASCII that the messages use.\<close>

definition emdash :: string where
  "emdash = [CHR 0xE2, CHR 0x80, CHR 0x94]"

definition bullet :: string where
  "bullet = [CHR 0xE2, CHR 0x80, CHR 0xA2]"

section \<open>Paths\<close>

definition path_Base :: "string \<Rightarrow> string" where
  "path_Base p =
     (if p = '''' then ''.''
      else let q = TrimRight p {CHR ''/''}
           in if q = '''' then ''/'' else rev (text_before (CHR ''/'') (rev q)))"

definition path_IsAbs :: "string \<Rightarrow> bool" where
  "path_IsAbs p \<longleftrightarrow> HasPrefix p ''/''"

text \<open>The components \<open>filepath.Clean\<close> keeps, last first.\<close>

definition clean_step :: "bool \<Rightarrow> string \<Rightarrow> string list \<Rightarrow> string list" where
  "clean_step rooted x out =
     (if x = '''' \<or> x = ''.'' then out
      else if x = ''..'' then
        (if out \<noteq> [] \<and> hd out \<noteq> ''..'' then tl out else if rooted then out else x # out)
      else x # out)"

definition path_Clean :: "string \<Rightarrow> string" where
  "path_Clean p =
     (if p = '''' then ''.''
      else let rooted = path_IsAbs p;
               r = (if rooted then ''/'' else '''') @ Join (rev (fold (clean_step rooted) (Split p (CHR ''/'')) [])) ''/''
           in if r = '''' then ''.'' else r)"

definition path_Join :: "string \<Rightarrow> string \<Rightarrow> string" where
  "path_Join a b =
     (if a \<noteq> '''' then path_Clean (a @ ''/'' @ b) else if b \<noteq> '''' then path_Clean b else '''')"

section \<open>Regular expressions\<close>

datatype rx =
    Chr "char \<Rightarrow> bool"
  | Lit string
  | Cat rx rx
  | Alt rx rx
  | Opt rx
  | Star rx
  | Bol
  | Eol
  | WordB

definition Plus :: "rx \<Rightarrow> rx" where
  "Plus r = Cat r (Star r)"

fun Cats :: "rx list \<Rightarrow> rx" where
  "Cats [] = Lit ''''"
| "Cats [r] = r"
| "Cats (r # q # rs) = Cat r (Cats (q # rs))"

fun Alts :: "rx list \<Rightarrow> rx" where
  "Alts [] = Chr (\<lambda>c. False)"
| "Alts [r] = r"
| "Alts (r # q # rs) = Alt r (Alts (q # rs))"

definition is_space :: "char \<Rightarrow> bool" where
  "is_space c \<longleftrightarrow> c \<in> {CHR 0x09, CHR 0x0A, CHR 0x0C, CHR 0x0D, CHR 0x20}"

definition is_word :: "char \<Rightarrow> bool" where
  "is_word c \<longleftrightarrow> is_digit c \<or> CHR ''A'' \<le> c \<and> c \<le> CHR ''Z'' \<or> CHR ''a'' \<le> c \<and> c \<le> CHR ''z'' \<or> c = CHR ''_''"

definition upper_char :: "char \<Rightarrow> char" where
  "upper_char c = (if CHR ''a'' \<le> c \<and> c \<le> CHR ''z'' then char_of (of_char c - 32 :: nat) else c)"

text \<open>
  A letter under \<open>(?i)\<close>: both cases, and for \<open>s\<close> and \<open>k\<close> the two letters outside ASCII that
  fold to them (U+017F and U+212A).
\<close>

definition ci_char :: "char \<Rightarrow> rx" where
  "ci_char c =
     (let r = Chr (\<lambda>d. lower_char d = lower_char c)
      in if lower_char c = CHR ''s'' then Alt r (Lit [CHR 0xC5, CHR 0xBF])
         else if lower_char c = CHR ''k'' then Alt r (Lit [CHR 0xE2, CHR 0x84, CHR 0xAA])
         else r)"

definition Lit_ci :: "string \<Rightarrow> rx" where
  "Lit_ci x = Cats (map ci_char x)"

definition Dot :: rx where
  "Dot = Chr (\<lambda>c. c \<noteq> CHR 0x0A)"

definition word_boundary :: "string \<Rightarrow> nat \<Rightarrow> bool" where
  "word_boundary x i \<longleftrightarrow> (0 < i \<and> is_word (x ! (i - 1))) \<noteq> (i < length x \<and> is_word (x ! i))"

text \<open>Greedy iteration; a round that matches nothing ends it, and \<open>n\<close> bounds the rounds.\<close>

fun star_ends :: "(nat \<Rightarrow> nat list) \<Rightarrow> nat \<Rightarrow> nat \<Rightarrow> nat list" where
  "star_ends f 0 i = [i]"
| "star_ends f (Suc n) i = concat (map (\<lambda>j. if j = i then [] else star_ends f n j) (f i)) @ [i]"

primrec ends :: "rx \<Rightarrow> string \<Rightarrow> nat \<Rightarrow> nat list" where
  "ends (Chr P) x i = (if i < length x \<and> P (x ! i) then [Suc i] else [])"
| "ends (Lit y) x i = (if is_prefix y (drop i x) then [i + length y] else [])"
| "ends (Cat r q) x i = concat (map (ends q x) (ends r x i))"
| "ends (Alt r q) x i = ends r x i @ ends q x i"
| "ends (Opt r) x i = ends r x i @ [i]"
| "ends (Star r) x i = star_ends (ends r x) (length x - i) i"
| "ends Bol x i = (if i = 0 then [i] else [])"
| "ends Eol x i = (if i = length x then [i] else [])"
| "ends WordB x i = (if word_boundary x i then [i] else [])"

definition MatchString :: "rx \<Rightarrow> string \<Rightarrow> bool" where
  "MatchString r x \<longleftrightarrow> list_ex (\<lambda>i. ends r x i \<noteq> []) [0..<Suc (length x)]"

text \<open>All matches, left to right; every expression it is used with matches at least one byte.\<close>

fun find_from :: "nat \<Rightarrow> rx \<Rightarrow> string \<Rightarrow> nat \<Rightarrow> string list" where
  "find_from 0 r x i = []"
| "find_from (Suc n) r x i =
     (case find (\<lambda>j. ends r x j \<noteq> []) [i..<Suc (length x)] of
        None \<Rightarrow> []
      | Some j \<Rightarrow>
          (let e = hd (ends r x j)
           in take (e - j) (drop j x) # find_from n r x (if e = j then Suc e else e)))"

definition FindAllString :: "rx \<Rightarrow> string \<Rightarrow> string list" where
  "FindAllString r x = find_from (Suc (length x)) r x 0"

text \<open>A suffix: the shape of most of the path expressions.\<close>

definition SuffixRx :: "rx list \<Rightarrow> rx" where
  "SuffixRx rs = Cats (rs @ [Eol])"

end
