(* ===== verification/Dispatch_Live.thy ===== *)
theory Dispatch_Live
  imports Dispatch_Settle Run_State Go_Text
begin

text \<open>
  The live dispatch path of \<open>runner/dispatch_live.go\<close>: the switches that choose it, preparing,
  claiming and linearizing a send, stopping a run, the provider's receipt and terminal seams
  with their bounded retries, and the recovery pass at boot. These methods call the store
  several times without holding its lock, so other goroutines act on the store in between: the
  parameter \<open>w\<close> gives the calls they make before the method's \<open>n\<close>-th store call, and every
  property below that does not say otherwise holds for all of them. A nil store is \<open>None\<close>.
\<close>

section \<open>Interference\<close>

definition meanwhile ::
  "golib \<Rightarrow> (nat \<Rightarrow> dispatch_op list) \<Rightarrow> nat \<Rightarrow> 'd memoryDispatchStore \<Rightarrow> 'd memoryDispatchStore" where
  "meanwhile L w n s = after_ops L (w n) s"

definition quiet :: "nat \<Rightarrow> dispatch_op list" where
  "quiet n = []"

datatype live_error = LStore error | ProviderV2Disabled string

section \<open>Switches\<close>

text \<open>
  \<open>os.Getenv\<close> is the parameter \<open>getenv\<close>; the provider key the runner compares is ASCII.
\<close>

fun splitComma :: "string \<Rightarrow> string list" where
  "splitComma [] = [[]]"
| "splitComma (c # cs) =
     (if c = CHR '','' then [] # splitComma cs
      else (case splitComma cs of [] \<Rightarrow> [[c]] | x # xs \<Rightarrow> (c # x) # xs))"

definition DispatchV2EnvEnabled :: "(string \<Rightarrow> string) \<Rightarrow> bool" where
  "DispatchV2EnvEnabled getenv =
     (let v = TrimSpace (getenv ''FLOWPILOT_DISPATCH_V2'')
      in if v = '''' then True
         else if ToLower v \<in> set [''0'', ''false'', ''no'', ''off'', ''disable'', ''disabled''] then False
         else True)"

definition dispatchV2ActiveForRun ::
  "(string \<Rightarrow> string) \<Rightarrow> 'd memoryDispatchStore option \<Rightarrow> string \<Rightarrow> bool" where
  "dispatchV2ActiveForRun getenv st runID =
     (case st of
        None \<Rightarrow> False
      | Some s \<Rightarrow> if DispatchProtocolV2 \<le> GetRunProtocolVersion s runID then True else DispatchV2EnvEnabled getenv)"

definition providerV2AllowListed :: "(string \<Rightarrow> string) \<Rightarrow> string \<Rightarrow> bool" where
  "providerV2AllowListed getenv key =
     (let raw = TrimSpace (getenv ''FLOWPILOT_DISPATCH_V2_PROVIDERS'')
      in if raw = '''' then False
         else list_ex (\<lambda>p. EqualFold (TrimSpace p) key) (splitComma raw))"

definition providerV2Enabled :: "(string \<Rightarrow> string) \<Rightarrow> string \<Rightarrow> bool" where
  "providerV2Enabled getenv key =
     (let k = ToLower key
      in if k \<in> set [''codex'', ''grok'', ''claude'', ''fake'', ''''] then True
         else if k = ''gemini'' then providerV2AllowListed getenv k
         else True)"

section \<open>Preparing a turn\<close>

text \<open>The fields of a turn's input that the dispatch path reads; \<open>None\<close> is "not supplied".\<close>

record TurnInput =
  ti_StepID :: string
  ti_Prompt :: string
  ti_SelectedSkills :: "SkillSelection list"
  ti_ReasoningEffort :: string
  ti_Model :: "string option"
  ti_YoloMode :: "bool option"

definition buildDispatchEnvelope ::
  "golib \<Rightarrow> time \<Rightarrow> interactiveRun \<Rightarrow> TurnInput \<Rightarrow> string \<Rightarrow> DispatchEnvelope" where
  "buildDispatchEnvelope L now rs inp turnID =
     (let env = \<lparr>v_TurnID = turnID, v_RunID = ir_id rs, v_StepID = ti_StepID inp,
                 v_ProviderKey = ir_providerKey rs, v_ProviderAccountID = ir_providerAccountID rs,
                 v_ProviderSessionIDAtPrepare = ir_providerSessionID rs,
                 v_PromptRef = ''turnLogKindPrompt:'' @ turnID,
                 v_PromptSHA256 = HashBytes L (ti_Prompt inp),
                 v_Model = (case ti_Model inp of None \<Rightarrow> ir_modelName rs | Some m \<Rightarrow> m),
                 v_ReasoningEffort =
                   (if ti_ReasoningEffort inp \<noteq> '''' then ti_ReasoningEffort inp else ir_reasoningEffort rs),
                 v_Yolo = (case ti_YoloMode inp of None \<Rightarrow> ir_yolo rs | Some y \<Rightarrow> y),
                 v_SelectedSkills = ti_SelectedSkills inp, v_Scenario = '''', v_Attachments = [],
                 v_FlowContextInjected = ir_flowContextInjected rs, v_CreatedAt = TAt now,
                 v_EnvelopeHash = ''''\<rparr>
      in case ComputeEnvelopeHash L env of (h, env1) \<Rightarrow> env1\<lparr>v_EnvelopeHash := h\<rparr>)"

definition newDispatchRecord ::
  "time \<Rightarrow> interactiveRun \<Rightarrow> string \<Rightarrow> DispatchEnvelope \<Rightarrow> string \<Rightarrow> int64 \<Rightarrow> string \<Rightarrow> DispatchRecord" where
  "newDispatchRecord now rs turnID env intentKey intentGen ownerRunID =
     zeroRecord
       \<lparr>d_ProtocolVersion := DispatchProtocolV2, d_TurnID := turnID, d_RunID := ir_id rs,
        d_ProjectID := ir_projectID rs,
        d_IntentOwnerRunID := (if ownerRunID = '''' then ir_id rs else ownerRunID),
        d_State := DispatchPrepared, d_EnvelopeHash := v_EnvelopeHash env,
        d_OuterIntentKey := intentKey, d_OuterIntentGen := intentGen,
        d_SettleOwed := requiresGateSettlement
          (if ir_runKind rs = '''' then ''workflow'' else ir_runKind rs) (v_StepID env),
        d_CreatedAt := TAt now, d_UpdatedAt := TAt now\<rparr>"

definition prepareDispatchV2 ::
  "golib \<Rightarrow> (string \<Rightarrow> string) \<Rightarrow> (nat \<Rightarrow> dispatch_op list) \<Rightarrow> time \<Rightarrow> 'd memoryDispatchStore option \<Rightarrow>
   interactiveRun \<Rightarrow> TurnInput \<Rightarrow> string \<Rightarrow> string \<Rightarrow>
   live_error option \<times> 'd memoryDispatchStore option \<times> interactiveRun" where
  "prepareDispatchV2 L getenv w now st rs inp turnID idempotencyKey =
     (case st of
        None \<Rightarrow> (None, None, rs)
      | Some s \<Rightarrow>
          let s0 = meanwhile L w 0 s in
          if \<not> dispatchV2ActiveForRun getenv (Some s0) (ir_id rs) then (None, Some s0, rs)
          else if \<not> providerV2Enabled getenv (ir_providerKey rs)
            then (Some (ProviderV2Disabled (ir_providerKey rs)), Some s0, rs)
          else let
            env = buildDispatchEnvelope L now rs inp turnID;
            intentGen = (if HasPrefix idempotencyKey ''durable-'' then durableIdempotencyKeyGen idempotencyKey else 0);
            rec = newDispatchRecord now rs turnID env idempotencyKey intentGen (ir_id rs)
          in case CreatePrepared L (meanwhile L w 1 s0) rec env of
               (Some e, s1) \<Rightarrow> (Some (LStore e), Some s1, rs)
             | (None, s1) \<Rightarrow>
                 (None, Some s1,
                  (cacheTurn rs turnID (rec\<lparr>d_Revision := 1\<rparr>))\<lparr>ir_dispatchProtocolVersion := DispatchProtocolV2\<rparr>))"

section \<open>Claiming and linearizing a send\<close>

text \<open>
  The record a method works on: the cached one, or else the store's. The cached record is a
  pointer the methods update in place; they then store a copy, so the cache entry is replaced.
\<close>

definition loadTurn ::
  "golib \<Rightarrow> (nat \<Rightarrow> dispatch_op list) \<Rightarrow> nat \<Rightarrow> 'd memoryDispatchStore \<Rightarrow> interactiveRun \<Rightarrow> string \<Rightarrow>
   (error + DispatchRecord) \<times> 'd memoryDispatchStore" where
  "loadTurn L w n s rs turnID =
     (case dispatchByTurn rs turnID of
        Some r \<Rightarrow> (Inr r, s)
      | None \<Rightarrow> let s1 = meanwhile L w n s in (Get s1 (ir_id rs) turnID, s1))"

definition claimDispatchV2 ::
  "golib \<Rightarrow> (string \<Rightarrow> string) \<Rightarrow> (nat \<Rightarrow> dispatch_op list) \<Rightarrow> 'd memoryDispatchStore option \<Rightarrow>
   interactiveRun \<Rightarrow> string \<Rightarrow> error option \<times> 'd memoryDispatchStore option \<times> interactiveRun" where
  "claimDispatchV2 L getenv w st rs turnID =
     (case st of
        None \<Rightarrow> (None, None, rs)
      | Some s \<Rightarrow>
          let s0 = meanwhile L w 0 s in
          if \<not> dispatchV2ActiveForRun getenv (Some s0) (ir_id rs) then (None, Some s0, rs)
          else case loadTurn L w 1 s0 rs turnID of
            (Inl e, s1) \<Rightarrow> (Some e, Some s1, rs)
          | (Inr r, s1) \<Rightarrow>
              if d_State r \<noteq> DispatchPrepared then (None, Some s1, rs)
              else case CASAdvance (meanwhile L w 2 s1) (ir_id rs) turnID (d_Revision r)
                          DispatchPrepared DispatchSendClaimed None of
                (rv, Some e, s2) \<Rightarrow> (Some e, Some s2, rs)
              | (rv, None, s2) \<Rightarrow>
                  (None, Some s2, cacheTurn rs turnID (r\<lparr>d_State := DispatchSendClaimed, d_Revision := rv\<rparr>)))"

definition commitPreSendCancel ::
  "golib \<Rightarrow> (nat \<Rightarrow> dispatch_op list) \<Rightarrow> 'd memoryDispatchStore \<Rightarrow> string \<Rightarrow> string \<Rightarrow> int64 \<Rightarrow> PreSendStopSource \<Rightarrow>
   'd memoryDispatchStore" where
  "commitPreSendCancel L w s runID turnID stopGen source =
     (let s0 = meanwhile L w 0 s in
      case Get s0 runID turnID of
        Inl e \<Rightarrow> s0
      | Inr cur \<Rightarrow>
          if d_State cur \<noteq> DispatchPrepared \<and> d_State cur \<noteq> DispatchSendClaimed then s0
          else snd (snd (CommitPreSendCancellationAndClearIntent (meanwhile L w 1 s0) runID turnID (d_Revision cur)
                 (d_IntentOwnerRunID cur) (d_OuterIntentKey cur) (d_OuterIntentGen cur) stopGen source)))"

text \<open>Update the cache when the map is there.\<close>

definition recacheTurn :: "interactiveRun \<Rightarrow> string \<Rightarrow> DispatchRecord \<Rightarrow> interactiveRun" where
  "recacheTurn rs turnID r = (if ir_dispatch rs = None then rs else cacheTurn rs turnID r)"

text \<open>The result is \<open>(ok, storeErr)\<close>, the store and the run.\<close>

definition linearizeSendStarted ::
  "golib \<Rightarrow> (string \<Rightarrow> string) \<Rightarrow> (nat \<Rightarrow> dispatch_op list) \<Rightarrow> 'd memoryDispatchStore option \<Rightarrow>
   interactiveRun \<Rightarrow> string \<Rightarrow> (bool \<times> bool) \<times> 'd memoryDispatchStore option \<times> interactiveRun" where
  "linearizeSendStarted L getenv w st rs turnID =
     (case st of
        None \<Rightarrow> ((True, False), None, rs)
      | Some s \<Rightarrow>
          let s0 = meanwhile L w 0 s in
          if \<not> dispatchV2ActiveForRun getenv (Some s0) (ir_id rs) then ((True, False), Some s0, rs)
          else case loadTurn L w 1 s0 rs turnID of
            (Inl e, s1) \<Rightarrow> ((False, True), Some s1, rs)
          | (Inr r, s1) \<Rightarrow>
              if d_State r = DispatchSendStarted \<or> d_State r = DispatchProviderAccepted \<or> IsTerminal (d_State r)
              then ((d_State r = DispatchSendStarted \<or> d_State r = DispatchProviderAccepted, False), Some s1, rs)
              else case CASAdvance (meanwhile L w 2 s1) (ir_id rs) turnID (d_Revision r)
                          DispatchSendClaimed DispatchSendStarted None of
                (rv, None, s2) \<Rightarrow>
                  ((True, False), Some s2,
                   recacheTurn rs turnID (r\<lparr>d_State := DispatchSendStarted, d_Revision := rv\<rparr>))
              | (rv, Some (ErrRunStopFence g), s2) \<Rightarrow>
                  ((False, False),
                   Some (commitPreSendCancel L (\<lambda>n. w (3 + n)) s2 (ir_id rs) turnID g PreSendStopSelf), rs)
              | (rv, Some (ErrParentStopFence g), s2) \<Rightarrow>
                  ((False, False),
                   Some (commitPreSendCancel L (\<lambda>n. w (3 + n)) s2 (ir_id rs) turnID g PreSendStopParentFence), rs)
              | (rv, Some e, s2) \<Rightarrow>
                  let s3 = meanwhile L w 3 s2 in
                  (case Get s3 (ir_id rs) turnID of
                     Inl e' \<Rightarrow> ((False, True), Some s3, rs)
                   | Inr cur \<Rightarrow>
                       if d_State cur = DispatchSendClaimed \<and> d_CancelRequested cur then
                         ((False, False),
                          Some (commitPreSendCancel L (\<lambda>n. w (4 + n)) s3 (ir_id rs) turnID
                                  (d_StopGeneration cur) PreSendStopSelf), rs)
                       else if d_State cur = DispatchSendStarted \<or> d_State cur = DispatchProviderAccepted then
                         ((True, False), Some s3, recacheTurn rs turnID cur)
                       else ((False, True), Some s3, rs)))"

section \<open>Stopping a run\<close>

definition releaseHubStopFenceForFollowUp ::
  "golib \<Rightarrow> (nat \<Rightarrow> dispatch_op list) \<Rightarrow> 'd memoryDispatchStore option \<Rightarrow> string \<Rightarrow> 'd memoryDispatchStore option" where
  "releaseHubStopFenceForFollowUp L w st runID =
     (case st of
        None \<Rightarrow> None
      | Some s \<Rightarrow>
          if runID = '''' then Some s
          else let s0 = meanwhile L w 0 s in
          if GetRunProtocolVersion s0 runID < DispatchProtocolV2 then Some s0
          else let s1 = meanwhile L w 1 s0; stp = GetRunStopState s1 runID in
          if \<not> rs_Stopped stp then Some s1
          else case ReleaseRunStopFence (meanwhile L w 2 s1) runID (rs_Revision stp) of
            (_, None, s2) \<Rightarrow> Some s2
          | (_, Some e, s2) \<Rightarrow>
              let s3 = meanwhile L w 3 s2; stp2 = GetRunStopState s3 runID in
              if \<not> rs_Stopped stp2 then Some s3
              else Some (snd (snd (ReleaseRunStopFence (meanwhile L w 4 s3) runID (rs_Revision stp2)))))"

text \<open>The sweep that asks every listed turn to cancel; its failures are only logged.\<close>

fun cancelSweep ::
  "golib \<Rightarrow> (nat \<Rightarrow> dispatch_op list) \<Rightarrow> nat \<Rightarrow> string \<Rightarrow> int64 \<Rightarrow> DispatchRecord list \<Rightarrow>
   'd memoryDispatchStore \<Rightarrow> 'd memoryDispatchStore" where
  "cancelSweep L w n runID gen [] s = s"
| "cancelSweep L w n runID gen (r # rs) s =
     (if IsTerminal (d_State r) then cancelSweep L w n runID gen rs s
      else cancelSweep L w (Suc n) runID gen rs
             (snd (snd (SetCancelRequested (meanwhile L w n s) runID (d_TurnID r) (d_Revision r) gen))))"

text \<open>Raise the fence, reloading its revision once when the first attempt fails.\<close>

definition requestStopReloading ::
  "golib \<Rightarrow> (nat \<Rightarrow> dispatch_op list) \<Rightarrow> 'd memoryDispatchStore \<Rightarrow> string \<Rightarrow>
   RunStopState \<times> error option \<times> 'd memoryDispatchStore" where
  "requestStopReloading L w s runID =
     (let exp0 = rs_Revision (GetRunStopState s runID); exp1 = (if exp0 = 0 then 1 else exp0)
      in case RequestRunStop (meanwhile L w 2 s) runID exp1 StopReasonUser of
           (newSt, None, s2) \<Rightarrow> (newSt, None, s2)
         | (_, Some e, s2) \<Rightarrow>
             let s3 = meanwhile L w 3 s2
             in RequestRunStop (meanwhile L w 4 s3) runID (rs_Revision (GetRunStopState s3 runID)) StopReasonUser)"

definition requestRunStopV2 ::
  "golib \<Rightarrow> (nat \<Rightarrow> dispatch_op list) \<Rightarrow> string list \<Rightarrow> 'd memoryDispatchStore option \<Rightarrow> string \<Rightarrow>
   error option \<times> 'd memoryDispatchStore option" where
  "requestRunStopV2 L w order st runID =
     (case st of
        None \<Rightarrow> (None, None)
      | Some s \<Rightarrow>
          if runID = '''' then (None, Some s)
          else let s0 = meanwhile L w 0 s in
          if GetRunProtocolVersion s0 runID < DispatchProtocolV2 then (None, Some s0)
          else case requestStopReloading L w (meanwhile L w 1 s0) runID of
            (newSt, Some e, s4) \<Rightarrow> (Some e, Some s4)
          | (newSt, None, s4) \<Rightarrow>
              let s5 = meanwhile L w 5 s4
              in (None, Some (cancelSweep L (\<lambda>n. w (6 + n)) 0 runID (rs_Generation newSt)
                                (ListRecoverable L order s5 runID) s5)))"

section \<open>Receipts and terminals from the provider\<close>

text \<open>
  What the method starts next: nothing, the retry goroutine, or the settle check
  (\<open>maybeScheduleSettleAfterTerminal\<close>).
\<close>

datatype bridge_next = BridgeDone | BridgeRetry | BridgeSettle

definition Accepted ::
  "golib \<Rightarrow> (nat \<Rightarrow> dispatch_op list) \<Rightarrow> 'd memoryDispatchStore option \<Rightarrow> interactiveRun \<Rightarrow> string \<Rightarrow> ReceiptEvidence \<Rightarrow>
   bridge_next \<times> 'd memoryDispatchStore option \<times> interactiveRun" where
  "Accepted L w st rs turnID receipt =
     (case st of
        None \<Rightarrow> (BridgeDone, None, rs)
      | Some s \<Rightarrow>
          (case loadTurn L w 0 s rs turnID of
             (Inl e, s1) \<Rightarrow> (BridgeDone, Some s1, rs)
           | (Inr r, s1) \<Rightarrow>
               if d_State r \<noteq> DispatchSendStarted \<and> d_State r \<noteq> DispatchProviderAccepted
               then (BridgeDone, Some s1, rs)
               else case CommitReceiptAndClearIntent (meanwhile L w 1 s1) (ir_id rs) turnID (d_Revision r) receipt
                           (d_IntentOwnerRunID r) (d_OuterIntentKey r) (d_OuterIntentGen r) of
                 (_, Some e, s2) \<Rightarrow> (if e = ErrReceiptConflict then BridgeDone else BridgeRetry, Some s2, rs)
               | (_, None, s2) \<Rightarrow>
                   let s3 = meanwhile L w 2 s2
                   in (case Get s3 (ir_id rs) turnID of
                         Inl e \<Rightarrow> (BridgeDone, Some s3, rs)
                       | Inr got \<Rightarrow> (BridgeDone, Some s3, cacheTurn rs turnID got))))"

definition Terminal_bridge ::
  "golib \<Rightarrow> (nat \<Rightarrow> dispatch_op list) \<Rightarrow> 'd memoryDispatchStore option \<Rightarrow> interactiveRun \<Rightarrow> string \<Rightarrow> TerminalEvidence \<Rightarrow>
   bridge_next \<times> 'd memoryDispatchStore option \<times> interactiveRun" where
  "Terminal_bridge L w st rs turnID proof =
     (case st of
        None \<Rightarrow> (BridgeDone, None, rs)
      | Some s \<Rightarrow>
          (case loadTurn L w 0 s rs turnID of
             (Inl e, s1) \<Rightarrow> (BridgeDone, Some s1, rs)
           | (Inr r, s1) \<Rightarrow>
               if IsTerminal (d_State r) then (BridgeDone, Some s1, rs)
               else case CommitTerminalAndSettleIntent (meanwhile L w 1 s1) (ir_id rs) turnID (d_Revision r) proof
                           (d_IntentOwnerRunID r) (d_OuterIntentKey r) (d_OuterIntentGen r) of
                 (_, Some e, s2) \<Rightarrow> (BridgeRetry, Some s2, rs)
               | (_, None, s2) \<Rightarrow>
                   let s3 = meanwhile L w 2 s2
                   in (BridgeSettle, Some s3,
                       (case Get s3 (ir_id rs) turnID of Inl e \<Rightarrow> rs | Inr got \<Rightarrow> cacheTurn rs turnID got))))"

definition recordDispatchTransportError ::
  "golib \<Rightarrow> 'd memoryDispatchStore option \<Rightarrow> string \<Rightarrow> string \<Rightarrow> string option \<Rightarrow> 'd memoryDispatchStore option" where
  "recordDispatchTransportError L st runID turnID err =
     (case (st, err) of
        (Some s, Some text) \<Rightarrow>
          Some (snd (snd (RecordEffectDone s runID turnID ''transport_error'' text (HashBytes L text))))
      | _ \<Rightarrow> st)"

definition dispatchCommitMaxAttempts :: nat where
  "dispatchCommitMaxAttempts = 4"

text \<open>
  How a commit retry ends: the read failed, the record was terminal (or, for a receipt,
  accepted) already, the commit landed, it failed with an error that is not staleness, or the
  attempts ran out. \<open>left\<close> counts the attempts left; attempt \<open>i\<close> makes the store calls
  \<open>3 * i\<close> to \<open>3 * i + 2\<close>. The run is \<open>s.runs[runID]\<close>.
\<close>

datatype retry_end = RetryReadFailed error | RetryAlreadyDone | RetryCommitted | RetryAborted error | RetryExhausted

fun retryTerminalFrom ::
  "golib \<Rightarrow> (nat \<Rightarrow> dispatch_op list) \<Rightarrow> nat \<Rightarrow> nat \<Rightarrow> 'd memoryDispatchStore \<Rightarrow> interactiveRun option \<Rightarrow>
   string \<Rightarrow> string \<Rightarrow> TerminalEvidence \<Rightarrow> retry_end \<times> 'd memoryDispatchStore \<times> interactiveRun option" where
  "retryTerminalFrom L w 0 i s rso runID turnID proof = (RetryExhausted, s, rso)"
| "retryTerminalFrom L w (Suc left) i s rso runID turnID proof =
     (let s0 = meanwhile L w (3 * i) s in
      case Get s0 runID turnID of
        Inl e \<Rightarrow> (RetryReadFailed e, s0, rso)
      | Inr r \<Rightarrow>
          if IsTerminal (d_State r) then (RetryAlreadyDone, s0, rso)
          else case CommitTerminalAndSettleIntent (meanwhile L w (3 * i + 1) s0) runID turnID (d_Revision r) proof
                      (d_IntentOwnerRunID r) (d_OuterIntentKey r) (d_OuterIntentGen r) of
            (_, None, s1) \<Rightarrow>
              let s2 = meanwhile L w (3 * i + 2) s1
              in (RetryCommitted, s2,
                  (case Get s2 runID turnID of
                     Inl e \<Rightarrow> rso | Inr got \<Rightarrow> map_option (\<lambda>rs. cacheTurn rs turnID got) rso))
          | (_, Some e, s1) \<Rightarrow>
              if e \<noteq> ErrStaleDispatch then (RetryAborted e, s1, rso)
              else retryTerminalFrom L w left (Suc i) s1 rso runID turnID proof)"

definition retryTerminalCommit ::
  "golib \<Rightarrow> (nat \<Rightarrow> dispatch_op list) \<Rightarrow> 'd memoryDispatchStore \<Rightarrow> interactiveRun option \<Rightarrow>
   string \<Rightarrow> string \<Rightarrow> TerminalEvidence \<Rightarrow> (retry_end \<times> 'd memoryDispatchStore \<times> interactiveRun option) option" where
  "retryTerminalCommit L w s rso runID turnID proof =
     (if runID = '''' \<or> turnID = '''' then None
      else Some (retryTerminalFrom L w dispatchCommitMaxAttempts 0 s rso runID turnID proof))"

fun retryReceiptFrom ::
  "golib \<Rightarrow> (nat \<Rightarrow> dispatch_op list) \<Rightarrow> nat \<Rightarrow> nat \<Rightarrow> 'd memoryDispatchStore \<Rightarrow>
   string \<Rightarrow> string \<Rightarrow> ReceiptEvidence \<Rightarrow> retry_end \<times> 'd memoryDispatchStore" where
  "retryReceiptFrom L w 0 i s runID turnID receipt = (RetryExhausted, s)"
| "retryReceiptFrom L w (Suc left) i s runID turnID receipt =
     (let s0 = meanwhile L w (2 * i) s in
      case Get s0 runID turnID of
        Inl e \<Rightarrow> (RetryReadFailed e, s0)
      | Inr r \<Rightarrow>
          if d_State r \<in> {DispatchTerminalCompleted, DispatchTerminalFailed, DispatchTerminalCancelled,
                           DispatchProviderAccepted} then (RetryAlreadyDone, s0)
          else case CommitReceiptAndClearIntent (meanwhile L w (2 * i + 1) s0) runID turnID (d_Revision r) receipt
                      (d_IntentOwnerRunID r) (d_OuterIntentKey r) (d_OuterIntentGen r) of
            (_, None, s1) \<Rightarrow> (RetryCommitted, s1)
          | (_, Some e, s1) \<Rightarrow>
              if e = ErrReceiptConflict \<or> e \<noteq> ErrStaleDispatch then (RetryAborted e, s1)
              else retryReceiptFrom L w left (Suc i) s1 runID turnID receipt)"

definition retryReceiptCommit ::
  "golib \<Rightarrow> (nat \<Rightarrow> dispatch_op list) \<Rightarrow> 'd memoryDispatchStore \<Rightarrow> string \<Rightarrow> string \<Rightarrow> ReceiptEvidence \<Rightarrow>
   (retry_end \<times> 'd memoryDispatchStore) option" where
  "retryReceiptCommit L w s runID turnID receipt =
     (if runID = '''' \<or> turnID = '''' then None
      else Some (retryReceiptFrom L w dispatchCommitMaxAttempts 0 s runID turnID receipt))"

section \<open>Ids\<close>

text \<open>
  \<open>nextID\<close>, and the seeding of its counter. The seed is a compare-and-swap loop; the list
  gives how much other goroutines raise the counter between its load and its swap, round by
  round (nothing once the list ends).
\<close>

definition nextID :: "string \<Rightarrow> int64 \<Rightarrow> string \<times> int64" where
  "nextID prefix counter = (prefix @ ''-'' @ fmt_d (inc64 counter), inc64 counter)"

fun seedLoop :: "nat list \<Rightarrow> int64 \<Rightarrow> int64 \<Rightarrow> int64" where
  "seedLoop bumps mx cur =
     (if mx \<le> cur then cur
      else case bumps of
        [] \<Rightarrow> mx
      | b # bs \<Rightarrow> if b = 0 then mx else seedLoop bs mx (wrap64 (cur + int b)))"

definition seedIDCounterFromDispatchStore ::
  "nat list \<Rightarrow> string list \<Rightarrow> string list \<Rightarrow> string list \<Rightarrow> 'd memoryDispatchStore \<Rightarrow> int64 \<Rightarrow> int64" where
  "seedIDCounterFromDispatchStore bumps recOrder stopOrder actOrder s counter =
     (let mx = MaxPersistedIDSuffix recOrder stopOrder actOrder s
      in if mx \<le> 0 then counter else seedLoop bumps mx counter)"

section \<open>Recovery at boot\<close>

definition dispatchRecoveryRetryBase :: int where
  "dispatchRecoveryRetryBase = 500000000"

definition dispatchRecoveryRetryCap :: int where
  "dispatchRecoveryRetryCap = 30000000000"

definition dispatchRecoveryMaxAttempts :: nat where
  "dispatchRecoveryMaxAttempts = 8"

text \<open>
  \<open>ScanDispatchRecoveryOnBoot\<close>: \<open>pass\<close> is one recovery pass, \<open>jitter n x\<close> the value
  \<open>rand.Int64N(x)\<close> gives at attempt \<open>n\<close>, \<open>cancelled n\<close> whether the context is cancelled when
  attempt \<open>n\<close> has failed, \<open>woken n\<close> whether its timer fires before the context ends. The
  result lists the waits.
\<close>

fun bootAttempts ::
  "(nat \<Rightarrow> 's \<Rightarrow> error option \<times> 's) \<Rightarrow> (nat \<Rightarrow> int \<Rightarrow> int) \<Rightarrow> (nat \<Rightarrow> bool) \<Rightarrow> (nat \<Rightarrow> bool) \<Rightarrow>
   nat \<Rightarrow> nat \<Rightarrow> int \<Rightarrow> 's \<Rightarrow> error option \<times> int list \<times> 's" where
  "bootAttempts pass jitter cancelled woken 0 n backoff s = (None, [], s)"
| "bootAttempts pass jitter cancelled woken (Suc left) n backoff s =
     (case pass n s of
        (None, s1) \<Rightarrow> (None, [], s1)
      | (Some e, s1) \<Rightarrow>
          if cancelled n then (Some e, [], s1)
          else if left = 0 then (Some e, [], s1)
          else let w0 = backoff + jitter n (backoff div 4 + 1);
                   w1 = (if dispatchRecoveryRetryCap < w0 then dispatchRecoveryRetryCap else w0)
               in if \<not> woken n then (Some e, [w1], s1)
                  else case bootAttempts pass jitter cancelled woken left (Suc n) (backoff * 2) s1 of
                         (r, ws, s2) \<Rightarrow> (r, w1 # ws, s2))"

definition ScanDispatchRecoveryOnBoot ::
  "bool \<Rightarrow> (nat \<Rightarrow> 's \<Rightarrow> error option \<times> 's) \<Rightarrow> (nat \<Rightarrow> int \<Rightarrow> int) \<Rightarrow> (nat \<Rightarrow> bool) \<Rightarrow> (nat \<Rightarrow> bool) \<Rightarrow> 's \<Rightarrow>
   error option \<times> int list \<times> 's" where
  "ScanDispatchRecoveryOnBoot alreadyRunning pass jitter cancelled woken s =
     (if alreadyRunning then (None, [], s)
      else bootAttempts pass jitter cancelled woken dispatchRecoveryMaxAttempts 1 dispatchRecoveryRetryBase s)"

end
