(* ===== verification/Live_Safety.thy ===== *)
theory Live_Safety
  imports Dispatch_Live Dispatch_Safety
begin

text \<open>
  What the live dispatch path guarantees: a stop that was acknowledged keeps the turns of the
  run unsent, a send is recorded before it is reported, a stopped claim is cancelled, a terminal
  whose commit lost a race is committed by the retry, minted ids are fresh, and the recovery
  pass at boot is bounded.
\<close>

section \<open>Stop and send\<close>

text \<open>A V2 run that is stopped, with an unsent turn.\<close>

definition blocked :: "'d memoryDispatchStore \<Rightarrow> string \<Rightarrow> string \<Rightarrow> bool" where
  "blocked s x t \<longleftrightarrow>
     (\<exists>r. s_records s (recKey x t) = Some r \<and> unsent r) \<and> stop_fence x s (recKey x t) \<and>
     DispatchProtocolV2 \<le> GetRunProtocolVersion s x"

definition keeps_stop :: "string \<Rightarrow> (nat \<Rightarrow> dispatch_op list) \<Rightarrow> bool" where
  "keeps_stop x w \<longleftrightarrow> (\<forall>n. \<forall>op \<in> set (w n). \<not> releases_stop x op)"

text \<open>A commit hook that never refuses a line.\<close>

definition writes_succeed :: "'d memoryDispatchStore \<Rightarrow> bool" where
  "writes_succeed s \<longleftrightarrow> (\<forall>h. s_afterCommit s = Some h \<longrightarrow> (\<forall>l d. fst (h l d) = None))"

lemma meanwhile_quiet [simp]: "meanwhile L quiet n s = s"
  by (simp add: meanwhile_def quiet_def after_ops_def)

lemma meanwhile_Nil [simp]: "w n = [] \<Longrightarrow> meanwhile L w n s = s"
  by (simp add: meanwhile_def after_ops_def)

lemma exec_activation: "s_activation s \<subseteq>\<^sub>m s_activation (after_op L op s)"
  using exec_grows [of op s L] by (cases "\<exists>d. op = OpTick d") (auto simp: grows_def)

lemma exec_hook [simp]: "s_afterCommit (after_op L op s) = s_afterCommit s"
  using exec_grows [of op s L] by (cases "\<exists>d. op = OpTick d") (auto simp: grows_def after_op_def)

lemma ops_hook [simp]: "s_afterCommit (after_ops L ops s) = s_afterCommit s"
  by (induction ops arbitrary: s) (simp_all add: after_ops_def)

lemma meanwhile_hook [simp]: "s_afterCommit (meanwhile L w n s) = s_afterCommit s"
  by (simp add: meanwhile_def)

lemma version_grows:
  assumes "DispatchProtocolV2 \<le> GetRunProtocolVersion s x"
  shows "GetRunProtocolVersion (after_op L op s) x = GetRunProtocolVersion s x"
proof -
  obtain v where "s_activation s x = Some v"
    using assms by (auto simp: GetRunProtocolVersion_def DispatchProtocolV2_def split: option.splits)
  with exec_activation [of s L op] show ?thesis by (auto simp: GetRunProtocolVersion_def map_le_def dom_def)
qed

lemma ops_version:
  "DispatchProtocolV2 \<le> GetRunProtocolVersion s x \<Longrightarrow>
   GetRunProtocolVersion (after_ops L ops s) x = GetRunProtocolVersion s x"
  by (induction ops arbitrary: s) (simp_all add: after_ops_def version_grows)

lemma blocked_op:
  assumes "blocked s x t" and "\<not> releases_stop x op"
  shows "blocked (after_op L op s) x t"
proof -
  from assms(1) obtain r where r: "s_records s (recKey x t) = Some r" "unsent r" "stop_fence x s (recKey x t)"
    and v: "DispatchProtocolV2 \<le> GetRunProtocolVersion s x" by (auto simp: blocked_def)
  obtain r' where r': "s_records (after_op L op s) (recKey x t) = Some r'"
    using recs.keeps [OF r(1), of L op] by blast
  have "unsent r'" by (rule stopped.holds [OF r r'])
  with r' stopped.stays [OF r(1,3) assms(2), of L] version_grows [OF v] v show ?thesis by (auto simp: blocked_def)
qed

lemma blocked_ops: "blocked s x t \<Longrightarrow> \<forall>op \<in> set ops. \<not> releases_stop x op \<Longrightarrow> blocked (after_ops L ops s) x t"
  by (induction ops arbitrary: s) (simp_all add: after_ops_def blocked_op)

lemma blocked_meanwhile: "blocked s x t \<Longrightarrow> keeps_stop x w \<Longrightarrow> blocked (meanwhile L w n s) x t"
  by (simp add: meanwhile_def blocked_ops keeps_stop_def)

lemma blocked_active: "blocked s x t \<Longrightarrow> dispatchV2ActiveForRun getenv (Some s) x"
  by (simp add: blocked_def dispatchV2ActiveForRun_def)

lemma CASAdvance_op: "after_op L (OpCAS a b rv (Advance x y)) s = snd (snd (CASAdvance s a b rv x y None))"
  by (simp add: after_op_def)

lemma blocked_get: "blocked s x t \<Longrightarrow> Get s x t = Inr r \<Longrightarrow> unsent r"
  by (auto simp: blocked_def Get_def)

lemma blocked_cas:
  assumes "blocked s x t" and "CASAdvance s x t rv a DispatchSendStarted None = (rv', e, s')"
  shows "blocked s' x t \<and> e \<noteq> None"
proof
  have "after_op L (OpCAS x t rv (Advance a DispatchSendStarted)) s = s'" for L
    using assms(2) by (simp add: CASAdvance_op)
  with blocked_op [OF assms(1), of "OpCAS x t rv (Advance a DispatchSendStarted)"] show "blocked s' x t"
    by (metis dispatch_op.distinct releases_stop_def)
  obtain y where "checkOwnStopLocked s x = Some y"
    using assms(1) by (auto simp: blocked_def stop_fence_def checkOwnStopLocked_def)
  with assms(2) show "e \<noteq> None"
    by (auto simp: CASAdvance_def casAdvance_def split: sum.splits option.splits if_splits dest: sym [of "Some _"])
qed

lemma loadTurn_cases:
  assumes "loadTurn L w n s rs t = (x, s1)"
  obtains r where "dispatchByTurn rs t = Some r" "x = Inr r" "s1 = s"
  | "dispatchByTurn rs t = None" "s1 = meanwhile L w n s" "x = Get s1 (ir_id rs) t"
  using assms by (cases "dispatchByTurn rs t") (auto simp: loadTurn_def Let_def)

lemma linearize_blocked:
  assumes "blocked s (ir_id rs) t" and "keeps_stop (ir_id rs) w"
    and "\<And>c. dispatchByTurn rs t = Some c \<Longrightarrow> unsent c"
  shows "fst (fst (linearizeSendStarted L getenv w (Some s) rs t)) = False"
proof -
  define s0 where "s0 = meanwhile L w 0 s"
  have b0: "blocked s0 (ir_id rs) t" unfolding s0_def by (rule blocked_meanwhile [OF assms(1,2)])
  obtain x s1 where l: "loadTurn L w 1 s0 rs t = (x, s1)" by fastforce
  have s1: "blocked s1 (ir_id rs) t \<and> (\<forall>r. x = Inr r \<longrightarrow> unsent r)"
  proof (rule loadTurn_cases [OF l])
    fix r assume "dispatchByTurn rs t = Some r" "x = Inr r" "s1 = s0"
    with b0 assms(3) show ?thesis by simp
  next
    assume n: "dispatchByTurn rs t = None" "s1 = meanwhile L w 1 s0" "x = Get s1 (ir_id rs) t"
    have "blocked s1 (ir_id rs) t" unfolding n(2) by (rule blocked_meanwhile [OF b0 assms(2)])
    with n(3) blocked_get [of s1 "ir_id rs" t] show ?thesis by metis
  qed
  show ?thesis
  proof (cases x)
    case (Inl e)
    with l blocked_active [OF b0] show ?thesis
      by (simp add: linearizeSendStarted_def s0_def [symmetric] Let_def)
  next
    case (Inr r)
    define s1' where "s1' = meanwhile L w 2 s1"
    have b1: "blocked s1' (ir_id rs) t" unfolding s1'_def by (rule blocked_meanwhile) (use s1 assms in auto)
    obtain rv' e s2 where c: "CASAdvance s1' (ir_id rs) t (d_Revision r) DispatchSendClaimed DispatchSendStarted None = (rv', e, s2)"
      by (metis prod_cases3)
    from blocked_cas [OF b1 c] obtain er where er: "e = Some er" and b2: "blocked s2 (ir_id rs) t" by auto
    have b3: "blocked (meanwhile L w 3 s2) (ir_id rs) t" by (rule blocked_meanwhile [OF b2 assms(2)])
    have ns: "\<not> (d_State r = DispatchSendStarted \<or> d_State r = DispatchProviderAccepted)"
      using s1 Inr by (auto simp: unsent_def)
    show ?thesis
    proof (cases "IsTerminal (d_State r)")
      case True
      with l Inr blocked_active [OF b0] ns show ?thesis
        by (simp add: linearizeSendStarted_def s0_def [symmetric] Let_def)
    next
      case False
      have u: "unsent cur" if "Get (meanwhile L w 3 s2) (ir_id rs) t = Inr cur" for cur
        by (rule blocked_get [OF b3 that])
      from l Inr blocked_active [OF b0] ns False c er s1'_def show ?thesis
        by (auto simp: linearizeSendStarted_def s0_def [symmetric] Let_def split: error.split sum.split dest!: u)
          (auto simp: unsent_def)
    qed
  qed
qed

section \<open>Histories without a release\<close>

definition unreleased :: "golib \<Rightarrow> string \<Rightarrow> 'd memoryDispatchStore \<Rightarrow> 'd memoryDispatchStore \<Rightarrow> bool" where
  "unreleased L x s s' \<longleftrightarrow> (\<exists>ops. (\<forall>op \<in> set ops. \<not> releases_stop x op) \<and> s' = after_ops L ops s)"

definition run_stopped :: "'d memoryDispatchStore \<Rightarrow> string \<Rightarrow> bool" where
  "run_stopped s x \<longleftrightarrow> (\<exists>st. s_runStop s x = Some st \<and> rs_Stopped st)"

lemma unreleased_refl [simp]: "unreleased L x s s"
  unfolding unreleased_def by (rule exI [of _ "[]"]) (simp add: after_ops_def)

lemma unreleased_trans [trans]: "unreleased L x s t \<Longrightarrow> unreleased L x t u \<Longrightarrow> unreleased L x s u"
  unfolding unreleased_def by (metis (no_types, lifting) Un_iff after_ops_def comp_apply fold_append set_append)

lemma unreleased_op: "after_op L op s = s' \<Longrightarrow> \<not> releases_stop x op \<Longrightarrow> unreleased L x s s'"
  unfolding unreleased_def by (rule exI [of _ "[op]"]) (simp add: after_ops_def)

lemma unreleased_ops: "\<forall>op \<in> set ops. \<not> releases_stop x op \<Longrightarrow> unreleased L x s (after_ops L ops s)"
  unfolding unreleased_def by blast

lemma unreleased_meanwhile: "keeps_stop x w \<Longrightarrow> unreleased L x s (meanwhile L w n s)"
  unfolding meanwhile_def keeps_stop_def by (intro unreleased_ops) simp

lemma unreleased_request: "unreleased L x s (snd (snd (RequestRunStop s a rv rs)))"
  by (rule unreleased_op [of _ "OpRequestRunStop a rv rs"]) (simp_all add: after_op_def releases_stop_def)

lemma unreleased_cancel: "unreleased L x s (snd (snd (SetCancelRequested s a b rv g)))"
  by (rule unreleased_op [of _ "OpCAS a b rv (SetCancel g)"]) (simp_all add: after_op_def releases_stop_def)

lemma unreleased_stopped: "unreleased L x s s' \<Longrightarrow> run_stopped s x \<Longrightarrow> run_stopped s' x"
proof -
  have "run_stopped (after_ops L ops s) x" if "\<forall>op \<in> set ops. \<not> releases_stop x op" "run_stopped s x" for ops s
    using that
  proof (induction ops arbitrary: s)
    case (Cons op ops)
    then obtain st where "s_runStop s x = Some st" "rs_Stopped st" by (auto simp: run_stopped_def)
    with exec_stop_stays [OF this, of op L] Cons.prems have "run_stopped (after_op L op s) x"
      by (auto simp: run_stopped_def)
    with Cons show ?case by (simp add: after_ops_def)
  qed (simp add: after_ops_def)
  then show "unreleased L x s s' \<Longrightarrow> run_stopped s x \<Longrightarrow> run_stopped s' x" by (auto simp: unreleased_def)
qed

lemma unreleased_version:
  "unreleased L x s s' \<Longrightarrow> DispatchProtocolV2 \<le> GetRunProtocolVersion s y \<Longrightarrow>
   GetRunProtocolVersion s' y = GetRunProtocolVersion s y"
  by (auto simp: unreleased_def ops_version)

lemma cancelSweep_unreleased: "keeps_stop x w \<Longrightarrow> unreleased L x s (cancelSweep L w n x g rs s)"
proof (induction rs arbitrary: n s)
  case (Cons r rs)
  show ?case
  proof (cases "IsTerminal (d_State r)")
    case True
    with Cons show ?thesis by simp
  next
    case False
    have "unreleased L x s (snd (snd (SetCancelRequested (meanwhile L w n s) x (d_TurnID r) (d_Revision r) g)))"
      by (rule unreleased_trans [OF unreleased_meanwhile [OF Cons.prems] unreleased_cancel])
    from unreleased_trans [OF this Cons.IH [OF Cons.prems]] False show ?thesis by simp
  qed
qed simp

lemma RequestRunStop_done:
  assumes "RequestRunStop s x rv rs = (st, None, s')"
  shows "s_runStop s' x = Some st \<and> rs_Stopped st"
  using assms logged_cases [of s]
  unfolding RequestRunStop_def commitRunStop_def Let_def
  by (auto split: if_splits prod.splits option.splits)

lemma shift_keeps [simp]: "keeps_stop x w \<Longrightarrow> keeps_stop x (\<lambda>n. w (k + n))"
  by (simp add: keeps_stop_def)

lemma requestStopReloading_done:
  assumes "requestStopReloading L w s x = (st, e, s')" and "keeps_stop x w"
  shows "unreleased L x s s'" and "e = None \<Longrightarrow> s_runStop s' x = Some st \<and> rs_Stopped st"
proof -
  define rv where "rv = (let r = rs_Revision (GetRunStopState s x) in if r = 0 then 1 else r)"
  note m = unreleased_meanwhile [OF assms(2), of L]
  obtain st1 e1 s2 where f: "RequestRunStop (meanwhile L w 2 s) x rv StopReasonUser = (st1, e1, s2)"
    by (metis prod_cases3)
  have u2: "unreleased L x s s2"
    using unreleased_trans [OF m unreleased_request, of s 2 x rv StopReasonUser] f by simp
  have "unreleased L x s s' \<and> (e = None \<longrightarrow> s_runStop s' x = Some st \<and> rs_Stopped st)"
  proof (cases e1)
    case None
    with assms(1) f have "(st, e, s') = (st1, None, s2)" by (simp add: requestStopReloading_def rv_def Let_def)
    with u2 RequestRunStop_done f None show ?thesis by simp
  next
    case (Some er)
    define s3 where "s3 = meanwhile L w 3 s2"
    from Some assms(1) f have g: "RequestRunStop (meanwhile L w 4 s3) x (rs_Revision (GetRunStopState s3 x)) StopReasonUser
        = (st, e, s')" by (simp add: requestStopReloading_def rv_def Let_def s3_def)
    have "unreleased L x s (meanwhile L w 4 s3)" unfolding s3_def by (rule unreleased_trans [OF u2 unreleased_trans [OF m m]])
    from unreleased_trans [OF this unreleased_request, of x "rs_Revision (GetRunStopState s3 x)" StopReasonUser] g
    have "unreleased L x s s'" by simp
    with RequestRunStop_done g show ?thesis by blast
  qed
  then show "unreleased L x s s'" and "e = None \<Longrightarrow> s_runStop s' x = Some st \<and> rs_Stopped st" by blast+
qed

lemma requestRunStop_done:
  assumes "requestRunStopV2 L w order (Some s) x = (None, Some s')" and "x \<noteq> ''''" and "keeps_stop x w"
    and "DispatchProtocolV2 \<le> GetRunProtocolVersion s x"
  shows "unreleased L x s s' \<and> run_stopped s' x"
proof -
  note m = unreleased_meanwhile [OF assms(3), of L]
  have v0: "\<not> GetRunProtocolVersion (meanwhile L w 0 s) x < DispatchProtocolV2"
    using unreleased_version [OF m assms(4), of 0] assms(4) by simp
  obtain st e s4 where f: "requestStopReloading L w (meanwhile L w 1 (meanwhile L w 0 s)) x = (st, e, s4)"
    by (metis prod_cases3)
  note d = requestStopReloading_done [OF f assms(3)]
  have s': "e = None \<and> s' = cancelSweep L (\<lambda>n. w (6 + n)) 0 x (rs_Generation st)
      (ListRecoverable L order (meanwhile L w 5 s4) x) (meanwhile L w 5 s4)"
    using assms(1,2) v0 f by (auto simp: requestRunStopV2_def Let_def split: option.splits)
  have "unreleased L x s4 s'"
    unfolding s' [THEN conjunct2] by (rule unreleased_trans [OF m cancelSweep_unreleased [OF shift_keeps [OF assms(3)]]])
  moreover have "unreleased L x s s4" by (rule unreleased_trans [OF m unreleased_trans [OF m d(1)]])
  moreover have "run_stopped s4 x" using d(2) s' by (auto simp: run_stopped_def)
  ultimately show ?thesis using unreleased_trans unreleased_stopped by blast
qed

text \<open>
  C13: An acknowledged stop holds: when \<open>requestRunStopV2\<close> returns without an error
  for a run on the V2 path, the run is stopped in the store, and from then on, whatever calls
  other goroutines make before, during and after it, as long as none of them releases the stop,
  \<open>linearizeSendStarted\<close> refuses every turn of the run that has not been sent.
\<close>

theorem stop_then_no_send:
  assumes "requestRunStopV2 L w order (Some s) x = (None, Some s')"
    and "x \<noteq> ''''" and "nul_free x" and "nul_free t" and "DispatchProtocolV2 \<le> GetRunProtocolVersion s x"
    and "keeps_stop x w" and "keeps_stop x w'" and "\<forall>op \<in> set ops. \<not> releases_stop x op"
    and "s_records s' (recKey x t) = Some r" and "unsent r"
    and "ir_id rs = x" and "\<And>c. dispatchByTurn rs t = Some c \<Longrightarrow> unsent c"
  shows "run_stopped s' x \<and>
    fst (fst (linearizeSendStarted L getenv w' (Some (after_ops L ops s')) rs t)) = False"
proof
  from requestRunStop_done [OF assms(1,2,6,5)] have u: "unreleased L x s s'" and st: "run_stopped s' x" by blast+
  show "run_stopped s' x" by (rule st)
  have "blocked s' x t"
    using assms(3,4,5,9,10) st unreleased_version [OF u assms(5)]
    by (auto simp: blocked_def stop_fence_def run_stopped_def)
  from blocked_ops [OF this assms(8)]
  show "fst (fst (linearizeSendStarted L getenv w' (Some (after_ops L ops s')) rs t)) = False"
    by (intro linearize_blocked) (use assms in auto)
qed

section \<open>What a send leaves in the store\<close>

lemma steps_forward: "rec_step\<^sup>*\<^sup>* r r' \<Longrightarrow> isLegalEdge\<^sup>*\<^sup>* (d_State r) (d_State r')"
proof (induction rule: rtranclp_induct)
  case (step y z)
  then show ?case
    using rec_step_edge [OF step.hyps(2)] by (auto intro: rtranclp.rtrancl_into_rtrancl)
qed simp

lemma ops_forward:
  assumes "s_records s k = Some r"
  shows "\<exists>r'. s_records (after_ops L ops s) k = Some r' \<and> isLegalEdge\<^sup>*\<^sup>* (d_State r) (d_State r')"
  using recs.history_keeps [OF assms, of L ops] steps_forward unfolding after_ops_def by blast

definition sent_later :: "'d memoryDispatchStore \<Rightarrow> string \<Rightarrow> DispatchState \<Rightarrow> bool" where
  "sent_later s k p \<longleftrightarrow> (\<exists>r. s_records s k = Some r \<and> isLegalEdge\<^sup>*\<^sup>* p (d_State r))"

lemma later_meanwhile: "sent_later s k p \<Longrightarrow> sent_later (meanwhile L w n s) k p"
  unfolding sent_later_def meanwhile_def by (metis ops_forward rtranclp_trans)







section \<open>Writes that succeed\<close>

lemma succeed_hook: "writes_succeed s \<Longrightarrow> fst (hook_run s l) = None"
  by (auto simp: writes_succeed_def hook_run_def split: option.split)

lemma commitRecord_succeeds:
  assumes "writes_succeed s"
  shows "\<exists>dk. commitRecord s a b r cp kind det act clr after =
    (d_Revision cp, None, after (putRec ((appendAuditLocked s a b kind det act)\<lparr>s_disk := dk\<rparr>) (recKey a b) cp))"
  using succeed_hook [OF assms] by (rule_tac commitRecord_cases [of s cp clr a b r kind det act after]) (metis fst_conv option.distinct(1))+

lemma succeed_same_hook: "s_afterCommit s' = s_afterCommit s \<Longrightarrow> writes_succeed s' = writes_succeed s"
  by (simp add: writes_succeed_def)

lemma preSend_succeeds:
  assumes "writes_succeed s" and "s_records s (recKey a b) = Some r"
    and "d_State r = DispatchPrepared \<or> d_State r = DispatchSendClaimed"
  shows "\<exists>s'. CommitPreSendCancellationAndClearIntent s a b (d_Revision r) ow ky g sg src = (inc64 (d_Revision r), None, s') \<and>
     (\<exists>r'. s_records s' (recKey a b) = Some r' \<and> d_State r' = DispatchTerminalCancelled \<and>
        d_StopOutcome r' = StopOutcomeStoppedBeforeSend \<and> d_CancelRequested r') \<and>
     (ow \<noteq> '''' \<longrightarrow> ky \<noteq> '''' \<longrightarrow> (ow, ky, g) \<in> s_clears s')"
proof -
  have "canTransition r DispatchTerminalCancelled = None" using assms(3) by (auto simp: canTransition_def)
  moreover have "getRecLocked s a b = Inr r" using assms(2) by simp
  ultimately obtain cp kind det act clr where
    c: "CommitPreSendCancellationAndClearIntent s a b (d_Revision r) ow ky g sg src =
      commitRecord s a b r cp kind det act clr (\<lambda>s'. clearIntentLocked s' ow ky g)"
    and cp: "d_State cp = DispatchTerminalCancelled" "d_StopOutcome cp = StopOutcomeStoppedBeforeSend"
      "d_CancelRequested cp" "d_Revision cp = inc64 (d_Revision r)"
    using assms(3)
    by (auto simp: CommitPreSendCancellationAndClearIntent_def commitPreSend_def revokeAttachLocked_def simp del: getRec_Inr)
  from commitRecord_succeeds [OF assms(1), of a b r cp kind det act clr "\<lambda>s'. clearIntentLocked s' ow ky g"] c cp show ?thesis
    by (auto simp: clearIntentLocked_def)
qed

lemma preSendCancel_quiet:
  assumes "writes_succeed s" and "s_records s (recKey a b) = Some r"
    and "d_State r = DispatchPrepared \<or> d_State r = DispatchSendClaimed"
  shows "\<exists>r'. s_records (commitPreSendCancel L (\<lambda>n. quiet (k + n)) s a b g src) (recKey a b) = Some r' \<and>
     d_State r' = DispatchTerminalCancelled \<and> d_StopOutcome r' = StopOutcomeStoppedBeforeSend \<and> d_CancelRequested r'"
proof -
  have q: "(\<lambda>n. quiet (k + n)) = quiet" by (simp add: quiet_def fun_eq_iff)
  from preSend_succeeds [OF assms, of "d_IntentOwnerRunID r" "d_OuterIntentKey r" "d_OuterIntentGen r" g src] assms(2,3)
  show ?thesis unfolding q by (auto simp: commitPreSendCancel_def Get_def getRecLocked_def Let_def)
qed

lemma claimed_stop_refused:
  assumes "s_records s (recKey x t) = Some r" and "d_State r = DispatchSendClaimed"
    and "run_stopped s x \<or> d_CancelRequested r"
  shows "(\<exists>e. CASAdvance s x t (d_Revision r) DispatchSendClaimed DispatchSendStarted None = (d_Revision r, Some e, s) \<and>
    (d_CancelRequested r \<and> e = ErrIllegalTransition \<or> (\<exists>g. e = ErrRunStopFence g)))"
proof (cases "d_CancelRequested r")
  case True
  then show ?thesis using assms by (simp add: CASAdvance_def casAdvance_def getRecLocked_def canTransition_def)
next
  case False
  with assms obtain st where "s_runStop s x = Some st" "rs_Stopped st" by (auto simp: run_stopped_def)
  with False assms show ?thesis
    by (simp add: CASAdvance_def casAdvance_def getRecLocked_def canTransition_def checkOwnStopLocked_def)
qed

text \<open>
  A stopped claim is cancelled: when a claimed turn meets a stop of its run or a cancel
  request and nothing interferes, \<open>linearizeSendStarted\<close> refuses the send without
  reporting a store error, and the record ends cancelled as stopped before the send.
\<close>

theorem stopped_claim_cancels:
  assumes "s_records s (recKey (ir_id rs) t) = Some r" and "d_State r = DispatchSendClaimed"
    and "run_stopped s (ir_id rs) \<or> d_CancelRequested r" and "dispatchByTurn rs t = None \<or> dispatchByTurn rs t = Some r"
    and "dispatchV2ActiveForRun getenv (Some s) (ir_id rs)" and "writes_succeed s"
  shows "\<exists>s' r'. linearizeSendStarted L getenv quiet (Some s) rs t = ((False, False), Some s', rs) \<and>
     s_records s' (recKey (ir_id rs) t) = Some r' \<and> d_State r' = DispatchTerminalCancelled \<and>
     d_StopOutcome r' = StopOutcomeStoppedBeforeSend \<and> d_CancelRequested r'"
proof -
  have l: "loadTurn L quiet 1 s rs t = (Inr r, s)"
    using assms(1,4) by (auto simp: loadTurn_def Get_def getRecLocked_def)
  from claimed_stop_refused [OF assms(1,2,3)] obtain e where
    e: "CASAdvance s (ir_id rs) t (d_Revision r) DispatchSendClaimed DispatchSendStarted None = (d_Revision r, Some e, s)"
      "d_CancelRequested r \<and> e = ErrIllegalTransition \<or> (\<exists>g. e = ErrRunStopFence g)" by blast
  have "Get s (ir_id rs) t = Inr r" using assms(1) by (simp add: Get_def)
  with e l assms(2,5) obtain k g where
    "linearizeSendStarted L getenv quiet (Some s) rs t =
      ((False, False), Some (commitPreSendCancel L (\<lambda>n. quiet (k + n)) s (ir_id rs) t g PreSendStopSelf), rs)"
    by (auto simp: linearizeSendStarted_def Let_def)
  with preSendCancel_quiet [OF assms(6,1)] assms(2) show ?thesis by blast
qed

section \<open>Retried terminals\<close>

lemma sent_states: "isLegalEdge\<^sup>*\<^sup>* DispatchSendStarted p \<Longrightarrow>
    p \<in> {DispatchSendStarted, DispatchProviderAccepted, DispatchUncertain} \<or> IsTerminal p"
proof (induction rule: rtranclp_induct)
  case (step y z)
  then show ?case using terminal_no_edge [of y z] by (auto simp: isLegalEdge_def)
qed simp

lemma terminal_succeeds:
  assumes "writes_succeed s" and "s_records s (recKey a b) = Some r" and "terminalStateFromProof (te_Outcome pf) = Inr p"
    and "isLegalEdge\<^sup>*\<^sup>* DispatchSendStarted (d_State r)" and "\<not> IsTerminal (d_State r)"
  shows "\<exists>s'. CommitTerminalAndSettleIntent s a b (d_Revision r) pf ow ky g = (inc64 (d_Revision r), None, s') \<and>
     (\<exists>r'. s_records s' (recKey a b) = Some r' \<and> IsTerminal (d_State r'))"
proof -
  obtain n oc where p: "p = (n, oc)" by fastforce
  have n: "IsTerminal n" using terminalState_terminal assms(3) p by blast
  have "canTransition r n = None"
    using sent_states [OF assms(4)] assms(5) n by (cases n; auto simp: canTransition_def)
  moreover have "getRecLocked s a b = Inr r" using assms(2) by simp
  ultimately obtain cp kind det act clr where
    c: "CommitTerminalAndSettleIntent s a b (d_Revision r) pf ow ky g =
      commitRecord s a b r cp kind det act clr (\<lambda>s'. clearIntentLocked s' ow ky g)"
    and cp: "d_State cp = n" "d_Revision cp = inc64 (d_Revision r)"
    using assms(3) p
    by (auto simp: CommitTerminalAndSettleIntent_def commitTerminal_def Let_def simp del: getRec_Inr)
  from commitRecord_succeeds [OF assms(1), of a b r cp kind det act clr "\<lambda>s'. clearIntentLocked s' ow ky g"] c cp n show ?thesis
    by auto
qed

definition has_terminal :: "'d memoryDispatchStore \<Rightarrow> string \<Rightarrow> bool" where
  "has_terminal s k \<longleftrightarrow> (\<exists>r. s_records s k = Some r \<and> IsTerminal (d_State r))"

lemma terminal_stays: "isLegalEdge\<^sup>*\<^sup>* p q \<Longrightarrow> IsTerminal p \<Longrightarrow> q = p"
  by (erule converse_rtranclpE) auto

lemma has_terminal_meanwhile: "has_terminal s k \<Longrightarrow> has_terminal (meanwhile L w n s) k"
  unfolding has_terminal_def meanwhile_def using ops_forward terminal_stays by metis

lemma terminal_attempt:
  assumes "writes_succeed s" and "sent_later s (recKey a b) DispatchSendStarted" and "Get s0 a b = Inr r"
    and "terminalStateFromProof (te_Outcome pf) = Inr p"
    and "CommitTerminalAndSettleIntent s a b (d_Revision r) pf ow ky g = (rv, e, s')"
  shows "(e = None \<longrightarrow> has_terminal s' (recKey a b)) \<and> (e \<noteq> None \<longrightarrow> s' = s) \<and>
    (e \<noteq> None \<longrightarrow> e \<noteq> Some ErrStaleDispatch \<longrightarrow> has_terminal s (recKey a b)) \<and>
    (s = s0 \<longrightarrow> \<not> IsTerminal (d_State r) \<longrightarrow> e = None)"
proof -
  from assms(2) obtain r1 where r1: "s_records s (recKey a b) = Some r1" "isLegalEdge\<^sup>*\<^sup>* DispatchSendStarted (d_State r1)"
    by (auto simp: sent_later_def)
  show ?thesis
  proof (cases "d_Revision r1 = d_Revision r")
    case False
    with r1 assms(5) have "e = Some ErrStaleDispatch" "s' = s"
      by (auto simp: CommitTerminalAndSettleIntent_def commitTerminal_def getRecLocked_def)
    with False r1 assms(3) show ?thesis by (auto simp: Get_def)
  next
    case True
    show ?thesis
    proof (cases "IsTerminal (d_State r1)")
      case False
      with terminal_succeeds [OF assms(1) r1(1) assms(4) r1(2), of ow ky g] True assms(5) show ?thesis
        by (auto simp: has_terminal_def)
    next
      case T: True
      obtain n oc where p: "p = (n, oc)" by fastforce
      obtain y where "canTransition r1 n = Some y"
        using T terminal_no_edge [OF T, of n] by (fastforce simp: canTransition_def isLegalEdge_def)
      with True r1 assms(4,5) p have "e = Some y" "s' = s"
        by (auto simp: CommitTerminalAndSettleIntent_def commitTerminal_def getRecLocked_def dest: sym [of "Some _"])
      with T r1 assms(3) show ?thesis by (auto simp: has_terminal_def Get_def)
    qed
  qed
qed

lemma retry_converges:
  assumes "writes_succeed s" and "sent_later s (recKey a b) DispatchSendStarted"
    and "terminalStateFromProof (te_Outcome pf) = Inr p" and "i \<le> j" and "j < i + left" and "w (3 * j + 1) = []"
  shows "\<exists>en s' rso'. retryTerminalFrom L w left i s rso a b pf = (en, s', rso') \<and> has_terminal s' (recKey a b)"
  using assms
proof (induction left arbitrary: i s)
  case 0
  then show ?case by simp
next
  case (Suc left)
  define s0 where "s0 = meanwhile L w (3 * i) s"
  define s1 where "s1 = meanwhile L w (3 * i + 1) s0"
  have s1: "meanwhile L w (Suc (3 * i)) s0 = s1" by (simp add: s1_def)
  have l0: "sent_later s0 (recKey a b) DispatchSendStarted" unfolding s0_def by (rule later_meanwhile [OF Suc.prems(2)])
  have l1: "sent_later s1 (recKey a b) DispatchSendStarted" unfolding s1_def by (rule later_meanwhile [OF l0])
  have h: "writes_succeed s1" using Suc.prems(1) by (simp add: s1_def s0_def writes_succeed_def)
  from l0 obtain r where r: "Get s0 a b = Inr r" and rk: "s_records s0 (recKey a b) = Some r"
    by (auto simp: sent_later_def Get_def)
  show ?case
  proof (cases "IsTerminal (d_State r)")
    case True
    with r rk show ?thesis by (simp add: s0_def [symmetric] Let_def has_terminal_def)
  next
    case False
    obtain rv e s2 where c: "CommitTerminalAndSettleIntent s1 a b (d_Revision r) pf (d_IntentOwnerRunID r)
        (d_OuterIntentKey r) (d_OuterIntentGen r) = (rv, e, s2)" by (metis prod_cases3)
    note t = terminal_attempt [OF h l1 r Suc.prems(3) c]
    show ?thesis
    proof (cases e)
      case None
      with t r False c show ?thesis
        by (simp add: s0_def [symmetric] s1 Let_def has_terminal_meanwhile)
    next
      case (Some er)
      show ?thesis
      proof (cases "er = ErrStaleDispatch")
        case False
        with Some t r \<open>\<not> IsTerminal (d_State r)\<close> c show ?thesis
          by (simp add: s0_def [symmetric] s1 Let_def)
      next
        case True
        have "i \<noteq> j"
        proof
          assume "i = j"
          with Suc.prems(6) have "s1 = s0" by (simp add: s1_def)
          with t False Some show False by simp
        qed
        moreover from t Some have "s2 = s1" by simp
        ultimately have "\<exists>en s' rso'. retryTerminalFrom L w left (Suc i) s2 rso a b pf = (en, s', rso') \<and>
            has_terminal s' (recKey a b)"
          using Suc.prems h l1 by (intro Suc.IH) auto
        with Some True r False c show ?thesis by (simp add: s0_def [symmetric] s1 Let_def)
      qed
    qed
  qed
qed

text \<open>
  A lost race on a terminal is repaired: for a turn that has been sent,
  \<open>retryTerminalCommit\<close> leaves the record terminal when no line is refused and
  other goroutines leave the store alone between the read and the commit of one of its four
  attempts, whatever they do the rest of the time.
\<close>

theorem terminal_retry_converges:
  assumes "writes_succeed s" and "sent_later s (recKey a b) DispatchSendStarted"
    and "terminalStateFromProof (te_Outcome pf) = Inr p" and "j < dispatchCommitMaxAttempts" and "w (3 * j + 1) = []"
    and "a \<noteq> ''''" and "b \<noteq> ''''"
  shows "\<exists>en s' rso'. retryTerminalCommit L w s rso a b pf = Some (en, s', rso') \<and> has_terminal s' (recKey a b)"
  using retry_converges [OF assms(1-3), of 0 j dispatchCommitMaxAttempts w L rso] assms(4-7)
  by (simp add: retryTerminalCommit_def)

section \<open>Fresh ids\<close>

lemma seedLoop_ceiling:
  assumes "0 \<le> cur"
  shows "mx \<le> seedLoop bumps mx cur"
  by (induction bumps mx cur rule: seedLoop.induct) (simp split: list.split)

lemma digits_value_append: "digits_value (xs @ [c]) = 10 * digits_value xs + int (of_char c) - 48"
  by (simp add: digits_value_def)

lemma digit_char: "d < 10 \<Longrightarrow> is_digit (char_of (48 + d :: nat)) \<and> (of_char (char_of (48 + d :: nat) :: char) :: nat) = 48 + d"
  by (simp add: is_digit_def less_eq_char_def)

lemma digits_roundtrip: "digits_value (digits_of n) = int n \<and> list_all is_digit (digits_of n)"
proof (induction n rule: digits_of.induct)
  case (1 n)
  show ?case
  proof (cases "n < 10")
    case True
    with digit_char [OF True] show ?thesis
      by (subst (1 2) digits_of.simps) (simp add: digits_value_def)
  next
    case False
    have "n mod 10 < 10" and "10 * int (n div 10) + int (n mod 10) = int n" by simp presburger
    with digit_char [of "n mod 10"] 1 [OF False] False show ?thesis
      by (subst (1 2) digits_of.simps) (simp add: digits_value_append)
  qed
qed

lemma digit_not_sign: "list_all is_digit ds \<Longrightarrow> CHR ''-'' \<notin> set ds \<and> CHR ''+'' \<notin> set ds"
  by (induction ds) (auto simp: is_digit_def less_eq_char_def)

lemma takeWhile_suffix:
  "c \<notin> set ys \<Longrightarrow> takeWhile (\<lambda>x. x \<noteq> c) (rev (xs @ c # ys)) = rev ys"
  by (subst rev_append) (auto simp: takeWhile_append2 takeWhile_tail)

lemma suffix_roundtrip:
  assumes "0 \<le> n" and "in_int64 n"
  shows "numericIDSuffix (prefix @ ''-'' @ fmt_d n) = n"
proof -
  obtain c cs where ds: "digits_of (nat n) = c # cs" by (cases "digits_of (nat n)") (auto simp: digits_of_nonempty)
  note rt = digits_roundtrip [of "nat n"]
  have ns: "c \<noteq> CHR ''-''" "c \<noteq> CHR ''+''" "CHR ''-'' \<notin> set (digits_of (nat n))"
    using digit_not_sign [of "digits_of (nat n)"] rt ds by auto
  have "parse_int64 (digits_of (nat n)) = Some n"
    using ns rt assms unfolding parse_int64_def ds by (simp add: Let_def)
  with takeWhile_suffix [OF ns(3), of prefix] ds assms show ?thesis
    by (simp add: numericIDSuffix_def fmt_d_def Let_def)
qed

lemma considerID_max: "considerID i m = max m (numericIDSuffix i)"
  by (simp add: considerID_def Let_def max_def)

lemma fold_consider: "m \<le> fold considerID is m \<and> (\<forall>i \<in> set is. numericIDSuffix i \<le> fold considerID is m)"
proof (induction "is" arbitrary: m)
  case (Cons i "is")
  from Cons [of "considerID i m"] show ?case by (auto simp: considerID_max)
qed simp

lemma fold_consider_records:
  "m \<le> fold (\<lambda>r m. considerID (d_TurnID r) (considerID (d_RunID r) m)) rs m \<and>
   (\<forall>r \<in> set rs. numericIDSuffix (d_RunID r) \<le> fold (\<lambda>r m. considerID (d_TurnID r) (considerID (d_RunID r) m)) rs m \<and>
      numericIDSuffix (d_TurnID r) \<le> fold (\<lambda>r m. considerID (d_TurnID r) (considerID (d_RunID r) m)) rs m)"
proof (induction rs arbitrary: m)
  case (Cons r rs)
  from Cons [of "considerID (d_TurnID r) (considerID (d_RunID r) m)"] show ?case by (auto simp: considerID_max)
qed simp

lemma ceiling_covers:
  assumes "s_records s k = Some r" and "k \<in> set recOrder"
  shows "numericIDSuffix (d_RunID r) \<le> MaxPersistedIDSuffix recOrder stopOrder actOrder s"
    and "numericIDSuffix (d_TurnID r) \<le> MaxPersistedIDSuffix recOrder stopOrder actOrder s"
proof -
  have "r \<in> set (range_over (s_records s) recOrder)"
    using assms by (auto simp: range_over_def map_filter_def image_iff intro!: bexI [of _ k])
  with fold_consider_records [of 0 "range_over (s_records s) recOrder"]
    fold_consider [of _ stopOrder] fold_consider [of _ actOrder]
  show "numericIDSuffix (d_RunID r) \<le> MaxPersistedIDSuffix recOrder stopOrder actOrder s"
    and "numericIDSuffix (d_TurnID r) \<le> MaxPersistedIDSuffix recOrder stopOrder actOrder s"
    unfolding MaxPersistedIDSuffix_def by (meson order_trans)+
qed

lemma ceiling_covers_run:
  "x \<in> set stopOrder \<or> x \<in> set actOrder \<Longrightarrow> numericIDSuffix x \<le> MaxPersistedIDSuffix recOrder stopOrder actOrder s"
  unfolding MaxPersistedIDSuffix_def using fold_consider [of _ stopOrder] fold_consider [of _ actOrder]
  by (meson order_trans)

lemma seeded_ceiling:
  "0 \<le> c \<Longrightarrow> MaxPersistedIDSuffix ro so ao s \<le> seedIDCounterFromDispatchStore bumps ro so ao s c"
  using seedLoop_ceiling [of c "MaxPersistedIDSuffix ro so ao s" bumps]
  by (auto simp: seedIDCounterFromDispatchStore_def Let_def)

text \<open>
  Minted ids are fresh: after the id counter is seeded from the store, whatever other
  goroutines add to it meanwhile, the next id is carried by no record, run-stop state or
  activation of the store, and its numeric suffix reads back as the counter.
\<close>

theorem minted_ids_fresh:
  assumes "dom (s_records s) \<subseteq> set ro" and "dom (s_runStop s) \<subseteq> set so" and "dom (s_activation s) \<subseteq> set ao"
    and "0 \<le> c" and "c' = seedIDCounterFromDispatchStore bumps ro so ao s c" and "0 \<le> c'" and "c' < max_int64"
    and "nextID prefix c' = (i, c2)"
  shows "(\<forall>k r. s_records s k = Some r \<longrightarrow> d_TurnID r \<noteq> i \<and> d_RunID r \<noteq> i) \<and>
    s_runStop s i = None \<and> s_activation s i = None \<and> numericIDSuffix i = c2"
proof -
  have c2: "c2 = c' + 1" and i: "i = prefix @ ''-'' @ fmt_d (c' + 1)"
    using assms(6-8) inc64_less_max [of c'] by (auto simp: nextID_def in_int64_def max_int64_def)
  have "numericIDSuffix i = c' + 1"
    unfolding i using assms(6,7) by (intro suffix_roundtrip) (auto simp: in_int64_def max_int64_def)
  then have n: "MaxPersistedIDSuffix ro so ao s < numericIDSuffix i" "numericIDSuffix i = c2"
    using seeded_ceiling [OF assms(4), of ro so ao s bumps] assms(5) c2 by auto
  have "d_TurnID r \<noteq> i \<and> d_RunID r \<noteq> i" if "s_records s k = Some r" for k r
    using ceiling_covers [OF that, of ro so ao] assms(1) that n(1) by fastforce
  moreover have "s_runStop s i = None" "s_activation s i = None"
    using ceiling_covers_run [of i so ao ro s] assms(2,3) n(1) by force+
  ultimately show ?thesis using n(2) by blast
qed

section \<open>The boot pass\<close>

lemma boot_waits:
  assumes "bootAttempts pass jitter cancelled woken left n backoff s = (e, ws, s')" and "0 < backoff"
    and "\<And>i x. 0 < x \<Longrightarrow> 0 \<le> jitter i x"
  shows "length ws \<le> left - 1 \<and> (\<forall>x \<in> set ws. min backoff dispatchRecoveryRetryCap \<le> x \<and> x \<le> dispatchRecoveryRetryCap)"
  using assms(1,2)
proof (induction left arbitrary: n backoff s e ws s')
  case 0
  then show ?case by simp
next
  case (Suc left)
  have j: "0 \<le> jitter n (backoff div 4 + 1)" using Suc.prems(2) by (intro assms(3)) simp
  obtain p s1 where p: "pass n s = (p, s1)" by fastforce
  obtain r ws1 s2 where c: "bootAttempts pass jitter cancelled woken left (Suc n) (backoff * 2) s1 = (r, ws1, s2)"
    by (metis prod_cases3)
  have ih: "length ws1 \<le> left - 1 \<and>
      (\<forall>x \<in> set ws1. min (backoff * 2) dispatchRecoveryRetryCap \<le> x \<and> x \<le> dispatchRecoveryRetryCap)"
    by (rule Suc.IH [OF c]) (use Suc.prems(2) in simp)
  have "min backoff dispatchRecoveryRetryCap \<le> x" if "x \<in> set ws1" for x
    using ih that Suc.prems(2) by (fastforce simp: min_def split: if_splits)
  with ih Suc.prems p c j show ?case
    by (cases left) (auto simp: Let_def min_def split: option.splits if_splits)
qed

lemma boot_success:
  assumes "i < left" and "\<And>k t. k < i \<Longrightarrow> \<not> cancelled (n + k) \<and> woken (n + k)"
    and "\<And>t. \<exists>u. pass (n + i) t = (None, u)"
  shows "fst (bootAttempts pass jitter cancelled woken left n backoff s) = None"
  using assms
proof (induction i arbitrary: left n backoff s)
  case 0
  then obtain l where "left = Suc l" by (cases left) auto
  with 0 show ?case by (metis (no_types, lifting) add_0_right bootAttempts.simps(2) case_prod_conv fst_conv option.simps(4))
next
  case (Suc i)
  then obtain l where l: "left = Suc l" "i < l" by (cases left) auto
  obtain p s1 where p: "pass n s = (p, s1)" by fastforce
  have "fst (bootAttempts pass jitter cancelled woken l (Suc n) (backoff * 2) s1) = None"
  proof (rule Suc.IH [OF l(2)])
    show "\<not> cancelled (Suc n + k) \<and> woken (Suc n + k)" if "k < i" for k
      using Suc.prems(2) [of "Suc k"] that by simp
    show "\<exists>u. pass (Suc n + i) t = (None, u)" for t using Suc.prems(3) by simp
  qed
  moreover have "\<not> cancelled n \<and> woken n" using Suc.prems(2) [of 0] by simp
  ultimately show ?case using p l by (auto simp: Let_def split: option.splits prod.splits)
qed

text \<open>
  The recovery pass at boot is bounded: it waits at most seven times, each time between
  half a second and thirty seconds, and it ends without an error if one of the eight attempts it
  may make succeeds and the context is not cancelled before.
\<close>

theorem boot_recovery_bounded:
  assumes "ScanDispatchRecoveryOnBoot False pass jitter cancelled woken s = (e, ws, s')"
    and "\<And>i x. 0 < x \<Longrightarrow> 0 \<le> jitter i x"
  shows "length ws < dispatchRecoveryMaxAttempts \<and>
    (\<forall>x \<in> set ws. dispatchRecoveryRetryBase \<le> x \<and> x \<le> dispatchRecoveryRetryCap) \<and>
    ((\<exists>i < dispatchRecoveryMaxAttempts. (\<forall>t. \<exists>u. pass (Suc i) t = (None, u)) \<and>
        (\<forall>k < i. \<not> cancelled (Suc k) \<and> woken (Suc k))) \<longrightarrow> e = None)"
proof -
  have b: "bootAttempts pass jitter cancelled woken dispatchRecoveryMaxAttempts 1 dispatchRecoveryRetryBase s = (e, ws, s')"
    using assms(1) by (simp add: ScanDispatchRecoveryOnBoot_def)
  have "e = None" if "i < dispatchRecoveryMaxAttempts" "\<forall>t. \<exists>u. pass (Suc i) t = (None, u)"
    "\<forall>k < i. \<not> cancelled (Suc k) \<and> woken (Suc k)" for i
    using boot_success [of i dispatchRecoveryMaxAttempts cancelled 1 woken pass jitter dispatchRecoveryRetryBase s] b that
    by simp
  moreover have "length ws < dispatchRecoveryMaxAttempts \<and>
      (\<forall>x \<in> set ws. dispatchRecoveryRetryBase \<le> x \<and> x \<le> dispatchRecoveryRetryCap)"
    using boot_waits [OF b _ assms(2)]
    by (auto simp: dispatchRecoveryRetryBase_def dispatchRecoveryMaxAttempts_def dispatchRecoveryRetryCap_def)
  ultimately show ?thesis by blast
qed

section \<open>Witnesses\<close>

definition demo_env :: "string \<Rightarrow> string" where
  "demo_env name = ''''"

definition demo_run :: interactiveRun where
  "demo_run = zeroRun\<lparr>ir_id := ''run-1''\<rparr>"

definition demo_active :: "unit memoryDispatchStore" where
  "demo_active = (demo_stored demo_claimed)\<lparr>s_activation := [''run-1'' \<mapsto> 2]\<rparr>"

lemma demo_run_simps [simp]: "ir_id demo_run = ''run-1''" "dispatchByTurn demo_run t = None"
  by (simp_all add: demo_run_def zeroRun_def dispatchByTurn_def)

lemma demo_active_simps [simp]:
  "s_records demo_active = [demo_key \<mapsto> demo_claimed]" "s_runStop demo_active = Map.empty"
  "s_afterCommit demo_active = None" "GetRunProtocolVersion demo_active ''run-1'' = 2"
  by (simp_all add: demo_active_def GetRunProtocolVersion_def)

lemma keeps_quiet [simp]: "keeps_stop x quiet"
  by (simp add: keeps_stop_def quiet_def)

lemma demo_env_on [simp]: "DispatchV2EnvEnabled demo_env"
  by (simp add: DispatchV2EnvEnabled_def demo_env_def TrimSpace_def)

lemma demo_requested:
  "\<exists>s' r. requestRunStopV2 demo_lib quiet [] (Some demo_active) ''run-1'' = (None, Some s') \<and>
     s_records s' demo_key = Some r \<and> unsent r"
proof -
  obtain s2 where s2: "RequestRunStop demo_active ''run-1'' 1 StopReasonUser =
      (\<lparr>rs_RunID = ''run-1'', rs_Generation = 1, rs_Revision = 2, rs_Stopped = True\<rparr>, None, s2)"
      "s_records s2 = [demo_key \<mapsto> demo_claimed]"
    by (simp add: RequestRunStop_def ensure_stop commitRunStop_def initialStop_def inc64_def wrap64_def
        ensureActivationLocked_def Let_def demo_active_def)
  have "requestRunStopV2 demo_lib quiet [] (Some demo_active) ''run-1'' = (None, Some s2)"
    by (simp add: requestRunStopV2_def requestStopReloading_def GetRunStopState_def s2 Let_def
        ListRecoverable_def range_over_def map_filter_simps DispatchProtocolV2_def)
  with s2 show ?thesis by (simp add: unsent_def)
qed

theorem stop_then_no_send_witness:
  "\<exists>s'. requestRunStopV2 demo_lib quiet [] (Some demo_active) ''run-1'' = (None, Some s') \<and> run_stopped s' ''run-1'' \<and>
     fst (fst (linearizeSendStarted demo_lib demo_env quiet (Some (after_ops demo_lib [] s')) demo_run ''turn-1'')) = False"
proof -
  obtain s' r where s': "requestRunStopV2 demo_lib quiet [] (Some demo_active) ''run-1'' = (None, Some s')"
    "s_records s' (recKey ''run-1'' ''turn-1'') = Some r" "unsent r" using demo_requested by auto
  have "run_stopped s' ''run-1'' \<and>
     fst (fst (linearizeSendStarted demo_lib demo_env quiet (Some (after_ops demo_lib [] s')) demo_run ''turn-1'')) = False"
    by (rule stop_then_no_send [OF s'(1) _ _ _ _ _ _ _ s'(2,3)])
      (simp_all add: nul_free_def NUL_def DispatchProtocolV2_def)
  with s'(1) show ?thesis by blast
qed


theorem stopped_claim_cancels_witness:
  "\<exists>s' r'. linearizeSendStarted demo_lib demo_env quiet (Some demo_stopped) demo_run ''turn-1'' = ((False, False), Some s', demo_run) \<and>
     s_records s' demo_key = Some r' \<and> d_State r' = DispatchTerminalCancelled \<and>
     d_StopOutcome r' = StopOutcomeStoppedBeforeSend \<and> d_CancelRequested r'"
  using stopped_claim_cancels [of demo_stopped demo_run "''turn-1''" demo_claimed demo_env demo_lib]
  by (simp add: demo_stopped_def run_stopped_def dispatchV2ActiveForRun_def writes_succeed_def)

theorem terminal_retry_converges_witness:
  "\<exists>en s' rso'. retryTerminalCommit demo_lib quiet (demo_stored (demo_claimed\<lparr>d_State := DispatchSendStarted\<rparr>)) None
      ''run-1'' ''turn-1'' \<lparr>te_ProviderKey = '''', te_EvidenceKind = '''', te_Outcome = ''completed'', te_ReceiptIdentity = '''',
        te_PayloadCanonicalJSON = '''', te_PayloadSHA256 = '''', te_ObservedAt = TEmpty\<rparr> = Some (en, s', rso') \<and>
    has_terminal s' (recKey ''run-1'' ''turn-1'')"
  by (rule terminal_retry_converges [where j = 0 and p = "(DispatchTerminalCompleted, ''completed'')"])
    (simp_all add: writes_succeed_def sent_later_def terminalStateFromProof_def TrimSpace_def dispatchCommitMaxAttempts_def
      quiet_def is_prefix_def go_spaces_def Let_def lower_char_def less_eq_char_def)

theorem minted_ids_fresh_witness:
  "numericIDSuffix (''turn'' @ ''-'' @ fmt_d 2) = 2"
proof -
  have n: "nextID ''turn'' 1 = (''turn'' @ ''-'' @ fmt_d 2, 2)" by (simp add: nextID_def inc64_def wrap64_def)
  have c: "1 = seedIDCounterFromDispatchStore [] [] [] [] demo_new 1"
    by (simp add: seedIDCounterFromDispatchStore_def MaxPersistedIDSuffix_def range_over_def map_filter_simps Let_def)
  have "numericIDSuffix (fst (''turn'' @ ''-'' @ fmt_d 2, 2 :: int64)) = 2"
    using minted_ids_fresh [OF _ _ _ _ c _ _ n]
    by (simp add: max_int64_def demo_new_def newMemoryDispatchStore_def)
  then show ?thesis by simp
qed

definition demo_pass :: "nat \<Rightarrow> unit \<Rightarrow> error option \<times> unit" where
  "demo_pass n u = (if n = 1 then Some ErrNotFound else None, u)"

theorem boot_recovery_bounded_witness:
  "length (fst (snd (ScanDispatchRecoveryOnBoot False demo_pass (\<lambda>n x. 0) (\<lambda>n. False) (\<lambda>n. True) ()))) < dispatchRecoveryMaxAttempts
   \<and> fst (ScanDispatchRecoveryOnBoot False demo_pass (\<lambda>n x. 0) (\<lambda>n. False) (\<lambda>n. True) ()) = None"
proof -
  obtain e ws u where b: "ScanDispatchRecoveryOnBoot False demo_pass (\<lambda>n x. 0) (\<lambda>n. False) (\<lambda>n. True) () = (e, ws, u)"
    by (rule prod_cases3)
  have p: "\<forall>t. \<exists>u. demo_pass (Suc 1) t = (None, u)" by (simp add: demo_pass_def)
  note w = boot_recovery_bounded [OF b]
  have "e = None" using w p by (auto simp: dispatchRecoveryMaxAttempts_def)
  with w b show ?thesis by simp
qed

end
