(* ===== verification/Settle_Wire.thy ===== *)
theory Settle_Wire
  imports Live_Safety
begin

text \<open>
  The production wiring of settlement (\<open>runner/dispatch_settle_wire.go\<close>, and
  \<open>driveOwedSettleRecords\<close> of \<open>runner/dispatch_live.go\<close>): the gate the settle driver asks, the
  release of residue that a finished turn left on its run, and the sweep that gives every owed
  settlement a driver. Goroutines the code starts are listed as actions.
\<close>

section \<open>The service\<close>

text \<open>
  The live runs, how a persisted run is reconstructed (\<open>loadPersistedRun\<close>, \<open>None\<close> when it
  fails), the status of a run's orchestration loop, and the settle drives in flight.
\<close>

record liveService =
  sv_runs :: "string \<rightharpoonup> interactiveRun"
  sv_load :: "string \<Rightarrow> interactiveRun option"
  sv_loopStatus :: "string \<Rightarrow> string"
  sv_settleQueued :: "string set"

datatype settle_action = ResumeGate string | StartSettle string string | PersistRun string | NotifyIdle string

definition RunStatusCompleted :: string where
  "RunStatusCompleted = ''completed''"

definition postTurnGateBusyBound :: time where
  "postTurnGateBusyBound = 6 * 60 * 1000000000"

definition gateCancelLive :: "time \<Rightarrow> time option \<Rightarrow> bool \<Rightarrow> bool" where
  "gateCancelLive now startedAt cancel =
     (if \<not> cancel then False
      else case startedAt of None \<Rightarrow> True | Some t \<Rightarrow> now - t < postTurnGateBusyBound)"

definition flowLoopDone :: "liveService \<Rightarrow> string \<Rightarrow> bool" where
  "flowLoopDone sv runID \<longleftrightarrow> TrimSpace (sv_loopStatus sv runID) = ''done''"

text \<open>Whether the residue was released, and the run after it. \<open>gateBusy\<close> is read once, at the start.\<close>

definition unstickSettleResidueLocked :: "time \<Rightarrow> interactiveRun \<Rightarrow> string \<Rightarrow> bool \<times> interactiveRun" where
  "unstickSettleResidueLocked now rs turnID =
     (let gateBusy = gateCancelLive now (ir_postTurnGateStartedAt rs) (ir_postTurnGateCancel rs);
          a = ir_postTurnGateCancel rs \<and> \<not> gateBusy;
          rs1 = (if a then rs\<lparr>ir_gateEpoch := inc64 (ir_gateEpoch rs), ir_postTurnGateCancel := False\<rparr> else rs);
          b = (ir_gateClaimID rs1 \<noteq> '''' \<and> \<not> gateBusy);
          rs2 = (if b then rs1\<lparr>ir_gateClaimID := ''''\<rparr> else rs1);
          c = (\<not> gateBusy \<and> ir_turnInFlight rs2 \<and>
               (ir_currentTurnID rs2 = turnID \<or> (ir_currentTurnID rs2 = '''' \<and> ir_lastTurnID rs2 = turnID)));
          rs3 = (if c then rs2\<lparr>ir_turnInFlight := False\<rparr> else rs2)
      in (a \<or> b \<or> c, rs3))"

section \<open>The gate of the production driver\<close>

fun priorGate :: "EffectDone list \<Rightarrow> (bool \<times> bool) option" where
  "priorGate [] = None"
| "priorGate (e # es) =
     (if ef_EffectKind e \<noteq> ''gate_eval'' then priorGate es
      else if Contains (ef_Payload e) ''\"allow\":true'' then Some (True, False)
      else if Contains (ef_Payload e) ''\"reprompt\":true'' \<or> Contains (ef_Payload e) ''\"allow\":false''
        then Some (False, True)
      else priorGate es)"

definition errSettleGatePending :: error where
  "errSettleGatePending = ErrGate ''settle: gate still pending''"

definition errNoRunState :: error where
  "errNoRunState = ErrGate ''settle: no run state for gate eval''"

text \<open>Bring a run into memory when it is not there.\<close>

definition ensureLive :: "liveService \<Rightarrow> string \<Rightarrow> liveService" where
  "ensureLive sv runID =
     (if sv_runs sv runID \<noteq> None then sv
      else case sv_load sv runID of
        None \<Rightarrow> sv | Some rs \<Rightarrow> sv\<lparr>sv_runs := (sv_runs sv)(runID \<mapsto> rs)\<rparr>)"

text \<open>The decision (allow, reprompt) or error, the actions, and the service.\<close>

definition evaluateSettleGate ::
  "string list \<Rightarrow> liveService \<Rightarrow> 'd memoryDispatchStore \<Rightarrow> string \<Rightarrow> string \<Rightarrow>
   (error + (bool \<times> bool)) \<times> settle_action list \<times> liveService" where
  "evaluateSettleGate order sv s runID turnID =
     (case priorGate (ListEffects order s runID turnID) of
        Some d \<Rightarrow> (Inr d, [], sv)
      | None \<Rightarrow>
          let sv1 = ensureLive sv runID in
          (case sv_runs sv1 runID of
             Some rs \<Rightarrow>
               let loopDone = flowLoopDone sv1 runID in
               if ir_pendingFlowGateSettle rs \<and> \<not> loopDone
                 then (Inl errSettleGatePending, [ResumeGate runID], sv1)
               else if TrimSpace (ir_pendingGateRepromptPrompt rs) \<noteq> '''' then (Inr (False, True), [], sv1)
               else if ir_status rs = RunStatusCompleted \<or> loopDone then (Inr (True, False), [], sv1)
               else (Inr (True, False), [], sv1)
           | None \<Rightarrow>
               (case Get s runID turnID of
                  Inl e \<Rightarrow> (Inl e, [], sv1)
                | Inr rec \<Rightarrow>
                    if d_State rec = DispatchTerminalCancelled then (Inr (True, False), [], sv1)
                    else (Inl errNoRunState, [], sv1))))"

text \<open>The driver of \<open>newSettleDriver\<close>, with the gate evaluated on the store as it is.\<close>

definition newSettleDriver :: "string list \<Rightarrow> liveService \<Rightarrow> 'd memoryDispatchStore \<Rightarrow> SettleDriver" where
  "newSettleDriver order sv s =
     \<lparr>sd_EvaluateGate = Some (\<lambda>attempt runID turnID. fst (evaluateSettleGate order sv s runID turnID)),
      sd_BuildEffect = None\<rparr>"

definition gateBlockDriver :: SettleDriver where
  "gateBlockDriver = \<lparr>sd_EvaluateGate = Some (\<lambda>attempt runID turnID. Inr (False, True)), sd_BuildEffect = None\<rparr>"

definition scheduleSettleAfterGateBlock ::
  "golib \<Rightarrow> payload_json \<Rightarrow> 'd memoryDispatchStore \<Rightarrow> string \<Rightarrow> string \<Rightarrow>
   (error option \<times> bool \<times> 'd memoryDispatchStore) option" where
  "scheduleSettleAfterGateBlock L J s runID turnID =
     (if TrimSpace turnID = '''' then Some (None, False, s)
      else DriveSettle settle_fuel L J gateBlockDriver 0 s runID turnID)"

section \<open>Scheduling\<close>

definition settleKey :: "string \<Rightarrow> string \<Rightarrow> string" where
  "settleKey runID turnID = runID @ ''/'' @ turnID"

definition scheduleSettleDrive :: "liveService \<Rightarrow> string \<Rightarrow> string \<Rightarrow> settle_action list \<times> liveService" where
  "scheduleSettleDrive sv runID turnID =
     (if TrimSpace runID = '''' \<or> TrimSpace turnID = '''' then ([], sv)
      else if settleKey runID turnID \<in> sv_settleQueued sv then ([], sv)
      else ([StartSettle runID turnID], sv\<lparr>sv_settleQueued := insert (settleKey runID turnID) (sv_settleQueued sv)\<rparr>))"

definition scheduleSettleAfterGatePass :: "liveService \<Rightarrow> string \<Rightarrow> string \<Rightarrow> settle_action list \<times> liveService" where
  "scheduleSettleAfterGatePass sv runID turnID =
     (if TrimSpace turnID = '''' then ([], sv) else scheduleSettleDrive sv runID turnID)"

definition maybeScheduleSettleAfterTerminal ::
  "liveService \<Rightarrow> 'd memoryDispatchStore \<Rightarrow> string \<Rightarrow> string \<Rightarrow> settle_action list \<times> liveService" where
  "maybeScheduleSettleAfterTerminal sv s runID turnID =
     (case Get s runID turnID of
        Inl e \<Rightarrow> ([], sv)
      | Inr rec \<Rightarrow>
          if \<not> d_SettleOwed rec \<or> IsSettleFinal (d_SettlePhase rec) then ([], sv)
          else if (case sv_runs sv runID of None \<Rightarrow> False | Some rs \<Rightarrow> ir_pendingFlowGateSettle rs) \<and>
                  \<not> flowLoopDone sv runID then ([], sv)
          else scheduleSettleDrive sv runID turnID)"

definition owes_settle :: "DispatchRecord \<Rightarrow> bool" where
  "owes_settle r \<longleftrightarrow> IsTerminal (d_State r) \<and> d_SettleOwed r \<and> \<not> IsSettleFinal (d_SettlePhase r)"

definition driveOwedRecord ::
  "time \<Rightarrow> liveService \<Rightarrow> DispatchRecord \<Rightarrow> settle_action list \<times> liveService" where
  "driveOwedRecord now sv rec =
     (let runID = d_RunID rec; sv1 = ensureLive sv runID in
      case sv_runs sv1 runID of
        None \<Rightarrow> scheduleSettleDrive sv1 runID (d_TurnID rec)
      | Some rs \<Rightarrow>
          (case unstickSettleResidueLocked now rs (d_TurnID rec) of
             (released, rs1) \<Rightarrow>
               let sv2 = sv1\<lparr>sv_runs := (sv_runs sv1)(runID \<mapsto> rs1)\<rparr>;
                   freed = (if released then [PersistRun runID, NotifyIdle runID] else [])
               in if ir_pendingFlowGateSettle rs1
                  then (if gateCancelLive now (ir_postTurnGateStartedAt rs1) (ir_postTurnGateCancel rs1)
                        then (freed, sv2) else (freed @ [ResumeGate runID], sv2))
                  else (case scheduleSettleDrive sv2 runID (d_TurnID rec) of (acts, sv3) \<Rightarrow> (freed @ acts, sv3))))"

fun driveOwedSettleRecords ::
  "time \<Rightarrow> DispatchRecord list \<Rightarrow> liveService \<Rightarrow> nat \<times> settle_action list \<times> liveService" where
  "driveOwedSettleRecords now [] sv = (0, [], sv)"
| "driveOwedSettleRecords now (rec # rs) sv =
     (if \<not> IsTerminal (d_State rec) \<or> \<not> d_SettleOwed rec \<or> IsSettleFinal (d_SettlePhase rec)
      then driveOwedSettleRecords now rs sv
      else case driveOwedRecord now sv rec of
        (acts, sv1) \<Rightarrow>
          (case driveOwedSettleRecords now rs sv1 of (n, acts2, sv2) \<Rightarrow> (Suc n, acts @ acts2, sv2)))"

definition driveOwedSettles ::
  "golib \<Rightarrow> ('d memoryDispatchStore \<Rightarrow> string list) \<Rightarrow> time \<Rightarrow> 'd memoryDispatchStore \<Rightarrow> liveService \<Rightarrow> nat \<times> settle_action list \<times> liveService" where
  "driveOwedSettles L order now s sv = driveOwedSettleRecords now (ListRecoverable L (order s) s '''') sv"

text \<open>One recovery pass: the scan, then the settle drive; the first failure is the pass's.\<close>

definition dispatchRecoveryPass ::
  "golib \<Rightarrow> ('d memoryDispatchStore \<Rightarrow> string list) \<Rightarrow> time \<Rightarrow> 'd RecoveryScanner \<Rightarrow> 'd memoryDispatchStore \<Rightarrow> liveService \<Rightarrow>
   error option \<times> settle_action list \<times> 'd memoryDispatchStore \<times> liveService" where
  "dispatchRecoveryPass L order now sc s sv =
     (case ScanAllRecoverable L order sc s of
        (e, s1) \<Rightarrow>
          (case driveOwedSettles L order now s1 sv of (n, acts, sv1) \<Rightarrow> (e, acts, s1, sv1)))"

section \<open>The sweep\<close>

text \<open>What the sweep arranges for a record: a drive in flight, a gate resumed, or a live gate that owns it.\<close>

definition gate_owns :: "time \<Rightarrow> liveService \<Rightarrow> string \<Rightarrow> bool" where
  "gate_owns now sv runID \<longleftrightarrow>
     (\<exists>rs. sv_runs sv runID = Some rs \<and> ir_pendingFlowGateSettle rs \<and>
        gateCancelLive now (ir_postTurnGateStartedAt rs) (ir_postTurnGateCancel rs))"

definition driven :: "time \<Rightarrow> settle_action list \<Rightarrow> liveService \<Rightarrow> DispatchRecord \<Rightarrow> bool" where
  "driven now acts sv r \<longleftrightarrow>
     ResumeGate (d_RunID r) \<in> set acts \<or> settleKey (d_RunID r) (d_TurnID r) \<in> sv_settleQueued sv \<or> gate_owns now sv (d_RunID r)"

definition starts :: "settle_action list \<Rightarrow> string set" where
  "starts acts = {settleKey a b |a b. StartSettle a b \<in> set acts}"

lemma starts_append [simp]: "starts (xs @ ys) = starts xs \<union> starts ys"
  by (auto simp: starts_def)

lemma starts_freed [simp]: "starts [] = {}" "starts [PersistRun a, NotifyIdle b] = {}" "starts [ResumeGate c] = {}"
  "starts (PersistRun a # NotifyIdle b # acts) = starts acts"
  by (auto simp: starts_def)

lemma unstick_busy:
  "gateCancelLive now (ir_postTurnGateStartedAt rs) (ir_postTurnGateCancel rs) \<Longrightarrow>
   unstickSettleResidueLocked now rs t = (False, rs)"
  by (simp add: unstickSettleResidueLocked_def Let_def)

lemma schedule_queues:
  assumes "scheduleSettleDrive sv x t = (acts, sv')"
  shows "sv_runs sv' = sv_runs sv \<and> sv_settleQueued sv \<subseteq> sv_settleQueued sv' \<and>
    (TrimSpace x \<noteq> '''' \<longrightarrow> TrimSpace t \<noteq> '''' \<longrightarrow> settleKey x t \<in> sv_settleQueued sv') \<and>
    sv_settleQueued sv' \<subseteq> sv_settleQueued sv \<union> starts acts"
  using assms by (auto simp: scheduleSettleDrive_def starts_def split: if_splits)

lemma ensureLive_frame [simp]: "sv_settleQueued (ensureLive sv x) = sv_settleQueued sv"
  by (simp add: ensureLive_def split: option.split)

lemma ensureLive_owns: "gate_owns now sv y \<Longrightarrow> gate_owns now (ensureLive sv x) y"
  by (auto simp: gate_owns_def ensureLive_def split: option.split)

lemma owns_update:
  assumes "gate_owns now sv y" and "sv_runs sv x = Some rs" and "unstickSettleResidueLocked now rs t = (b, rs1)"
    and "sv_runs sv' = (sv_runs sv)(x \<mapsto> rs1)"
  shows "gate_owns now sv' y"
  using assms unstick_busy [of now rs t] by (auto simp: gate_owns_def)

lemma owed_driven:
  assumes "driveOwedRecord now sv r = (acts, sv')" and "TrimSpace (d_RunID r) \<noteq> ''''" and "TrimSpace (d_TurnID r) \<noteq> ''''"
  shows "driven now acts sv' r"
proof -
  define sv1 where "sv1 = ensureLive sv (d_RunID r)"
  show ?thesis
  proof (cases "sv_runs sv1 (d_RunID r)")
    case None
    with assms(1) have "scheduleSettleDrive sv1 (d_RunID r) (d_TurnID r) = (acts, sv')"
      by (simp add: driveOwedRecord_def sv1_def Let_def)
    from schedule_queues [OF this] assms(2,3) show ?thesis by (simp add: driven_def)
  next
    case (Some rs)
    obtain b rs1 where u: "unstickSettleResidueLocked now rs (d_TurnID r) = (b, rs1)" by fastforce
    define sv2 where "sv2 = sv1\<lparr>sv_runs := (sv_runs sv1)(d_RunID r \<mapsto> rs1)\<rparr>"
    obtain acts3 sv3 where s: "scheduleSettleDrive sv2 (d_RunID r) (d_TurnID r) = (acts3, sv3)" by fastforce
    from schedule_queues [OF s] assms(2,3) have q: "settleKey (d_RunID r) (d_TurnID r) \<in> sv_settleQueued sv3" by simp
    from assms(1) Some u s q show ?thesis
      by (auto simp: driveOwedRecord_def sv1_def [symmetric] sv2_def [symmetric] Let_def driven_def split: if_splits)
        (auto simp: sv2_def gate_owns_def)
  qed
qed

lemma owed_keeps:
  assumes "driveOwedRecord now sv r = (acts, sv')"
  shows "sv_settleQueued sv \<subseteq> sv_settleQueued sv'" and "gate_owns now sv y \<Longrightarrow> gate_owns now sv' y"
    and "sv_settleQueued sv' \<subseteq> sv_settleQueued sv \<union> starts acts"
proof -
  define sv1 where "sv1 = ensureLive sv (d_RunID r)"
  have "sv_settleQueued sv \<subseteq> sv_settleQueued sv' \<and> (gate_owns now sv1 y \<longrightarrow> gate_owns now sv' y) \<and>
    sv_settleQueued sv' \<subseteq> sv_settleQueued sv \<union> starts acts"
  proof (cases "sv_runs sv1 (d_RunID r)")
    case None
    with assms(1) have "scheduleSettleDrive sv1 (d_RunID r) (d_TurnID r) = (acts, sv')"
      by (simp add: driveOwedRecord_def sv1_def Let_def)
    from schedule_queues [OF this] show ?thesis by (auto simp: gate_owns_def sv1_def)
  next
    case (Some rs)
    obtain b rs1 where u: "unstickSettleResidueLocked now rs (d_TurnID r) = (b, rs1)" by fastforce
    define sv2 where "sv2 = sv1\<lparr>sv_runs := (sv_runs sv1)(d_RunID r \<mapsto> rs1)\<rparr>"
    obtain acts3 sv3 where s: "scheduleSettleDrive sv2 (d_RunID r) (d_TurnID r) = (acts3, sv3)" by fastforce
    note q = schedule_queues [OF s]
    have "gate_owns now sv1 y \<longrightarrow> gate_owns now sv2 y \<and> gate_owns now sv3 y"
      using owns_update [OF _ Some u, of y] q by (auto simp: sv2_def)
    moreover have "sv_settleQueued sv2 = sv_settleQueued sv" by (simp add: sv2_def sv1_def)
    moreover have "sv' = sv2 \<or> sv' = sv3 \<and> starts acts3 \<subseteq> starts acts"
      using assms(1) Some u s
      by (auto simp: driveOwedRecord_def sv1_def [symmetric] sv2_def [symmetric] Let_def split: if_splits)
    ultimately show ?thesis using q by auto
  qed
  then show "sv_settleQueued sv \<subseteq> sv_settleQueued sv'" and "gate_owns now sv y \<Longrightarrow> gate_owns now sv' y"
    and "sv_settleQueued sv' \<subseteq> sv_settleQueued sv \<union> starts acts"
    using ensureLive_owns by (auto simp: sv1_def)
qed

lemma sweep_drives:
  assumes "driveOwedSettleRecords now rs sv = (n, acts, sv')" and "r \<in> set rs" and "owes_settle r"
    and "TrimSpace (d_RunID r) \<noteq> ''''" and "TrimSpace (d_TurnID r) \<noteq> ''''"
  shows "driven now acts sv' r"
  using assms(1,2)
proof (induction rs arbitrary: sv n acts sv')
  case (Cons r0 rs)
  show ?case
  proof (cases "owes_settle r0")
    case False
    with assms(3) have "r0 \<noteq> r" by auto
    with Cons False show ?thesis by (auto simp: owes_settle_def)
  next
    case True
    obtain a1 sv1 where o: "driveOwedRecord now sv r0 = (a1, sv1)" by fastforce
    obtain m a2 sv2 where d: "driveOwedSettleRecords now rs sv1 = (m, a2, sv2)" by (metis prod_cases3)
    have eq: "acts = a1 @ a2" "sv' = sv2" using Cons.prems(1) True o d by (simp_all add: owes_settle_def)
    show ?thesis
    proof (cases "r = r0")
      case False
      with Cons.IH [OF d] Cons.prems(2) eq show ?thesis by (auto simp: driven_def)
    next
      case True
      have keep: "sv_settleQueued sv1 \<subseteq> sv_settleQueued sv2 \<and> (gate_owns now sv1 (d_RunID r) \<longrightarrow> gate_owns now sv2 (d_RunID r))"
        if "driveOwedSettleRecords now rs sv1 = (m, a2, sv2)" for rs sv1 m a2 sv2
        using that
      proof (induction rs arbitrary: sv1 m a2 sv2)
        case (Cons r1 rs)
        obtain b1 sv3 where o1: "driveOwedRecord now sv1 r1 = (b1, sv3)" by fastforce
        obtain k b2 sv4 where d1: "driveOwedSettleRecords now rs sv3 = (k, b2, sv4)" by (metis prod_cases3)
        show ?case
          using Cons.prems Cons.IH [of sv3] Cons.IH [of sv1] owed_keeps [OF o1] o1 d1 by (auto split: if_splits)
      qed simp
      from owed_driven [OF o [folded True] assms(4,5)] keep [OF d] eq True show ?thesis by (auto simp: driven_def)
    qed
  qed
qed simp

lemma sweep_starts:
  "driveOwedSettleRecords now rs sv = (n, acts, sv') \<Longrightarrow>
   sv_settleQueued sv' \<subseteq> sv_settleQueued sv \<union> starts acts"
proof (induction rs arbitrary: sv n acts sv')
  case (Cons r0 rs)
  obtain a1 sv1 where o: "driveOwedRecord now sv r0 = (a1, sv1)" by fastforce
  obtain m a2 sv2 where d: "driveOwedSettleRecords now rs sv1 = (m, a2, sv2)" by (metis prod_cases3)
  show ?case
  proof (cases "owes_settle r0")
    case False
    with Cons show ?thesis by (simp add: owes_settle_def)
  next
    case True
    then have "acts = a1 @ a2" "sv' = sv2" using Cons.prems o d by (simp_all add: owes_settle_def)
    with Cons.IH [OF d] owed_keeps(3) [OF o] show ?thesis by auto
  qed
qed simp

lemma owed_listed:
  "s_records s k = Some r \<Longrightarrow> k \<in> set order \<Longrightarrow> owes_settle r \<Longrightarrow> r \<in> set (ListRecoverable L order s '''')"
  by (auto simp: ListRecoverable_def range_over_def map_filter_def recoverable_def owes_settle_def image_iff intro!: bexI [of _ k])

text \<open>
  C16: No owed settlement is forgotten: after the sweep, for every terminal record of the store
  that owes its settlement, the gate of its run is being resumed, a live gate evaluation owns
  it, or a settle drive under its key was in flight before or has been started.
\<close>

theorem owed_settles_all_driven:
  assumes "driveOwedSettles L order now s sv = (n, acts, sv')" and "dom (s_records s) \<subseteq> set (order s)"
    and "s_records s k = Some r" and "owes_settle r" and "TrimSpace (d_RunID r) \<noteq> ''''" and "TrimSpace (d_TurnID r) \<noteq> ''''"
  shows "ResumeGate (d_RunID r) \<in> set acts \<or> gate_owns now sv' (d_RunID r) \<or>
    settleKey (d_RunID r) (d_TurnID r) \<in> sv_settleQueued sv \<or>
    (\<exists>a b. StartSettle a b \<in> set acts \<and> settleKey a b = settleKey (d_RunID r) (d_TurnID r))"
proof -
  have "r \<in> set (ListRecoverable L (order s) s '''')" using owed_listed assms(2-4) by blast
  from sweep_drives [OF assms(1) [unfolded driveOwedSettles_def] this assms(4-6)]
    sweep_starts [OF assms(1) [unfolded driveOwedSettles_def]]
  show ?thesis unfolding driven_def starts_def subset_iff Un_iff mem_Collect_eq by metis
qed

section \<open>The gate\<close>

definition gate_open :: "string list \<Rightarrow> liveService \<Rightarrow> 'd memoryDispatchStore \<Rightarrow> DispatchRecord \<Rightarrow> bool" where
  "gate_open order sv s r \<longleftrightarrow>
     (case priorGate (ListEffects order s (d_RunID r) (d_TurnID r)) of
        Some d \<Rightarrow> d = (True, False)
      | None \<Rightarrow>
          (case sv_runs (ensureLive sv (d_RunID r)) (d_RunID r) of
             Some rs \<Rightarrow> (ir_pendingFlowGateSettle rs \<longrightarrow> flowLoopDone sv (d_RunID r)) \<and>
                        TrimSpace (ir_pendingGateRepromptPrompt rs) = ''''
           | None \<Rightarrow> d_State r = DispatchTerminalCancelled))"

lemma flowLoopDone_live [simp]: "flowLoopDone (ensureLive sv x) y = flowLoopDone sv y"
  by (simp add: flowLoopDone_def ensureLive_def split: option.split)

lemma closed_gate_refuses:
  assumes "\<not> gate_open order sv s r" and "s_records s (recKey (d_RunID r) (d_TurnID r)) = Some r"
  shows "gate_refuses (newSettleDriver order sv s) i r"
  using assms
  by (auto simp: gate_open_def gate_refuses_def newSettleDriver_def evaluateSettleGate_def Let_def Get_def getRecLocked_def
      split: option.splits if_splits)

text \<open>
  The production driver settles past an open gate only: when \<open>DriveSettle\<close>
  with the production gate finalizes a pending turn, the gate was open: an earlier evaluation
  that allowed is on record, or the run (live or reconstructed) had neither a pending gate short
  of a finished loop nor a reprompt armed, or there is no such run and the turn was cancelled.
\<close>

theorem finalized_past_open_gate:
  assumes "DriveSettle settle_fuel L J (newSettleDriver order sv s) i s (d_RunID r) (d_TurnID r) = Some (None, True, s')"
    and "s_records s (recKey (d_RunID r) (d_TurnID r)) = Some r" and "owes_settle r" and "d_SettlePhase r = SettlePending"
  shows "gate_open order sv s r"
proof (rule ccontr)
  assume "\<not> gate_open order sv s r"
  from refused_round [OF assms(2) _ _ assms(4) closed_gate_refuses [OF this assms(2)], of L J i] assms(1,3)
  show False by (auto simp: owes_settle_def settle_fuel_def numeral_eq_Suc)
qed

section \<open>Witnesses\<close>

definition demo_service :: liveService where
  "demo_service = \<lparr>sv_runs = [''run-1'' \<mapsto> demo_run], sv_load = (\<lambda>x. None), sv_loopStatus = (\<lambda>x. ''''), sv_settleQueued = {}\<rparr>"

lemma demo_owing_ids [simp]: "d_RunID demo_owing = ''run-1''" "d_TurnID demo_owing = ''turn-1''"
  by (simp_all add: demo_owing_def demo_record_def)

lemma demo_owes: "owes_settle demo_owing"
  by (simp add: owes_settle_def)

theorem owed_settles_all_driven_witness:
  "\<exists>n acts sv'. driveOwedSettles demo_lib (\<lambda>s. [demo_key]) 100 (demo_stored demo_owing) demo_service = (n, acts, sv') \<and>
     (ResumeGate ''run-1'' \<in> set acts \<or> gate_owns 100 sv' ''run-1'' \<or>
      settleKey ''run-1'' ''turn-1'' \<in> sv_settleQueued demo_service \<or>
      (\<exists>a b. StartSettle a b \<in> set acts \<and> settleKey a b = settleKey ''run-1'' ''turn-1''))"
proof -
  obtain n acts sv' where d: "driveOwedSettles demo_lib (\<lambda>s. [demo_key]) 100 (demo_stored demo_owing) demo_service = (n, acts, sv')"
    by (metis prod_cases3)
  from owed_settles_all_driven [OF d, of demo_key demo_owing] demo_owes
  have "ResumeGate ''run-1'' \<in> set acts \<or> gate_owns 100 sv' ''run-1'' \<or>
      settleKey ''run-1'' ''turn-1'' \<in> sv_settleQueued demo_service \<or>
      (\<exists>a b. StartSettle a b \<in> set acts \<and> settleKey a b = settleKey ''run-1'' ''turn-1'')"
    by (simp add: TrimSpace_def go_spaces_def is_prefix_def Let_def)
  with d show ?thesis by blast
qed

lemma demo_gate_allows: "gate_allows (newSettleDriver [] demo_service (demo_stored demo_owing)) i demo_owing"
  by (simp add: gate_allows_def newSettleDriver_def evaluateSettleGate_def ListEffects_def range_over_def map_filter_simps
      ensureLive_def demo_service_def Let_def demo_run_def zeroRun_def TrimSpace_def flowLoopDone_def RunStatusCompleted_def)

theorem finalized_past_open_gate_witness:
  "gate_open [] demo_service (demo_stored demo_owing) demo_owing"
proof -
  obtain s' where "DriveSettle settle_fuel demo_lib demo_json (newSettleDriver [] demo_service (demo_stored demo_owing)) 0
      (demo_stored demo_owing) ''run-1'' ''turn-1'' = Some (None, True, s')"
    using drive_ready [OF demo_ready(1) demo_gate_allows, where n = settle_fuel and L = demo_lib and J = demo_json]
    by (auto simp: settle_fuel_def newSettleDriver_def)
  then show ?thesis
    by (intro finalized_past_open_gate [where L = demo_lib and J = demo_json and i = 0 and s' = s'])
      (simp_all add: demo_owes)
qed

end
