(* ===== verification/Dispatch_Operator.thy ===== *)
theory Dispatch_Operator
  imports Live_Safety
begin

text \<open>
  The operator endpoints of \<open>runner/dispatch_operator.go\<close>: each handler is a function of the
  decoded request and the store to the response and the store. An error body keeps the store
  error it was made of. A request body that does not decode is \<open>None\<close>; \<open>now\<close> is the
  handler's clock; \<open>w\<close> gives the calls other goroutines make before its store calls.
\<close>

section \<open>Requests and responses\<close>

record resolveUncertainRequest =
  ru_ExpectedRev :: int64
  ru_ResolutionID :: string
  ru_Action :: string
  ru_Detail :: string

record retryAsNewRequest =
  ra_ExpectedRev :: int64
  ra_ResolutionID :: string
  ra_NewTurnID :: string
  ra_ExpectedIntentGen :: int64
  ra_ExpectedEnvelopeHash :: string

record repairResolutionRequest =
  rq_ExpectedRepairRev :: int64
  rq_ResolutionID :: string
  rq_Action :: string

record receiptView =
  vw_ProviderKey :: string
  vw_ReceiptID :: string
  vw_EvidenceKind :: string
  vw_PayloadSHA256 :: string

record terminalView =
  vt_ProviderKey :: string
  vt_EvidenceKind :: string
  vt_Outcome :: string
  vt_PayloadSHA256 :: string

record repairView =
  vr_RepairRevision :: int64
  vr_Reason :: string
  vr_QuarantineHash :: string
  vr_State :: string
  vr_CreatedAt :: tstamp

record inspectView =
  iv_RunID :: string
  iv_TurnID :: string
  iv_State :: string
  iv_Revision :: int64
  iv_SettlePhase :: string
  iv_StopOutcome :: string
  iv_CancelRequested :: bool
  iv_EnvelopeHash :: string
  iv_OuterIntentKey :: string
  iv_OuterIntentGen :: int64
  iv_IntentOwnerRunID :: string
  iv_Receipt :: "receiptView option"
  iv_Terminal :: "terminalView option"
  iv_OpenRepair :: "repairView option"

record disposition =
  dp_State :: string
  dp_SettlePhase :: string
  dp_StopOutcome :: string

datatype (plugins only: size) body =
    AttentionBody "AttentionItem list"
  | InspectBody inspectView
  | AuditBody "AuditEntry list"
  | DispositionBody disposition
  | RetryBody disposition string
  | RepairBody int64 string string

datatype (plugins only: size) response = Ok200 body | ApiErr nat string "error option"

definition dispatchSettlementDisposition :: "DispatchRecord \<Rightarrow> disposition" where
  "dispatchSettlementDisposition rec =
     \<lparr>dp_State = state_string (d_State rec), dp_SettlePhase = settle_string (d_SettlePhase rec),
      dp_StopOutcome = d_StopOutcome rec\<rparr>"

definition dispatchOperatorErr :: "error \<Rightarrow> response" where
  "dispatchOperatorErr e =
     (if e = ErrNotFound then ApiErr 404 ''dispatch_not_found'' (Some e)
      else if e \<in> {ErrStaleDispatch, ErrIllegalTransition, ErrReceiptConflict, ErrEffectConflict, ErrRepairNotOpen}
        then ApiErr 409 ''dispatch_conflict'' (Some e)
      else ApiErr 502 ''dispatch_operator_error'' (Some e))"

definition storeUnavailable :: response where
  "storeUnavailable = ApiErr 503 ''dispatch_store_unavailable'' None"

definition invalidBody :: response where
  "invalidBody = ApiErr 400 ''invalid_body'' None"

section \<open>Reads\<close>

definition handleDispatchAttention ::
  "string list \<Rightarrow> string list \<Rightarrow> 'd memoryDispatchStore option \<Rightarrow> string \<Rightarrow> response" where
  "handleDispatchAttention order repairOrder st runID =
     (case st of
        None \<Rightarrow> Ok200 (AttentionBody [])
      | Some s \<Rightarrow> Ok200 (AttentionBody (filter (\<lambda>i. at_RunID i = runID) (ListAttention order repairOrder s))))"

definition receiptSummary :: "ReceiptEvidence \<Rightarrow> receiptView" where
  "receiptSummary e =
     \<lparr>vw_ProviderKey = re_ProviderKey e, vw_ReceiptID = re_ReceiptID e, vw_EvidenceKind = re_EvidenceKind e,
      vw_PayloadSHA256 = re_PayloadSHA256 e\<rparr>"

definition terminalSummary :: "TerminalEvidence \<Rightarrow> terminalView" where
  "terminalSummary e =
     \<lparr>vt_ProviderKey = te_ProviderKey e, vt_EvidenceKind = te_EvidenceKind e, vt_Outcome = te_Outcome e,
      vt_PayloadSHA256 = te_PayloadSHA256 e\<rparr>"

definition repairSummary :: "RepairRecord \<Rightarrow> repairView" where
  "repairSummary r =
     \<lparr>vr_RepairRevision = rp_RepairRevision r, vr_Reason = rp_Reason r, vr_QuarantineHash = rp_QuarantineHash r,
      vr_State = rp_State r, vr_CreatedAt = rp_CreatedAt r\<rparr>"

definition handleDispatchInspect :: "'d memoryDispatchStore option \<Rightarrow> string \<Rightarrow> string \<Rightarrow> response" where
  "handleDispatchInspect st runID turnID =
     (case st of
        None \<Rightarrow> storeUnavailable
      | Some s \<Rightarrow>
          (case Get s runID turnID of
             Inl e \<Rightarrow> ApiErr 404 ''dispatch_not_found'' (Some e)
           | Inr rec \<Rightarrow>
               Ok200 (InspectBody
                 \<lparr>iv_RunID = d_RunID rec, iv_TurnID = d_TurnID rec, iv_State = state_string (d_State rec),
                  iv_Revision = d_Revision rec, iv_SettlePhase = settle_string (d_SettlePhase rec),
                  iv_StopOutcome = d_StopOutcome rec, iv_CancelRequested = d_CancelRequested rec,
                  iv_EnvelopeHash = d_EnvelopeHash rec, iv_OuterIntentKey = d_OuterIntentKey rec,
                  iv_OuterIntentGen = d_OuterIntentGen rec, iv_IntentOwnerRunID = d_IntentOwnerRunID rec,
                  iv_Receipt = map_option receiptSummary (d_ReceiptEvidence rec),
                  iv_Terminal = map_option terminalSummary (d_TerminalEvidence rec),
                  iv_OpenRepair = map_option repairSummary (GetOpenRepair s runID)\<rparr>)))"

definition handleDispatchAudit :: "'d memoryDispatchStore option \<Rightarrow> string \<Rightarrow> string \<Rightarrow> response" where
  "handleDispatchAudit st runID turnID =
     (case st of
        None \<Rightarrow> Ok200 (AuditBody [])
      | Some s \<Rightarrow> Ok200 (AuditBody (ListAudit s runID turnID)))"

section \<open>Resolutions\<close>

definition resolve_of_string :: "string \<Rightarrow> ResolveAction" where
  "resolve_of_string x =
     (if x = ''mark_completed'' then ResolveMarkCompleted
      else if x = ''mark_failed'' then ResolveMarkFailed
      else if x = ''confirm_cancelled'' then ResolveConfirmCancelled
      else if x = ''abandon'' then ResolveAbandon
      else ResolveActionOther x)"

definition handleDispatchResolve ::
  "golib \<Rightarrow> (nat \<Rightarrow> dispatch_op list) \<Rightarrow> time \<Rightarrow> resolveUncertainRequest option \<Rightarrow>
   'd memoryDispatchStore option \<Rightarrow> string \<Rightarrow> string \<Rightarrow> response \<times> 'd memoryDispatchStore option" where
  "handleDispatchResolve L w now rqo st runID turnID =
     (case (st, rqo) of
        (None, _) \<Rightarrow> (storeUnavailable, None)
      | (Some s, None) \<Rightarrow> (invalidBody, Some s)
      | (Some s, Some rq) \<Rightarrow>
          (case ResolveUncertain (meanwhile L w 0 s) runID turnID (ru_ExpectedRev rq) (ru_ResolutionID rq)
                  (resolve_of_string (TrimSpace (ru_Action rq)))
                  \<lparr>oe_Actor = ''local-operator'', oe_Detail = ru_Detail rq, oe_CapturedAt = TAt now\<rparr> of
             (_, Some e, s1) \<Rightarrow> (dispatchOperatorErr e, Some s1)
           | (_, None, s1) \<Rightarrow>
               let s2 = meanwhile L w 1 s1
               in (case Get s2 runID turnID of
                     Inl e \<Rightarrow> (ApiErr 502 ''post_resolve_read_failed'' (Some e), Some s2)
                   | Inr rec \<Rightarrow> (Ok200 (DispositionBody (dispatchSettlementDisposition rec)), Some s2))))"

definition retryTurnID :: "time \<Rightarrow> retryAsNewRequest \<Rightarrow> string" where
  "retryTurnID now rq = (if ra_NewTurnID rq = '''' then ''turn-retry-'' @ fmt_d now else ra_NewTurnID rq)"

definition handleDispatchRetryAsNew ::
  "golib \<Rightarrow> (nat \<Rightarrow> dispatch_op list) \<Rightarrow> time \<Rightarrow> retryAsNewRequest option \<Rightarrow>
   'd memoryDispatchStore option \<Rightarrow> string \<Rightarrow> string \<Rightarrow> response \<times> 'd memoryDispatchStore option" where
  "handleDispatchRetryAsNew L w now rqo st runID oldTurnID =
     (case (st, rqo) of
        (None, _) \<Rightarrow> (storeUnavailable, None)
      | (Some s, None) \<Rightarrow> (invalidBody, Some s)
      | (Some s, Some rq) \<Rightarrow>
          let newTurnID = retryTurnID now rq in
          (case RetryAsNew (meanwhile L w 0 s) runID oldTurnID (ra_ExpectedRev rq) (ra_ResolutionID rq) newTurnID
                  (ra_ExpectedIntentGen rq) (ra_ExpectedEnvelopeHash rq) of
             (_, Some e, s1) \<Rightarrow>
               (if e = ErrSuperseded then ApiErr 409 ''dispatch_retry_superseded'' None else dispatchOperatorErr e, Some s1)
           | (_, None, s1) \<Rightarrow>
               let s2 = meanwhile L w 1 s1
               in (case Get s2 runID oldTurnID of
                     Inl e \<Rightarrow> (ApiErr 502 ''post_retry_read_failed'' (Some e), Some s2)
                   | Inr rec \<Rightarrow> (Ok200 (RetryBody (dispatchSettlementDisposition rec) newTurnID), Some s2))))"

text \<open>
  The outcome of re-applying the quarantined session text (\<open>getPersistedSessionForRepair\<close>,
  \<open>applySessionRuntimeV2\<close> and \<open>persistProviderSession\<close>) is the parameter \<open>reload\<close>.
\<close>

datatype reload_result = SessionMissing | ReloadInvalid string | ReloadPersistFailed string | ReloadOk

fun reloadOutcome :: "reload_result \<Rightarrow> RepairOutcome \<times> string" where
  "reloadOutcome SessionMissing = (RepairFailedStillOpen, ''session not found for retry-load'')"
| "reloadOutcome (ReloadInvalid e) = (RepairFailedStillOpen, ''retry-load re-validation failed: '' @ e)"
| "reloadOutcome (ReloadPersistFailed e) = (RepairFailedStillOpen, ''recovered session persist failed: '' @ e)"
| "reloadOutcome ReloadOk = (RepairResolvedRetryLoad, ''operator retry-load'')"

definition repairAction :: "string \<Rightarrow> RepairAction" where
  "repairAction x =
     (if TrimSpace x = repair_action_string RepairActionRetryLoad then RepairActionRetryLoad else RepairActionAbandon)"

definition handleDispatchRepairResolution ::
  "golib \<Rightarrow> (nat \<Rightarrow> dispatch_op list) \<Rightarrow> string list \<Rightarrow> ('d memoryDispatchStore \<Rightarrow> string \<Rightarrow> reload_result) \<Rightarrow>
   repairResolutionRequest option \<Rightarrow> 'd memoryDispatchStore option \<Rightarrow> string \<Rightarrow>
   response \<times> 'd memoryDispatchStore option" where
  "handleDispatchRepairResolution L w order reload rqo st runID =
     (case (st, rqo) of
        (None, _) \<Rightarrow> (storeUnavailable, None)
      | (Some s, None) \<Rightarrow> (invalidBody, Some s)
      | (Some s, Some rq) \<Rightarrow>
          let action = repairAction (rq_Action rq) in
          (case BeginRepairResolution (meanwhile L w 0 s) runID (rq_ExpectedRepairRev rq) (rq_ResolutionID rq) action of
             (_, _, Some (RepairResolutionReplay rv oc), s1) \<Rightarrow>
               (Ok200 (RepairBody rv oc ''idempotent replay of recorded resolution''), Some s1)
           | (_, _, Some e, s1) \<Rightarrow> (dispatchOperatorErr e, Some s1)
           | (attemptRev, raw, None, s1) \<Rightarrow>
               let (outcome, detail) =
                     (if action = RepairActionRetryLoad then reloadOutcome (reload s1 raw)
                      else (RepairResolvedAbandon, ''operator abandon''))
               in (case CommitRepairResolution order (meanwhile L w 1 s1) runID attemptRev (rq_ResolutionID rq) outcome detail of
                     (_, Some e, s2) \<Rightarrow> (dispatchOperatorErr e, Some s2)
                   | (rv, None, s2) \<Rightarrow> (Ok200 (RepairBody rv (repair_outcome_string outcome) detail), Some s2))))"

section \<open>What an operator sees\<close>

text \<open>A record, or a repair, with the raw payloads and the quarantined text taken out.\<close>

definition redactReceipt :: "ReceiptEvidence \<Rightarrow> ReceiptEvidence" where
  "redactReceipt e = e\<lparr>re_PayloadCanonicalJSON := ''''\<rparr>"

definition redactTerminal :: "TerminalEvidence \<Rightarrow> TerminalEvidence" where
  "redactTerminal e = e\<lparr>te_PayloadCanonicalJSON := ''''\<rparr>"

definition redact :: "DispatchRecord \<Rightarrow> DispatchRecord" where
  "redact r = r\<lparr>d_ReceiptEvidence := map_option redactReceipt (d_ReceiptEvidence r),
                d_TerminalEvidence := map_option redactTerminal (d_TerminalEvidence r)\<rparr>"

definition redactStore :: "'d memoryDispatchStore \<Rightarrow> 'd memoryDispatchStore" where
  "redactStore s = s\<lparr>s_records := map_option redact \<circ> s_records s,
                     s_repairs := map_option (\<lambda>r. r\<lparr>rp_QuarantineBlob := ''''\<rparr>) \<circ> s_repairs s,
                     s_envelopes := Map.empty, s_effects := Map.empty\<rparr>"

lemma receiptSummary_redact [simp]: "receiptSummary (redactReceipt e) = receiptSummary e"
  by (simp add: receiptSummary_def redactReceipt_def)

lemma terminalSummary_redact [simp]: "terminalSummary (redactTerminal e) = terminalSummary e"
  by (simp add: terminalSummary_def redactTerminal_def)

lemma repairSummary_redact [simp]: "repairSummary (r\<lparr>rp_QuarantineBlob := b\<rparr>) = repairSummary r"
  by (simp add: repairSummary_def)

text \<open>
  An inspection never shows the payloads the store holds: the response computed from the
  store is the response computed from the store with every evidence payload, quarantined blob,
  envelope and effect removed.
\<close>

theorem inspect_reveals_no_payload:
  "handleDispatchInspect (Some s) runID turnID = handleDispatchInspect (Some (redactStore s)) runID turnID"
  by (simp add: handleDispatchInspect_def Get_def getRecLocked_def redactStore_def redact_def GetOpenRepair_def
      option.map_comp comp_def split: option.split)

section \<open>Replays\<close>

lemma ResolveUncertain_records:
  assumes "ResolveUncertain s a b rv rid act ev = (n, None, s')" and "rid \<noteq> ''''"
  shows "s_resolutions s' rid \<noteq> None"
proof (cases "s_resolutions s rid")
  case None
  have "post (\<lambda>(e, t). e = None \<longrightarrow> s_resolutions t rid \<noteq> None) (snd (ResolveUncertain s a b rv rid act ev))"
    unfolding ResolveUncertain_def Let_def
    by (intro post_log post_intros) (auto simp: putResolution_def None assms(2))
  with assms(1) show ?thesis by (simp add: post_def)
qed (use assms in \<open>simp add: ResolveUncertain_def\<close>)

lemma ResolveUncertain_again:
  "rid \<noteq> '''' \<Longrightarrow> s_resolutions s rid = Some res \<Longrightarrow> ResolveUncertain s a b rv rid act ev = (rr_Revision res, None, s)"
  by (simp add: ResolveUncertain_def)

text \<open>
  A resolution is idempotent: after a resolve request that was answered 200, any later
  request that carries the same nonempty resolution id, whatever its revision or action, is
  answered 200 with the same body and leaves the store as it is.
\<close>

theorem resolve_replay_idempotent:
  assumes "handleDispatchResolve L quiet now (Some rq) (Some s) a b = (Ok200 x, Some s1)"
    and "ru_ResolutionID rq' = ru_ResolutionID rq" and "ru_ResolutionID rq \<noteq> ''''"
  shows "handleDispatchResolve L quiet now' (Some rq') (Some s1) a b = (Ok200 x, Some s1)"
proof -
  obtain n where "ResolveUncertain s a b (ru_ExpectedRev rq) (ru_ResolutionID rq)
      (resolve_of_string (TrimSpace (ru_Action rq)))
      \<lparr>oe_Actor = ''local-operator'', oe_Detail = ru_Detail rq, oe_CapturedAt = TAt now\<rparr> = (n, None, s1)"
    and x: "\<exists>r. Get s1 a b = Inr r \<and> x = DispositionBody (dispatchSettlementDisposition r)"
    using assms(1) by (auto simp: handleDispatchResolve_def dispatchOperatorErr_def split: prod.splits option.splits sum.splits if_splits)
  from ResolveUncertain_records [OF this(1) assms(3)] obtain res where "s_resolutions s1 (ru_ResolutionID rq) = Some res" by blast
  with x assms(2,3) show ?thesis by (auto simp: handleDispatchResolve_def ResolveUncertain_again)
qed

text \<open>A fresh retry stores a successor, and ends the old record; the answer names the successor.\<close>

text \<open>
  A fresh retry-as-new that is answered 200 has superseded the old turn: the turn id it
  reports was free and now holds a PREPARED record whose predecessor is the old turn and a copy
  of its envelope, and the old record is TERMINAL_CANCELLED, owes no settle and is the one the
  answer describes.
\<close>

theorem retry_as_new_supersedes:
  assumes "handleDispatchRetryAsNew L quiet now (Some rq) (Some s) a b = (Ok200 (RetryBody d nt), Some s1)"
    and "ra_ResolutionID rq = '''' \<or> s_resolutions s (ra_ResolutionID rq) = None"
  shows "\<exists>env r r'. s_envelopes s (recKey a b) = Some env \<and> s_records s (recKey a nt) = None \<and>
     s_records s1 (recKey a nt) = Some r' \<and> d_State r' = DispatchPrepared \<and> d_PredecessorTurnID r' = b \<and>
     s_envelopes s1 (recKey a nt) = Some (env\<lparr>v_TurnID := nt\<rparr>) \<and>
     s_records s1 (recKey a b) = Some r \<and> d_State r = DispatchTerminalCancelled \<and> \<not> d_SettleOwed r \<and>
     d = dispatchSettlementDisposition r"
proof -
  let ?Q = "\<lambda>(e, t). e = None \<longrightarrow> (\<exists>env r r'. s_envelopes s (recKey a b) = Some env \<and>
     s_records s (recKey a nt) = None \<and>
     s_records t (recKey a nt) = Some r' \<and> d_State r' = DispatchPrepared \<and> d_PredecessorTurnID r' = b \<and>
     s_envelopes t (recKey a nt) = Some (env\<lparr>v_TurnID := nt\<rparr>) \<and>
     s_records t (recKey a b) = Some r \<and> d_State r = DispatchTerminalCancelled \<and> \<not> d_SettleOwed r)"
  have fresh: "(if ra_ResolutionID rq \<noteq> '''' then s_resolutions s (ra_ResolutionID rq) else None) = None"
    using assms(2) by auto
  have "post ?Q (snd (RetryAsNew s a b (ra_ExpectedRev rq) (ra_ResolutionID rq) nt (ra_ExpectedIntentGen rq)
      (ra_ExpectedEnvelopeHash rq)))"
    unfolding RetryAsNew_def Let_def fresh
    by (intro post_log post_intros) (auto simp: putResolution_def putRec_def setLiveIntentLocked_def revokeAttachLocked_def getRecLocked_def split: option.splits)
  with assms(1) show ?thesis
    by (auto simp: handleDispatchRetryAsNew_def dispatchOperatorErr_def Let_def post_def Get_def getRecLocked_def
        split: prod.splits option.splits sum.splits if_splits)
qed

text \<open>
  A recorded resolution id answers any request: whichever run and turn it was recorded for,
  a resolve of another turn that presents it is answered 200 with that turn's unchanged state,
  and a retry-as-new is answered 200 with the turn id of the request, which no record need have.
\<close>

theorem replayed_id_answers_any_turn:
  assumes "s_resolutions s rid = Some res" and "rid \<noteq> ''''" and "Get s a b = Inr r"
    and "ru_ResolutionID rq = rid" and "ra_ResolutionID rq' = rid"
  shows "handleDispatchResolve L quiet now (Some rq) (Some s) a b =
      (Ok200 (DispositionBody (dispatchSettlementDisposition r)), Some s) \<and>
    handleDispatchRetryAsNew L quiet now (Some rq') (Some s) a b =
      (Ok200 (RetryBody (dispatchSettlementDisposition r) (retryTurnID now rq')), Some s)"
  using assms by (simp_all add: handleDispatchResolve_def handleDispatchRetryAsNew_def ResolveUncertain_again RetryAsNew_def)

section \<open>Witnesses\<close>

definition demo_doubtful :: "unit memoryDispatchStore" where
  "demo_doubtful = (demo_stored (demo_claimed\<lparr>d_State := DispatchUncertain\<rparr>))\<lparr>s_envelopes := [demo_key \<mapsto> demo_envelope]\<rparr>"

definition demo_resolve :: resolveUncertainRequest where
  "demo_resolve = \<lparr>ru_ExpectedRev = 2, ru_ResolutionID = ''res-1'', ru_Action = ''abandon'', ru_Detail = ''''\<rparr>"

definition demo_retry_request :: retryAsNewRequest where
  "demo_retry_request = \<lparr>ra_ExpectedRev = 2, ra_ResolutionID = ''res-1'', ra_NewTurnID = ''turn-2'', ra_ExpectedIntentGen = 0,
     ra_ExpectedEnvelopeHash = ''''\<rparr>"

lemma demo_doubtful_simps [simp]:
  "s_records demo_doubtful = [demo_key \<mapsto> demo_claimed\<lparr>d_State := DispatchUncertain\<rparr>]"
  "s_resolutions demo_doubtful = Map.empty" "s_afterCommit demo_doubtful = None"
  "s_envelopes demo_doubtful = [demo_key \<mapsto> demo_envelope]"
  by (simp_all add: demo_doubtful_def demo_stored_def)

lemma demo_doubtful_fields [simp]:
  "d_OuterIntentKey demo_claimed = ''''" "writes_succeed demo_doubtful" "checkParentFenceLocked s (demo_claimed\<lparr>d_State := x\<rparr>) = None"
  by (simp_all add: demo_claimed_def demo_record_def zeroRecord_def writes_succeed_def checkParentFenceLocked_def)

lemma demo_abandon [simp]: "resolve_of_string (TrimSpace ''abandon'') = ResolveAbandon"
  by code_simp

lemma exI_triple: "fst x = a \<Longrightarrow> fst (snd x) = b \<Longrightarrow> P (snd (snd x)) \<Longrightarrow> \<exists>c. x = (a, b, c) \<and> P c"
  by (metis prod.collapse)

lemma commitRecord_results:
  assumes "writes_succeed s"
  shows "fst (commitRecord s a b r cp kind det act clr after) = d_Revision cp"
    and "fst (snd (commitRecord s a b r cp kind det act clr after)) = None"
    and "(\<And>t. s_records (after t) = s_records t) \<Longrightarrow>
      s_records (snd (snd (commitRecord s a b r cp kind det act clr after))) = (s_records s)(recKey a b \<mapsto> cp)"
  using commitRecord_succeeds [OF assms, of a b r cp kind det act clr after] by (auto simp: putRec_def)

lemma demo_doubtful_resolved:
  "\<exists>s1. ResolveUncertain demo_doubtful ''run-1'' ''turn-1'' 2 ''res-1'' ResolveAbandon ev = (3, None, s1) \<and>
     s_records s1 demo_key \<noteq> None"
  unfolding ResolveUncertain_def Let_def
  by (rule exI_triple)
    (simp_all add: getRecLocked_def canTransition_def revokeAttachLocked_def inc64_2 commitRecord_results putResolution_def)

lemma resolve_replay_idempotent_witness:
  "\<exists>x s1. handleDispatchResolve demo_lib quiet (100::time) (Some demo_resolve) (Some demo_doubtful) ''run-1'' ''turn-1'' = (Ok200 x, Some s1) \<and>
     handleDispatchResolve demo_lib quiet (101::time) (Some demo_resolve) (Some s1) ''run-1'' ''turn-1'' = (Ok200 x, Some s1)"
proof -
  obtain x s1 where f: "handleDispatchResolve demo_lib quiet (100::time) (Some demo_resolve) (Some demo_doubtful) ''run-1'' ''turn-1'' = (Ok200 x, Some s1)"
    using demo_doubtful_resolved [of "\<lparr>oe_Actor = ''local-operator'', oe_Detail = '''', oe_CapturedAt = TAt 100\<rparr>"]
    by (auto simp: handleDispatchResolve_def demo_resolve_def Get_def getRecLocked_def)
  with resolve_replay_idempotent [OF f refl, of "101::time"] show ?thesis by (auto simp: demo_resolve_def)
qed

lemma demo_doubtful_retried:
  "\<exists>s1. RetryAsNew demo_doubtful ''run-1'' ''turn-1'' 2 ''res-1'' ''turn-2'' 0 '''' = (3, None, s1) \<and>
     s_records s1 demo_key \<noteq> None"
  unfolding RetryAsNew_def Let_def
  by (rule exI_triple)
    (simp_all add: getRecLocked_def retrySuperseded_def revokeAttachLocked_def inc64_2 putRec_def putResolution_def
      setLiveIntentLocked_def demo_key_def recKey_def)

lemma retry_as_new_supersedes_witness:
  "\<exists>d s1 r'. handleDispatchRetryAsNew demo_lib quiet (100::time) (Some demo_retry_request) (Some demo_doubtful) ''run-1'' ''turn-1'' =
       (Ok200 (RetryBody d ''turn-2''), Some s1) \<and>
     s_records s1 (recKey ''run-1'' ''turn-2'') = Some r' \<and> d_PredecessorTurnID r' = ''turn-1''"
proof -
  obtain d s1 where f: "handleDispatchRetryAsNew demo_lib quiet (100::time) (Some demo_retry_request) (Some demo_doubtful) ''run-1'' ''turn-1'' =
       (Ok200 (RetryBody d ''turn-2''), Some s1)"
    using demo_doubtful_retried by (auto simp: handleDispatchRetryAsNew_def demo_retry_request_def retryTurnID_def Get_def getRecLocked_def Let_def)
  from retry_as_new_supersedes [OF f] f show ?thesis by (auto simp: demo_retry_request_def)
qed

definition demo_replayed :: "unit memoryDispatchStore" where
  "demo_replayed = demo_doubtful\<lparr>s_resolutions := [''res-1'' \<mapsto>
     \<lparr>rr_ResolutionID = ''res-1'', rr_RunID = ''run-9'', rr_TurnID = ''turn-9'', rr_Action = ''abandon'', rr_Revision = 4,
      rr_NewTurnID = '''', rr_Record = demo_claimed\<rparr>]\<rparr>"

lemma replayed_id_answers_any_turn_witness:
  "\<exists>r. d_State r = DispatchUncertain \<and> Get demo_replayed ''run-1'' ''turn-1'' = Inr r \<and>
     handleDispatchResolve demo_lib quiet (100::time) (Some demo_resolve) (Some demo_replayed) ''run-1'' ''turn-1'' =
       (Ok200 (DispositionBody (dispatchSettlementDisposition r)), Some demo_replayed)"
proof -
  have g: "Get demo_replayed ''run-1'' ''turn-1'' = Inr (demo_claimed\<lparr>d_State := DispatchUncertain\<rparr>)"
    by (simp add: Get_def getRecLocked_def demo_replayed_def)
  have "\<exists>res. s_resolutions demo_replayed ''res-1'' = Some res" by (simp add: demo_replayed_def)
  then obtain res where "s_resolutions demo_replayed ''res-1'' = Some res" ..
  from replayed_id_answers_any_turn [OF this _ g, of demo_resolve demo_retry_request demo_lib 100] g show ?thesis
    by (simp add: demo_resolve_def demo_retry_request_def)
qed

end
