(* ===== verification/Workflow_Machine.thy ===== *)
theory Workflow_Machine
  imports Prelude
begin

text \<open>
  The workflow planner and its orchestrator: \<open>runner/workflow_state_machine.go\<close>,
  \<open>runner/workflow_orchestrator.go\<close>, and the step table of \<open>fakeWorkflowStore\<close> in
  \<open>runner/workflow_store.go\<close>. The store is an interface of the code, so the orchestrator is
  a function of its operations; the locale \<open>workflow_store\<close> states what it relies on, and the
  in-memory store, with any call failing before or after it took effect, provides it.
\<close>

section \<open>Steps, patches and plans\<close>

datatype RuntimeWorkflowStepStatus =
    StepStatusPending | StepStatusRunning | StepStatusWaitingUserApr | StepStatusCanceled
  | StepStatusDone | StepStatusFailed | StepStatusSkipped | StepStatusOther string

datatype WorkflowRunStatus = RunStatusEngineRunning | RunStatusEngineDone | RunStatusOther string

record RuntimeWorkflowStep =
  st_ID :: string
  st_StepType :: string
  st_Status :: RuntimeWorkflowStepStatus
  st_RequiresApproval :: bool
  st_StartedAt :: string
  st_FinishedAt :: string
  st_RetryCount :: int64
  st_RejectionNote :: string
  st_BehaviorID :: string
  st_NodeID :: string
  st_AgentRef :: string
  st_Provider :: string
  st_Model :: string
  st_YoloMode :: bool

text \<open>\<open>None\<close> is the nil pointer: leave the field unchanged.\<close>

record WorkflowStepPatch =
  pt_Status :: RuntimeWorkflowStepStatus
  pt_StartedAt :: "string option"
  pt_FinishedAt :: "string option"
  pt_RejectionNote :: "string option"
  pt_RetryCount :: "int64 option"
  pt_Provider :: "string option"
  pt_Model :: "string option"

datatype WorkflowLogLevel = LogInfo | LogWarn | LogError | LogDebug

record WorkflowLog =
  lg_LogLevel :: WorkflowLogLevel
  lg_Message :: string

record WorkflowStepTransition =
  tr_StepID :: string
  tr_Patch :: WorkflowStepPatch
  tr_Logs :: "WorkflowLog list"

record WorkflowProgressPlan =
  pl_RunStatus :: WorkflowRunStatus
  pl_RunFinishedAt :: string
  pl_PausedStepID :: string
  pl_StepTransitions :: "WorkflowStepTransition list"

definition zeroPatch :: WorkflowStepPatch where
  "zeroPatch =
     \<lparr>pt_Status = StepStatusOther '''', pt_StartedAt = None, pt_FinishedAt = None, pt_RejectionNote = None,
      pt_RetryCount = None, pt_Provider = None, pt_Model = None\<rparr>"

definition zeroPlan :: WorkflowProgressPlan where
  "zeroPlan = \<lparr>pl_RunStatus = RunStatusOther '''', pl_RunFinishedAt = '''', pl_PausedStepID = '''', pl_StepTransitions = []\<rparr>"

section \<open>The planner\<close>

definition startedOrNow :: "string \<Rightarrow> string \<Rightarrow> string" where
  "startedOrNow startedAt now = (if startedAt \<noteq> '''' then startedAt else now)"

definition donePatch :: "RuntimeWorkflowStep \<Rightarrow> string \<Rightarrow> WorkflowStepPatch" where
  "donePatch step now =
     zeroPatch\<lparr>pt_Status := StepStatusDone, pt_StartedAt := Some (startedOrNow (st_StartedAt step) now),
               pt_FinishedAt := Some now, pt_RejectionNote := Some ''''\<rparr>"

definition pausedAt :: "RuntimeWorkflowStep \<Rightarrow> WorkflowStepTransition list \<Rightarrow> WorkflowProgressPlan" where
  "pausedAt step transitions =
     zeroPlan\<lparr>pl_RunStatus := RunStatusEngineRunning, pl_PausedStepID := st_ID step, pl_StepTransitions := transitions\<rparr>"

fun planLoop ::
  "RuntimeWorkflowStep list \<Rightarrow> bool \<Rightarrow> string \<Rightarrow> WorkflowStepTransition list \<Rightarrow> WorkflowProgressPlan" where
  "planLoop [] yoloMode now transitions =
     zeroPlan\<lparr>pl_RunStatus := RunStatusEngineDone, pl_RunFinishedAt := now, pl_StepTransitions := transitions\<rparr>"
| "planLoop (step # steps) yoloMode now transitions =
     (case st_Status step of
        StepStatusDone \<Rightarrow> planLoop steps yoloMode now transitions
      | StepStatusSkipped \<Rightarrow> planLoop steps yoloMode now transitions
      | StepStatusFailed \<Rightarrow> planLoop steps yoloMode now transitions
      | StepStatusWaitingUserApr \<Rightarrow>
          (if \<not> yoloMode then pausedAt step transitions
           else planLoop steps yoloMode now (transitions @
             [\<lparr>tr_StepID = st_ID step, tr_Patch = donePatch step now,
               tr_Logs = [\<lparr>lg_LogLevel = LogInfo,
                           lg_Message = ''YOLO mode auto-approved step '' @ st_StepType step @ ''.''\<rparr>]\<rparr>]))
      | StepStatusCanceled \<Rightarrow> planLoop steps yoloMode now transitions
      | StepStatusOther x \<Rightarrow> planLoop steps yoloMode now transitions
      | _ \<Rightarrow>
          (if st_RequiresApproval step \<and> \<not> yoloMode
           then pausedAt step (transitions @
             [\<lparr>tr_StepID = st_ID step,
               tr_Patch = zeroPatch\<lparr>pt_Status := StepStatusWaitingUserApr,
                                    pt_StartedAt := Some (startedOrNow (st_StartedAt step) now),
                                    pt_FinishedAt := Some ''''\<rparr>,
               tr_Logs = [\<lparr>lg_LogLevel = LogInfo,
                           lg_Message = ''Generation complete. Paused on approval gate for '' @ st_StepType step @ ''.''\<rparr>]\<rparr>])
           else planLoop steps yoloMode now (transitions @
             [\<lparr>tr_StepID = st_ID step, tr_Patch = donePatch step now,
               tr_Logs = [\<lparr>lg_LogLevel = LogInfo,
                           lg_Message = (if yoloMode \<and> st_RequiresApproval step
                                         then ''YOLO mode auto-approved step '' @ st_StepType step @ ''.''
                                         else ''Completed step '' @ st_StepType step @ ''.'')\<rparr>]\<rparr>])))"

definition PlanWorkflowProgress :: "RuntimeWorkflowStep list \<Rightarrow> bool \<Rightarrow> string \<Rightarrow> WorkflowProgressPlan" where
  "PlanWorkflowProgress steps yoloMode now = planLoop steps yoloMode now []"

text \<open>\<open>quote\<close> is Go's \<open>%q\<close>.\<close>

definition PlanRejectedStepRetry ::
  "(string \<Rightarrow> string) \<Rightarrow> string \<Rightarrow> int64 \<Rightarrow> string \<Rightarrow> string \<Rightarrow> WorkflowStepTransition" where
  "PlanRejectedStepRetry quote stepID retryCount now comment =
     \<lparr>tr_StepID = stepID,
      tr_Patch = zeroPatch\<lparr>pt_Status := StepStatusPending, pt_StartedAt := Some '''', pt_FinishedAt := Some '''',
                           pt_RejectionNote := Some comment, pt_RetryCount := Some (inc64 retryCount)\<rparr>,
      tr_Logs = [\<lparr>lg_LogLevel = LogWarn,
                  lg_Message = ''Rejection received at '' @ now @ '': '' @ quote comment
                                 @ ''. Resetting step for another pass.''\<rparr>]\<rparr>"

section \<open>The orchestrator\<close>

record 's WorkflowStore =
  wo_LoadRunSteps :: "string \<Rightarrow> 's \<Rightarrow> (string + RuntimeWorkflowStep list) \<times> 's"
  wo_ApplyStepTransition :: "string \<Rightarrow> WorkflowStepTransition \<Rightarrow> 's \<Rightarrow> string option \<times> 's"
  wo_SetRunStatus :: "string \<Rightarrow> WorkflowRunStatus \<Rightarrow> string \<Rightarrow> 's \<Rightarrow> string option \<times> 's"
  wo_AppendLog :: "string \<Rightarrow> WorkflowLog \<Rightarrow> 's \<Rightarrow> string option \<times> 's"

fun progressLogs :: "'s WorkflowStore \<Rightarrow> string \<Rightarrow> WorkflowLog list \<Rightarrow> 's \<Rightarrow> string option \<times> 's" where
  "progressLogs ops stepID [] s = (None, s)"
| "progressLogs ops stepID (l # ls) s =
     (case wo_AppendLog ops stepID l s of
        (Some e, s1) \<Rightarrow> (Some e, s1)
      | (None, s1) \<Rightarrow> progressLogs ops stepID ls s1)"

fun progressSteps ::
  "'s WorkflowStore \<Rightarrow> string \<Rightarrow> WorkflowStepTransition list \<Rightarrow> 's \<Rightarrow> string option \<times> 's" where
  "progressSteps ops runID [] s = (None, s)"
| "progressSteps ops runID (t # ts) s =
     (case wo_ApplyStepTransition ops runID t s of
        (Some e, s1) \<Rightarrow> (Some e, s1)
      | (None, s1) \<Rightarrow>
          (case progressLogs ops (tr_StepID t) (tr_Logs t) s1 of
             (Some e, s2) \<Rightarrow> (Some e, s2)
           | (None, s2) \<Rightarrow> progressSteps ops runID ts s2))"

definition Progress ::
  "'s WorkflowStore \<Rightarrow> string \<Rightarrow> string \<Rightarrow> bool \<Rightarrow> 's \<Rightarrow> (WorkflowProgressPlan \<times> string option) \<times> 's" where
  "Progress ops now runID yoloMode s =
     (case wo_LoadRunSteps ops runID s of
        (Inl e, s1) \<Rightarrow> ((zeroPlan, Some e), s1)
      | (Inr steps, s1) \<Rightarrow>
          let plan = PlanWorkflowProgress steps yoloMode now in
          (case progressSteps ops runID (pl_StepTransitions plan) s1 of
             (Some e, s2) \<Rightarrow> ((plan, Some e), s2)
           | (None, s2) \<Rightarrow>
               (case wo_SetRunStatus ops runID (pl_RunStatus plan) (pl_RunFinishedAt plan) s2 of
                  (e, s3) \<Rightarrow> ((plan, e), s3))))"

text \<open>A sequence of calls: the clock, the run and its YOLO mode.\<close>

fun progressCalls :: "'s WorkflowStore \<Rightarrow> (string \<times> string \<times> bool) list \<Rightarrow> 's \<Rightarrow> 's" where
  "progressCalls ops [] s = s"
| "progressCalls ops ((now, runID, yoloMode) # calls) s = progressCalls ops calls (snd (Progress ops now runID yoloMode s))"

section \<open>The in-memory store\<close>

record fakeWorkflowStore =
  fw_steps :: "string \<Rightarrow> RuntimeWorkflowStep list"
  fw_runStatus :: "string \<rightharpoonup> WorkflowRunStatus"
  fw_finished :: "string \<rightharpoonup> string"
  fw_logs :: "string \<Rightarrow> WorkflowLog list"
  fw_applies :: int

definition patchStep :: "WorkflowStepPatch \<Rightarrow> RuntimeWorkflowStep \<Rightarrow> RuntimeWorkflowStep" where
  "patchStep p step =
     step\<lparr>st_Status := (if pt_Status p \<noteq> StepStatusOther '''' then pt_Status p else st_Status step),
          st_StartedAt := (case pt_StartedAt p of None \<Rightarrow> st_StartedAt step | Some x \<Rightarrow> x),
          st_FinishedAt := (case pt_FinishedAt p of None \<Rightarrow> st_FinishedAt step | Some x \<Rightarrow> x),
          st_RejectionNote := (case pt_RejectionNote p of None \<Rightarrow> st_RejectionNote step | Some x \<Rightarrow> x),
          st_RetryCount := (case pt_RetryCount p of None \<Rightarrow> st_RetryCount step | Some x \<Rightarrow> x),
          st_Provider := (case pt_Provider p of None \<Rightarrow> st_Provider step | Some x \<Rightarrow> x),
          st_Model := (case pt_Model p of None \<Rightarrow> st_Model step | Some x \<Rightarrow> x)\<rparr>"

text \<open>Only the first step with the id is patched.\<close>

fun patchFirst :: "WorkflowStepTransition \<Rightarrow> RuntimeWorkflowStep list \<Rightarrow> RuntimeWorkflowStep list" where
  "patchFirst t [] = []"
| "patchFirst t (step # steps) =
     (if st_ID step \<noteq> tr_StepID t then step # patchFirst t steps else patchStep (tr_Patch t) step # steps)"

definition LoadRunSteps :: "string \<Rightarrow> fakeWorkflowStore \<Rightarrow> RuntimeWorkflowStep list" where
  "LoadRunSteps runID f = fw_steps f runID"

definition ApplyStepTransition :: "string \<Rightarrow> WorkflowStepTransition \<Rightarrow> fakeWorkflowStore \<Rightarrow> fakeWorkflowStore" where
  "ApplyStepTransition runID t f =
     f\<lparr>fw_applies := inc64 (fw_applies f), fw_steps := (fw_steps f)(runID := patchFirst t (fw_steps f runID))\<rparr>"

definition SetRunStatus :: "string \<Rightarrow> WorkflowRunStatus \<Rightarrow> string \<Rightarrow> fakeWorkflowStore \<Rightarrow> fakeWorkflowStore" where
  "SetRunStatus runID status finishedAt f =
     f\<lparr>fw_runStatus := (fw_runStatus f)(runID \<mapsto> status), fw_finished := (fw_finished f)(runID \<mapsto> finishedAt)\<rparr>"

definition AppendLog :: "string \<Rightarrow> WorkflowLog \<Rightarrow> fakeWorkflowStore \<Rightarrow> fakeWorkflowStore" where
  "AppendLog stepID l f = f\<lparr>fw_logs := (fw_logs f)(stepID := fw_logs f stepID @ [l])\<rparr>"

text \<open>The same store as the interface sees it; none of its calls fails.\<close>

definition fakeStore :: "fakeWorkflowStore WorkflowStore" where
  "fakeStore =
     \<lparr>wo_LoadRunSteps = (\<lambda>r f. (Inr (LoadRunSteps r f), f)),
      wo_ApplyStepTransition = (\<lambda>r t f. (None, ApplyStepTransition r t f)),
      wo_SetRunStatus = (\<lambda>r x y f. (None, SetRunStatus r x y f)),
      wo_AppendLog = (\<lambda>i l f. (None, AppendLog i l f))\<rparr>"

text \<open>
  A test double, not code: the same store behind a connection that may fail, on which the witnesses
  exercise the error paths of \<open>Progress\<close>. The list holds what happens to the next calls,
  \<open>Some (b, e)\<close> being the error \<open>e\<close> after (\<open>b\<close>) or before the call took effect.
\<close>

type_synonym faults = "(bool \<times> string) option list"

definition faulty :: "(fakeWorkflowStore \<Rightarrow> fakeWorkflowStore) \<Rightarrow> fakeWorkflowStore \<times> faults \<Rightarrow>
    string option \<times> fakeWorkflowStore \<times> faults" where
  "faulty upd s =
     (case s of
        (f, Some (b, e) # fs) \<Rightarrow> (Some e, if b then upd f else f, fs)
      | (f, fs) \<Rightarrow> (None, upd f, tl fs))"

definition remoteStore :: "(fakeWorkflowStore \<times> faults) WorkflowStore" where
  "remoteStore =
     \<lparr>wo_LoadRunSteps = (\<lambda>r s. case faulty id s of
        (Some e, s') \<Rightarrow> (Inl e, s') | (None, s') \<Rightarrow> (Inr (LoadRunSteps r (fst s)), s')),
      wo_ApplyStepTransition = (\<lambda>r t. faulty (ApplyStepTransition r t)),
      wo_SetRunStatus = (\<lambda>r x y. faulty (SetRunStatus r x y)),
      wo_AppendLog = (\<lambda>i l. faulty (AppendLog i l))\<rparr>"

section \<open>What a plan means\<close>

definition waits :: "bool \<Rightarrow> RuntimeWorkflowStep \<Rightarrow> bool" where
  "waits yoloMode step \<longleftrightarrow> \<not> yoloMode \<and>
     (st_Status step = StepStatusWaitingUserApr \<or>
      st_Status step \<in> {StepStatusPending, StepStatusRunning} \<and> st_RequiresApproval step)"

definition completed_status :: "RuntimeWorkflowStep \<Rightarrow> RuntimeWorkflowStepStatus" where
  "completed_status step =
     (if st_Status step \<in> {StepStatusPending, StepStatusRunning, StepStatusWaitingUserApr}
      then StepStatusDone else st_Status step)"

text \<open>
  The statuses a run settles in: the steps before the first one that waits are completed, that
  one waits for its approval, and the ones after it keep their status.
\<close>

definition settled :: "bool \<Rightarrow> RuntimeWorkflowStep list \<Rightarrow> RuntimeWorkflowStepStatus list" where
  "settled yoloMode steps =
     map completed_status (takeWhile (\<lambda>s. \<not> waits yoloMode s) steps) @
     (case dropWhile (\<lambda>s. \<not> waits yoloMode s) steps of
        [] \<Rightarrow> []
      | _ # rest \<Rightarrow> StepStatusWaitingUserApr # map st_Status rest)"

definition applyAll :: "WorkflowStepTransition list \<Rightarrow> RuntimeWorkflowStep list \<Rightarrow> RuntimeWorkflowStep list" where
  "applyAll ts steps = fold patchFirst ts steps"

lemma planLoop_append:
  "planLoop steps y now (a @ b) = (let p = planLoop steps y now b in p\<lparr>pl_StepTransitions := a @ pl_StepTransitions p\<rparr>)"
  by (induction steps arbitrary: b)
    (auto simp: Let_def pausedAt_def zeroPlan_def split: RuntimeWorkflowStepStatus.split)

definition stepPlan :: "bool \<Rightarrow> string \<Rightarrow> RuntimeWorkflowStep \<Rightarrow> WorkflowStepTransition list" where
  "stepPlan y now step = pl_StepTransitions (planLoop [step] y now [])"

lemma planLoop_one:
  "planLoop steps y now [t] = (planLoop steps y now [])\<lparr>pl_StepTransitions := t # pl_StepTransitions (planLoop steps y now [])\<rparr>"
  using planLoop_append [of steps y now "[t]" "[]"] by (simp add: Let_def)

lemma planLoop_Cons:
  "planLoop (step # steps) y now [] =
     (if waits y step then pausedAt step (stepPlan y now step)
      else (planLoop steps y now [])\<lparr>pl_StepTransitions := stepPlan y now step @ pl_StepTransitions (planLoop steps y now [])\<rparr>)"
  by (cases "st_Status step") (simp_all add: waits_def stepPlan_def pausedAt_def zeroPlan_def planLoop_one)

declare planLoop.simps(2) [simp del]

lemmas stepPlan_cases = stepPlan_def planLoop.simps zeroPlan_def pausedAt_def

lemma stepPlan_ids: "t \<in> set (stepPlan y now step) \<Longrightarrow> tr_StepID t = st_ID step"
  by (auto simp: stepPlan_cases split: RuntimeWorkflowStepStatus.splits if_splits)

lemma plan_ids: "t \<in> set (pl_StepTransitions (planLoop steps y now [])) \<Longrightarrow> tr_StepID t \<in> st_ID ` set steps"
proof (induction steps)
  case (Cons s steps)
  then show ?case using stepPlan_ids [of t y now s] by (auto simp: planLoop_Cons pausedAt_def zeroPlan_def split: if_splits)
qed (simp add: zeroPlan_def)

lemma patchStep_id [simp]: "st_ID (patchStep p step) = st_ID step"
  by (simp add: patchStep_def)

lemma patchFirst_ids [simp]: "map st_ID (patchFirst t steps) = map st_ID steps"
  by (induction steps) auto

lemma applyAll_ids [simp]: "map st_ID (applyAll ts steps) = map st_ID steps"
  by (induction ts arbitrary: steps) (auto simp: applyAll_def)

lemma applyAll_simps [simp]:
  "applyAll [] steps = steps" "applyAll (t # ts) steps = applyAll ts (patchFirst t steps)"
  "applyAll (ts @ us) steps = applyAll us (applyAll ts steps)"
  by (simp_all add: applyAll_def)

lemma applyAll_here:
  "\<forall>t\<in>set ts. tr_StepID t = st_ID step \<Longrightarrow>
   applyAll ts (step # steps) = fold (\<lambda>t. patchStep (tr_Patch t)) ts step # steps"
  by (induction ts arbitrary: step) auto

lemma applyAll_below:
  "\<forall>t\<in>set ts. tr_StepID t \<noteq> st_ID step \<Longrightarrow> applyAll ts (step # steps) = step # applyAll ts steps"
  by (induction ts arbitrary: steps) auto

text \<open>The transitions of one step leave it waiting, or completed; nothing is planned for it again.\<close>

lemma stepPlan_short: "length (stepPlan y now step) \<le> 1"
  by (auto simp: stepPlan_cases split: RuntimeWorkflowStepStatus.split)

lemma stepPlan_status:
  "st_Status (fold (\<lambda>t. patchStep (tr_Patch t)) (stepPlan y now step) step) =
     (if waits y step then StepStatusWaitingUserApr else completed_status step)"
  by (auto simp: stepPlan_cases waits_def completed_status_def donePatch_def patchStep_def zeroPatch_def
      split: RuntimeWorkflowStepStatus.split)

lemma fold_patch_id [simp]: "st_ID (fold (\<lambda>t. patchStep (tr_Patch t)) ts step) = st_ID step"
  by (induction ts arbitrary: step) auto

lemma settled_Cons:
  "settled y (step # steps) =
     (if waits y step then StepStatusWaitingUserApr # map st_Status steps else completed_status step # settled y steps)"
  by (simp add: settled_def)

lemma plan_settles:
  "distinct (map st_ID steps) \<Longrightarrow>
   map st_Status (applyAll (pl_StepTransitions (planLoop steps y now [])) steps) = settled y steps"
proof (induction steps)
  case (Cons s steps)
  let ?here = "fold (\<lambda>t. patchStep (tr_Patch t)) (stepPlan y now s) s"
  have here: "applyAll (stepPlan y now s) (s # steps) = ?here # steps"
    using stepPlan_ids by (intro applyAll_here) blast
  have below: "applyAll (pl_StepTransitions (planLoop steps y now [])) (?here # steps) =
      ?here # applyAll (pl_StepTransitions (planLoop steps y now [])) steps"
  proof (intro applyAll_below ballI)
    fix t assume "t \<in> set (pl_StepTransitions (planLoop steps y now []))"
    then have "tr_StepID t \<in> st_ID ` set steps" by (rule plan_ids)
    with Cons.prems show "tr_StepID t \<noteq> st_ID ?here" by auto
  qed
  from Cons here below stepPlan_status [of y now s] show ?case
    by (simp add: planLoop_Cons settled_Cons pausedAt_def zeroPlan_def)
qed (simp add: zeroPlan_def settled_def)

lemma plan_outcome:
  "pl_RunStatus (planLoop steps y now []) = (if \<exists>s\<in>set steps. waits y s then RunStatusEngineRunning else RunStatusEngineDone)"
  "pl_PausedStepID (planLoop steps y now []) = (case find (waits y) steps of None \<Rightarrow> '''' | Some g \<Rightarrow> st_ID g)"
  by (induction steps) (auto simp: planLoop_Cons pausedAt_def zeroPlan_def simp del: planLoop.simps(2))

text \<open>Stopping anywhere in a plan does not change what the run settles in.\<close>

lemma settled_after_patch:
  fixes k :: nat and now :: string and y :: bool and s :: RuntimeWorkflowStep
  defines "s' \<equiv> fold (\<lambda>t. patchStep (tr_Patch t)) (take k (stepPlan y now s)) s"
  shows "waits y s' = waits y s" and "completed_status s' = completed_status s"
proof -
  have "take k (stepPlan y now s) = [] \<or> take k (stepPlan y now s) = stepPlan y now s"
    using stepPlan_short [of y now s] by (cases k) auto
  moreover have "waits y (fold (\<lambda>t. patchStep (tr_Patch t)) (stepPlan y now s) s) = waits y s"
    "completed_status (fold (\<lambda>t. patchStep (tr_Patch t)) (stepPlan y now s) s) = completed_status s"
    by (auto simp: stepPlan_cases waits_def completed_status_def donePatch_def patchStep_def zeroPatch_def
      split: RuntimeWorkflowStepStatus.split)
  ultimately show "waits y s' = waits y s" and "completed_status s' = completed_status s"
    by (auto simp: s'_def)
qed

lemma partial_plan_settles:
  "distinct (map st_ID steps) \<Longrightarrow>
   settled y (applyAll (take k (pl_StepTransitions (planLoop steps y now []))) steps) = settled y steps"
proof (induction steps arbitrary: k)
  case (Cons s steps)
  let ?ts = "stepPlan y now s" and ?us = "pl_StepTransitions (planLoop steps y now [])"
  let ?here = "fold (\<lambda>t. patchStep (tr_Patch t)) (take k ?ts) s"
  have here: "applyAll (take k ?ts) (s # steps) = ?here # steps"
    using stepPlan_ids by (intro applyAll_here) (blast dest: in_set_takeD)
  have below: "applyAll (take n ?us) (?here # steps) = ?here # applyAll (take n ?us) steps" for n
  proof (intro applyAll_below ballI)
    fix t assume "t \<in> set (take n ?us)"
    then have "tr_StepID t \<in> st_ID ` set steps" by (blast dest: in_set_takeD plan_ids)
    with Cons.prems show "tr_StepID t \<noteq> st_ID ?here" by auto
  qed
  note same = settled_after_patch [where y = y and k = k and now = now and s = s]
  from Cons here below same show ?case
    by (auto simp: planLoop_Cons settled_Cons pausedAt_def zeroPlan_def)
qed (simp add: zeroPlan_def)

lemma full_plan_settles:
  "distinct (map st_ID steps) \<Longrightarrow> settled y (applyAll (pl_StepTransitions (planLoop steps y now [])) steps) = settled y steps"
  using partial_plan_settles [of steps y "length (pl_StepTransitions (planLoop steps y now []))" now] by simp

lemma settled_waits: "(\<exists>s\<in>set steps. waits y s) \<longleftrightarrow> StepStatusWaitingUserApr \<in> set (settled y steps)"
proof (induction steps)
  case (Cons s steps)
  then show ?case by (auto simp: settled_Cons completed_status_def)
qed (simp add: settled_def)

section \<open>The store interface\<close>

text \<open>
  What the orchestrator relies on: a load answers the stored steps, a transition either patches
  the steps of its run or, when it reports an error, may have been dropped, and the other calls
  leave the steps alone. No call touches the steps of another run.
\<close>

locale workflow_store =
  fixes ops :: "'s WorkflowStore" and steps_of :: "'s \<Rightarrow> string \<Rightarrow> RuntimeWorkflowStep list"
    and status_of :: "'s \<Rightarrow> string \<Rightarrow> WorkflowRunStatus option"
  assumes load_law: "wo_LoadRunSteps ops r s = (x, s') \<Longrightarrow>
      steps_of s' = steps_of s \<and> (case x of Inl e \<Rightarrow> True | Inr steps \<Rightarrow> steps = steps_of s r)"
    and apply_law: "wo_ApplyStepTransition ops r t s = (e, s') \<Longrightarrow>
      steps_of s' = (steps_of s)(r := patchFirst t (steps_of s r)) \<or> e \<noteq> None \<and> steps_of s' = steps_of s"
    and status_law: "wo_SetRunStatus ops r st fin s = (e, s') \<Longrightarrow>
      steps_of s' = steps_of s \<and> (e = None \<longrightarrow> status_of s' r = Some st)"
    and log_law: "wo_AppendLog ops i l s = (e, s') \<Longrightarrow> steps_of s' = steps_of s"
begin

lemma logs_keep: "progressLogs ops i ls s = (e, s') \<Longrightarrow> steps_of s' = steps_of s"
  by (induction ls arbitrary: s) (auto split: prod.splits option.splits dest: log_law)

lemma steps_prefix:
  "progressSteps ops r ts s = (e, s') \<Longrightarrow>
   \<exists>k. steps_of s' = (steps_of s)(r := applyAll (take k ts) (steps_of s r)) \<and> (e = None \<longrightarrow> k = length ts)"
proof (induction ts arbitrary: s)
  case (Cons t ts)
  obtain e1 s1 where a: "wo_ApplyStepTransition ops r t s = (e1, s1)" by fastforce
  obtain e2 s2 where l: "progressLogs ops (tr_StepID t) (tr_Logs t) s1 = (e2, s2)" by fastforce
  from logs_keep [OF l] have s2: "steps_of s2 = steps_of s1" .
  consider "e1 \<noteq> None" | "e1 = None" "e2 \<noteq> None" | "e1 = None" "e2 = None" by blast
  then show ?case
  proof cases
    case 1
    with Cons.prems a have e: "e \<noteq> None" "s' = s1" by auto
    from apply_law [OF a] show ?thesis
    proof
      assume "steps_of s1 = (steps_of s)(r := patchFirst t (steps_of s r))"
      with e show ?thesis by (intro exI [of _ 1]) auto
    next
      assume "e1 \<noteq> None \<and> steps_of s1 = steps_of s"
      with e show ?thesis by (intro exI [of _ 0]) auto
    qed
  next
    case 2
    with Cons.prems a l s2 apply_law [OF a] show ?thesis by (auto intro!: exI [of _ 1])
  next
    case 3
    with Cons.prems a l have "progressSteps ops r ts s2 = (e, s')" by simp
    from Cons.IH [OF this] obtain k where k:
      "steps_of s' = (steps_of s2)(r := applyAll (take k ts) (steps_of s2 r))" "e = None \<longrightarrow> k = length ts" by blast
    with 3 s2 apply_law [OF a] show ?thesis by (auto intro!: exI [of _ "Suc k"])
  qed
qed simp

lemma progress_prefix:
  assumes "Progress ops now r y s = ((p, e), s')"
  shows "\<exists>k. steps_of s' = (steps_of s)(r := applyAll (take k (pl_StepTransitions (planLoop (steps_of s r) y now []))) (steps_of s r)) \<and>
     (e = None \<longrightarrow> k = length (pl_StepTransitions (planLoop (steps_of s r) y now [])))"
proof -
  obtain x s1 where l: "wo_LoadRunSteps ops r s = (x, s1)" by fastforce
  show ?thesis
  proof (cases x)
    case (Inl er)
    with assms l load_law [OF l] show ?thesis by (auto simp: Progress_def intro: exI [of _ 0])
  next
    case (Inr steps)
    with load_law [OF l] have s1: "steps = steps_of s r" "steps_of s1 = steps_of s" by simp_all
    obtain e2 s2 where p: "progressSteps ops r (pl_StepTransitions (planLoop steps y now [])) s1 = (e2, s2)" by fastforce
    from steps_prefix [OF p] obtain k where k:
      "steps_of s2 = (steps_of s1)(r := applyAll (take k (pl_StepTransitions (planLoop steps y now []))) (steps_of s1 r))"
      "e2 = None \<longrightarrow> k = length (pl_StepTransitions (planLoop steps y now []))" by blast
    from assms l Inr p have "steps_of s' = steps_of s2 \<and> (e = None \<longrightarrow> e2 = None)"
      by (auto simp: Progress_def PlanWorkflowProgress_def Let_def split: option.splits prod.splits dest: status_law)
    with k s1 show ?thesis by auto
  qed
qed

lemma progress_status:
  assumes "Progress ops now r y s = ((p, None), s')"
  shows "status_of s' r = Some (if \<exists>x\<in>set (steps_of s r). waits y x then RunStatusEngineRunning else RunStatusEngineDone)"
proof -
  obtain x s1 where l: "wo_LoadRunSteps ops r s = (x, s1)" by fastforce
  with assms obtain steps where x: "x = Inr steps" by (cases x) (auto simp: Progress_def)
  with load_law [OF l] have "steps = steps_of s r" by simp
  with assms l x plan_outcome(1) [of "steps_of s r" y now] show ?thesis
    by (auto simp: Progress_def PlanWorkflowProgress_def Let_def split del: if_split split: option.splits prod.splits dest: status_law)
qed

lemma progress_settled:
  assumes "Progress ops now r y s = ((p, e), s')" and "distinct (map st_ID (steps_of s r))"
  shows "settled y (steps_of s' r) = settled y (steps_of s r)" and "distinct (map st_ID (steps_of s' r))"
    and "e = None \<longrightarrow> map st_Status (steps_of s' r) = settled y (steps_of s r)"
    and "q \<noteq> r \<Longrightarrow> steps_of s' q = steps_of s q"
  using progress_prefix [OF assms(1)] partial_plan_settles [OF assms(2)] full_plan_settles [OF assms(2)]
    plan_settles [OF assms(2)] assms(2) by auto

lemma progress_calls_distinct:
  assumes "\<forall>q. distinct (map st_ID (steps_of s q))"
  shows "distinct (map st_ID (steps_of (progressCalls ops calls s) r))"
  using assms
proof (induction calls arbitrary: s)
  case (Cons c calls)
  obtain now q z where c: "c = (now, q, z)" by (cases c) auto
  obtain p e s' where P: "Progress ops now q z s = ((p, e), s')" by (cases "Progress ops now q z s") auto
  note q = progress_settled [OF P spec [OF Cons.prems]]
  have "distinct (map st_ID (steps_of s' u))" for u
    using q(2,4) Cons.prems by (cases "u = q") auto
  with Cons.IH [of s'] c P show ?case by simp
qed simp

lemma progress_calls_settled:
  assumes "\<forall>q. distinct (map st_ID (steps_of s q))" and "\<forall>c\<in>set calls. fst (snd c) = r \<longrightarrow> snd (snd c) = y"
  shows "settled y (steps_of (progressCalls ops calls s) r) = settled y (steps_of s r) \<and>
     distinct (map st_ID (steps_of (progressCalls ops calls s) r))"
  using assms
proof (induction calls arbitrary: s)
  case (Cons c calls)
  obtain now q z where c: "c = (now, q, z)" by (cases c) auto
  obtain p e s' where P: "Progress ops now q z s = ((p, e), s')" by (cases "Progress ops now q z s") auto
  note q = progress_settled [OF P spec [OF Cons.prems(1)]]
  have keep: "distinct (map st_ID (steps_of s' u))" for u
    using q(2,4) Cons.prems(1) by (cases "u = q") auto
  have "settled y (steps_of s' r) = settled y (steps_of s r)"
    using q(1,4) Cons.prems(2) c by (cases "q = r") auto
  with Cons.IH [of s'] Cons.prems(2) keep c P show ?case by simp
qed simp

end

section \<open>The in-memory store provides it\<close>

interpretation fake: workflow_store fakeStore fw_steps fw_runStatus
  by unfold_locales
    (auto simp: fakeStore_def LoadRunSteps_def ApplyStepTransition_def SetRunStatus_def AppendLog_def)

lemma faulty_cases:
  obtains (kept) e fs where "faulty upd s = (Some e, fst s, fs)" | (failed) e fs where "faulty upd s = (Some e, upd (fst s), fs)"
  | (applied) fs where "faulty upd s = (None, upd (fst s), fs)"
proof (cases s)
  case (Pair f fs)
  show thesis
  proof (cases "fs = [] \<or> hd fs = None")
    case True
    with Pair have "faulty upd s = (None, upd (fst s), tl fs)" by (cases fs) (auto simp: faulty_def)
    then show ?thesis by (rule applied)
  next
    case False
    then obtain b e gs where "fs = Some (b, e) # gs" by (cases fs) auto
    with Pair have "faulty upd s = (Some e, if b then upd (fst s) else fst s, gs)" by (simp add: faulty_def)
    then show ?thesis by (cases b) (auto intro: kept failed)
  qed
qed

interpretation remote: workflow_store remoteStore "\<lambda>s. fw_steps (fst s)" "\<lambda>s. fw_runStatus (fst s)"
proof unfold_locales
  fix r s x s'
  assume "wo_LoadRunSteps remoteStore r s = (x, s')"
  then show "fw_steps (fst s') = fw_steps (fst s) \<and> (case x of Inl e \<Rightarrow> True | Inr steps \<Rightarrow> steps = fw_steps (fst s) r)"
    by (cases rule: faulty_cases [of id s]) (auto simp: remoteStore_def LoadRunSteps_def)
next
  fix r t s e s'
  assume "wo_ApplyStepTransition remoteStore r t s = (e, s')"
  then show "fw_steps (fst s') = (fw_steps (fst s))(r := patchFirst t (fw_steps (fst s) r)) \<or>
      e \<noteq> None \<and> fw_steps (fst s') = fw_steps (fst s)"
    by (cases rule: faulty_cases [of "ApplyStepTransition r t" s]) (auto simp: remoteStore_def ApplyStepTransition_def)
next
  fix r st fin s e s'
  assume "wo_SetRunStatus remoteStore r st fin s = (e, s')"
  then show "fw_steps (fst s') = fw_steps (fst s) \<and> (e = None \<longrightarrow> fw_runStatus (fst s') r = Some st)"
    by (cases rule: faulty_cases [of "SetRunStatus r st fin" s]) (auto simp: remoteStore_def SetRunStatus_def)
next
  fix i l s e s'
  assume "wo_AppendLog remoteStore i l s = (e, s')"
  then show "fw_steps (fst s') = fw_steps (fst s)"
    by (cases rule: faulty_cases [of "AppendLog i l" s]) (auto simp: remoteStore_def AppendLog_def)
qed

section \<open>Properties\<close>

text \<open>
  C17: A plan settles its run: applying the transitions of \<open>PlanWorkflowProgress\<close>
  to steps with distinct ids completes every step before the first one that waits for an
  approval, leaves that one waiting and the later ones alone; the plan pauses at that step, and
  reports the run done iff no step waits.
\<close>

theorem plan_settles_run:
  assumes "distinct (map st_ID steps)"
  shows "map st_Status (applyAll (pl_StepTransitions (PlanWorkflowProgress steps y now)) steps) = settled y steps \<and>
     pl_RunStatus (PlanWorkflowProgress steps y now) =
       (if \<exists>s\<in>set steps. waits y s then RunStatusEngineRunning else RunStatusEngineDone) \<and>
     pl_PausedStepID (PlanWorkflowProgress steps y now) =
       (case find (waits y) steps of None \<Rightarrow> '''' | Some g \<Rightarrow> st_ID g)"
  using plan_settles [OF assms] plan_outcome by (simp add: PlanWorkflowProgress_def)

text \<open>
  C18: Progress converges: over any store that keeps the interface, so one whose failing calls either took
  effect or not, and whose step ids are distinct, after any sequence of \<open>Progress\<close> calls on any runs,
  successful or cut off anywhere, the next call that succeeds leaves the statuses that the rows before it
  settle in and the run status that belongs to them. When all calls on the run were made in the YOLO mode
  of that call, these are the statuses and the run status the run would have settled in from the start.
\<close>

theorem progress_converges:
  fixes ops :: "'s WorkflowStore"
  assumes "workflow_store ops steps_of status_of"
    and "\<forall>q. distinct (map st_ID (steps_of s q))"
    and t: "t = progressCalls ops calls s"
    and "Progress ops now r y t = ((p, None), s')"
  shows "map st_Status (steps_of s' r) = settled y (steps_of t r) \<and>
     status_of s' r = Some (if \<exists>x\<in>set (steps_of t r). waits y x then RunStatusEngineRunning else RunStatusEngineDone) \<and>
     ((\<forall>c\<in>set calls. fst (snd c) = r \<longrightarrow> snd (snd c) = y) \<longrightarrow>
        map st_Status (steps_of s' r) = settled y (steps_of s r) \<and>
        status_of s' r = Some (if \<exists>x\<in>set (steps_of s r). waits y x then RunStatusEngineRunning else RunStatusEngineDone))"
proof -
  note laws = workflow_store.progress_calls_distinct [OF assms(1)] workflow_store.progress_settled(3) [OF assms(1)]
    workflow_store.progress_status [OF assms(1)] workflow_store.progress_calls_settled [OF assms(1)]
  have "distinct (map st_ID (steps_of t r))"
    unfolding t by (rule laws(1) [OF assms(2)])
  note now = laws(2) [OF assms(4) this] laws(3) [OF assms(4)]
  have "settled y (steps_of t r) = settled y (steps_of s r)" if "\<forall>c\<in>set calls. fst (snd c) = r \<longrightarrow> snd (snd c) = y"
    unfolding t using laws(4) [OF assms(2) that] by simp
  with now settled_waits [of "steps_of t r" y] settled_waits [of "steps_of s r" y] show ?thesis
    by simp
qed

section \<open>Witnesses\<close>

definition demo_step :: "string \<Rightarrow> bool \<Rightarrow> RuntimeWorkflowStep" where
  "demo_step i approval =
     \<lparr>st_ID = i, st_StepType = ''code'', st_Status = StepStatusPending, st_RequiresApproval = approval, st_StartedAt = '''',
      st_FinishedAt = '''', st_RetryCount = 0, st_RejectionNote = '''', st_BehaviorID = '''', st_NodeID = '''',
      st_AgentRef = '''', st_Provider = '''', st_Model = '''', st_YoloMode = False\<rparr>"

definition demo_steps :: "RuntimeWorkflowStep list" where
  "demo_steps = [demo_step ''a'' False, demo_step ''b'' True, demo_step ''c'' False]"

lemma demo_steps_facts:
  "map st_ID demo_steps = [''a'', ''b'', ''c'']" "settled False demo_steps = [StepStatusDone, StepStatusWaitingUserApr, StepStatusPending]"
  by (simp_all add: demo_steps_def demo_step_def settled_def waits_def completed_status_def)

lemma plan_settles_run_witness:
  "map st_Status (applyAll (pl_StepTransitions (PlanWorkflowProgress demo_steps False ''t'')) demo_steps) =
     [StepStatusDone, StepStatusWaitingUserApr, StepStatusPending]"
  using plan_settles_run [of demo_steps False "''t''"] by (simp add: demo_steps_facts)

definition demo_remote :: "fakeWorkflowStore \<times> faults" where
  "demo_remote =
     (\<lparr>fw_steps = (\<lambda>r. if r = ''run-1'' then demo_steps else []), fw_runStatus = Map.empty, fw_finished = Map.empty,
       fw_logs = (\<lambda>i. []), fw_applies = 0\<rparr>, [None, None, Some (False, ''timeout'')])"

text \<open>The first call patches the first step and fails to log it; the second one succeeds.\<close>

lemma demo_remote_steps:
  "fw_steps (fst demo_remote) = (\<lambda>r. if r = ''run-1'' then demo_steps else [])"
  by (simp add: demo_remote_def)

lemma demo_progress:
  "\<exists>p e s1 q s2. Progress remoteStore ''t1'' ''run-1'' False demo_remote = ((p, Some e), s1) \<and>
     Progress remoteStore ''t2'' ''run-1'' False s1 = ((q, None), s2)"
  by (simp add: demo_remote_def demo_steps_def demo_step_def Progress_def remoteStore_def faulty_def LoadRunSteps_def
      PlanWorkflowProgress_def planLoop.simps ApplyStepTransition_def AppendLog_def SetRunStatus_def pausedAt_def zeroPlan_def
      donePatch_def zeroPatch_def patchStep_def startedOrNow_def Let_def)

lemma progress_converges_witness:
  "\<exists>p e s1 q s2. Progress remoteStore ''t1'' ''run-1'' False demo_remote = ((p, Some e), s1) \<and>
     Progress remoteStore ''t2'' ''run-1'' False s1 = ((q, None), s2) \<and>
     map st_Status (fw_steps (fst s2) ''run-1'') = [StepStatusDone, StepStatusWaitingUserApr, StepStatusPending]"
proof -
  obtain p e s1 q s2 where r: "Progress remoteStore ''t1'' ''run-1'' False demo_remote = ((p, Some e), s1)"
    "Progress remoteStore ''t2'' ''run-1'' False s1 = ((q, None), s2)" using demo_progress by blast
  have "Progress remoteStore ''t2'' ''run-1'' False
      (progressCalls remoteStore [(''t1'', ''run-1'', False)] demo_remote) = ((q, None), s2)" using r by simp
  moreover have "\<forall>q. distinct (map st_ID (fw_steps (fst demo_remote) q))"
    by (simp add: demo_remote_steps demo_steps_facts)
  ultimately have "map st_Status (fw_steps (fst s2) ''run-1'') = settled False (fw_steps (fst demo_remote) ''run-1'')"
    using progress_converges [OF remote.workflow_store_axioms _ refl, of demo_remote "''t2''" "''run-1''" False
        "[(''t1'', ''run-1'', False)]"] by auto
  then have m: "map st_Status (fw_steps (fst s2) ''run-1'') = [StepStatusDone, StepStatusWaitingUserApr, StepStatusPending]"
    by (simp add: demo_remote_steps demo_steps_facts)
  show ?thesis by (intro exI conjI) (rule r(1), rule r(2), rule m)
qed

end
