(* ===== verification/Gate_Rules.thy ===== *)
theory Gate_Rules
  imports Go_Text
begin

text \<open>
  The flow gate's rules, its verdict and its routing: \<open>flowgate/rules.go\<close>,
  \<open>flowgate/enforce.go\<close>, \<open>flowgate/precedence.go\<close>, the rule sets of
  \<open>flowgate/r_requirement.go\<close>, \<open>flowgate/reproduce_rule.go\<close>,
  \<open>flowgate/scaffold_red_rule.go\<close> and \<open>flowgate/signature_lock_rule.go\<close>, and the classifier of
  \<open>runner/vibe_gate.go\<close>. A settings file is what \<open>json.Unmarshal\<close> made of it.
\<close>

section \<open>Rules and violations\<close>

record Rule =
  rl_ID :: string
  rl_Scope :: string
  rl_Trigger :: string
  rl_RequiredOutput :: string
  rl_Action :: string
  rl_Enabled :: bool

record Violation =
  vi_Rule :: Rule
  vi_Detail :: string
  vi_SourceDocID :: string
  vi_Declared :: bool
  vi_Options :: "string list"
  vi_RegressedTests :: "string list"

definition violation :: "Rule \<Rightarrow> string \<Rightarrow> Violation" where
  "violation r detail =
     \<lparr>vi_Rule = r, vi_Detail = detail, vi_SourceDocID = '''', vi_Declared = False, vi_Options = [],
      vi_RegressedTests = []\<rparr>"

definition step_rule :: "string \<Rightarrow> string \<Rightarrow> string \<Rightarrow> string \<Rightarrow> Rule" where
  "step_rule i trigger output action =
     \<lparr>rl_ID = i, rl_Scope = ''step'', rl_Trigger = trigger, rl_RequiredOutput = output, rl_Action = action,
      rl_Enabled = True\<rparr>"

definition DocScopeRuleIDs :: "string list" where
  "DocScopeRuleIDs =
     [''r-ca'', ''r-fk'', ''r-bug'', ''r-task'', ''r-contract'', ''r-scope'', ''r-dod-present'', ''r-dod-complete'']"

definition TestRuleIDs :: "string list" where
  "TestRuleIDs = [''r-tests'', ''r-reg'']"

definition ArtifactRuleIDs :: "string list" where
  "ArtifactRuleIDs = [''r-artifact-output'', ''r-artifact-output-structure'', ''r-artifact-telegram-sent'']"

definition IsDocScopeRule :: "string \<Rightarrow> bool" where
  "IsDocScopeRule i \<longleftrightarrow> i \<in> set DocScopeRuleIDs"

definition IsArtifactRule :: "string \<Rightarrow> bool" where
  "IsArtifactRule i \<longleftrightarrow> i \<in> set ArtifactRuleIDs"

definition DefaultRules :: "Rule list" where
  "DefaultRules =
     [step_rule ''r-ca'' ''code_changed'' ''change_audit_note'' ''reprompt'',
      step_rule ''r-fk'' ''commit_feature_key_missing'' ''verified_feature_key'' ''reprompt'',
      step_rule ''r-bug'' ''bug_fixed'' ''bugfix_doc'' ''reprompt'',
      step_rule ''r-task'' ''task_referenced'' ''task_doc'' ''reprompt'',
      step_rule ''r-tests'' ''tests_failed'' ''tests_green_or_explained'' ''block'',
      step_rule ''r-reg'' ''regression_test_broke'' ''restore_green_without_weakening'' ''block'',
      step_rule ''r-dep'' ''removed_referenced_code'' ''confirm_or_update_callers'' ''block'',
      step_rule ''r-artifact-output'' ''required_artifact_output_missing'' ''file_artifact_paths'' ''reprompt'',
      step_rule ''r-artifact-output-structure'' ''required_artifact_output_structure_missing''
        ''file_artifact_structure'' ''reprompt'',
      step_rule ''r-artifact-telegram-sent'' ''required_telegram_send_missing'' ''telegram_message_id'' ''reprompt'',
      step_rule ''r-contract'' ''code_changed_no_contract'' ''declared_change_contract'' ''reprompt'',
      step_rule ''r-scope'' ''edit_outside_declared_scope'' ''confirm_or_revert_out_of_scope'' ''warn'',
      step_rule ''r-spec-drift'' ''governing_spec_changed'' ''reconcile_canonical_head'' ''warn'',
      step_rule ''r-code-drift'' ''code_diverged_from_intent'' ''reconcile_or_revert'' ''warn'',
      step_rule ''r-attach-spec'' ''governing_spec_added_to_spec_less''
        ''confirm_spec_matches_behavior_then_rebaseline'' ''approve'',
      step_rule ''r-retire'' ''feature_rename_merge_or_deprecate'' ''confirm_targets_then_retire'' ''approve'',
      step_rule ''r-newtest'' ''production_change_no_new_test'' ''new_additive_test_file'' ''reprompt'',
      step_rule ''r-additive-tests'' ''pre_existing_test_edited''
        ''additive_tests_only_or_user_approved_legacy_edit'' ''reprompt'',
      step_rule ''r-dod-present'' ''task_or_bug_doc_missing_dod'' ''definition_of_done_section'' ''reprompt'',
      step_rule ''r-dod-complete'' ''marked_done_with_open_dod'' ''dod_all_checked_or_explained'' ''block'']"

definition MergeDefaultRules :: "Rule list \<Rightarrow> Rule list" where
  "MergeDefaultRules loaded =
     (if loaded = [] then DefaultRules
      else loaded @
        filter (\<lambda>d. rl_ID d \<notin> set (filter (\<lambda>i. i \<noteq> '''') (map rl_ID loaded))) DefaultRules)"

text \<open>\<open>LoadRules\<close>: the file is missing, not readable, not a rule list, or a list.\<close>

datatype settings_file = FileMissing | FileError string | FileRules "Rule list"

fun LoadRules :: "settings_file \<Rightarrow> string + Rule list" where
  "LoadRules FileMissing = Inr DefaultRules"
| "LoadRules (FileError e) = Inl e"
| "LoadRules (FileRules rules) = Inr (MergeDefaultRules rules)"

section \<open>Rule sets of a turn\<close>

definition RequirementRuleID :: string where
  "RequirementRuleID = ''r-requirement''"

definition RequirementRule :: Rule where
  "RequirementRule = step_rule RequirementRuleID ''requirement_signature_drift'' ''reconcile_tests_with_ss'' ''block''"

definition ReproduceRuleID :: string where
  "ReproduceRuleID = ''r-reproduce''"

definition ReproduceRule :: Rule where
  "ReproduceRule = step_rule ReproduceRuleID ''reproduce_not_demonstrated'' ''reproducing_failing_test'' ''reprompt''"

definition ScaffoldRedRuleID :: string where
  "ScaffoldRedRuleID = ''r-scaffold-red''"

definition ScaffoldRedRule :: Rule where
  "ScaffoldRedRule = step_rule ScaffoldRedRuleID ''scaffold_not_red'' ''compiling_stubs_with_red_suite'' ''reprompt''"

definition SignatureLockRuleID :: string where
  "SignatureLockRuleID = ''r-signature-lock''"

definition SignatureLockRule :: Rule where
  "SignatureLockRule = step_rule SignatureLockRuleID ''signature_modified'' ''signatures_unchanged'' ''reprompt''"

definition hasRule :: "string \<Rightarrow> Rule list \<Rightarrow> bool" where
  "hasRule i rules \<longleftrightarrow> i \<in> set (map rl_ID rules)"

definition EnabledRulesFor :: "string \<Rightarrow> Rule list \<Rightarrow> Rule list" where
  "EnabledRulesFor workingMode base =
     (if workingMode = ''vibe''
      then (if hasRule RequirementRuleID base then base else base @ [RequirementRule])
      else filter (\<lambda>r. rl_ID r \<noteq> RequirementRuleID) base)"

definition EnabledReproduceRules :: "Rule list \<Rightarrow> bool \<Rightarrow> Rule list" where
  "EnabledReproduceRules base expected =
     (if \<not> expected \<or> hasRule ReproduceRuleID base then base else base @ [ReproduceRule])"

definition SuppressTestRules :: "Rule list \<Rightarrow> Rule list" where
  "SuppressTestRules base = filter (\<lambda>r. \<not> (rl_ID r = ''r-tests'' \<or> rl_ID r = ''r-reg'')) base"

definition EnabledScaffoldRules :: "Rule list \<Rightarrow> bool \<Rightarrow> Rule list" where
  "EnabledScaffoldRules base expected =
     (if \<not> expected then base
      else let filtered = SuppressTestRules base
           in if hasRule ScaffoldRedRuleID filtered then filtered else filtered @ [ScaffoldRedRule])"

definition EnabledSignatureLockRules :: "Rule list \<Rightarrow> bool \<Rightarrow> Rule list" where
  "EnabledSignatureLockRules base expected =
     (if \<not> expected \<or> hasRule SignatureLockRuleID base then base else base @ [SignatureLockRule])"

section \<open>Enforcement\<close>

record EnforceResult =
  en_Action :: string
  en_Violations :: "Violation list"
  en_Message :: string

definition actionSeverity :: "string \<Rightarrow> nat" where
  "actionSeverity a =
     (if a = ''warn'' then 1 else if a = ''reprompt'' then 2 else if a = ''block'' then 3 else 0)"

definition isAlwaysBlock :: "string \<Rightarrow> bool" where
  "isAlwaysBlock trigger \<longleftrightarrow> trigger \<in> {''regression_test_broke'', ''tests_failed'', ''requirement_signature_drift''}"

text \<open>The action of one violation under the gate mode.\<close>

definition effectiveAction :: "string \<Rightarrow> Violation \<Rightarrow> string" where
  "effectiveAction gateMode v =
     (let action = rl_Action (vi_Rule v)
      in if isAlwaysBlock (rl_Trigger (vi_Rule v)) then ''block''
         else if gateMode = ''warn'' then (if action = ''block'' \<or> action = ''reprompt'' then ''warn'' else action)
         else action)"

fun enforceLoop :: "string \<Rightarrow> Violation list \<Rightarrow> string \<Rightarrow> string list \<Rightarrow> string \<times> string list" where
  "enforceLoop gateMode [] highest details = (highest, details)"
| "enforceLoop gateMode (v # vs) highest details =
     (let action = effectiveAction gateMode v
      in enforceLoop gateMode vs (if actionSeverity highest < actionSeverity action then action else highest)
           (if vi_Detail v \<in> set details then details else details @ [vi_Detail v]))"

definition Enforce :: "Violation list \<Rightarrow> string \<Rightarrow> EnforceResult" where
  "Enforce violations gateMode =
     (if violations = [] then \<lparr>en_Action = ''pass'', en_Violations = [], en_Message = ''''\<rparr>
      else let (highest, details) = enforceLoop gateMode violations ''approve'' []
           in \<lparr>en_Action = highest, en_Violations = violations, en_Message = ''Flow gate: '' @
             Join details ''; ''\<rparr>)"

definition GateRepromptPrefix :: string where
  "GateRepromptPrefix =
     ''The flow gate is asking you to add a required document before this step can complete:''"

definition remediationFor :: "Violation \<Rightarrow> string" where
  "remediationFor v =
     (let trigger = rl_Trigger (vi_Rule v); doc = vi_SourceDocID v; detail = vi_Detail v in
      if trigger = ''bug_fixed'' then
        (if vi_Declared v then
           (if doc \<noteq> '''' then
              (bullet @ '' Missing BugFix document. This chat started in Bug mode, so the gate expects its BugFix doc even if the final message does not say \"bug fix\". Create a NEW file `requirements/09-BugFix/done/'') @ doc @
              (''-<short-title>.md` following the structure in `requirements/09-BugFix/FORMAT-REFERENCE-BUGFIX.md`. Do NOT edit the change-audit note to satisfy this '' @ emdash @ '' the BugFix document is a separate, required artifact.'')
            else
              (bullet @ '' Missing BugFix document. This chat started in Bug mode, so the gate expects its BugFix doc even if the final message does not say \"bug fix\". Create a NEW file `requirements/09-BugFix/done/BUG-<next-available>-<short-title>.md` (use the next available zero-padded BUG number) following the structure in `requirements/09-BugFix/FORMAT-REFERENCE-BUGFIX.md`. Do NOT edit the change-audit note to satisfy this '' @ emdash @ '' the BugFix document is a separate, required artifact.''))
         else
           (bullet @ '' Missing BugFix document. You fixed a bug but did not add its BugFix doc. Create a NEW file `requirements/09-BugFix/done/BUG-<NNN>.md` (use the next available zero-padded number) following the structure in `requirements/09-BugFix/FORMAT-REFERENCE-BUGFIX.md`. Do NOT edit the change-audit note to satisfy this '' @ emdash @ '' the BugFix document is a separate, required artifact.''))
      else if trigger = ''task_referenced'' then
        (if vi_Declared v then
           (if doc \<noteq> '''' then
              (bullet @ '' Missing Task document. This chat started in Task mode, so the gate expects its Task doc even if the final message does not mention a Task id. Create a NEW file `requirements/08-Task/done/'') @ doc @
              (''-<short-title>.md` following the structure in `requirements/08-Task/FORMAT-REFERENCE-TASK.md`. Do NOT edit the change-audit note to satisfy this '' @ emdash @ '' the Task document is a separate, required artifact.'')
            else
              (bullet @ '' Missing Task document. This chat started in Task mode, so the gate expects its Task doc even if the final message does not mention a Task id. Create a NEW file `requirements/08-Task/done/Task-<next-available>-<short-title>.md` (use the next available zero-padded Task number) following the structure in `requirements/08-Task/FORMAT-REFERENCE-TASK.md`. Do NOT edit the change-audit note to satisfy this '' @ emdash @ '' the Task document is a separate, required artifact.''))
         else
           (bullet @ '' Missing Task document. Your final message references a Task-NNN but you did not add its Task doc. Create a NEW file `requirements/08-Task/done/Task-<NNN>.md` (use the same Task number you referenced; use the next available zero-padded number if new) following the structure in `requirements/08-Task/FORMAT-REFERENCE-TASK.md`. Do NOT edit the change-audit note to satisfy this '' @ emdash @ '' the Task document is a separate, required artifact.''))
      else if trigger = ''code_changed'' then
        (bullet @ '' Missing change-audit note. You changed code but did not add a change-audit note. Create a NEW file `change-audit/CA-<NNN>.md` recording what changed and why.'')
      else if trigger = ''commit_feature_key_missing'' then
        (bullet @ '' Missing or unverified feature key. '') @
        (if vi_Options v \<noteq> [] then ''Suggested feature keys: '' @ Join (vi_Options v) '', '' @
          ''. '' else '''') @
        ''Use a verified key from `change-audit/FEATURE-KEYS.md`, or register a new one there first if none fits. Then update the commit subject to use `[Type][feature][layer?]` before retrying.''
      else if trigger = ''required_artifact_output_missing'' then
        (bullet @ '' Missing required file artifact output(s). '') @ detail @
        (''. Create or update each listed workspace-relative path with your tools now (this is a file_artifact.v1 OUTPUT write contract '' @ emdash @ '' chat text alone is not enough). Do not invent other paths; write exactly the bound artifact path(s).'')
      else if trigger = ''code_changed_no_contract'' then
        (bullet @ '' Missing Change Contract. Before your next edit, start your response with:'' @
          [CHR 0x0A, CHR 0x0A] @ ''  [Change Contract]'' @ [CHR 0x0A] @ ''  feature: <feature_key>'' @
          [CHR 0x0A] @ ''  intent: <one-line intended behavior change>'' @ [CHR 0x0A] @
          ''  files: <comma-separated paths you expect to touch>'' @ [CHR 0x0A, CHR 0x0A] @
          ''This does not block the current turn '' @ emdash @
          '' it lets the gate flag edits that land outside what you declared.'')
      else if trigger = ''required_artifact_output_structure_missing'' then
        (bullet @ '' Required file artifact structure incomplete. '') @ detail @
        (''. Update each listed existing file in place and add the missing markdown section headings (ATX headings such as `## SectionName` '' @ emdash @ '' level and casing may vary). Do not invent new paths; edit the bound artifact path(s) only.'')
      else if trigger = ''production_change_no_new_test'' then
        (bullet @ '' Missing new test coverage. You changed production code but did not ADD a new test file in this turn. Create a NEW `*_test.go` / `*.test.ts` file with a failing-or-asserting case derived from the acceptance criteria. Do NOT edit or delete existing tests to make the gate pass (oracle-rule / additive-tests-only).'')
      else if trigger = ''pre_existing_test_edited'' then
        (bullet @ '' '') @ detail @
        (''. safe-fix-contract / additive-tests-only / oracle-rule: do not modify legacy tests without user approval. 1. Revert edits to those files (git checkout / git restore). 2. Add NEW regression tests in a new file (or new cases in a new file only). 3. Fix production code so old + new tests pass. 4. If an old test is truly wrong vs AC: stop and ask the user '' @ emdash @ '' do not silent-edit. Do NOT edit change-audit solely to dismiss this rule.'')
      else if trigger = ''reproduce_not_demonstrated'' then
        (bullet @ '' Reproduce-first gate: '') @ detail @
        ''. Write (or fix) ONE new test file that reproduces the reported bug and run the test suite yourself before finishing this turn. The gate only passes when the suite COMPILES and the new test FAILS on its assertion (expected X, got Y). Do not touch production code yet, do not weaken or edit existing tests, and do not delete the failing assertion to make the suite green.''
      else (bullet @ '' '') @ detail)"

definition RepromptPrompt :: "EnforceResult \<Rightarrow> string" where
  "RepromptPrompt result =
     (let parts = map remediationFor (filter (\<lambda>v. rl_Action (vi_Rule v) = ''reprompt'') (en_Violations result))
      in if parts = [] then en_Message result
         else GateRepromptPrefix @ [CHR 0x0A, CHR 0x0A] @ Join parts [CHR 0x0A, CHR 0x0A] @
              ([CHR 0x0A, CHR 0x0A] @
                ''Create the file(s) above now. The gate re-checks automatically after your next turn.''))"

section \<open>Precedence\<close>

definition PrecedenceRouteNone :: string where
  "PrecedenceRouteNone = ''''"

definition PrecedenceRouteUser :: string where
  "PrecedenceRouteUser = ''user''"

definition PrecedenceRouteOwnerDebate :: string where
  "PrecedenceRouteOwnerDebate = ''owner_debate''"

definition VibeDriftDebateThreshold :: int where
  "VibeDriftDebateThreshold = 80"

record PrecedenceResult =
  pr_Route :: string
  pr_Action :: string
  pr_Ordered :: "Violation list"
  pr_AllowContextPruning :: bool
  pr_DriftRouted :: bool

definition IsRequirementViolation :: "Violation \<Rightarrow> bool" where
  "IsRequirementViolation v \<longleftrightarrow>
     rl_ID (vi_Rule v) = RequirementRuleID \<or> rl_Trigger (vi_Rule v) = ''requirement_signature_drift''"

definition IsDODCompleteViolation :: "Violation \<Rightarrow> bool" where
  "IsDODCompleteViolation v \<longleftrightarrow>
     rl_ID (vi_Rule v) = ''r-dod-complete'' \<or> rl_Trigger (vi_Rule v) = ''marked_done_with_open_dod''"

definition ResolvePrecedence :: "Violation list \<Rightarrow> string \<Rightarrow> int \<Rightarrow> bool \<Rightarrow> PrecedenceResult" where
  "ResolvePrecedence violations workingMode driftScore isOwnerDebateTurn =
     (let requirement = filter IsRequirementViolation violations;
          debatable = filter (\<lambda>v. \<not> IsRequirementViolation v) violations;
          dod = filter IsDODCompleteViolation debatable;
          others = filter (\<lambda>v. \<not> IsDODCompleteViolation v) debatable;
          hasBlock = list_ex (\<lambda>v. rl_Action (vi_Rule v) = ''block'') debatable;
          hasReprompt = list_ex (\<lambda>v. rl_Action (vi_Rule v) = ''reprompt'') debatable;
          res = \<lparr>pr_Route = PrecedenceRouteNone, pr_Action = '''', pr_Ordered = dod @ others @
            requirement,
                 pr_AllowContextPruning = (\<not> isOwnerDebateTurn), pr_DriftRouted = False\<rparr>
      in if requirement \<noteq> [] then res\<lparr>pr_Route := PrecedenceRouteUser, pr_Action := ''block''\<rparr>
         else if workingMode = ''vibe'' then
           (if \<not> isOwnerDebateTurn \<and> driftScore \<ge> VibeDriftDebateThreshold
            then res\<lparr>pr_Route := PrecedenceRouteOwnerDebate, pr_Action := ''block'', pr_DriftRouted := True,
                     pr_AllowContextPruning := False\<rparr>
            else if hasBlock \<or> hasReprompt
            then res\<lparr>pr_Route := PrecedenceRouteOwnerDebate,
                     pr_Action := (if hasBlock then ''block'' else ''reprompt''),
                     pr_AllowContextPruning := False\<rparr>
            else res)
         else res)"

datatype vibeGateKind = vibeGatePassthrough | vibeGateRequirement | vibeGateOwnerDebate

definition classifyVibeGateWithDrift :: "string \<Rightarrow> EnforceResult \<Rightarrow> int \<Rightarrow> vibeGateKind" where
  "classifyVibeGateWithDrift mode result driftScore =
     (if mode \<noteq> ''vibe'' then vibeGatePassthrough
      else let res = ResolvePrecedence (en_Violations result) mode driftScore False
           in if \<not> pr_DriftRouted res \<and> en_Action result = ''warn'' then vibeGatePassthrough
              else if pr_Route res = PrecedenceRouteUser then vibeGateRequirement
              else if pr_Route res = PrecedenceRouteOwnerDebate then vibeGateOwnerDebate
              else vibeGatePassthrough)"

definition classifyVibeGate :: "string \<Rightarrow> EnforceResult \<Rightarrow> vibeGateKind" where
  "classifyVibeGate mode result = classifyVibeGateWithDrift mode result 0"

definition requirementDetail :: "EnforceResult \<Rightarrow> string" where
  "requirementDetail result =
     (case find (\<lambda>v. rl_ID (vi_Rule v) = RequirementRuleID \<and> vi_Detail v \<noteq> '''') (en_Violations result) of
        Some v \<Rightarrow> vi_Detail v
      | None \<Rightarrow> ''requirement signatures drifted from the locked SS'')"

section \<open>Properties of the verdict\<close>

lemma severity_block: "actionSeverity a = 3 \<longleftrightarrow> a = ''block''" "actionSeverity a \<le> 3"
  by (auto simp: actionSeverity_def)

lemma enforceLoop_source: "fst (enforceLoop m vs h ds) \<in> insert h (effectiveAction m ` set vs)"
proof (induction vs arbitrary: h ds)
  case (Cons v vs)
  let ?a = "effectiveAction m v"
  let ?h = "if actionSeverity h < actionSeverity ?a then ?a else h"
  let ?ds = "if vi_Detail v \<in> set ds then ds else ds @ [vi_Detail v]"
  have "?h = h \<or> ?h = ?a" by simp
  with Cons [of ?h ?ds] show ?case by (auto simp: Let_def simp del: if_split)
qed simp

lemma enforceLoop_highest:
  "actionSeverity h \<le> actionSeverity (fst (enforceLoop m vs h ds)) \<and>
   (\<forall>v\<in>set vs. actionSeverity (effectiveAction m v) \<le> actionSeverity (fst (enforceLoop m vs h ds)))"
proof (induction vs arbitrary: h ds)
  case (Cons v vs)
  let ?a = "effectiveAction m v"
  let ?h = "if actionSeverity h < actionSeverity ?a then ?a else h"
  let ?ds = "if vi_Detail v \<in> set ds then ds else ds @ [vi_Detail v]"
  have "actionSeverity h \<le> actionSeverity ?h" "actionSeverity ?a \<le> actionSeverity ?h" by auto
  with Cons [of ?h ?ds] show ?case by (auto simp: Let_def simp del: if_split intro: order_trans)
qed simp

lemma enforceLoop_details:
  "distinct ds \<Longrightarrow> distinct (snd (enforceLoop m vs h ds)) \<and> set (snd (enforceLoop m vs h ds)) = set ds \<union> vi_Detail ` set vs"
proof (induction vs arbitrary: h ds)
  case (Cons v vs)
  let ?ds = "if vi_Detail v \<in> set ds then ds else ds @ [vi_Detail v]"
  from Cons.prems have "distinct ?ds" "set ?ds = insert (vi_Detail v) (set ds)" by auto
  with Cons.IH [of ?ds] show ?case by (auto simp: Let_def simp del: if_split)
qed simp

lemma Enforce_action: "vs \<noteq> [] \<Longrightarrow> en_Action (Enforce vs m) = fst (enforceLoop m vs ''approve'' [])"
  by (simp add: Enforce_def split_beta)

lemma block_iff_severe: "a = ''block'' \<longleftrightarrow> 3 \<le> actionSeverity a"
  using severity_block [of a] by (metis le_antisym order_refl)

lemma enforceLoop_block:
  assumes "h \<noteq> ''block''"
  shows "fst (enforceLoop m vs h ds) = ''block'' \<longleftrightarrow> (\<exists>v\<in>set vs. effectiveAction m v = ''block'')"
proof
  assume "fst (enforceLoop m vs h ds) = ''block''"
  with assms enforceLoop_source [of m vs h ds] have "''block'' \<in> effectiveAction m ` set vs" by (metis insertE)
  then show "\<exists>v\<in>set vs. effectiveAction m v = ''block''" by (metis imageE)
next
  assume "\<exists>v\<in>set vs. effectiveAction m v = ''block''"
  then obtain v where "v \<in> set vs" "3 \<le> actionSeverity (effectiveAction m v)" by (auto simp only: block_iff_severe)
  with enforceLoop_highest [of h m vs ds] have "3 \<le> actionSeverity (fst (enforceLoop m vs h ds))"
    by (blast intro: order_trans)
  then show "fst (enforceLoop m vs h ds) = ''block''" by (simp only: block_iff_severe)
qed

lemma Enforce_blocks: "en_Action (Enforce vs m) = ''block'' \<longleftrightarrow> (\<exists>v\<in>set vs. effectiveAction m v = ''block'')"
proof (cases "vs = []")
  case False
  then show ?thesis unfolding Enforce_action [OF False] by (intro enforceLoop_block) simp
qed (simp add: Enforce_def)

lemma effective_block:
  "effectiveAction m v = ''block'' \<longleftrightarrow>
     isAlwaysBlock (rl_Trigger (vi_Rule v)) \<or> m \<noteq> ''warn'' \<and> rl_Action (vi_Rule v) = ''block''"
  by (simp add: effectiveAction_def Let_def)

lemma Enforce_details:
  "vs \<noteq> [] \<Longrightarrow> \<exists>ds. distinct ds \<and> set ds = vi_Detail ` set vs \<and> en_Message (Enforce vs m) = ''Flow gate: '' @ Join ds ''; ''"
  using enforceLoop_details [of "[]" m vs "''approve''"] by (auto simp: Enforce_def split_beta)

lemma Enforce_violations [simp]: "en_Violations (Enforce vs m) = vs"
  by (simp add: Enforce_def split_beta)

text \<open>The settlement class of a violation: checklists first, requirements last.\<close>

definition settlementRank :: "Violation \<Rightarrow> nat" where
  "settlementRank v = (if IsRequirementViolation v then 2 else if IsDODCompleteViolation v then 0 else 1)"

lemma sorted_class: "sorted (map f (filter (\<lambda>v. f v = (k :: nat)) xs))"
  by (induction xs) auto

lemma Ordered_ranks:
  "sorted (map settlementRank (pr_Ordered (ResolvePrecedence vs mode d t)))"
  "filter (\<lambda>v. settlementRank v = k) (pr_Ordered (ResolvePrecedence vs mode d t)) = filter (\<lambda>v. settlementRank v = k) vs"
proof -
  let ?dod = "filter (\<lambda>v. settlementRank v = 0) vs" and ?oth = "filter (\<lambda>v. settlementRank v = 1) vs"
    and ?req = "filter (\<lambda>v. settlementRank v = 2) vs"
  have "filter IsDODCompleteViolation (filter (\<lambda>v. \<not> IsRequirementViolation v) vs) = ?dod"
    "filter (\<lambda>v. \<not> IsDODCompleteViolation v) (filter (\<lambda>v. \<not> IsRequirementViolation v) vs) = ?oth"
    "filter IsRequirementViolation vs = ?req"
    by (auto simp: settlementRank_def intro!: filter_cong)
  then have o: "pr_Ordered (ResolvePrecedence vs mode d t) = ?dod @ ?oth @ ?req"
    by (simp add: ResolvePrecedence_def Let_def)
  show "sorted (map settlementRank (pr_Ordered (ResolvePrecedence vs mode d t)))"
    unfolding o by (auto simp: sorted_append sorted_class)
  show "filter (\<lambda>v. settlementRank v = k) (pr_Ordered (ResolvePrecedence vs mode d t)) = filter (\<lambda>v. settlementRank v = k) vs"
  proof -
    have "settlementRank v \<le> 2" for v by (simp add: settlementRank_def)
    then consider "k = 0" | "k = 1" | "k = 2" | "\<forall>v. settlementRank v \<noteq> k" by (metis le_numeral_Suc le_SucE le_0_eq One_nat_def numeral_2_eq_2)
    then show ?thesis unfolding o by cases (auto simp: filter_empty_conv intro!: filter_cong)
  qed
qed

lemma route_facts:
  defines "req \<equiv> (\<lambda>vs. \<exists>v\<in>set vs. IsRequirementViolation v)"
  shows "pr_Route (ResolvePrecedence vs mode d t) =
     (if req vs then PrecedenceRouteUser
      else if mode = ''vibe'' \<and> (\<not> t \<and> d \<ge> VibeDriftDebateThreshold \<or>
              (\<exists>v\<in>set vs. rl_Action (vi_Rule v) \<in> {''block'', ''reprompt''}))
      then PrecedenceRouteOwnerDebate else PrecedenceRouteNone)"
    and "pr_DriftRouted (ResolvePrecedence vs mode d t) \<longleftrightarrow>
      \<not> req vs \<and> mode = ''vibe'' \<and> \<not> t \<and> d \<ge> VibeDriftDebateThreshold"
    and "pr_AllowContextPruning (ResolvePrecedence vs mode d t) \<longleftrightarrow>
      \<not> t \<and> pr_Route (ResolvePrecedence vs mode d t) \<noteq> PrecedenceRouteOwnerDebate"
proof -
  have r: "filter IsRequirementViolation vs \<noteq> [] \<longleftrightarrow> req vs" by (auto simp: req_def filter_empty_conv)
  have b: "\<not> req vs \<Longrightarrow> list_ex P (filter (\<lambda>v. \<not> IsRequirementViolation v) vs) = (\<exists>v\<in>set vs. P v)" for P
    by (auto simp: req_def list_ex_iff)
  show "pr_Route (ResolvePrecedence vs mode d t) =
     (if req vs then PrecedenceRouteUser
      else if mode = ''vibe'' \<and> (\<not> t \<and> d \<ge> VibeDriftDebateThreshold \<or>
              (\<exists>v\<in>set vs. rl_Action (vi_Rule v) \<in> {''block'', ''reprompt''}))
      then PrecedenceRouteOwnerDebate else PrecedenceRouteNone)"
    using r b by (cases "req vs") (auto simp: ResolvePrecedence_def Let_def)
  show "pr_DriftRouted (ResolvePrecedence vs mode d t) \<longleftrightarrow>
      \<not> req vs \<and> mode = ''vibe'' \<and> \<not> t \<and> d \<ge> VibeDriftDebateThreshold"
    using r by (auto simp: ResolvePrecedence_def Let_def)
  show "pr_AllowContextPruning (ResolvePrecedence vs mode d t) \<longleftrightarrow>
      \<not> t \<and> pr_Route (ResolvePrecedence vs mode d t) \<noteq> PrecedenceRouteOwnerDebate"
    by (auto simp: ResolvePrecedence_def Let_def PrecedenceRouteUser_def PrecedenceRouteOwnerDebate_def PrecedenceRouteNone_def)
qed

lemma route_names [simp]:
  "PrecedenceRouteUser \<noteq> PrecedenceRouteOwnerDebate" "PrecedenceRouteUser \<noteq> PrecedenceRouteNone"
  "PrecedenceRouteOwnerDebate \<noteq> PrecedenceRouteUser" "PrecedenceRouteNone \<noteq> PrecedenceRouteUser"
  "PrecedenceRouteNone \<noteq> PrecedenceRouteOwnerDebate" "PrecedenceRouteOwnerDebate \<noteq> PrecedenceRouteNone"
  by (simp_all add: PrecedenceRouteUser_def PrecedenceRouteOwnerDebate_def PrecedenceRouteNone_def)

lemma drift_stops_at_user:
  assumes "v \<in> set vs" and "rl_Trigger (vi_Rule v) = ''requirement_signature_drift''"
  shows "classifyVibeGateWithDrift ''vibe'' (Enforce vs m) d = vibeGateRequirement"
proof -
  from assms(2) have "isAlwaysBlock (rl_Trigger (vi_Rule v))" "IsRequirementViolation v"
    by (simp_all add: isAlwaysBlock_def IsRequirementViolation_def)
  with assms(1) have "en_Action (Enforce vs m) = ''block''" "\<exists>v\<in>set vs. IsRequirementViolation v"
    using Enforce_blocks [of vs m] effective_block by blast+
  then show ?thesis by (simp add: classifyVibeGateWithDrift_def Let_def route_facts)
qed

section \<open>Properties\<close>

text \<open>
  The verdict is the most severe action: the action \<open>Enforce\<close> returns is
  \<open>approve\<close> or the effective action of a violation and at least as severe as all of
  them; it is \<open>block\<close> iff some violation always blocks or, outside warn mode,
  carries a block action; and the message lists every detail once.
\<close>

theorem enforce_verdict:
  assumes "vs \<noteq> []"
  shows "en_Action (Enforce vs m) \<in> insert ''approve'' (effectiveAction m ` set vs) \<and>
     (\<forall>v\<in>set vs. actionSeverity (effectiveAction m v) \<le> actionSeverity (en_Action (Enforce vs m))) \<and>
     (en_Action (Enforce vs m) = ''block'' \<longleftrightarrow>
       (\<exists>v\<in>set vs. isAlwaysBlock (rl_Trigger (vi_Rule v)) \<or> m \<noteq> ''warn'' \<and> rl_Action (vi_Rule v) = ''block'')) \<and>
     (\<exists>ds. distinct ds \<and> set ds = vi_Detail ` set vs \<and> en_Message (Enforce vs m) = ''Flow gate: '' @ Join ds ''; '')"
  using enforceLoop_source [of m vs "''approve''" "[]"] enforceLoop_highest [of "''approve''" m vs "[]"]
    Enforce_blocks [of vs m] Enforce_details [OF assms, of m]
  unfolding Enforce_action [OF assms] effective_block by blast

text \<open>
  The downgrade of a warn-mode gate (the comment in \<open>classifyVibeGateWithDrift\<close> and the change note CA-1086
  say that it covers requirement violations too) looks at the action that \<open>Enforce\<close> returned. The
  requirement rule has a trigger that always blocks, so \<open>Enforce\<close> never returns \<open>warn\<close> for it: a result
  made up with that action passes through, the one \<open>Enforce\<close> returns in warn mode does not.
\<close>

lemma warn_gate_still_blocks_drift:
  "classifyVibeGateWithDrift ''vibe'' \<lparr>en_Action = ''warn'', en_Violations = [violation RequirementRule x], en_Message = msg\<rparr> 0
     = vibeGatePassthrough"
  "en_Action (Enforce [violation RequirementRule x] ''warn'') = ''block''"
  "classifyVibeGateWithDrift ''vibe'' (Enforce [violation RequirementRule x] ''warn'') 0 = vibeGateRequirement"
proof -
  have r: "rl_Trigger (vi_Rule (violation RequirementRule x)) = ''requirement_signature_drift''"
    by (simp add: violation_def RequirementRule_def step_rule_def)
  then show "classifyVibeGateWithDrift ''vibe'' (Enforce [violation RequirementRule x] ''warn'') 0 = vibeGateRequirement"
    by (intro drift_stops_at_user) simp_all
  from r show "en_Action (Enforce [violation RequirementRule x] ''warn'') = ''block''"
    by (simp add: Enforce_blocks effective_block isAlwaysBlock_def)
qed (simp add: classifyVibeGateWithDrift_def Let_def route_facts VibeDriftDebateThreshold_def)

text \<open>
  C19: Precedence: \<open>ResolvePrecedence\<close> reorders the violations stably, checklists
  first and requirement-class last; a requirement violation always routes to the user; outside
  vibe mode the live classifier passes through; it starts an owner debate only when no
  requirement violation is present and the drift score or a blocking or reprompting violation
  calls for it. A result whose action is \<open>warn\<close> passes through unless the drift score alone routed it, so a
  requirement violation under it does as well; but the results of \<open>Enforce\<close> with a violation of the trigger
  \<open>requirement_signature_drift\<close> never have that action, and in vibe mode they stop at the user in every gate
  mode, the warn mode included, against what the comment in \<open>vibe_gate.go\<close> and CA-1086 intend.
\<close>

theorem precedence_contract:
  "sorted (map settlementRank (pr_Ordered (ResolvePrecedence vs mode d t))) \<and>
   filter (\<lambda>v. settlementRank v = k) (pr_Ordered (ResolvePrecedence vs mode d t)) = filter (\<lambda>v. settlementRank v = k) vs \<and>
   (pr_Route (ResolvePrecedence vs mode d t) = PrecedenceRouteUser \<longleftrightarrow> (\<exists>v\<in>set vs. IsRequirementViolation v)) \<and>
   (mode \<noteq> ''vibe'' \<longrightarrow> classifyVibeGateWithDrift mode (Enforce vs m) d = vibeGatePassthrough) \<and>
   (classifyVibeGateWithDrift mode (Enforce vs m) d = vibeGateOwnerDebate \<longrightarrow>
      \<not> (\<exists>v\<in>set vs. IsRequirementViolation v) \<and>
      (d \<ge> VibeDriftDebateThreshold \<or> (\<exists>v\<in>set vs. rl_Action (vi_Rule v) \<in> {''block'', ''reprompt''}))) \<and>
   (en_Action res = ''warn'' \<and> ((\<exists>v\<in>set (en_Violations res). IsRequirementViolation v) \<or> d < VibeDriftDebateThreshold) \<longrightarrow>
      classifyVibeGateWithDrift mode res d = vibeGatePassthrough) \<and>
   ((\<exists>v\<in>set vs. rl_Trigger (vi_Rule v) = ''requirement_signature_drift'') \<longrightarrow>
      en_Action (Enforce vs m) = ''block'' \<and>
      (mode = ''vibe'' \<longrightarrow> classifyVibeGateWithDrift mode (Enforce vs m) d = vibeGateRequirement))"
proof (intro conjI impI)
  assume "\<exists>v\<in>set vs. rl_Trigger (vi_Rule v) = ''requirement_signature_drift''"
  then obtain v where v: "v \<in> set vs" "rl_Trigger (vi_Rule v) = ''requirement_signature_drift''" by blast
  then show "en_Action (Enforce vs m) = ''block''"
    using Enforce_blocks [of vs m] by (auto simp: effective_block isAlwaysBlock_def)
  show "classifyVibeGateWithDrift mode (Enforce vs m) d = vibeGateRequirement" if "mode = ''vibe''"
    using v that drift_stops_at_user by simp
qed (auto simp: Ordered_ranks route_facts classifyVibeGateWithDrift_def Let_def split: if_splits)

text \<open>
  Old settings keep every default rule: merging appends the default rules whose id is
  missing and only those, keeps the loaded rules in front as they are, is idempotent, and
  introduces no duplicate id.
\<close>

theorem merged_rules:
  "(\<forall>d\<in>set DefaultRules. rl_ID d \<in> rl_ID ` set (MergeDefaultRules loaded)) \<and>
   take (length loaded) (MergeDefaultRules loaded) = loaded \<and>
   MergeDefaultRules (MergeDefaultRules loaded) = MergeDefaultRules loaded \<and>
   (distinct (map rl_ID loaded) \<longrightarrow> distinct (map rl_ID (MergeDefaultRules loaded)))"
proof -
  have ids: "distinct (map rl_ID DefaultRules)" "\<forall>d\<in>set DefaultRules. rl_ID d \<noteq> ''''"
    by (simp_all add: DefaultRules_def step_rule_def)
  have ne: "DefaultRules \<noteq> []" by (simp add: DefaultRules_def)
  let ?new = "filter (\<lambda>d. rl_ID d \<notin> set (filter (\<lambda>i. i \<noteq> '''') (map rl_ID loaded))) DefaultRules"
  have m: "MergeDefaultRules loaded = (if loaded = [] then DefaultRules else loaded @ ?new)" by (simp add: MergeDefaultRules_def)
  have every: "\<forall>d\<in>set DefaultRules. rl_ID d \<in> rl_ID ` set (MergeDefaultRules loaded)"
    by (auto simp: m)
  have none: "filter (\<lambda>d. rl_ID d \<notin> set (filter (\<lambda>i. i \<noteq> '''') (map rl_ID (MergeDefaultRules loaded)))) DefaultRules = []"
    using every ids(2) by (auto simp: filter_empty_conv)
  have "MergeDefaultRules loaded \<noteq> []" using ne by (simp add: m)
  then have again: "MergeDefaultRules (MergeDefaultRules loaded) = MergeDefaultRules loaded"
    unfolding MergeDefaultRules_def [of "MergeDefaultRules loaded"] none by simp
  have "distinct (map rl_ID (MergeDefaultRules loaded))" if "distinct (map rl_ID loaded)"
    using that ids by (auto simp: m distinct_map_filter) (metis imageI)
  with every again show ?thesis by (auto simp: m)
qed

section \<open>Witnesses\<close>

definition demo_drift :: Violation where
  "demo_drift = violation RequirementRule ''AC-1 drifted''"

definition demo_note :: Violation where
  "demo_note = violation (step_rule ''r-ca'' ''code_changed'' ''change_audit_note'' ''reprompt'') ''no note''"

lemma enforce_verdict_witness:
  "en_Action (Enforce [demo_note, demo_drift] ''warn'') = ''block'' \<and> en_Action (Enforce [demo_note] ''warn'') \<noteq> ''block''"
  using enforce_verdict [of "[demo_note, demo_drift]" "''warn''"] enforce_verdict [of "[demo_note]" "''warn''"]
  by (simp add: demo_drift_def demo_note_def violation_def RequirementRule_def step_rule_def isAlwaysBlock_def)

lemma precedence_contract_witness:
  "classifyVibeGateWithDrift ''vibe'' (Enforce [demo_note, demo_drift] ''warn'') 90 = vibeGateRequirement \<and>
   classifyVibeGateWithDrift ''dev'' (Enforce [demo_note, demo_drift] ''warn'') 90 = vibeGatePassthrough"
  using precedence_contract [of "[demo_note, demo_drift]" "''vibe''" 90 False 0 "''warn''"]
    precedence_contract [of "[demo_note, demo_drift]" "''dev''" 90 False 0 "''warn''"]
  by (simp add: demo_drift_def demo_note_def violation_def RequirementRule_def step_rule_def)

lemma merged_rules_witness:
  "distinct (map rl_ID (MergeDefaultRules [ScaffoldRedRule])) \<and>
   ''r-tests'' \<in> rl_ID ` set (MergeDefaultRules [ScaffoldRedRule])"
proof -
  have "\<exists>d\<in>set DefaultRules. rl_ID d = ''r-tests''" by (simp add: DefaultRules_def step_rule_def)
  then obtain d where d: "d \<in> set DefaultRules" "rl_ID d = ''r-tests''" by blast
  note m = merged_rules [of "[ScaffoldRedRule]"]
  then have "rl_ID d \<in> rl_ID ` set (MergeDefaultRules [ScaffoldRedRule])" using d(1) by blast
  moreover have "distinct (map rl_ID (MergeDefaultRules [ScaffoldRedRule]))" using m by simp
  ultimately show ?thesis unfolding d(2) by blast
qed

end
