(* ===== verification/Gate_Evaluate.thy ===== *)
theory Gate_Evaluate
  imports Gate_Rules
begin

text \<open>
  The evaluation of a turn against the rules: \<open>flowgate/evaluate.go\<close>, \<open>flowgate/dod.go\<close>, the
  path and document tests of \<open>flowgate/observe.go\<close>, \<open>IsTestFile\<close> of \<open>flowgate/baseline.go\<close>, and
  the checks of \<open>flowgate/reproduce_rule.go\<close>, \<open>flowgate/scaffold_red_rule.go\<close>,
  \<open>flowgate/signature_lock_rule.go\<close> and \<open>flowgate/r_requirement.go\<close>. What the operating system
  answers, and \<open>strings.ToLower\<close> outside ASCII, is the parameter \<open>io\<close>. A slice of a string that
  is too short is a panic of the code, \<open>Inl\<close> here.
\<close>

section \<open>The turn\<close>

record ChangedFile =
  cf_Path :: string
  cf_Status :: string

record TestOutcome =
  to_Ran :: bool
  to_Passed :: "string list"
  to_Failed :: "string list"
  to_Regressed :: "string list"

record StructuredFileArtifactOutput =
  so_Path :: string
  so_Sections :: "string list"

record DodStatus =
  ds_Present :: bool
  ds_Total :: nat
  ds_Checked :: nat
  ds_OpenItems :: "string list"

record DodExplanation =
  de_Explanation :: string
  de_ReferencingAC :: string

record TurnResult =
  tn_RunID :: string
  tn_StepID :: string
  tn_FinalMessage :: string
  tn_ToolCalls :: "string list"
  tn_GitDiff :: "ChangedFile list"
  tn_WrittenPaths :: "string list"
  tn_Tests :: TestOutcome
  tn_ChangeType :: string
  tn_SourceDocID :: string
  tn_CommitSubjects :: "string list"
  tn_ChangedPaths :: "string list"
  tn_KnownFeatureKeys :: "string list"
  tn_SuggestedFeatureKeys :: "string list"
  tn_WorkspaceCwd :: string
  tn_RequiredFileArtifactOutputs :: "string list"
  tn_RequiredStructuredFileArtifactOutputs :: "StructuredFileArtifactOutput list"
  tn_RequiredTelegramSends :: "string list"
  tn_ContractDeclared :: bool
  tn_ScopeOutOfScopePaths :: "string list"
  tn_ScopeHighSeverity :: bool
  tn_HeadSpecDrifted :: bool
  tn_HeadCodeDrifted :: bool
  tn_HeadAttachSpecPending :: bool
  tn_HeadRetirePending :: bool
  tn_TamperedTestPaths :: "string list"
  tn_ReproduceExpected :: bool
  tn_ReproduceCompileFailed :: bool
  tn_ReproduceTargetChecked :: bool
  tn_ReproduceExercisesTarget :: bool
  tn_RequirementDrift :: bool
  tn_RequirementDriftDetail :: string
  tn_DodTransitionedToDone :: bool
  tn_DodStatus :: DodStatus
  tn_DodExplanation :: "DodExplanation option"
  tn_SignatureHashBefore :: string
  tn_SignatureHashAfter :: string
  tn_SignatureDrift :: "string list"
  tn_CoderRenegotiating :: bool
  tn_ScaffoldExpected :: bool
  tn_ScaffoldCompileFailed :: bool
  tn_ScaffoldBodyNonStub :: bool
  tn_NonStubSymbols :: "string list"
  tn_ScaffoldRedWaived :: bool
  tn_ScaffoldPreExistingTouched :: "string list"
  tn_ScaffoldUnregisteredTests :: "string list"

text \<open>
  \<open>filepath.Abs\<close>, \<open>filepath.EvalSymlinks\<close>, \<open>os.Stat\<close> (whether a directory), \<open>os.ReadFile\<close>, the
  names of the files \<open>filepath.WalkDir\<close> visits below a directory, and \<open>strings.ToLower\<close>.
\<close>

record workspace_io =
  io_Abs :: "string \<Rightarrow> string option"
  io_EvalSymlinks :: "string \<Rightarrow> string option"
  io_IsDir :: "string \<Rightarrow> bool option"
  io_ReadFile :: "string \<Rightarrow> string option"
  io_WalkFiles :: "string \<Rightarrow> string list"
  io_ToLower :: "string \<Rightarrow> string"

section \<open>What a diff and a path list show\<close>

definition resolveStatus :: "char \<Rightarrow> char \<Rightarrow> string" where
  "resolveStatus index work =
     (if index \<in> {CHR ''R'', CHR ''C''} \<or> work \<in> {CHR ''R'', CHR ''C''} then ''M''
      else if index \<in> {CHR ''A'', CHR ''D''} \<or> work \<in> {CHR ''A'', CHR ''D''} then
        (if index = CHR ''A'' \<or> work = CHR ''A'' then ''A'' else ''D'')
      else if index = CHR ''M'' \<or> work = CHR ''M'' then ''M''
      else '''')"

text \<open>\<open>git status --porcelain -z\<close> and \<open>git diff -z --name-status\<close>, split at the NUL bytes.\<close>

fun parsePorcelainZ :: "string list \<Rightarrow> ChangedFile list" where
  "parsePorcelainZ [] = []"
| "parsePorcelainZ (rec # parts) =
     (case rec of
        i # w # x # path \<Rightarrow>
          (if path = '''' then parsePorcelainZ parts
           else let status = resolveStatus i w
                in if i = CHR ''?'' \<and> w = CHR ''?'' then \<lparr>cf_Path = path, cf_Status = ''A''\<rparr> # parsePorcelainZ parts
                   else (if status = '''' then [] else [\<lparr>cf_Path = path, cf_Status = status\<rparr>]) @
                        (if i \<in> {CHR ''R'', CHR ''C''} \<or> w \<in> {CHR ''R'', CHR ''C''} then parsePorcelainZ (tl parts)
                         else parsePorcelainZ parts))
      | _ \<Rightarrow> parsePorcelainZ parts)"

fun parseNameStatusZ :: "string list \<Rightarrow> ChangedFile list" where
  "parseNameStatusZ [] = []"
| "parseNameStatusZ ([] # parts) = parseNameStatusZ parts"
| "parseNameStatusZ ((c # st) # parts) =
     (case parts of
        [] \<Rightarrow> []
      | path # parts1 \<Rightarrow>
          (let renamed = c \<in> {CHR ''R'', CHR ''C''} \<and> parts1 \<noteq> [];
               path' = (if renamed \<and> hd parts1 \<noteq> '''' then hd parts1 else path);
               status = resolveStatus c (CHR '' '')
           in (if path' = '''' \<or> status = '''' then [] else [\<lparr>cf_Path = path', cf_Status = status\<rparr>]) @
              (if renamed then parseNameStatusZ (tl parts1) else parseNameStatusZ parts1)))"

definition HasChangeAuditNote :: "ChangedFile list \<Rightarrow> bool" where
  "HasChangeAuditNote diff \<longleftrightarrow>
     list_ex (\<lambda>f. Contains (cf_Path f) ''change-audit/CA-'' \<and> (cf_Status f = ''A'' \<or> cf_Status f = ''M'')) diff"

definition HasChangeAuditNoteInPaths :: "string list \<Rightarrow> bool" where
  "HasChangeAuditNoteInPaths paths \<longleftrightarrow> list_ex (\<lambda>p. Contains p ''change-audit/CA-'') paths"

definition HasTaskDocInPaths :: "string list \<Rightarrow> bool" where
  "HasTaskDocInPaths paths \<longleftrightarrow>
     list_ex (\<lambda>p. \<not> Contains p ''FORMAT-REFERENCE-'' \<and>
       (Contains p ''requirements/08-Task'' \<or> Contains p ''Task-'')) paths"

definition HasTaskDoc :: "ChangedFile list \<Rightarrow> bool" where
  "HasTaskDoc diff \<longleftrightarrow>
     list_ex (\<lambda>f. \<not> Contains (cf_Path f) ''FORMAT-REFERENCE-'' \<and>
       (Contains (cf_Path f) ''requirements/08-Task'' \<or> Contains (cf_Path f) ''Task-'')) diff"

definition HasBugFixDocInPaths :: "string list \<Rightarrow> bool" where
  "HasBugFixDocInPaths paths \<longleftrightarrow>
     list_ex (\<lambda>p. \<not> Contains p ''FORMAT-REFERENCE-'' \<and>
       (Contains p ''requirements/09-BugFix'' \<or> Contains p ''BUG-'')) paths"

definition HasBugFixDoc :: "ChangedFile list \<Rightarrow> bool" where
  "HasBugFixDoc diff \<longleftrightarrow>
     list_ex (\<lambda>f. \<not> Contains (cf_Path f) ''FORMAT-REFERENCE-'' \<and>
       (Contains (cf_Path f) ''requirements/09-BugFix'' \<or> Contains (cf_Path f) ''BUG-'')) diff"

definition taskDocNamed :: "string list \<Rightarrow> string \<Rightarrow> bool" where
  "taskDocNamed taskIDs name \<longleftrightarrow> HasPrefix name ''Task-'' \<and> HasSuffix name ''.md'' \<and>
     (taskIDs = [] \<or> list_ex (\<lambda>i. i \<noteq> '''' \<and>
       (name = i @ ''.md'' \<or> HasPrefix name (i @ ''-'') \<or> HasPrefix name (i @ ''_''))) taskIDs)"

definition TaskDocExistsOnDisk :: "workspace_io \<Rightarrow> string \<Rightarrow> string list \<Rightarrow> bool" where
  "TaskDocExistsOnDisk io workspaceCwd taskIDs =
     (let root = TrimSpace workspaceCwd
      in if root = '''' then False
         else list_ex (taskDocNamed taskIDs) (io_WalkFiles io (path_Join (path_Join root ''requirements'') ''08-Task'')))"

definition IsBinaryOrBuildArtifact :: "string \<Rightarrow> bool" where
  "IsBinaryOrBuildArtifact path =
     (let p = ToLower (TrimSpace path); base = ToLower (path_Base p)
      in if p = '''' then False
         else if list_ex (HasSuffix p)
                  [''.exe'', ''.dll'', ''.so'', ''.dylib'', ''.a'', ''.o'', ''.out'', ''.test'', ''.bin''] then True
         else if list_ex (\<lambda>d. HasPrefix p d \<or> Contains p (''/'' @ d))
                  [''bin/'', ''dist/'', ''build/'', ''out/'', ''target/'', ''.tmp/'', ''tmp/''] then True
         else if \<not> Contains base ''.'' \<and> \<not> Contains p ''/''
           then base \<notin> set [''makefile'', ''dockerfile'', ''license'', ''readme'', ''justfile'', ''taskfile'', ''brewfile'',
                             ''procfile'', ''gemfile'', ''rakefile'']
         else False)"

definition IsDocOrAuditFile :: "string \<Rightarrow> bool" where
  "IsDocOrAuditFile path =
     (if HasPrefix path ''requirements/'' \<or> HasPrefix path ''change-audit/'' \<or> HasPrefix path ''.flowpilot/'' \<or>
         HasSuffix path ''.md'' then True
      else let lower = ToLower path
           in if path_Base lower = ''cmakelists.txt'' \<or> HasSuffix lower ''.cmake'' then False
              else if list_ex (HasSuffix lower) [''.txt'', ''.csv'', ''.tsv'', ''.log'', ''.rst'', ''.adoc'', ''.pdf''] then True
              else IsBinaryOrBuildArtifact path)"

definition IsIgnoredForScope :: "string \<Rightarrow> bool" where
  "IsIgnoredForScope path \<longleftrightarrow> IsDocOrAuditFile path \<or> IsBinaryOrBuildArtifact path"

definition HasCodeChangesInList :: "string list \<Rightarrow> bool" where
  "HasCodeChangesInList paths \<longleftrightarrow> list_ex (\<lambda>p. \<not> IsDocOrAuditFile p) paths"

definition HasCodeChanges :: "ChangedFile list \<Rightarrow> bool" where
  "HasCodeChanges diff \<longleftrightarrow> list_ex (\<lambda>f. \<not> IsDocOrAuditFile (cf_Path f)) diff"

definition IsTestFile :: "string \<Rightarrow> bool" where
  "IsTestFile path \<longleftrightarrow>
     (let here = Alt Bol (Lit ''/''); one = (\<lambda>cs. Chr (\<lambda>c. c \<in> cs));
          js = [one {CHR ''j'', CHR ''t''}, Lit ''s'', Opt (Lit ''x'')];
          cpp = Alts [Lit ''.cpp'', Lit ''.cc'', Lit ''.cxx'']
      in list_ex (\<lambda>r. MatchString r path)
           [SuffixRx [Lit ''_test.go''],
            SuffixRx ([Lit ''.test.''] @ js), SuffixRx ([Lit ''.spec.''] @ js),
            SuffixRx [here, Lit ''test_'', Star Dot, Lit ''.py''],
            SuffixRx [Lit ''_test.dart''],
            SuffixRx [Lit ''Test.kt''],
            SuffixRx [Lit ''Test'', Opt (Lit ''s''), Lit ''.java''],
            SuffixRx [Lit ''Test'', Opt (Lit ''s''), Lit ''.swift''],
            SuffixRx [Alt (Lit ''_test'') (Lit ''Test''), Opt (Lit ''s''), cpp],
            SuffixRx [here, Lit ''test_'', Star (Chr (\<lambda>c. c \<noteq> CHR ''/'')), cpp]])"

definition HasNewTestFileAdded :: "ChangedFile list \<Rightarrow> bool" where
  "HasNewTestFileAdded diff \<longleftrightarrow> list_ex (\<lambda>f. cf_Status f = ''A'' \<and> IsTestFile (cf_Path f)) diff"

section \<open>Definition of done\<close>

definition spaces1 :: rx where
  "spaces1 = Plus (Chr is_space)"

definition digits1 :: rx where
  "digits1 = Plus (Chr is_digit)"

text \<open>The heading of a section, level two or three, with an optional number.\<close>

definition section_heading :: "rx list \<Rightarrow> rx" where
  "section_heading rs =
     Cats ([Bol, Lit ''##'', Opt (Lit ''#''), spaces1,
            Opt (Cats [digits1, Star (Cats [Lit ''.'', digits1]), Opt (Chr (\<lambda>c. c \<in> {CHR ''.'', CHR '')''})),
                       Star (Chr is_space)])] @ rs)"

definition definition_of_done :: rx where
  "definition_of_done = Cats [Lit_ci ''definition'', spaces1, Lit_ci ''of'', spaces1, Lit_ci ''done'']"

definition dodHeadingRegex :: rx where
  "dodHeadingRegex = section_heading [Alt definition_of_done (Lit_ci ''dod''), WordB]"

definition dodParenRegex :: rx where
  "dodParenRegex = Cats [Bol, Lit ''##'', Opt (Lit ''#''), spaces1, Star Dot, Lit ''('', definition_of_done, Lit '')'']"

definition acceptanceCheckHeadingRegex :: rx where
  "acceptanceCheckHeadingRegex =
     section_heading [Lit_ci ''acceptance'', spaces1, Alt (Lit_ci ''check'') (Lit_ci ''criteria''), WordB]"

definition anyHeadingRegex :: rx where
  "anyHeadingRegex = Cats [Bol, Lit ''#'', Opt (Lit ''#''), spaces1]"

text \<open>
  \<open>checkboxItemRegex\<close> with its two groups: the mark, and the text, which keeps one white space
  byte when it has nothing else.
\<close>

definition checkboxItem :: "string \<Rightarrow> (char \<times> string) option" where
  "checkboxItem line =
     (case dropWhile is_space line of
        c # rest \<Rightarrow>
          if c \<noteq> CHR ''-'' then None
          else (case dropWhile is_space rest of
                  lb # m # rb # item \<Rightarrow>
                    if lb = CHR ''['' \<and> m \<in> {CHR '' '', CHR ''x'', CHR ''X''} \<and> rb = CHR '']'' \<and> item \<noteq> '''' \<and>
                       CHR 0x0A \<notin> set (dropWhile is_space item)
                    then Some (m, if dropWhile is_space item = '''' then [last item] else dropWhile is_space item)
                    else None
                | _ \<Rightarrow> None)
      | [] \<Rightarrow> None)"

text \<open>The code fence a line opens or closes; \<open>None\<close> when the line is no fence.\<close>

definition fenceLine :: "string \<Rightarrow> string \<Rightarrow> string option" where
  "fenceLine fenceMarker line =
     (let trimmed = TrimSpace line; marker = take 3 trimmed
      in if HasPrefix trimmed ''```'' \<or> HasPrefix trimmed ''~~~''
         then Some (if fenceMarker = '''' then marker else if HasPrefix marker fenceMarker then '''' else fenceMarker)
         else None)"

definition countItem :: "DodStatus \<Rightarrow> string \<Rightarrow> DodStatus" where
  "countItem status line =
     (case checkboxItem line of
        None \<Rightarrow> status
      | Some (m, item) \<Rightarrow>
          let status1 = status\<lparr>ds_Total := Suc (ds_Total status)\<rparr>
          in if m = CHR ''x'' \<or> m = CHR ''X'' then status1\<lparr>ds_Checked := Suc (ds_Checked status1)\<rparr>
             else status1\<lparr>ds_OpenItems := ds_OpenItems status1 @ [TrimSpace item]\<rparr>)"

definition opensDod :: "string \<Rightarrow> bool" where
  "opensDod line \<longleftrightarrow>
     MatchString dodHeadingRegex line \<or> MatchString dodParenRegex line \<or> MatchString acceptanceCheckHeadingRegex line"

fun dodLines :: "string list \<Rightarrow> bool \<Rightarrow> string \<Rightarrow> DodStatus \<Rightarrow> DodStatus" where
  "dodLines [] inSection fenceMarker status = status"
| "dodLines (line # rest) inSection fenceMarker status =
     (case fenceLine fenceMarker line of
        Some marker \<Rightarrow> dodLines rest inSection marker status
      | None \<Rightarrow>
          if fenceMarker \<noteq> '''' then dodLines rest inSection fenceMarker status
          else if opensDod line then dodLines rest True fenceMarker status
          else if MatchString anyHeadingRegex line then dodLines rest False fenceMarker status
          else if \<not> inSection then dodLines rest inSection fenceMarker status
          else dodLines rest inSection fenceMarker (countItem status line))"

definition zeroDod :: DodStatus where
  "zeroDod = \<lparr>ds_Present = False, ds_Total = 0, ds_Checked = 0, ds_OpenItems = []\<rparr>"

definition ParseDefinitionOfDone :: "string \<Rightarrow> DodStatus" where
  "ParseDefinitionOfDone content =
     (let status = dodLines (Split content (CHR 0x0A)) False '''' zeroDod
      in status\<lparr>ds_Present := 0 < ds_Total status\<rparr>)"

definition isTaskOrBugDocPath :: "string \<Rightarrow> bool" where
  "isTaskOrBugDocPath path \<longleftrightarrow>
     (let base = path_Base (TrimSpace path)
      in HasSuffix base ''.md'' \<and> (HasPrefix base ''Task-'' \<or> HasPrefix base ''BUG-''))"

text \<open>A cleaned path that leaves the workspace upwards, and one that lies under the root.\<close>

definition escapes :: "string \<Rightarrow> bool" where
  "escapes clean \<longleftrightarrow> clean = ''..'' \<or> HasPrefix clean ''../''"

definition underRoot :: "string \<Rightarrow> string \<Rightarrow> bool" where
  "underRoot root p \<longleftrightarrow> HasPrefix p (root @ ''/'') \<or> p = root"

definition resolved :: "workspace_io \<Rightarrow> string \<Rightarrow> string" where
  "resolved io p = (case io_EvalSymlinks io p of Some q \<Rightarrow> q | None \<Rightarrow> p)"

text \<open>Where a written path is read: \<open>None\<close> when it lies outside the workspace.\<close>

definition docPath :: "workspace_io \<Rightarrow> string \<Rightarrow> string \<Rightarrow> string option" where
  "docPath io root p =
     (let clean = path_Clean p
      in if path_IsAbs clean then (if underRoot root (resolved io clean) then Some (resolved io clean) else None)
         else if escapes clean then None
         else let a = resolved io (path_Join root clean) in if underRoot root a then Some a else None)"

text \<open>The entries a loop over written paths looks at: Task and Bug documents, each once.\<close>

definition newDoc :: "string set \<Rightarrow> string \<Rightarrow> bool" where
  "newDoc seen p \<longleftrightarrow> p \<noteq> '''' \<and> p \<notin> seen \<and> isTaskOrBugDocPath p"

fun missingDodLoop :: "workspace_io \<Rightarrow> string \<Rightarrow> string list \<Rightarrow> string set \<Rightarrow> string list" where
  "missingDodLoop io root [] seen = []"
| "missingDodLoop io root (q # paths) seen =
     (let p = TrimSpace q
      in if \<not> newDoc seen p then missingDodLoop io root paths seen
         else (case docPath io root p of
                 None \<Rightarrow> p # missingDodLoop io root paths (insert p seen)
               | Some a \<Rightarrow>
                   (case io_ReadFile io a of
                      None \<Rightarrow> missingDodLoop io root paths seen
                    | Some content \<Rightarrow>
                        if ds_Total (ParseDefinitionOfDone content) = 0
                        then p # missingDodLoop io root paths (insert p seen)
                        else missingDodLoop io root paths seen)))"

definition MissingDodDocs :: "workspace_io \<Rightarrow> string \<Rightarrow> string list \<Rightarrow> string list" where
  "MissingDodDocs io workspaceCwd writtenPaths =
     (let cwd = TrimSpace workspaceCwd
      in if cwd = '''' \<or> writtenPaths = [] then []
         else (case io_Abs io cwd of
                 None \<Rightarrow> []
               | Some root \<Rightarrow> missingDodLoop io (resolved io root) writtenPaths {}))"

definition dodDoneMetadataRegex :: rx where
  "dodDoneMetadataRegex =
     (let sp = Star (Chr is_space); tick = Opt (Lit ''`'')
      in Cats [Bol, sp, Opt (Lit ''-''), sp, Lit_ci ''status'', sp, Lit '':'', sp, tick, Lit_ci ''done'', WordB, tick,
               Opt (Lit ''.''), sp, Eol])"

fun doneLines :: "string list \<Rightarrow> string \<Rightarrow> bool" where
  "doneLines [] fenceMarker = False"
| "doneLines (line # rest) fenceMarker =
     (case fenceLine fenceMarker line of
        Some marker \<Rightarrow> doneLines rest marker
      | None \<Rightarrow>
          if fenceMarker \<noteq> '''' then doneLines rest fenceMarker
          else if MatchString dodDoneMetadataRegex line then True
          else doneLines rest fenceMarker)"

definition hasDoneMetadata :: "string \<Rightarrow> bool" where
  "hasDoneMetadata content = doneLines (Split content (CHR 0x0A)) ''''"

definition isDonePathSegment :: "string \<Rightarrow> bool" where
  "isDonePathSegment path \<longleftrightarrow>
     (let p = TrimSpace (TrimSpace path)
      in p \<noteq> '''' \<and> list_ex (\<lambda>seg. TrimSpace seg = ''done'') (Split p (CHR ''/'')))"

fun doneLoop ::
  "workspace_io \<Rightarrow> string \<Rightarrow> string list \<Rightarrow> string set \<Rightarrow> DodStatus option \<Rightarrow> DodStatus option" where
  "doneLoop io root [] seen fallback = fallback"
| "doneLoop io root (q # paths) seen fallback =
     (let p = TrimSpace q
      in if \<not> newDoc seen p then doneLoop io root paths seen fallback
         else (case io_ReadFile io (path_Join root p) of
                 None \<Rightarrow> doneLoop io root paths (insert p seen) fallback
               | Some content \<Rightarrow>
                   if hasDoneMetadata content \<or> isDonePathSegment p then
                     (let status = ParseDefinitionOfDone content
                      in if ds_Checked status < ds_Total status then Some status
                         else doneLoop io root paths (insert p seen)
                                (case fallback of None \<Rightarrow> Some status | Some f \<Rightarrow> Some f))
                   else doneLoop io root paths (insert p seen) fallback))"

text \<open>The status of the transitioned document, and whether there is one.\<close>

definition DodDoneTransition :: "workspace_io \<Rightarrow> string \<Rightarrow> string list \<Rightarrow> DodStatus \<times> bool" where
  "DodDoneTransition io workspaceCwd writtenPaths =
     (let cwd = TrimSpace workspaceCwd
      in if cwd = '''' \<or> writtenPaths = [] then (zeroDod, False)
         else (case io_Abs io cwd of
                 None \<Rightarrow> (zeroDod, False)
               | Some root \<Rightarrow>
                   (case doneLoop io root writtenPaths {} None of
                      None \<Rightarrow> (zeroDod, False)
                    | Some status \<Rightarrow> (status, True))))"

text \<open>The phrases, their accented letters in either case.\<close>

definition either_case :: "string \<Rightarrow> string \<Rightarrow> rx" where
  "either_case x y = Alt (Lit x) (Lit y)"

definition dodExplanationPhraseRegex :: rx where
  "dodExplanationPhraseRegex =
     Alts [Cats [Lit_ci ''ho'', either_case [CHR 0xC3, CHR 0xA3] [CHR 0xC3, CHR 0x83], Lit_ci ''n''],
           Lit_ci ''deferred'',
           Cats [Lit_ci ''lo'', either_case [CHR 0xE1, CHR 0xBA, CHR 0xA1] [CHR 0xE1, CHR 0xBA, CHR 0xA0], Lit_ci ''i b'', either_case [CHR 0xE1, CHR 0xBB, CHR 0x8F] [CHR 0xE1, CHR 0xBB, CHR 0x8E]],
           Cats [Lit_ci ''b'', either_case [CHR 0xE1, CHR 0xBB, CHR 0x8F] [CHR 0xE1, CHR 0xBB, CHR 0x8E], Lit_ci '' qua v'', either_case [CHR 0xC3, CHR 0xAC] [CHR 0xC3, CHR 0x8C]]]"

definition dodExplanationSectionRegex :: rx where
  "dodExplanationSectionRegex =
     Cats [Bol, Lit ''#'', Opt (Lit ''#''), Opt (Lit ''#''), Opt (Lit ''#''), Opt (Lit ''#''), Opt (Lit ''#''), spaces1,
           Alt (Lit_ci ''deferred'') (Lit_ci ''open items''), WordB]"

fun explanationLoop :: "workspace_io \<Rightarrow> string \<Rightarrow> string list \<Rightarrow> string set \<Rightarrow> bool" where
  "explanationLoop io root [] seen = False"
| "explanationLoop io root (q # paths) seen =
     (let p = TrimSpace q
      in if \<not> newDoc seen p then explanationLoop io root paths seen
         else (case io_ReadFile io (path_Join root p) of
                 None \<Rightarrow> explanationLoop io root paths (insert p seen)
               | Some content \<Rightarrow>
                   list_ex (MatchString dodExplanationSectionRegex) (Split content (CHR 0x0A)) \<or>
                   explanationLoop io root paths (insert p seen)))"

definition hasDodExplanationSectionInDocs :: "workspace_io \<Rightarrow> string \<Rightarrow> string list \<Rightarrow> bool" where
  "hasDodExplanationSectionInDocs io workspaceCwd writtenPaths =
     (let cwd = TrimSpace workspaceCwd
      in if cwd = '''' \<or> writtenPaths = [] then False
         else (case io_Abs io cwd of None \<Rightarrow> False | Some root \<Rightarrow> explanationLoop io root writtenPaths {}))"

definition hasValidDodExplanation :: "workspace_io \<Rightarrow> TurnResult \<Rightarrow> bool" where
  "hasValidDodExplanation io tr \<longleftrightarrow>
     (case tn_DodExplanation tr of None \<Rightarrow> False | Some e \<Rightarrow> TrimSpace (de_Explanation e) \<noteq> '''') \<or>
     MatchString dodExplanationPhraseRegex (tn_FinalMessage tr) \<or>
     list_ex (MatchString dodExplanationPhraseRegex) (ds_OpenItems (tn_DodStatus tr)) \<or>
     hasDodExplanationSectionInDocs io (tn_WorkspaceCwd tr) (tn_WrittenPaths tr)"

section \<open>Required outputs\<close>

definition telegramMessageIDPattern :: rx where
  "telegramMessageIDPattern =
     Cats [Lit_ci ''message_id'', Star (Chr (\<lambda>c. c \<in> {CHR 0x22, CHR 0x27, CHR '':'', CHR ''=''} \<or> is_space c)), digits1]"

definition MissingTelegramSends :: "string \<Rightarrow> string list \<Rightarrow> string list" where
  "MissingTelegramSends finalMessage required =
     (if length required \<le> length (FindAllString telegramMessageIDPattern finalMessage) then [] else required)"

definition missingOutput :: "workspace_io \<Rightarrow> string \<Rightarrow> string \<Rightarrow> bool" where
  "missingOutput io root rel =
     (let clean = path_Clean rel; a = resolved io (path_Join root clean)
      in path_IsAbs clean \<or> escapes clean \<or> \<not> underRoot root a \<or> io_IsDir io a \<noteq> Some False)"

definition MissingRequiredFileArtifactOutputs :: "workspace_io \<Rightarrow> string \<Rightarrow> string list \<Rightarrow> string list" where
  "MissingRequiredFileArtifactOutputs io workspaceCwd required =
     (let cwd = TrimSpace workspaceCwd
      in if cwd = '''' \<or> required = [] then []
         else (case io_Abs io cwd of
                 None \<Rightarrow> required
               | Some root \<Rightarrow>
                   filter (\<lambda>rel. rel \<noteq> '''' \<and> missingOutput io (resolved io root) rel) (map TrimSpace required)))"

text \<open>The title of an ATX heading.\<close>

definition parseATXHeadingTitle :: "string \<Rightarrow> string option" where
  "parseATXHeadingTitle line =
     (let l = TrimSpace line; n = length (takeWhile (\<lambda>c. c = CHR ''#'') l)
      in if n = 0 \<or> 6 < n \<or> length l \<le> n then None
         else let title = TrimSpace (drop n l)
              in if title = '''' then None
                 else let inner = TrimSpace (TrimRight title {CHR ''#''})
                      in if inner = '''' then None else Some inner)"

lemma length_drop_le: "length (drop n x) \<le> length x"
  by simp

lemma strip_front_length: "length (strip_front n ps x) \<le> length x"
  by (induction n arbitrary: x) (auto split: option.split intro: order_trans [OF _ length_drop_le])

lemma TrimSpace_length: "length (TrimSpace x) \<le> length x"
proof -
  let ?l = "strip_front (length x) go_spaces x"
  have "length (strip_front (length ?l) (map rev go_spaces) (rev ?l)) \<le> length (rev ?l)" by (rule strip_front_length)
  also have "\<dots> \<le> length x" using strip_front_length [of "length x" go_spaces x] by simp
  finally show ?thesis by (simp only: TrimSpace_def Let_def length_rev)
qed

lemma TrimRight_length: "length (TrimRight x cs) \<le> length x"
  using length_dropWhile_le [of _ "rev x"] by (simp add: TrimRight_def)

lemma TrimRight_shorter: "TrimRight x cs \<noteq> x \<Longrightarrow> length (TrimRight x cs) < length x"
proof -
  assume "TrimRight x cs \<noteq> x"
  moreover have "rev x = takeWhile (\<lambda>c. c \<in> cs) (rev x) @
    rev (TrimRight x cs)" by (simp add: TrimRight_def)
  ultimately have "takeWhile (\<lambda>c. c \<in> cs) (rev x) \<noteq> []" by (metis append_Nil rev_rev_ident)
  with \<open>rev x = _\<close> show ?thesis by (metis length_append length_greater_0_conv length_rev less_add_same_cancel2)
qed

function stripPunctuation :: "string \<Rightarrow> string" where
  "stripPunctuation x =
     (let trimmed = TrimRight x {CHR '':'', CHR ''.''}
      in if trimmed = x then x else stripPunctuation (TrimSpace trimmed))"
  by pat_completeness auto

termination
  by (relation "measure length") (auto intro: le_less_trans [OF TrimSpace_length TrimRight_shorter])

declare stripPunctuation.simps [simp del]

definition normalizeSectionTitle :: "workspace_io \<Rightarrow> string \<Rightarrow> string" where
  "normalizeSectionTitle io x =
     io_ToLower io (stripPunctuation (TrimSpace (TrimRight (TrimSpace x) {CHR ''#''})))"

definition MissingMarkdownSections :: "workspace_io \<Rightarrow> string \<Rightarrow> string list \<Rightarrow> string list" where
  "MissingMarkdownSections io content required =
     (let present = map (normalizeSectionTitle io) (List.map_filter parseATXHeadingTitle (Split content (CHR 0x0A)))
      in filter (\<lambda>sec. sec \<noteq> '''' \<and> normalizeSectionTitle io sec \<notin> set present) (map TrimSpace required))"

definition structureGap :: "workspace_io \<Rightarrow> string \<Rightarrow> StructuredFileArtifactOutput \<Rightarrow> string option" where
  "structureGap io root item =
     (let rel = TrimSpace (so_Path item); clean = path_Clean rel; a = resolved io (path_Join root clean)
      in if path_IsAbs clean \<or> escapes clean \<or> \<not> underRoot root a then None
         else (case io_ReadFile io a of
                 None \<Rightarrow> None
               | Some content \<Rightarrow>
                   (let missing = MissingMarkdownSections io content (so_Sections item)
                    in if missing = [] then None else Some (rel @ '' ('' @ Join missing '', '' @ '')''))))"

definition MissingRequiredFileArtifactStructures ::
  "workspace_io \<Rightarrow> string \<Rightarrow> StructuredFileArtifactOutput list \<Rightarrow> string list" where
  "MissingRequiredFileArtifactStructures io workspaceCwd required =
     (let cwd = TrimSpace workspaceCwd;
          items = filter (\<lambda>item. TrimSpace (so_Path item) \<noteq> '''' \<and> so_Sections item \<noteq> []) required;
          missingExist = MissingRequiredFileArtifactOutputs io cwd (map (\<lambda>item. TrimSpace (so_Path item)) items)
      in if cwd = '''' \<or> required = [] then []
         else (case io_Abs io cwd of
                 None \<Rightarrow> []
               | Some root \<Rightarrow>
                   List.map_filter (structureGap io (resolved io root))
                     (filter (\<lambda>item. TrimSpace (so_Path item) \<notin> set missingExist) items)))"

section \<open>Feature keys\<close>

text \<open>\<open>strings.ReplaceAll\<close> of two dashes by one, until none are left.\<close>

fun replaceDashes :: "string \<Rightarrow> string" where
  "replaceDashes (c # d # cs) =
     (if c = CHR ''-'' \<and> d = CHR ''-'' then CHR ''-'' # replaceDashes cs else c # replaceDashes (d # cs))"
| "replaceDashes cs = cs"

lemma Contains_Nil [simp]: "Contains [] p \<longleftrightarrow> p = []"
  by (cases p) (simp_all add: Contains_def is_prefix_def)

lemma Contains_iff: "Contains x p \<longleftrightarrow> (\<exists>n\<le>length x. is_prefix p (drop n x))"
  by (auto simp: Contains_def list_ex_iff less_Suc_eq_le simp del: upt_Suc intro!: bexI)

lemma Contains_Cons: "Contains (c # cs) p \<longleftrightarrow> is_prefix p (c # cs) \<or> Contains cs p"
proof
  assume "Contains (c # cs) p"
  then obtain n where "n \<le> Suc (length cs)" "is_prefix p (drop n (c # cs))" by (auto simp: Contains_iff)
  then show "is_prefix p (c # cs) \<or> Contains cs p" by (cases n) (auto simp: Contains_iff)
next
  assume "is_prefix p (c # cs) \<or> Contains cs p"
  then show "Contains (c # cs) p"
    unfolding Contains_iff by (metis Suc_le_mono drop0 drop_Suc_Cons le0 length_Cons)
qed

lemma replaceDashes_length:
  "length (replaceDashes x) \<le> length x" "Contains x ''--'' \<Longrightarrow> length (replaceDashes x) < length x"
  by (induction x rule: replaceDashes.induct) (auto simp: Contains_Cons is_prefix_def split: if_splits)

function collapseDashes :: "string \<Rightarrow> string" where
  "collapseDashes key = (if Contains key ''--'' then collapseDashes (replaceDashes key) else key)"
  by pat_completeness auto

termination
  by (relation "measure length") (auto simp: replaceDashes_length)

declare collapseDashes.simps [simp del]

definition declaredFeatureKey :: "workspace_io \<Rightarrow> string \<Rightarrow> string \<times> bool" where
  "declaredFeatureKey io subject0 =
     (let subject = TrimSpace subject0; rest = TrimSpace (text_after (CHR '']'') subject);
          inner = tl (text_before (CHR '']'') rest);
          dashed = map (\<lambda>c. if c = CHR '' '' \<or> c = CHR ''_'' then CHR ''-'' else c) (io_ToLower io (TrimSpace inner));
          key = Trim (collapseDashes dashed) {CHR ''-''}
      in if \<not> HasPrefix subject ''['' \<or> CHR '']'' \<notin> set subject \<or> \<not> HasPrefix rest ''['' \<or> CHR '']'' \<notin> set rest
         then ('''', False) else (key, key \<noteq> ''''))"

definition isKnownFeatureKey :: "string \<Rightarrow> string list \<Rightarrow> bool" where
  "isKnownFeatureKey key knownKeys \<longleftrightarrow> key \<in> set knownKeys"

definition missingFeatureKey :: "workspace_io \<Rightarrow> string list \<Rightarrow> string list \<Rightarrow> bool" where
  "missingFeatureKey io commitSubjects knownKeys \<longleftrightarrow>
     commitSubjects = [] \<or>
     list_ex (\<lambda>subject. \<not> snd (declaredFeatureKey io subject) \<or>
                       \<not> isKnownFeatureKey (fst (declaredFeatureKey io subject)) knownKeys) commitSubjects"

definition taskIDRegex :: rx where
  "taskIDRegex = Cats [WordB, Lit ''Task-'', digits1, WordB]"

definition taskRefIDs :: "TurnResult \<Rightarrow> string list" where
  "taskRefIDs tr =
     FindAllString taskIDRegex (tn_FinalMessage tr) @
     (if tn_SourceDocID tr \<noteq> '''' then FindAllString taskIDRegex (tn_SourceDocID tr) else [])"

section \<open>The checks\<close>

definition ReproduceSatisfied :: "TurnResult \<Rightarrow> bool" where
  "ReproduceSatisfied tr \<longleftrightarrow>
     tn_ReproduceExpected tr \<and> \<not> tn_ReproduceCompileFailed tr \<and> to_Ran (tn_Tests tr) \<and> to_Failed (tn_Tests tr) \<noteq> []"

definition ReproduceFailedTests :: "TurnResult \<Rightarrow> string list" where
  "ReproduceFailedTests tr = (if \<not> tn_ReproduceExpected tr then [] else to_Failed (tn_Tests tr))"

definition ReproduceSatisfiedDetail :: "TurnResult \<Rightarrow> string" where
  "ReproduceSatisfiedDetail tr =
     (let failed = ReproduceFailedTests tr
      in if failed = [] then '''' else ''bug reproduced by failing test(s): '' @ Join failed '', '')"

definition checkReproduceRule :: "Rule \<Rightarrow> TurnResult \<Rightarrow> Violation option" where
  "checkReproduceRule rule tr =
     (if \<not> tn_ReproduceExpected tr then None
      else if tn_ReproduceCompileFailed tr then Some (violation rule
        (''the reproduce test failed to compile '' @ emdash @
          '' a compile error is not a reproduction; fix the test's syntax/imports so it builds and then fails on its assertion''))
      else if \<not> to_Ran (tn_Tests tr) then Some (violation rule
        (''no test run was observed for this reproduce turn '' @ emdash @
          '' write the failing test AND run the suite so the gate can see it fail''))
      else if to_Failed (tn_Tests tr) = [] then Some (violation rule
        (''the suite passed, so the bug was not reproduced '' @ emdash @
          '' add an assertion that fails against the current (unfixed) code; do not weaken an existing test''))
      else if tn_ReproduceTargetChecked tr \<and> \<not> tn_ReproduceExercisesTarget tr then Some (violation rule
        (''the failing test(s) do not exercise any symbol declared in this step's scope '' @ emdash @
          '' the failure looks fabricated; assert against the reported production code (or conclude the report is false and say so)''))
      else None)"

definition ScaffoldSatisfied :: "TurnResult \<Rightarrow> bool" where
  "ScaffoldSatisfied tr \<longleftrightarrow>
     (if \<not> tn_ScaffoldExpected tr \<or> \<not> to_Ran (tn_Tests tr) \<or> tn_ScaffoldCompileFailed tr \<or>
         tn_ScaffoldPreExistingTouched tr \<noteq> [] \<or> tn_ScaffoldUnregisteredTests tr \<noteq> [] then False
      else if tn_ScaffoldRedWaived tr then to_Failed (tn_Tests tr) = []
      else to_Failed (tn_Tests tr) \<noteq> [] \<and> \<not> tn_ScaffoldBodyNonStub tr)"

definition checkScaffoldRedRule :: "Rule \<Rightarrow> TurnResult \<Rightarrow> Violation option" where
  "checkScaffoldRedRule rule tr =
     (if \<not> tn_ScaffoldExpected tr then None
      else if tn_ScaffoldPreExistingTouched tr \<noteq> [] then Some (violation rule
        (''the scaffold modified production file(s) that existed at contract freeze: '' @
          Join (tn_ScaffoldPreExistingTouched tr) '', '' @
         ('' '' @ emdash @
           '' restore them byte-for-byte; the scaffold may only create NEW declared files as whitelist stubs (the coder fills the bodies)'')))
      else if tn_ScaffoldUnregisteredTests tr \<noteq> [] then Some (violation rule
        ((''test file(s) written this turn are not wired into the build '' @ emdash @
          '' the suite ran without them: '') @
         Join (tn_ScaffoldUnregisteredTests tr) '', '' @
         ('' '' @ emdash @
           '' add each file to the build manifest (e.g. CMakeLists.txt target_sources/add_executable + add_test/gtest_discover_tests) so the suite actually compiles and runs your tests'')))
      else if tn_ScaffoldRedWaived tr then
        (if tn_ScaffoldCompileFailed tr then Some (violation rule
           (''the scaffold test suite does not compile '' @ emdash @
             '' fix the compile errors so the declared verify command builds and runs green''))
         else if \<not> to_Ran (tn_Tests tr) then Some (violation rule
           (''no test run was observed for this scaffold turn '' @ emdash @
             '' run the declared verify command so the gate sees the accepted artifact is green''))
         else if to_Failed (tn_Tests tr) \<noteq> [] then Some (violation rule
           (''Tests failed: '' @ Join (to_Failed (tn_Tests tr)) '', '' @
            ('' '' @ emdash @
              '' the declared zero-red contract accepts the existing implementation, which must therefore be green; fix the implementation, not the tests'')))
         else None)
      else if tn_ScaffoldBodyNonStub tr then Some (violation rule
        ((''stub bodies carry real implementation logic (static whitelist violation) '' @ emdash @
          '' strip every body back to signature-only stubs; the suite staying red does not make hidden logic legal'') @
         (if tn_NonStubSymbols tr \<noteq> [] then ''; offending symbols: '' @
           Join (tn_NonStubSymbols tr) '', '' else '''')))
      else if tn_ScaffoldCompileFailed tr then Some (violation rule
        (''the scaffold failed to compile '' @ emdash @
          '' a compile error is not a red suite; fix the stubs'/tests' syntax and imports so the suite builds and then fails on its assertions''))
      else if \<not> to_Ran (tn_Tests tr) then Some (violation rule
        (''no test run was observed for this scaffold turn '' @ emdash @
          '' create the stubs AND run the suite so the gate can see it RED''))
      else if to_Failed (tn_Tests tr) = [] then Some (violation rule
        (''the suite passed, so the stubs contain real implementation '' @ emdash @
          '' revert every body to the stub whitelist (TODO / throw not-implemented / return zero sentinel) and keep the signature surface unchanged''))
      else None)"

text \<open>The first and the last eight bytes; slicing a shorter string panics.\<close>

definition ends8 :: "string \<Rightarrow> string + string" where
  "ends8 h = (if length h < 8 then Inl ''slice bounds out of range'' else Inr (take 8 h @ ''..'' @
    drop (length h - 8) h))"

definition checkSignatureLockRule :: "Rule \<Rightarrow> TurnResult \<Rightarrow> string + Violation option" where
  "checkSignatureLockRule rule tr =
     (if tn_SignatureHashBefore tr = '''' \<or> tn_SignatureHashAfter tr = '''' then Inr None
      else if tn_SignatureHashBefore tr = tn_SignatureHashAfter tr then Inr None
      else if tn_CoderRenegotiating tr then Inr None
      else (case (ends8 (tn_SignatureHashBefore tr), ends8 (tn_SignatureHashAfter tr)) of
              (Inr x, Inr y) \<Rightarrow> Inr (Some (violation rule
                (''signature lock violated: canonical signature hash changed '' @ x @ '' -> '' @ y @
                 ('' '' @ emdash @
                   '' fill bodies only; never add, remove, or modify a declaration. Any signature change must ride ONE batched renegotiation (submit_coder_outcome status=renegotiate_signatures)'') @
                 (if tn_SignatureDrift tr \<noteq> [] then ''; drifted declarations: '' @
                   Join (tn_SignatureDrift tr) '', '' else ''''))))
            | (Inl e, _) \<Rightarrow> Inl e
            | (_, Inl e) \<Rightarrow> Inl e))"

definition testsGreen :: "TurnResult \<Rightarrow> bool" where
  "testsGreen tr \<longleftrightarrow> to_Ran (tn_Tests tr) \<and> to_Failed (tn_Tests tr) = [] \<and> to_Regressed (tn_Tests tr) = []"

definition CoerceVibeRequirementDrift :: "TurnResult \<Rightarrow> TurnResult" where
  "CoerceVibeRequirementDrift tr =
     (if testsGreen tr \<and> tn_TamperedTestPaths tr \<noteq> [] then
        tr\<lparr>tn_RequirementDrift := True,
           tn_RequirementDriftDetail :=
             (if TrimSpace (tn_RequirementDriftDetail tr) = ''''
              then ''green suite with weakened/tampered tests: '' @ Join (tn_TamperedTestPaths tr) '', ''
              else tn_RequirementDriftDetail tr)\<rparr>
      else tr)"

text \<open>The checks of \<open>checkRule\<close> that read the turn only through the workspace or the message.\<close>

definition checkBugRule :: "Rule \<Rightarrow> TurnResult \<Rightarrow> Violation option" where
  "checkBugRule rule tr =
     (let declared = (tn_ChangeType tr = ''bugfix''); msgLower = ToLower (tn_FinalMessage tr)
      in if (declared \<or> Contains msgLower ''fixed bug'' \<or> Contains msgLower ''bug fix'') \<and>
            \<not> HasBugFixDoc (tn_GitDiff tr) \<and> \<not> HasBugFixDocInPaths (tn_WrittenPaths tr)
         then Some (if declared
                    then (violation rule ''declared bug mode but no bugfix document found'')
                           \<lparr>vi_SourceDocID := tn_SourceDocID tr, vi_Declared := True\<rparr>
                    else violation rule ''bug fix detected but no bugfix doc found'')
         else None)"

definition checkTaskRule :: "workspace_io \<Rightarrow> Rule \<Rightarrow> TurnResult \<Rightarrow> Violation option" where
  "checkTaskRule io rule tr =
     (let declared = (tn_ChangeType tr = ''task'')
      in if (declared \<or> MatchString taskIDRegex (tn_FinalMessage tr)) \<and>
            \<not> HasTaskDoc (tn_GitDiff tr) \<and> \<not> HasTaskDocInPaths (tn_WrittenPaths tr) \<and>
            \<not> TaskDocExistsOnDisk io (tn_WorkspaceCwd tr) (taskRefIDs tr)
         then Some (if declared
                    then (violation rule ''declared task mode but no task document found'')
                           \<lparr>vi_SourceDocID := tn_SourceDocID tr, vi_Declared := True\<rparr>
                    else violation rule ''task reference detected but no task document found'')
         else None)"

definition checkDodRule :: "workspace_io \<Rightarrow> Rule \<Rightarrow> TurnResult \<Rightarrow> Violation option" where
  "checkDodRule io rule tr =
     (let status = tn_DodStatus tr; n = fmt_d (int (length (ds_OpenItems status))); items = Join (ds_OpenItems status) '', ''
      in if \<not> (tn_DodTransitionedToDone tr \<and> ds_Checked status < ds_Total status) then None
         else if hasValidDodExplanation io tr
           then Some (violation (rule\<lparr>rl_Action := ''warn''\<rparr>)
             ((''t'' @ [CHR 0xC3, CHR 0xA0] @ ''i li'' @ [CHR 0xE1, CHR 0xBB, CHR 0x87] @ ''u ho'' @
               [CHR 0xC3, CHR 0xA0] @ ''n th'' @ [CHR 0xC3, CHR 0xA0] @ ''nh nh'' @
               [CHR 0xC6, CHR 0xB0] @ ''ng c'' @ [CHR 0xC3, CHR 0xB2] @ ''n '') @ n @ ('' m'' @
               [CHR 0xE1, CHR 0xBB, CHR 0xA5] @ ''c DOD ch'' @ [CHR 0xC6, CHR 0xB0] @ ''a t'' @
               [CHR 0xC3, CHR 0xAD] @ ''ch ('' @ [CHR 0xC4, CHR 0x91, CHR 0xC3, CHR 0xA3] @ '' c'' @
               [CHR 0xC3, CHR 0xB3] @ '' gi'' @ [CHR 0xE1, CHR 0xBA, CHR 0xA3] @ ''i tr'' @
               [CHR 0xC3, CHR 0xAC] @ ''nh): '') @ items))
         else Some (violation rule
             ((''ch'' @ [CHR 0xE1, CHR 0xBA, CHR 0xB7] @ ''n ho'' @ [CHR 0xC3, CHR 0xA0] @ ''n th'' @
               [CHR 0xC3, CHR 0xA0] @ ''nh: c'' @ [CHR 0xC3, CHR 0xB2] @ ''n '') @ n @ ('' m'' @
               [CHR 0xE1, CHR 0xBB, CHR 0xA5] @ ''c DOD ch'' @ [CHR 0xC6, CHR 0xB0] @ ''a ho'' @
               [CHR 0xC3, CHR 0xA0] @ ''n th'' @ [CHR 0xC3, CHR 0xA0] @ ''nh v'' @
               [CHR 0xC3, CHR 0xA0] @ '' kh'' @ [CHR 0xC3, CHR 0xB4] @ ''ng c'' @ [CHR 0xC3, CHR 0xB3] @
               '' gi'' @ [CHR 0xE1, CHR 0xBA, CHR 0xA3] @ ''i tr'' @ [CHR 0xC3, CHR 0xAC] @ ''nh: '') @
               items)))"

definition when_list :: "string list \<Rightarrow> Violation \<Rightarrow> Violation option" where
  "when_list xs v = (if xs \<noteq> [] then Some v else None)"

definition when_true :: "bool \<Rightarrow> Violation \<Rightarrow> Violation option" where
  "when_true b v = (if b then Some v else None)"

definition checkRule :: "workspace_io \<Rightarrow> Rule \<Rightarrow> TurnResult \<Rightarrow> string + Violation option" where
  "checkRule io rule tr =
     (let trigger = rl_Trigger rule; tests = tn_Tests tr in
      if trigger = ''code_changed'' then Inr (when_true
        (HasCodeChangesInList (tn_WrittenPaths tr) \<and> \<not> HasChangeAuditNote (tn_GitDiff tr) \<and>
         \<not> HasChangeAuditNoteInPaths (tn_WrittenPaths tr))
        (violation rule ''code changed but no change-audit note found''))
      else if trigger = ''commit_feature_key_missing'' then Inr (when_true
        (tn_CommitSubjects tr \<noteq> [] \<and> (HasCodeChanges (tn_GitDiff tr) \<or> HasCodeChangesInList (tn_WrittenPaths tr)) \<and>
         missingFeatureKey io (tn_CommitSubjects tr) (tn_KnownFeatureKeys tr))
        ((violation rule ''code-changing turn committed without a verified feature key'')
           \<lparr>vi_Options := tn_SuggestedFeatureKeys tr, vi_SourceDocID := tn_SourceDocID tr\<rparr>))
      else if trigger = ''bug_fixed'' then Inr (checkBugRule rule tr)
      else if trigger = ''task_referenced'' then Inr (checkTaskRule io rule tr)
      else if trigger = ''reproduce_not_demonstrated'' then Inr (checkReproduceRule rule tr)
      else if trigger = ''scaffold_not_red'' then Inr (checkScaffoldRedRule rule tr)
      else if trigger = ''signature_modified'' then checkSignatureLockRule rule tr
      else if trigger = ''tests_failed'' then Inr (when_true
        (\<not> tn_ScaffoldExpected tr \<and> to_Ran tests \<and> to_Failed tests \<noteq> [])
        (violation rule (''Tests failed: '' @ Join (to_Failed tests) '', '')))
      else if trigger = ''regression_test_broke'' then
        (let names = (if to_Regressed tests = [] then to_Failed tests else to_Regressed tests)
         in Inr (when_true (\<not> tn_ScaffoldExpected tr \<and> to_Ran tests \<and> names \<noteq> [])
              ((violation rule (''Tests failed: '' @ Join names '', ''))
                 \<lparr>vi_Options := [''keep-test-fix-code'', ''suggest-requirement-change'', ''custom''],
                  vi_RegressedTests := names\<rparr>)))
      else if trigger = ''removed_referenced_code'' then
        Inr (map_option (\<lambda>f. violation rule (''Removed: '' @ cf_Path f))
          (find (\<lambda>f. cf_Status f = ''D'' \<and> HasSuffix (cf_Path f) ''.go'') (tn_GitDiff tr)))
      else if trigger = ''required_artifact_output_missing'' then
        (let missing = MissingRequiredFileArtifactOutputs io (tn_WorkspaceCwd tr) (tn_RequiredFileArtifactOutputs tr)
         in Inr (when_list missing (violation rule (''required file artifact output missing: '' @
           Join missing '', ''))))
      else if trigger = ''required_artifact_output_structure_missing'' then
        (let gaps = MissingRequiredFileArtifactStructures io (tn_WorkspaceCwd tr) (tn_RequiredStructuredFileArtifactOutputs tr)
         in Inr (when_list gaps (violation rule (''required file artifact structure missing: '' @
           Join gaps ''; ''))))
      else if trigger = ''required_telegram_send_missing'' then
        (let missing = MissingTelegramSends (tn_FinalMessage tr) (tn_RequiredTelegramSends tr)
         in Inr (when_list missing (violation rule
              (''required Telegram notification not confirmed sent (no message_id evidence) for: '' @
                Join missing '', ''))))
      else if trigger = ''code_changed_no_contract'' then Inr (when_true
        (HasCodeChangesInList (tn_WrittenPaths tr) \<and> \<not> tn_ContractDeclared tr)
        (violation rule ''code changed without a declared Change Contract (used an inferred one)''))
      else if trigger = ''edit_outside_declared_scope'' then Inr (when_list (tn_ScopeOutOfScopePaths tr)
        (violation (if \<not> tn_ScopeHighSeverity tr \<and> rl_Action rule = ''block'' then rule\<lparr>rl_Action := ''warn''\<rparr> else rule)
           (''edit outside declared scope: '' @ Join (tn_ScopeOutOfScopePaths tr) '', '')))
      else if trigger = ''governing_spec_changed'' then Inr (when_true (tn_HeadSpecDrifted tr)
        (violation rule (''governing spec changed since the Canonical Head was last computed '' @
          emdash @ '' reconcile the Head'')))
      else if trigger = ''code_diverged_from_intent'' then Inr (when_true (tn_HeadCodeDrifted tr)
        (violation rule ''code changed out of contract with no corresponding spec/behavior update''))
      else if trigger = ''governing_spec_added_to_spec_less'' then Inr (when_true (tn_HeadAttachSpecPending tr)
        (violation rule (''a governing spec was added to a previously spec-less feature '' @ emdash @
          '' confirm it matches current behavior to rebaseline the Canonical Head'')))
      else if trigger = ''feature_rename_merge_or_deprecate'' then Inr (when_true (tn_HeadRetirePending tr)
        (violation rule (''a rename/merge/deprecate was detected for this feature '' @ emdash @
          '' confirm the target(s) before retiring its Canonical Head'')))
      else if trigger = ''production_change_no_new_test'' then Inr (when_true
        (HasCodeChanges (tn_GitDiff tr) \<and> \<not> HasNewTestFileAdded (tn_GitDiff tr))
        (violation rule ''production code changed without a newly added test file in this turn''))
      else if trigger = ''pre_existing_test_edited'' then Inr (when_list (tn_TamperedTestPaths tr)
        (violation rule (''pre-existing test file(s) edited: '' @ Join (tn_TamperedTestPaths tr) '', '')))
      else if trigger = ''requirement_signature_drift'' then
        (let detail = TrimSpace (tn_RequirementDriftDetail tr)
         in Inr (when_true (testsGreen tr \<and> tn_RequirementDrift tr)
              (violation rule (if detail = '''' then ''tests green but signatures drifted from the locked SS'' else detail))))
      else if trigger = ''task_or_bug_doc_missing_dod'' then
        (let missing = MissingDodDocs io (tn_WorkspaceCwd tr) (tn_WrittenPaths tr)
         in Inr (when_list missing (violation rule
              (''Task/BUG document(s) without a Definition of Done checklist: '' @ Join missing '', '' @
               ('' '' @ emdash @
                 '' add a '## Definition of Done' (or the spec's '## Acceptance Check') section with at least one '- [ ]' acceptance checkbox'')))))
      else if trigger = ''marked_done_with_open_dod'' then Inr (checkDodRule io rule tr)
      else Inr None)"

fun Evaluate :: "workspace_io \<Rightarrow> TurnResult \<Rightarrow> Rule list \<Rightarrow> string + Violation list" where
  "Evaluate io tr [] = Inr []"
| "Evaluate io tr (rule # rules) =
     (if \<not> rl_Enabled rule then Evaluate io tr rules
      else (case checkRule io rule tr of
              Inl e \<Rightarrow> Inl e
            | Inr v \<Rightarrow>
                (case Evaluate io tr rules of
                   Inl e \<Rightarrow> Inl e
                 | Inr vs \<Rightarrow> Inr (case v of None \<Rightarrow> vs | Some x \<Rightarrow> x # vs))))"

end
