(* ===== verification/Gate_Safety.thy ===== *)
theory Gate_Safety
  imports Gate_Evaluate
begin

text \<open>
  The properties of the gate: what a turn's evaluation, the verdict and the routing guarantee
  together, and the reading of a Definition of Done.
\<close>

section \<open>Evaluation\<close>

lemma Evaluate_member:
  "Evaluate io tr rules = Inr vs \<Longrightarrow> r \<in> set rules \<Longrightarrow> rl_Enabled r \<Longrightarrow> checkRule io r tr = Inr (Some v) \<Longrightarrow> v \<in> set vs"
  by (induction rules arbitrary: vs) (auto split: if_splits sum.splits option.splits)

lemma Evaluate_source:
  "Evaluate io tr rules = Inr vs \<Longrightarrow> v \<in> set vs \<Longrightarrow> \<exists>r\<in>set rules. rl_Enabled r \<and> checkRule io r tr = Inr (Some v)"
  by (induction rules arbitrary: vs) (auto split: if_splits sum.splits option.splits)

lemma violation_rule [simp]: "vi_Rule (violation r d) = r"
  by (simp add: violation_def)

lemma check_tests_failed:
  "rl_Trigger r = ''tests_failed'' \<Longrightarrow> \<not> tn_ScaffoldExpected tr \<Longrightarrow> to_Ran (tn_Tests tr) \<Longrightarrow> to_Failed (tn_Tests tr) \<noteq> [] \<Longrightarrow>
   \<exists>v. checkRule io r tr = Inr (Some v) \<and> vi_Rule v = r"
  by (simp add: checkRule_def when_true_def Let_def)

lemma check_drift:
  "rl_Trigger r = ''requirement_signature_drift'' \<Longrightarrow> testsGreen tr \<Longrightarrow> tn_RequirementDrift tr \<Longrightarrow>
   \<exists>v. checkRule io r tr = Inr (Some v) \<and> vi_Rule v = r"
  by (simp add: checkRule_def when_true_def Let_def)

lemma Coerce_facts:
  "testsGreen tr \<Longrightarrow> tn_TamperedTestPaths tr \<noteq> [] \<Longrightarrow>
   testsGreen (CoerceVibeRequirementDrift tr) \<and> tn_RequirementDrift (CoerceVibeRequirementDrift tr)"
  by (simp add: CoerceVibeRequirementDrift_def testsGreen_def)

lemma vibe_has_requirement:
  assumes "\<forall>r\<in>set rules. rl_ID r = RequirementRuleID \<longrightarrow> rl_Enabled r \<and> rl_Trigger r = ''requirement_signature_drift''"
  shows "\<exists>r\<in>set (EnabledRulesFor ''vibe'' rules). rl_Enabled r \<and> rl_Trigger r = ''requirement_signature_drift''"
proof (cases "hasRule RequirementRuleID rules")
  case True
  with assms show ?thesis by (auto simp: hasRule_def EnabledRulesFor_def)
next
  case False
  then show ?thesis by (auto simp: EnabledRulesFor_def RequirementRule_def step_rule_def)
qed

section \<open>Reading a checklist\<close>

definition balanced :: "DodStatus \<Rightarrow> bool" where
  "balanced st \<longleftrightarrow> ds_Checked st + length (ds_OpenItems st) = ds_Total st"

lemma countItem_balanced [simp]: "balanced st \<Longrightarrow> balanced (countItem st line)"
  by (auto simp: balanced_def countItem_def Let_def split: option.split)

lemma dodLines_balanced: "balanced st \<Longrightarrow> balanced (dodLines lines sec f st)"
  by (induction lines sec f st rule: dodLines.induct) (auto split: option.splits)

lemma parsed_balanced: "balanced (ParseDefinitionOfDone content)"
  using dodLines_balanced [of zeroDod] by (simp add: ParseDefinitionOfDone_def balanced_def zeroDod_def Let_def)

lemma doneLoop_balanced:
  "(\<And>f. fallback = Some f \<Longrightarrow> balanced f) \<Longrightarrow> doneLoop io root paths seen fallback = Some st \<Longrightarrow> balanced st"
proof (induction io root paths seen fallback rule: doneLoop.induct)
  case (2 io root q paths seen fallback)
  show ?case
    using 2 by (auto simp: Let_def parsed_balanced split: if_splits option.splits)
qed auto

text \<open>The fence a list of lines leaves open.\<close>

fun fenceAfter :: "string list \<Rightarrow> string \<Rightarrow> string" where
  "fenceAfter [] f = f"
| "fenceAfter (line # rest) f = fenceAfter rest (case fenceLine f line of Some g \<Rightarrow> g | None \<Rightarrow> f)"

text \<open>A fenced block: the line that opens it, lines that keep it open, and the line that closes it.\<close>

definition fenced :: "string list \<Rightarrow> bool" where
  "fenced block \<longleftrightarrow>
     (\<exists>l body g m. block = l # body @ [g] \<and> fenceLine '''' l = Some m \<and> m \<noteq> '''' \<and>
        (\<forall>x\<in>set body. fenceLine m x \<in> {None, Some m}) \<and> fenceLine m g = Some '''')"

lemma dodLines_inside:
  "f \<noteq> '''' \<Longrightarrow> \<forall>x\<in>set body. fenceLine f x \<in> {None, Some f} \<Longrightarrow> dodLines (body @ rest) sec f st = dodLines rest sec f st"
  by (induction body) (auto split: option.split)

lemma doneLines_inside:
  "f \<noteq> '''' \<Longrightarrow> \<forall>x\<in>set body. fenceLine f x \<in> {None, Some f} \<Longrightarrow> doneLines (body @ rest) f = doneLines rest f"
  by (induction body) (auto split: option.split)

lemma fenced_inert:
  assumes "fenced block"
  shows "dodLines (block @ rest) sec '''' st = dodLines rest sec '''' st" and "doneLines (block @ rest) '''' = doneLines rest ''''"
  using assms by (auto simp: fenced_def dodLines_inside doneLines_inside)

lemma fenced_below:
  assumes "fenced block"
  shows "fenceAfter pre f = '''' \<Longrightarrow> dodLines (pre @ block @ post) sec f st = dodLines (pre @ post) sec f st"
    and "fenceAfter pre f = '''' \<Longrightarrow> doneLines (pre @ block @ post) f = doneLines (pre @ post) f"
  by (induction pre arbitrary: f sec st) (auto simp: fenced_inert [OF assms] split: option.splits)

lemma Split_no_sep: "sep \<notin> set x \<Longrightarrow> Split x sep = [x]"
  by (induction x) auto

lemma Split_append: "sep \<notin> set x \<Longrightarrow> Split (x @ sep # y) sep = x # Split y sep"
  by (induction x) auto

lemma Split_Join:
  "xs \<noteq> [] \<Longrightarrow> \<forall>x\<in>set xs. sep \<notin> set x \<Longrightarrow> Split (Join xs [sep]) sep = xs"
  by (induction xs "[sep]" rule: Join.induct) (auto simp: Split_no_sep Split_append)

lemma if_Some_None: "(if b then Some x else y) = None \<longleftrightarrow> \<not> b \<and> y = None"
  by simp

lemma if_None: "(if b then None else y) = None \<longleftrightarrow> b \<or> y = None"
  by simp

lemma scaffold_passes:
  "checkScaffoldRedRule r tr = None \<longleftrightarrow>
     \<not> tn_ScaffoldExpected tr \<or> tn_ScaffoldPreExistingTouched tr = [] \<and> tn_ScaffoldUnregisteredTests tr = [] \<and>
       \<not> tn_ScaffoldCompileFailed tr \<and> to_Ran (tn_Tests tr) \<and>
       (if tn_ScaffoldRedWaived tr then to_Failed (tn_Tests tr) = []
        else \<not> tn_ScaffoldBodyNonStub tr \<and> to_Failed (tn_Tests tr) \<noteq> [])"
  unfolding checkScaffoldRedRule_def if_None if_Some_None
  by (cases "tn_ScaffoldRedWaived tr") (simp_all only: if_True if_False if_Some_None simp_thms, blast+)

lemma reproduce_passes:
  "checkReproduceRule r tr = None \<longleftrightarrow>
     \<not> tn_ReproduceExpected tr \<or> \<not> tn_ReproduceCompileFailed tr \<and> to_Ran (tn_Tests tr) \<and> to_Failed (tn_Tests tr) \<noteq> [] \<and>
       \<not> (tn_ReproduceTargetChecked tr \<and> \<not> tn_ReproduceExercisesTarget tr)"
  unfolding checkReproduceRule_def if_None if_Some_None by (simp only: simp_thms)

section \<open>Properties\<close>

text \<open>
  Failing tests block: when the suite of a turn ran and a test failed, the turn is no
  scaffold turn, and some enabled rule has the trigger \<open>tests_failed\<close>, then the
  verdict on the violations \<open>Evaluate\<close> finds is \<open>block\<close> in every gate
  mode, the warn mode included.
\<close>

theorem failed_tests_block:
  assumes "Evaluate io tr rules = Inr vs" and "r \<in> set rules" and "rl_Enabled r" and "rl_Trigger r = ''tests_failed''"
    and "to_Ran (tn_Tests tr)" and "to_Failed (tn_Tests tr) \<noteq> []" and "\<not> tn_ScaffoldExpected tr"
  shows "en_Action (Enforce vs gateMode) = ''block''"
proof -
  from check_tests_failed [OF assms(4,7,5,6)] obtain v where "checkRule io r tr = Inr (Some v)" "vi_Rule v = r" by blast
  with Evaluate_member [OF assms(1,2,3)] assms(4) show ?thesis
    by (auto simp: Enforce_blocks effective_block isAlwaysBlock_def)
qed

text \<open>
  C20: A green suite over tampered tests stops at the user: in vibe mode, for every stored rule
  list that does not switch the requirement rule off, every workspace, gate mode and drift
  score, the turn is classified as a requirement violation, never passed through and never given
  to the owner debate. This holds in warn mode too, where the comment in \<open>vibe_gate.go\<close> and the change note
  CA-1086 expect the gate to pass the turn through: the trigger \<open>requirement_signature_drift\<close> always blocks, so
  the downgrade is never reached.
\<close>

theorem tampered_green_stops_at_user:
  assumes "testsGreen tr" and "tn_TamperedTestPaths tr \<noteq> []"
    and "\<forall>r\<in>set rules. rl_ID r = RequirementRuleID \<longrightarrow> rl_Enabled r \<and> rl_Trigger r = ''requirement_signature_drift''"
    and "Evaluate io (CoerceVibeRequirementDrift tr) (EnabledRulesFor ''vibe'' rules) = Inr vs"
  shows "classifyVibeGateWithDrift ''vibe'' (Enforce vs gateMode) driftScore = vibeGateRequirement"
proof -
  obtain r where r: "r \<in> set (EnabledRulesFor ''vibe'' rules)" "rl_Enabled r" "rl_Trigger r = ''requirement_signature_drift''"
    using vibe_has_requirement [OF assms(3)] by blast
  from Coerce_facts [OF assms(1,2)] check_drift [OF r(3)] obtain v where
    "checkRule io r (CoerceVibeRequirementDrift tr) = Inr (Some v)" "vi_Rule v = r" by blast
  with Evaluate_member [OF assms(4) r(1,2)] r(3) have "v \<in> set vs" "rl_Trigger (vi_Rule v) = ''requirement_signature_drift''"
    by auto
  then show ?thesis by (intro drift_stops_at_user)
qed

text \<open>
  The rule checks and the verdicts exposed to the runner: on a scaffold turn the check
  finds nothing iff \<open>ScaffoldSatisfied\<close>; on a reproduce turn the check also demands
  that the failing tests exercise the target when that was checked, which
  \<open>ReproduceSatisfied\<close> does not look at.
\<close>

theorem turn_verdicts_agree:
  assumes "tn_ScaffoldExpected tr" and "tn_ReproduceExpected tr'"
  shows "(checkScaffoldRedRule r tr = None \<longleftrightarrow> ScaffoldSatisfied tr) \<and>
     (checkReproduceRule r' tr' = None \<longleftrightarrow>
        ReproduceSatisfied tr' \<and> \<not> (tn_ReproduceTargetChecked tr' \<and> \<not> tn_ReproduceExercisesTarget tr'))"
  unfolding scaffold_passes reproduce_passes ScaffoldSatisfied_def ReproduceSatisfied_def using assms by (auto split: if_splits)

text \<open>
  Open items decide: the status \<open>DodDoneTransition\<close> reports counts every
  checkbox once, as checked or as an open item, and with that status the completion rule stays
  silent iff no document transitioned or no item is open.
\<close>

theorem open_items_decide:
  assumes "DodDoneTransition io cwd paths = (st, b)" and "rl_Trigger r = ''marked_done_with_open_dod''"
  shows "ds_Checked st + length (ds_OpenItems st) = ds_Total st \<and>
     (checkRule io r (tr\<lparr>tn_DodTransitionedToDone := b, tn_DodStatus := st\<rparr>) = Inr None \<longleftrightarrow> \<not> b \<or> ds_OpenItems st = [])"
proof -
  have "balanced st"
    using assms(1) doneLoop_balanced [of None io _ paths "{}" st]
    by (auto simp: DodDoneTransition_def Let_def balanced_def zeroDod_def split: if_splits option.splits)
  then have c: "ds_Checked st + length (ds_OpenItems st) = ds_Total st" by (simp add: balanced_def)
  then have "ds_Checked st < ds_Total st \<longleftrightarrow> ds_OpenItems st \<noteq> []" by (metis add_less_cancel_left add_0_right length_greater_0_conv)
  with c assms(2) show ?thesis by (simp add: checkRule_def checkDodRule_def Let_def)
qed

text \<open>
  A fenced block is inert: inserting a code block, whatever headings, checkboxes or
  metadata lines it quotes, between the lines of a document, outside its other blocks, changes
  neither the Definition of Done that is read nor whether the document declares itself done.
\<close>

theorem fenced_block_inert:
  assumes "fenced block" and "fenceAfter pre '''' = ''''" and "pre @ post \<noteq> []"
    and "\<forall>x\<in>set (pre @ block @ post). CHR 0x0A \<notin> set x"
  shows "ParseDefinitionOfDone (Join (pre @ block @ post) [CHR 0x0A]) = ParseDefinitionOfDone (Join (pre @ post) [CHR 0x0A]) \<and>
     hasDoneMetadata (Join (pre @ block @ post) [CHR 0x0A]) = hasDoneMetadata (Join (pre @ post) [CHR 0x0A])"
proof -
  have s: "Split (Join (pre @ block @ post) [CHR 0x0A]) (CHR 0x0A) = pre @ block @ post"
    "Split (Join (pre @ post) [CHR 0x0A]) (CHR 0x0A) = pre @ post"
    by (rule Split_Join; use assms(3,4) in auto)+
  show ?thesis
    by (simp only: ParseDefinitionOfDone_def hasDoneMetadata_def s fenced_below [OF assms(1,2)])
qed

section \<open>Witnesses\<close>

definition zeroTurn :: TurnResult where
  "zeroTurn =
     \<lparr>tn_RunID = '''', tn_StepID = '''', tn_FinalMessage = '''', tn_ToolCalls = [], tn_GitDiff = [], tn_WrittenPaths = [],
      tn_Tests = \<lparr>to_Ran = False, to_Passed = [], to_Failed = [], to_Regressed = []\<rparr>, tn_ChangeType = '''',
      tn_SourceDocID = '''', tn_CommitSubjects = [], tn_ChangedPaths = [], tn_KnownFeatureKeys = [],
      tn_SuggestedFeatureKeys = [], tn_WorkspaceCwd = '''', tn_RequiredFileArtifactOutputs = [],
      tn_RequiredStructuredFileArtifactOutputs = [], tn_RequiredTelegramSends = [], tn_ContractDeclared = False,
      tn_ScopeOutOfScopePaths = [], tn_ScopeHighSeverity = False, tn_HeadSpecDrifted = False, tn_HeadCodeDrifted = False,
      tn_HeadAttachSpecPending = False, tn_HeadRetirePending = False, tn_TamperedTestPaths = [],
      tn_ReproduceExpected = False, tn_ReproduceCompileFailed = False, tn_ReproduceTargetChecked = False,
      tn_ReproduceExercisesTarget = False, tn_RequirementDrift = False, tn_RequirementDriftDetail = '''',
      tn_DodTransitionedToDone = False, tn_DodStatus = zeroDod, tn_DodExplanation = None, tn_SignatureHashBefore = '''',
      tn_SignatureHashAfter = '''', tn_SignatureDrift = [], tn_CoderRenegotiating = False, tn_ScaffoldExpected = False,
      tn_ScaffoldCompileFailed = False, tn_ScaffoldBodyNonStub = False, tn_NonStubSymbols = [], tn_ScaffoldRedWaived = False,
      tn_ScaffoldPreExistingTouched = [], tn_ScaffoldUnregisteredTests = []\<rparr>"

definition demo_io :: workspace_io where
  "demo_io =
     \<lparr>io_Abs = Some, io_EvalSymlinks = Some, io_IsDir = (\<lambda>p. None),
      io_ReadFile = (\<lambda>p. Some (''## DoD'' @ [CHR 0x0A] @ ''- [ ] ship'')), io_WalkFiles = (\<lambda>p. []), io_ToLower = ToLower\<rparr>"

definition demo_red :: TurnResult where
  "demo_red = zeroTurn\<lparr>tn_Tests := \<lparr>to_Ran = True, to_Passed = [], to_Failed = [''TestA''], to_Regressed = []\<rparr>\<rparr>"

definition demo_tests_rule :: Rule where
  "demo_tests_rule = step_rule ''r-tests'' ''tests_failed'' ''tests_green_or_explained'' ''block''"

lemma demo_red_evaluates:
  "\<exists>vs. Evaluate demo_io demo_red [demo_tests_rule] = Inr vs"
  by (simp add: demo_red_def zeroTurn_def demo_tests_rule_def step_rule_def checkRule_def when_true_def Let_def)

lemma failed_tests_block_witness:
  "\<exists>vs. Evaluate demo_io demo_red [demo_tests_rule] = Inr vs \<and> en_Action (Enforce vs ''warn'') = ''block''"
proof -
  obtain vs where v: "Evaluate demo_io demo_red [demo_tests_rule] = Inr vs" using demo_red_evaluates by blast
  have "en_Action (Enforce vs ''warn'') = ''block''"
    by (rule failed_tests_block [OF v, of demo_tests_rule]) (simp_all add: demo_tests_rule_def step_rule_def demo_red_def zeroTurn_def)
  with v show ?thesis by blast
qed

definition demo_tampered :: TurnResult where
  "demo_tampered =
     zeroTurn\<lparr>tn_Tests := \<lparr>to_Ran = True, to_Passed = [''TestA''], to_Failed = [], to_Regressed = []\<rparr>,
              tn_TamperedTestPaths := [''a_test.go'']\<rparr>"

lemma tampered_green_stops_at_user_witness:
  "\<exists>vs. Evaluate demo_io (CoerceVibeRequirementDrift demo_tampered) (EnabledRulesFor ''vibe'' []) = Inr vs \<and>
     classifyVibeGateWithDrift ''vibe'' (Enforce vs ''warn'') 0 = vibeGateRequirement"
proof -
  have g: "testsGreen demo_tampered" "tn_TamperedTestPaths demo_tampered \<noteq> []"
    by (simp_all add: demo_tampered_def testsGreen_def)
  obtain v where "checkRule demo_io RequirementRule (CoerceVibeRequirementDrift demo_tampered) = Inr (Some v)"
    using check_drift [of RequirementRule "CoerceVibeRequirementDrift demo_tampered" demo_io] Coerce_facts [OF g]
    by (auto simp: RequirementRule_def step_rule_def)
  then have e: "Evaluate demo_io (CoerceVibeRequirementDrift demo_tampered) (EnabledRulesFor ''vibe'' []) = Inr [v]"
    by (simp add: EnabledRulesFor_def hasRule_def RequirementRule_def step_rule_def)
  from tampered_green_stops_at_user [OF g _ e, of "''warn''" 0] e show ?thesis by simp
qed

lemma turn_verdicts_agree_witness:
  "(checkScaffoldRedRule ScaffoldRedRule (demo_red\<lparr>tn_ScaffoldExpected := True\<rparr>) = None \<longleftrightarrow>
      ScaffoldSatisfied (demo_red\<lparr>tn_ScaffoldExpected := True\<rparr>)) \<and>
   checkReproduceRule ReproduceRule (demo_red\<lparr>tn_ReproduceExpected := True, tn_ReproduceTargetChecked := True\<rparr>) \<noteq> None \<and>
   ReproduceSatisfied (demo_red\<lparr>tn_ReproduceExpected := True, tn_ReproduceTargetChecked := True\<rparr>)"
  using turn_verdicts_agree [of "demo_red\<lparr>tn_ScaffoldExpected := True\<rparr>"
    "demo_red\<lparr>tn_ReproduceExpected := True, tn_ReproduceTargetChecked := True\<rparr>" ScaffoldRedRule ReproduceRule]
  by (simp add: demo_red_def zeroTurn_def ReproduceSatisfied_def)

lemma demo_transition:
  "DodDoneTransition demo_io ''/w'' [''done/Task-1.md''] =
     (\<lparr>ds_Present = True, ds_Total = 1, ds_Checked = 0, ds_OpenItems = [''ship'']\<rparr>, True)"
  by code_simp

lemma open_items_decide_witness:
  "checkRule demo_io (step_rule ''r-dod-complete'' ''marked_done_with_open_dod'' '''' ''block'')
     (zeroTurn\<lparr>tn_DodTransitionedToDone := True,
        tn_DodStatus := \<lparr>ds_Present = True, ds_Total = 1, ds_Checked = 0, ds_OpenItems = [''ship'']\<rparr>\<rparr>) \<noteq> Inr None"
  using open_items_decide [OF demo_transition, of "step_rule ''r-dod-complete'' ''marked_done_with_open_dod'' '''' ''block''" zeroTurn]
  by (simp add: step_rule_def)

lemma fenced_block_inert_witness:
  "ParseDefinitionOfDone (Join ([''## DoD''] @ [''```'', ''- [ ] x'', ''```''] @ [''- [x] y'']) [CHR 0x0A]) =
     ParseDefinitionOfDone (Join ([''## DoD''] @ [''- [x] y'']) [CHR 0x0A])"
proof -
  have f: "fenceLine '''' ''```'' = Some ''```''" "fenceLine ''```'' ''- [ ] x'' = None" "fenceLine ''```'' ''```'' = Some ''''"
    "fenceLine '''' ''## DoD'' = None"
    by code_simp+
  have "fenced [''```'', ''- [ ] x'', ''```'']"
    unfolding fenced_def
    by (rule exI [of _ "''```''"], rule exI [of _ "[''- [ ] x'']"], rule exI [of _ "''```''"], rule exI [of _ "''```''"])
      (simp add: f)
  from fenced_block_inert [OF this, of "[''## DoD'']" "[''- [x] y'']"] f(4) show ?thesis by simp
qed

end
