(* ===== verification/Drift_Detect.thy ===== *)
theory Drift_Detect
  imports Gate_Safety
begin

text \<open>
  The drift detector (\<open>driftdetect/detector.go\<close>, \<open>signals.go\<close>, \<open>ladder.go\<close>): the four
  signals of a turn, the carried score, the correction ladder and the system note.
\<close>

section \<open>Turns and events\<close>

record TurnSummary =
  su_TurnID :: string
  su_FinalMessage :: string
  su_TokensConsumed :: int
  su_FilesChanged :: "string list"
  su_TestResults :: "string list"
  su_ScopeOutOfScopePaths :: "string list"
  su_TestsGreen :: bool
  su_NonWritingNode :: bool

datatype CorrectionAction = ActionNone | ActionInjectSystemNote | ActionNarrowContext | ActionPauseForHuman

record DriftEvent =
  de_RunID :: string
  de_StepID :: string
  de_TurnID :: string
  de_DriftScore :: int
  de_TriggeredSignals :: "string list"
  de_CorrectionAction :: CorrectionAction
  de_SystemNotePrompt :: string

definition SignalOutOfScopeEdit :: string where
  "SignalOutOfScopeEdit = ''out_of_scope_edit''"

definition SignalRepeatedTestFailure :: string where
  "SignalRepeatedTestFailure = ''repeated_test_failure''"

definition SignalApologyLoop :: string where
  "SignalApologyLoop = ''apology_loop''"

definition SignalZeroDeltaProgress :: string where
  "SignalZeroDeltaProgress = ''zero_delta_progress''"

lemmas signal_names = SignalOutOfScopeEdit_def SignalRepeatedTestFailure_def SignalApologyLoop_def
  SignalZeroDeltaProgress_def

definition maxDriftScore :: int where
  "maxDriftScore = 100"

definition weightOutOfScopeEdit :: int where
  "weightOutOfScopeEdit = 35"

definition weightRepeatedTestFailure :: int where
  "weightRepeatedTestFailure = 30"

definition weightApologyLoop :: int where
  "weightApologyLoop = 25"

definition weightZeroDeltaProgress :: int where
  "weightZeroDeltaProgress = 20"

definition zeroDeltaTokenGuard :: int where
  "zeroDeltaTokenGuard = 2000"

lemmas drift_weights = weightOutOfScopeEdit_def weightRepeatedTestFailure_def weightApologyLoop_def
  weightZeroDeltaProgress_def

section \<open>Signals\<close>

definition checkRepeatedTestFailures :: "TurnSummary list \<Rightarrow> TurnSummary \<Rightarrow> bool" where
  "checkRepeatedTestFailures history current =
     (if su_TestResults current = [] \<or> history = [] then False
      else let prev = last history
           in if su_TestResults prev = [] then False
              else let failed = filter (\<lambda>name. name \<noteq> '''') (map TrimSpace (su_TestResults current))
                   in list_ex (\<lambda>t. List.member failed (TrimSpace t)) (su_TestResults prev))"

definition apologyPatterns :: "string list" where
  "apologyPatterns =
     [(''t'' @ [CHR 0xC3, CHR 0xB4] @ ''i r'' @ [CHR 0xE1, CHR 0xBA, CHR 0xA5] @ ''t xin l'' @
       [CHR 0xE1, CHR 0xBB, CHR 0x97] @ ''i''),
      (''t'' @ [CHR 0xC3, CHR 0xB4] @ ''i xin l'' @ [CHR 0xE1, CHR 0xBB, CHR 0x97] @ ''i''),
      (''xin l'' @ [CHR 0xE1, CHR 0xBB, CHR 0x97] @ ''i v'' @ [CHR 0xC3, CHR 0xAC]),
      (''xin l'' @ [CHR 0xE1, CHR 0xBB, CHR 0x97] @ ''i b'' @ [CHR 0xE1, CHR 0xBA, CHR 0xA1] @ ''n''),
      (''b'' @ [CHR 0xE1, CHR 0xBA, CHR 0xA1] @ ''n ho'' @ [CHR 0xC3, CHR 0xA0] @ ''n to'' @
        [CHR 0xC3, CHR 0xA0] @ ''n '' @ [CHR 0xC4, CHR 0x91, CHR 0xC3, CHR 0xBA] @ ''ng''),
      (''b'' @ [CHR 0xE1, CHR 0xBA, CHR 0xA1] @ ''n n'' @ [CHR 0xC3, CHR 0xB3] @ ''i '' @
        [CHR 0xC4, CHR 0x91, CHR 0xC3, CHR 0xBA] @ ''ng''),
      (''r'' @ [CHR 0xE1, CHR 0xBA, CHR 0xA5] @ ''t xin l'' @ [CHR 0xE1, CHR 0xBB, CHR 0x97] @ ''i''),
      ''i apologize'', ''i'm sorry'', ''i am sorry'', ''my apologies'', ''you're right'', ''you are right'',
      ''let me try again'', ''let me retry'', ''sorry for the confusion'', ''sorry for the mistake'']"

text \<open>
  \<open>strings.ToLower\<close> on UTF-8 text, exact for ASCII, the Latin-1 letters and the Vietnamese letters
  beyond them. Other letters stay as they are: no letter outside these lowers to one that
  occurs in a pattern, apart from the Kelvin, Angstrom and dotted-I signs, which are included.
\<close>

definition lower2 :: "char \<Rightarrow> char \<Rightarrow> string option" where
  "lower2 c d =
     (if c = CHR 0xC3 \<and> CHR 0x80 \<le> d \<and> d \<le> CHR 0x9E \<and> d \<noteq> CHR 0x97 then Some [c, char_of (of_char d + 32 :: nat)]
      else if (c, d) \<in> {(CHR 0xC4, CHR 0x82), (CHR 0xC4, CHR 0x90), (CHR 0xC4, CHR 0xA8), (CHR 0xC5, CHR 0xA8), (CHR 0xC6, CHR 0xA0), (CHR 0xC6, CHR 0xAF)}
           then Some [c, char_of (of_char d + 1 :: nat)]
      else if c = CHR 0xC4 \<and> d = CHR 0xB0 then Some ''i''
      else None)"

definition lower3 :: "char \<Rightarrow> char \<Rightarrow> char \<Rightarrow> string option" where
  "lower3 c d e =
     (if c = CHR 0xE1 \<and> (d = CHR 0xBA \<and> CHR 0xA0 \<le> e \<or> d = CHR 0xBB) \<and> e \<le> CHR 0xBE \<and> even (of_char e :: nat)
      then Some [c, d, char_of (of_char e + 1 :: nat)]
      else if [c, d, e] = [CHR 0xE2, CHR 0x84, CHR 0xAA] then Some ''k''
      else if [c, d, e] = [CHR 0xE2, CHR 0x84, CHR 0xAB] then Some [CHR 0xC3, CHR 0xA5]
      else None)"

fun ToLowerLatin :: "string \<Rightarrow> string" where
  "ToLowerLatin (c # d # e # cs) =
     (case lower2 c d of
        Some x \<Rightarrow> x @ ToLowerLatin (e # cs)
      | None \<Rightarrow> (case lower3 c d e of
                   Some x \<Rightarrow> x @ ToLowerLatin cs
                 | None \<Rightarrow> lower_char c # ToLowerLatin (d # e # cs)))"
| "ToLowerLatin [c, d] = (case lower2 c d of Some x \<Rightarrow> x | None \<Rightarrow> [lower_char c, lower_char d])"
| "ToLowerLatin [c] = [lower_char c]"
| "ToLowerLatin [] = []"

definition normalizeForMatch :: "string \<Rightarrow> string" where
  "normalizeForMatch message = Join (Fields (ToLowerLatin message)) '' ''"

definition messageHasApologyPattern :: "string \<Rightarrow> bool" where
  "messageHasApologyPattern message =
     (let normalized = normalizeForMatch message
      in if normalized = '''' then False else list_ex (Contains normalized) apologyPatterns)"

definition checkApologyPatterns :: "TurnSummary list \<Rightarrow> TurnSummary \<Rightarrow> bool" where
  "checkApologyPatterns history current =
     (if \<not> messageHasApologyPattern (su_FinalMessage current) then False
      else if history = [] then False
      else messageHasApologyPattern (su_FinalMessage (last history)))"

definition checkZeroDeltaProgress :: "TurnSummary \<Rightarrow> bool" where
  "checkZeroDeltaProgress current \<longleftrightarrow>
     su_TokensConsumed current > zeroDeltaTokenGuard \<and> su_FilesChanged current = [] \<and>
     \<not> su_TestsGreen current \<and> \<not> su_NonWritingNode current"

definition hasSignal :: "string list \<Rightarrow> string \<Rightarrow> bool" where
  "hasSignal signals name = list_ex (\<lambda>s. EqualFold (TrimSpace s) name) signals"

definition signalScore :: "TurnSummary list \<Rightarrow> TurnSummary \<Rightarrow> int \<times> string list" where
  "signalScore history current =
     (let (score0, sig0) = (if su_ScopeOutOfScopePaths current \<noteq> [] then (weightOutOfScopeEdit, [SignalOutOfScopeEdit]) else (0, []));
          (score1, sig1) = (if checkRepeatedTestFailures history current
                            then (score0 + weightRepeatedTestFailure, sig0 @
                              [SignalRepeatedTestFailure]) else (score0, sig0));
          (score2, sig2) = (if checkApologyPatterns history current
                            then (score1 + weightApologyLoop, sig1 @ [SignalApologyLoop]) else (score1, sig1))
      in if checkZeroDeltaProgress current
         then (score2 + weightZeroDeltaProgress, sig2 @ [SignalZeroDeltaProgress]) else (score2, sig2))"

section \<open>The carried score\<close>

definition clampScore :: "int \<Rightarrow> int" where
  "clampScore score = (if score > maxDriftScore then maxDriftScore else if score < 0 then 0 else score)"

text \<open>The two code paths below share this step only in its meaning: each has its own switch.\<close>

fun carriedFrom :: "TurnSummary list \<Rightarrow> nat list \<Rightarrow> int \<Rightarrow> int" where
  "carriedFrom history [] score = score"
| "carriedFrom history (i # is) score =
     (let (turnScore, _) = signalScore (take i history) (history ! i)
      in carriedFrom history is
           (if turnScore > 0 then clampScore (score + turnScore)
            else if su_FilesChanged (history ! i) \<noteq> [] then score div 2
            else score))"

definition carriedDriftScore :: "TurnSummary list \<Rightarrow> int" where
  "carriedDriftScore history = carriedFrom history [0..<length history] 0"

definition resolveCorrectionAction :: "int \<Rightarrow> CorrectionAction" where
  "resolveCorrectionAction score =
     (if score \<ge> 80 then ActionPauseForHuman
      else if score \<ge> 60 then ActionNarrowContext
      else if score \<ge> 30 then ActionInjectSystemNote
      else ActionNone)"

section \<open>The system note\<close>

definition signalAdvisories :: "string \<Rightarrow> string" where
  "signalAdvisories name =
     (if name = SignalOutOfScopeEdit then
        (''- out_of_scope_edit: B'' @ [CHR 0xE1, CHR 0xBA, CHR 0xA1] @ ''n v'' @
          [CHR 0xE1, CHR 0xBB, CHR 0xAB] @ ''a s'' @ [CHR 0xE1, CHR 0xBB, CHR 0xAD] @ ''a file ngo'' @
          [CHR 0xC3, CHR 0xA0] @ ''i ph'' @ [CHR 0xE1, CHR 0xBA, CHR 0xA1] @ ''m vi '' @
          [CHR 0xC4, CHR 0x91, CHR 0xC3, CHR 0xA3] @ '' cam k'' @ [CHR 0xE1, CHR 0xBA, CHR 0xBF] @
          ''t. H'' @ [CHR 0xC3, CHR 0xA3] @ ''y quay l'' @ [CHR 0xE1, CHR 0xBA, CHR 0xA1] @ ''i '' @
          [CHR 0xC4, CHR 0x91, CHR 0xC3, CHR 0xBA] @ ''ng ph'' @ [CHR 0xE1, CHR 0xBA, CHR 0xA1] @
          ''m vi khai b'' @ [CHR 0xC3, CHR 0xA1] @
          ''o. (You edited files outside the declared scope '' @ emdash @
          '' return to the committed scope.)'')
      else if name = SignalRepeatedTestFailure then
        (''- repeated_test_failure: C'' @ [CHR 0xC3, CHR 0xB9] @ ''ng m'' @
          [CHR 0xE1, CHR 0xBB, CHR 0x99] @ ''t test '' @ [CHR 0xC4, CHR 0x91, CHR 0xC3, CHR 0xA3] @
          '' fail l'' @ [CHR 0xE1, CHR 0xBA, CHR 0xB7] @ ''p l'' @ [CHR 0xE1, CHR 0xBA, CHR 0xA1] @
          ''i >= 2 l'' @ [CHR 0xC6, CHR 0xB0, CHR 0xE1, CHR 0xBB, CHR 0xA3] @ ''t li'' @
          [CHR 0xC3, CHR 0xAA] @ ''n ti'' @ [CHR 0xE1, CHR 0xBA, CHR 0xBF] @ ''p. H'' @
          [CHR 0xC3, CHR 0xA3] @ ''y '' @ [CHR 0xC4, CHR 0x91, CHR 0xE1, CHR 0xBB, CHR 0x8D] @ ''c k'' @
          [CHR 0xE1, CHR 0xBB, CHR 0xB9] @ '' th'' @ [CHR 0xC3, CHR 0xB4] @ ''ng b'' @
          [CHR 0xC3, CHR 0xA1] @ ''o l'' @ [CHR 0xE1, CHR 0xBB, CHR 0x97] @ ''i v'' @
          [CHR 0xC3, CHR 0xA0] @ '' '' @ [CHR 0xC4, CHR 0x90, CHR 0xE1, CHR 0xBB, CHR 0x94] @ ''I c'' @
          [CHR 0xC3, CHR 0xA1] @ ''ch s'' @ [CHR 0xE1, CHR 0xBB, CHR 0xAD] @ ''a, kh'' @
          [CHR 0xC3, CHR 0xB4] @ ''ng l'' @ [CHR 0xE1, CHR 0xBA, CHR 0xB7] @ ''p l'' @
          [CHR 0xE1, CHR 0xBA, CHR 0xA1] @ ''i ch'' @ [CHR 0xE1, CHR 0xBB, CHR 0x89] @ ''nh s'' @
          [CHR 0xE1, CHR 0xBB, CHR 0xAD] @ ''a c'' @ [CHR 0xC5, CHR 0xA9] @
          ''. (The same test failed repeatedly '' @ emdash @
          '' study the failure and change the fix strategy.)'')
      else if name = SignalApologyLoop then
        (''- apology_loop: B'' @ [CHR 0xE1, CHR 0xBA, CHR 0xA1] @ ''n '' @ [CHR 0xC4, CHR 0x91] @
          ''ang l'' @ [CHR 0xE1, CHR 0xBA, CHR 0xB7] @ ''p l'' @ [CHR 0xE1, CHR 0xBA, CHR 0xA1] @
          ''i c'' @ [CHR 0xE1, CHR 0xBB, CHR 0xA5] @ ''m t'' @ [CHR 0xE1, CHR 0xBB, CHR 0xAB] @
          '' xin l'' @ [CHR 0xE1, CHR 0xBB, CHR 0x97] @ ''i/'' @ [CHR 0xC4, CHR 0x91] @ ''i'' @
          [CHR 0xE1, CHR 0xBB, CHR 0x81] @ ''n t'' @ [CHR 0xE1, CHR 0xBB, CHR 0xAB] @ '' qua nhi'' @
          [CHR 0xE1, CHR 0xBB, CHR 0x81] @ ''u l'' @
          [CHR 0xC6, CHR 0xB0, CHR 0xE1, CHR 0xBB, CHR 0xA3] @ ''t. Thay v'' @ [CHR 0xC3, CHR 0xAC] @
          '' xin l'' @ [CHR 0xE1, CHR 0xBB, CHR 0x97] @ ''i, h'' @ [CHR 0xC3, CHR 0xA3] @ ''y ph'' @
          [CHR 0xC3, CHR 0xA2] @ ''n t'' @ [CHR 0xC3, CHR 0xAD] @ ''ch nguy'' @ [CHR 0xC3, CHR 0xAA] @
          ''n nh'' @ [CHR 0xC3, CHR 0xA2] @ ''n g'' @ [CHR 0xE1, CHR 0xBB, CHR 0x91] @ ''c v'' @
          [CHR 0xC3, CHR 0xA0] @ '' '' @ [CHR 0xC4, CHR 0x91, CHR 0xE1, CHR 0xBB, CHR 0x95] @ ''i h'' @
          [CHR 0xC6, CHR 0xB0, CHR 0xE1, CHR 0xBB, CHR 0x9B] @ ''ng ti'' @
          [CHR 0xE1, CHR 0xBA, CHR 0xBF] @ ''p c'' @ [CHR 0xE1, CHR 0xBA, CHR 0xAD] @
          ''n. (You are repeating apology phrases across turns '' @ emdash @
          '' analyze the root cause and change approach instead of apologizing.)'')
      else if name = SignalZeroDeltaProgress then
        (''- zero_delta_progress: L'' @ [CHR 0xC6, CHR 0xB0, CHR 0xE1, CHR 0xBB, CHR 0xA3] @ ''t n'' @
          [CHR 0xC3, CHR 0xA0] @ ''y ti'' @ [CHR 0xC3, CHR 0xAA] @ ''u t'' @
          [CHR 0xE1, CHR 0xBB, CHR 0x91] @ ''n nhi'' @ [CHR 0xE1, CHR 0xBB, CHR 0x81] @ ''u token nh'' @
          [CHR 0xC6, CHR 0xB0] @ ''ng kh'' @ [CHR 0xC3, CHR 0xB4] @ ''ng thay '' @
          [CHR 0xC4, CHR 0x91, CHR 0xE1, CHR 0xBB, CHR 0x95] @ ''i file n'' @ [CHR 0xC3, CHR 0xA0] @
          ''o. H'' @ [CHR 0xC3, CHR 0xA3] @ ''y th'' @ [CHR 0xE1, CHR 0xBB, CHR 0xB1] @ ''c hi'' @
          [CHR 0xE1, CHR 0xBB, CHR 0x87] @ ''n m'' @ [CHR 0xE1, CHR 0xBB, CHR 0x99] @ ''t thay '' @
          [CHR 0xC4, CHR 0x91, CHR 0xE1, CHR 0xBB, CHR 0x95] @ ''i c'' @
          [CHR 0xE1, CHR 0xBB, CHR 0xA5] @ '' th'' @ [CHR 0xE1, CHR 0xBB, CHR 0x83] @ '' ho'' @
          [CHR 0xE1, CHR 0xBA, CHR 0xB7] @ ''c tr'' @ [CHR 0xC3, CHR 0xAC] @ ''nh b'' @
          [CHR 0xC3, CHR 0xA0] @ ''y k'' @ [CHR 0xE1, CHR 0xBA, CHR 0xBF] @ '' ho'' @
          [CHR 0xE1, CHR 0xBA, CHR 0xA1] @ ''ch r'' @ [CHR 0xC3, CHR 0xB5] @ '' r'' @
          [CHR 0xC3, CHR 0xA0] @ ''ng. (High token spend with zero file changes '' @ emdash @
          '' make a concrete change or present a clear plan.)'')
      else '''')"

definition signalAdvisoryOrder :: "string list" where
  "signalAdvisoryOrder = [SignalOutOfScopeEdit, SignalRepeatedTestFailure, SignalApologyLoop, SignalZeroDeltaProgress]"

fun citeUnknown :: "string list \<Rightarrow> string list \<Rightarrow> string" where
  "citeUnknown cited [] = ''''"
| "citeUnknown cited (name # rest) =
     (let key = ToLowerLatin (TrimSpace name)
      in if key = '''' \<or> List.member cited key then citeUnknown cited rest
         else ''- '' @ name @ ('': T'' @ [CHR 0xC3, CHR 0xAD] @ ''n hi'' @
           [CHR 0xE1, CHR 0xBB, CHR 0x87] @ ''u l'' @ [CHR 0xE1, CHR 0xBB, CHR 0x87] @ ''ch h'' @
           [CHR 0xC6, CHR 0xB0, CHR 0xE1, CHR 0xBB, CHR 0x9B] @ ''ng b'' @
           [CHR 0xE1, CHR 0xBA, CHR 0xA5] @ ''t th'' @
           [CHR 0xC6, CHR 0xB0, CHR 0xE1, CHR 0xBB, CHR 0x9D] @ ''ng '' @ emdash @ '' h'' @
           [CHR 0xC3, CHR 0xA3] @ ''y xem x'' @ [CHR 0xC3, CHR 0xA9] @ ''t l'' @
           [CHR 0xE1, CHR 0xBA, CHR 0xA1] @ ''i h'' @
           [CHR 0xC6, CHR 0xB0, CHR 0xE1, CHR 0xBB, CHR 0x9B] @ ''ng l'' @ [CHR 0xC3, CHR 0xA0] @
           ''m hi'' @ [CHR 0xE1, CHR 0xBB, CHR 0x87] @ ''n t'' @ [CHR 0xE1, CHR 0xBA, CHR 0xA1] @
           ''i. (Unusual drift signal '' @ emdash @ '' re-evaluate the current approach.)'' @ [CHR 0x0A]) @
              citeUnknown (key # cited) rest)"

definition GenerateSystemNote :: "DriftEvent \<Rightarrow> string" where
  "GenerateSystemNote event =
     (let score = fmt_d (de_DriftScore event);
          known = filter (hasSignal (de_TriggeredSignals event)) signalAdvisoryOrder
      in (''[FlowPilot Drift Detector] C'' @ [CHR 0xE1, CHR 0xBA, CHR 0xA3] @ ''nh b'' @
        [CHR 0xC3, CHR 0xA1] @ ''o l'' @ [CHR 0xE1, CHR 0xBB, CHR 0x87] @ ''ch h'' @
        [CHR 0xC6, CHR 0xB0, CHR 0xE1, CHR 0xBB, CHR 0x9B] @ ''ng '' @ emdash @ '' drift_score='') @ score @
         ''/100. Drift warning '' @ emdash @ '' drift score '' @ score @ (''/100.'' @ [CHR 0x0A]) @
         concat (map (\<lambda>name. signalAdvisories name @ [CHR 0x0A]) known) @
         citeUnknown (map (\<lambda>name. ToLowerLatin (TrimSpace name)) known) (de_TriggeredSignals event) @
         (''H'' @ [CHR 0xC3, CHR 0xA3] @ ''y THAY '' @
           [CHR 0xC4, CHR 0x90, CHR 0xE1, CHR 0xBB, CHR 0x94] @ ''I chi'' @
           [CHR 0xE1, CHR 0xBA, CHR 0xBF] @ ''n l'' @
           [CHR 0xC6, CHR 0xB0, CHR 0xE1, CHR 0xBB, CHR 0xA3] @ ''c ti'' @
           [CHR 0xE1, CHR 0xBA, CHR 0xBF] @ ''p c'' @ [CHR 0xE1, CHR 0xBA, CHR 0xAD] @ ''n ngay '' @
           [CHR 0xE1, CHR 0xBB, CHR 0x9F] @ '' l'' @
           [CHR 0xC6, CHR 0xB0, CHR 0xE1, CHR 0xBB, CHR 0xA3] @ ''t k'' @
           [CHR 0xE1, CHR 0xBA, CHR 0xBF] @ '' ti'' @ [CHR 0xE1, CHR 0xBA, CHR 0xBF] @ ''p; kh'' @
           [CHR 0xC3, CHR 0xB4] @ ''ng l'' @ [CHR 0xE1, CHR 0xBA, CHR 0xB7] @ ''p l'' @
           [CHR 0xE1, CHR 0xBA, CHR 0xA1] @ ''i c'' @ [CHR 0xC3, CHR 0xB9] @ ''ng m'' @
           [CHR 0xE1, CHR 0xBB, CHR 0x99] @ ''t h'' @ [CHR 0xC3, CHR 0xA0] @ ''nh '' @
           [CHR 0xC4, CHR 0x91, CHR 0xE1, CHR 0xBB, CHR 0x99] @
           ''ng. CHANGE your approach in the next turn '' @ emdash @ '' do not repeat the same action.''))"

section \<open>Evaluating a turn\<close>

definition EvaluateTurnDrift :: "TurnSummary list \<Rightarrow> TurnSummary \<Rightarrow> DriftEvent" where
  "EvaluateTurnDrift history current =
     (let carried = carriedDriftScore history;
          (turnScore, signals) = signalScore history current;
          score = (if turnScore > 0 then clampScore (carried + turnScore)
                   else if su_FilesChanged current \<noteq> [] then carried div 2
                   else carried);
          action = resolveCorrectionAction score;
          event = \<lparr>de_RunID = '''', de_StepID = '''', de_TurnID = su_TurnID current, de_DriftScore = score,
                   de_TriggeredSignals = signals, de_CorrectionAction = action, de_SystemNotePrompt = ''''\<rparr>
      in if action = ActionInjectSystemNote then event\<lparr>de_SystemNotePrompt := GenerateSystemNote event\<rparr>
         else event)"

section \<open>One step of the score\<close>

text \<open>
  The specification: a turn with a signal adds its weight up to 100, a turn without one halves
  the score when it changed a file, and leaves it alone otherwise.
\<close>

definition driftStep :: "TurnSummary list \<Rightarrow> TurnSummary \<Rightarrow> int \<Rightarrow> int" where
  "driftStep history t score =
     (let w = fst (signalScore history t)
      in if w > 0 then min 100 (score + w) else if su_FilesChanged t \<noteq> [] then score div 2 else score)"

lemma signal_score_bounds: "0 \<le> fst (signalScore h t)" "fst (signalScore h t) \<le> 110"
  by (simp_all add: signalScore_def drift_weights)

lemma signal_score_zero: "fst (signalScore h t) = 0 \<longleftrightarrow> snd (signalScore h t) = []"
  by (simp add: signalScore_def drift_weights)

lemma driftStep_code:
  "0 \<le> score \<Longrightarrow>
   driftStep h t score =
     (case signalScore h t of (w, _) \<Rightarrow>
        if w > 0 then clampScore (score + w) else if su_FilesChanged t \<noteq> [] then score div 2 else score)"
  by (cases "signalScore h t") (simp add: driftStep_def Let_def clampScore_def maxDriftScore_def)

lemma driftStep_range: "0 \<le> score \<Longrightarrow> score \<le> 100 \<Longrightarrow> 0 \<le> driftStep h t score \<and> driftStep h t score \<le> 100"
  using signal_score_bounds [of h t] by (auto simp: driftStep_def Let_def)

lemma carriedFrom_append: "carriedFrom h (xs @ ys) score = carriedFrom h ys (carriedFrom h xs score)"
  by (induction xs arbitrary: score) (simp_all add: Let_def split: prod.splits)

lemma carriedFrom_prefix: "\<forall>i\<in>set xs. i < length h \<Longrightarrow> carriedFrom (h @ ts) xs score = carriedFrom h xs score"
  by (induction xs arbitrary: score) (auto simp: Let_def nth_append split: prod.splits)

lemma carriedFrom_range:
  "0 \<le> score \<Longrightarrow> score \<le> 100 \<Longrightarrow> 0 \<le> carriedFrom h xs score \<and> carriedFrom h xs score \<le> 100"
proof (induction xs arbitrary: score)
  case (Cons i xs)
  have "carriedFrom h (i # xs) score = carriedFrom h xs (driftStep (take i h) (h ! i) score)"
    using Cons.prems by (simp add: driftStep_code split: prod.splits)
  with Cons.IH driftStep_range [OF Cons.prems] show ?case by metis
qed simp

lemma carried_range: "0 \<le> carriedDriftScore h" "carriedDriftScore h \<le> 100"
  using carriedFrom_range [of 0] by (simp_all add: carriedDriftScore_def)

lemma carried_snoc: "carriedDriftScore (h @ [t]) = driftStep h t (carriedDriftScore h)"
  by (simp add: carriedDriftScore_def carriedFrom_append carriedFrom_prefix driftStep_code
        carried_range [unfolded carriedDriftScore_def] split: prod.splits)

lemma event_score: "de_DriftScore (EvaluateTurnDrift h t) = driftStep h t (carriedDriftScore h)"
  by (simp add: EvaluateTurnDrift_def Let_def driftStep_code carried_range split: prod.splits)

lemma event_action: "de_CorrectionAction (EvaluateTurnDrift h t) = resolveCorrectionAction (de_DriftScore (EvaluateTurnDrift h t))"
  by (simp add: EvaluateTurnDrift_def Let_def split: prod.splits)

lemma event_signals: "de_TriggeredSignals (EvaluateTurnDrift h t) = snd (signalScore h t)"
  by (simp add: EvaluateTurnDrift_def Let_def split: prod.splits)

section \<open>Properties\<close>

text \<open>
  C21: The score of a turn is the replay of the history: evaluating a turn gives the score carried over
  the history with the turn appended, one decay-and-add step per turn from zero, clamped to 0..100.
\<close>

theorem drift_replay:
  "de_DriftScore (EvaluateTurnDrift h t) = carriedDriftScore (h @ [t]) \<and>
   carriedDriftScore (h @ [t]) = driftStep h t (carriedDriftScore h) \<and> carriedDriftScore [] = 0"
  by (simp add: event_score carried_snoc) (simp add: carriedDriftScore_def)

lemma vibe_drift_threshold: "classifyVibeGateWithDrift ''vibe'' (Enforce [] m) d = vibeGateOwnerDebate \<longleftrightarrow> 80 \<le> d"
  by (simp add: classifyVibeGateWithDrift_def Enforce_def ResolvePrecedence_def VibeDriftDebateThreshold_def Let_def)

text \<open>
  The ladder: every score lies between 0 and 100; a clean gate routes a vibe turn to the owner
  debate exactly when the ladder says to pause; a turn without a signal that changed a file is never
  paused nor narrowed, and after a second such turn no correction is left.
\<close>

theorem drift_ladder:
  assumes "snd (signalScore h t) = []" and "su_FilesChanged t \<noteq> []"
    and "snd (signalScore (h @ [t]) t') = []" and "su_FilesChanged t' \<noteq> []"
  shows "0 \<le> de_DriftScore (EvaluateTurnDrift h u) \<and> de_DriftScore (EvaluateTurnDrift h u) \<le> 100 \<and>
     (de_CorrectionAction (EvaluateTurnDrift h u) = ActionPauseForHuman \<longleftrightarrow>
        classifyVibeGateWithDrift ''vibe'' (Enforce [] m) (de_DriftScore (EvaluateTurnDrift h u)) = vibeGateOwnerDebate) \<and>
     de_CorrectionAction (EvaluateTurnDrift h t) \<in> {ActionNone, ActionInjectSystemNote} \<and>
     de_CorrectionAction (EvaluateTurnDrift (h @ [t]) t') = ActionNone"
proof -
  have one: "driftStep h t s = s div 2" and two: "driftStep (h @ [t]) t' s = s div 2" for s
    using assms by (simp_all add: driftStep_def flip: signal_score_zero)
  show ?thesis
    using carried_range [of h] driftStep_range [OF carried_range, of h u]
    by (auto simp: event_action event_score carried_snoc one two vibe_drift_threshold resolveCorrectionAction_def)
qed

section \<open>Witnesses\<close>

definition quietTurn :: "string \<Rightarrow> string list \<Rightarrow> TurnSummary" where
  "quietTurn i files =
     \<lparr>su_TurnID = i, su_FinalMessage = '''', su_TokensConsumed = 0, su_FilesChanged = files, su_TestResults = [],
      su_ScopeOutOfScopePaths = [], su_TestsGreen = False, su_NonWritingNode = False\<rparr>"

lemma quiet_files: "su_FilesChanged (quietTurn i files) = files"
  by (simp add: quietTurn_def)

lemma quiet_message: "messageHasApologyPattern '''' = False"
  by (simp add: messageHasApologyPattern_def normalizeForMatch_def Fields_def)

lemma quiet_signals: "signalScore h (quietTurn i files) = (0, [])"
  by (simp add: signalScore_def checkRepeatedTestFailures_def checkApologyPatterns_def checkZeroDeltaProgress_def
      quietTurn_def quiet_message zeroDeltaTokenGuard_def)

theorem drift_ladder_witness:
  "de_CorrectionAction (EvaluateTurnDrift [] (quietTurn ''t1'' [''a.go''])) \<in> {ActionNone, ActionInjectSystemNote} \<and>
   de_CorrectionAction (EvaluateTurnDrift [quietTurn ''t1'' [''a.go'']] (quietTurn ''t2'' [''b.go''])) = ActionNone"
  using drift_ladder [of "[]" "quietTurn ''t1'' [''a.go'']" "quietTurn ''t2'' [''b.go'']"]
  by (simp only: quiet_signals quiet_files append_Nil snd_conv simp_thms list.distinct)

end
