(* ===== verification/Go_Value.thy ===== *)
theory Go_Value
  imports Go_Text Complex_Main
begin

text \<open>
  Decoded configuration values (Go's \<open>any\<close> after YAML or JSON). A map is an association list with
  distinct keys; an absent key reads as \<open>GNil\<close>. A \<open>float64\<close> is the rational number it stands for.
\<close>

datatype gvalue =
    GNil
  | GBool bool
  | GInt int
  | GInt64 int
  | GFloat rat
  | GString string
  | GList "gvalue list"
  | GMap "(string \<times> gvalue) list"
  | GOther

type_synonym gmap = "(string \<times> gvalue) list"

definition rawField :: "string \<Rightarrow> gmap \<Rightarrow> gvalue" where
  "rawField k m = (case map_of m k of None \<Rightarrow> GNil | Some v \<Rightarrow> v)"

text \<open>The first error of a sequence of checks.\<close>

definition andThen :: "'e option \<Rightarrow> 'e option \<Rightarrow> 'e option" where
  "andThen a b = (case a of Some e \<Rightarrow> Some e | None \<Rightarrow> b)"

fun firstError :: "('a \<Rightarrow> 'e option) \<Rightarrow> 'a list \<Rightarrow> 'e option" where
  "firstError f [] = None"
| "firstError f (x # xs) = andThen (f x) (firstError f xs)"

lemma andThen_None [simp]: "andThen a b = None \<longleftrightarrow> a = None \<and> b = None"
  by (simp add: andThen_def split: option.split)

lemma firstError_None [simp]: "firstError f xs = None \<longleftrightarrow> (\<forall>x\<in>set xs. f x = None)"
  by (induction xs) simp_all

end
