(* ===== verification/Flow_Topology.thy ===== *)
theory Flow_Topology
  imports Go_Value
begin

text \<open>
  The flow graph and its static safety pass (\<open>agentpack/pack.go\<close> for the types and the behaviour
  aliases, \<open>agentpack/flow_safety_topology.go\<close>): the two walks over forward edges, the verdict of
  \<open>ValidateFlowSafetyTopology\<close>, and the proof that it says what it means for the paths of the graph.
\<close>

section \<open>Flows\<close>

record FlowArtifactBinding =
  ab_Direction :: string
  ab_SlotName :: string
  ab_ArtifactInstanceID :: string
  ab_ArtifactTypeID :: string
  ab_ConfigJSON :: gmap
  ab_Required :: bool
  ab_Position :: int

record FlowNode =
  fn_ID :: string
  fn_Run :: string
  fn_Lifecycle :: string
  fn_Behavior :: string
  fn_Agent :: string
  fn_Join :: string
  fn_Cohort :: string
  fn_DependsOn :: "string list"
  fn_PromptTemplate :: string
  fn_Model :: string
  fn_Posture :: string
  fn_ContextSources :: "string list"
  fn_ArtifactBindings :: "FlowArtifactBinding list"
  fn_ContextProfile :: string
  fn_Config :: gmap
  fn_WorkloadClass :: string

record FlowEdge =
  fe_From :: string
  fe_To :: string
  fe_When :: string
  fe_Kind :: string

record MirrorRule =
  mi_Required :: bool
  mi_Source :: string

record ChatUIRule =
  cu_Placement :: string
  cu_ShowWhen :: "(string \<times> string) list"

record BuiltinMeta =
  bm_Editable :: bool
  bm_ChatBaseline :: bool
  bm_SelectableIn :: "string list"
  bm_ChatSubModes :: "string list"
  bm_Cloneable :: bool
  bm_Mirror :: MirrorRule
  bm_ChatUI :: ChatUIRule

record FlowPolicy =
  po_Cap :: int
  po_OnCap :: string
  po_ExtendBy :: int
  po_ExtendMax :: int
  po_StallTimeoutSec :: int
  po_NegotiationCap :: int

record FlowContextBinding =
  cb_Ref :: string
  cb_Sources :: "string list"

record ContextProfile =
  cp_Name :: string
  cp_CandidateSources :: "string list"
  cp_MaxEstPromptTokens :: int
  cp_MaxUsageTokens :: int

record FlowDefinition =
  fl_ID :: string
  fl_Version :: string
  fl_Description :: string
  fl_Mode :: string
  fl_Builtin :: BuiltinMeta
  fl_Policy :: FlowPolicy
  fl_Tools :: "string list"
  fl_Contexts :: "(string \<times> FlowContextBinding) list"
  fl_Nodes :: "FlowNode list"
  fl_Edges :: "FlowEdge list"
  fl_AcceptanceNodes :: "string list"
  fl_ContextProfiles :: "(string \<times> ContextProfile) list"

section \<open>Behaviours\<close>

definition behaviorAliases :: "(string \<times> string) list" where
  "behaviorAliases =
     [(''agent.delegate'', ''agent.delegate''),
      (''coding'', ''agent.delegate''),
      (''implementation'', ''agent.delegate''),
      (''code'', ''agent.delegate''),
      (''hub.inline'', ''hub.inline''),
      (''hub.synthesize'', ''hub.inline''),
      (''context.produce'', ''context.produce''),
      (''context.deterministic_feature_package'', ''context.produce''),
      (''context.deterministic_feature_context'', ''context.produce''),
      (''plan'', ''context.produce''),
      (''planning'', ''context.produce''),
      (''design'', ''context.produce''),
      (''context.render'', ''context.render''),
      (''context.prompt_handoff'', ''context.render''),
      (''command.validate'', ''command.validate''),
      (''validation.command'', ''command.validate''),
      (''validation.summarize'', ''validation.summarize''),
      (''artifact.audit_draft'', ''artifact.audit_draft''),
      (''audit.draft'', ''artifact.audit_draft''),
      (''telegram.notify'', ''telegram.notify''),
      (''notify.telegram'', ''telegram.notify''),
      (''hub.notify'', ''hub.notify''),
      (''notify.hub'', ''hub.notify''),
      (''flow.control'', ''flow.control''),
      (''flow.control_tool'', ''flow.control''),
      (''user.confirm'', ''user.confirm''),
      (''agent.code'', ''agent.code''),
      (''contract.freeze'', ''contract.freeze''),
      (''agent.reproduce'', ''agent.reproduce''),
      (''reproduce'', ''agent.reproduce''),
      (''reproducing_test'', ''agent.reproduce''),
      (''agent.scaffold'', ''agent.scaffold''),
      (''scaffold'', ''agent.scaffold''),
      (''scaffold_tdd'', ''agent.scaffold''),
      (''tournament.arbiter'', ''tournament.arbiter''),
      (''tournament.merge'', ''tournament.merge'')]"

definition NormalizeBehaviorID :: "string \<Rightarrow> string option" where
  "NormalizeBehaviorID i =
     (let key = ToLower (TrimSpace i) in if key = '''' then None else map_of behaviorAliases key)"

definition behaviorIDAgentCode :: string where
  "behaviorIDAgentCode = ''agent.code''"

definition behaviorIDAgentScaffold :: string where
  "behaviorIDAgentScaffold = ''agent.scaffold''"

definition behaviorIDContractFreeze :: string where
  "behaviorIDContractFreeze = ''contract.freeze''"

definition terminalDoneNodeID :: string where
  "terminalDoneNodeID = ''done''"

section \<open>The forward graph\<close>

definition isBackEdge :: "FlowEdge \<Rightarrow> bool" where
  "isBackEdge edge = EqualFold (TrimSpace (fe_Kind edge)) ''back''"

definition writersOf :: "FlowDefinition \<Rightarrow> string list" where
  "writersOf def = map fn_ID (filter (\<lambda>n. NormalizeBehaviorID (fn_Behavior n) = Some behaviorIDAgentCode \<or>
     NormalizeBehaviorID (fn_Behavior n) = Some behaviorIDAgentScaffold) (fl_Nodes def))"

definition freezesOf :: "FlowDefinition \<Rightarrow> string list" where
  "freezesOf def = map fn_ID (filter (\<lambda>n. NormalizeBehaviorID (fn_Behavior n) = Some behaviorIDContractFreeze) (fl_Nodes def))"

definition classifyWriterAndFreezeNodes :: "FlowDefinition \<Rightarrow> string list \<times> string list" where
  "classifyWriterAndFreezeNodes def = (writersOf def, freezesOf def)"

definition nodeIDSet :: "FlowDefinition \<Rightarrow> string set" where
  "nodeIDSet def = set (map fn_ID (fl_Nodes def))"

definition entryNodeIDs :: "FlowDefinition \<Rightarrow> string list" where
  "entryNodeIDs def =
     (let hasIncomingForward = map fe_To (filter (\<lambda>e. \<not> isBackEdge e) (fl_Edges def))
      in filter (\<lambda>i. i \<notin> set hasIncomingForward) (map fn_ID (fl_Nodes def)))"

text \<open>\<open>forwardAdjacency\<close>: the forward edges in order; \<open>successors\<close> reads the list of a node.\<close>

type_synonym 'a graph = "('a \<times> 'a) list"

definition forwardAdjacency :: "FlowDefinition \<Rightarrow> string graph" where
  "forwardAdjacency def = map (\<lambda>e. (fe_From e, fe_To e)) (filter (\<lambda>e. \<not> isBackEdge e) (fl_Edges def))"

definition successors :: "'a graph \<Rightarrow> 'a \<Rightarrow> 'a list" where
  "successors fwd n = map snd (filter (\<lambda>e. fst e = n) fwd)"

section \<open>Walks\<close>

text \<open>The push loop: unvisited nodes are marked and appended to the queue.\<close>

fun pushAll :: "'a list \<Rightarrow> 'a set \<Rightarrow> 'a list \<Rightarrow> 'a set \<times> 'a list" where
  "pushAll [] visited queue = (visited, queue)"
| "pushAll (n # ns) visited queue =
     (if n \<in> visited then pushAll ns visited queue else pushAll ns (insert n visited) (queue @ [n]))"

lemma pushAll_visited: "fst (pushAll ns visited queue) = visited \<union> set ns"
  by (induction ns visited queue rule: pushAll.induct) auto

lemma pushAll_queue: "set (snd (pushAll ns visited queue)) = set queue \<union> (set ns - visited)"
  by (induction ns visited queue rule: pushAll.induct) auto

lemma pushAll_length:
  "finite U \<Longrightarrow> set ns \<subseteq> U \<Longrightarrow>
   length (snd (pushAll ns visited queue)) + card (U - fst (pushAll ns visited queue)) = length queue + card (U - visited)"
proof (induction ns visited queue rule: pushAll.induct)
  case (2 n ns visited queue)
  show ?case
  proof (cases "n \<in> visited")
    case False
    have "U - insert n visited = (U - visited) - {n}" by auto
    with 2(3,4) False have "card (U - visited) = Suc (card (U - insert n visited))"
      by (simp add: card_Suc_Diff1 del: card_Diff_insert)
    with 2 False show ?thesis by simp
  qed (use 2 in simp)
qed simp

lemma set_successors: "set (successors fwd n) = {m. (n, m) \<in> set fwd}"
  by (force simp: successors_def)

text \<open>The walk of both reachability checks: whether it pops the target.\<close>

function walkFinds :: "'a graph \<Rightarrow> 'a \<Rightarrow> 'a set \<Rightarrow> 'a list \<Rightarrow> bool" where
  "walkFinds fwd target visited [] = False"
| "walkFinds fwd target visited (node # queue) =
     (if node = target then True
      else case pushAll (successors fwd node) visited queue of (visited', queue') \<Rightarrow> walkFinds fwd target visited' queue')"
  by pat_completeness auto

termination
proof (relation "measure (\<lambda>(fwd, target, visited, queue). length queue + card (snd ` set fwd - visited))")
  fix fwd :: "'a graph" and target node visited queue v q
  assume "(v, q) = pushAll (successors fwd node) visited queue"
  then have vq: "v = fst (pushAll (successors fwd node) visited queue)" "q = snd (pushAll (successors fwd node) visited queue)"
    by (metis fst_conv, metis snd_conv)
  have "set (successors fwd node) \<subseteq> snd ` set fwd" by (force simp: set_successors)
  from pushAll_length [OF _ this, of visited queue]
  show "((fwd, target, v, q), fwd, target, visited, node # queue) \<in> measure (\<lambda>(fwd, target, visited, queue). length queue + card (snd ` set fwd - visited))"
    by (simp add: vq split_beta)
qed simp

section \<open>What a walk finds\<close>

text \<open>The edges that lead to unvisited nodes.\<close>

definition open_edges :: "('a \<times> 'a) set \<Rightarrow> 'a set \<Rightarrow> ('a \<times> 'a) set" where
  "open_edges E visited = {(a, b) \<in> E. b \<notin> visited}"

lemma open_step:
  assumes "b \<in> insert n Q" and "(b, t) \<in> (open_edges E v)\<^sup>*"
  shows "t = n \<or> (\<exists>y\<in>Q \<union> (E `` {n} - v). (y, t) \<in> (open_edges E (v \<union> E `` {n}))\<^sup>*)"
  using assms(2)
proof (induction rule: rtrancl_induct)
  case base then show ?case using assms(1) by auto
next
  case (step c d)
  then have cd: "(c, d) \<in> E" "d \<notin> v" by (auto simp: open_edges_def)
  show ?case
  proof (cases "d \<in> E `` {n}")
    case True then show ?thesis using cd by auto
  next
    case False
    with cd step.IH obtain y where "y \<in> Q \<union> (E `` {n} - v)" "(y, c) \<in> (open_edges E (v \<union> E `` {n}))\<^sup>*" by auto
    moreover have "(c, d) \<in> open_edges E (v \<union> E `` {n})" using cd False by (auto simp: open_edges_def)
    ultimately show ?thesis by (auto intro: rtrancl_into_rtrancl)
  qed
qed

lemma open_push:
  "(\<exists>b\<in>insert n Q. (b, t) \<in> (open_edges E v)\<^sup>*) \<longleftrightarrow>
   t = n \<or> (\<exists>y\<in>Q \<union> (E `` {n} - v). (y, t) \<in> (open_edges E (v \<union> E `` {n}))\<^sup>*)" (is "?l \<longleftrightarrow> ?r")
proof
  assume ?l then show ?r using open_step [of _ n Q t E v] by blast
next
  have sub: "(open_edges E (v \<union> E `` {n}))\<^sup>* \<subseteq> (open_edges E v)\<^sup>*" by (rule rtrancl_mono) (auto simp: open_edges_def)
  assume ?r
  then consider "t = n" | y where "y \<in> Q" "(y, t) \<in> (open_edges E v)\<^sup>*"
    | y where "(n, y) \<in> E" "y \<notin> v" "(y, t) \<in> (open_edges E v)\<^sup>*" using sub by blast
  then show ?l
  proof cases
    case 3
    then have "(n, t) \<in> (open_edges E v)\<^sup>*" by (auto simp: open_edges_def intro: converse_rtrancl_into_rtrancl)
    then show ?thesis by blast
  qed auto
qed

lemma image_successors: "set fwd `` {n} = set (successors fwd n)"
  by (auto simp: set_successors)

lemma walkFinds_open:
  "walkFinds fwd t v q \<longleftrightarrow> (\<exists>b\<in>set q. (b, t) \<in> (open_edges (set fwd) v)\<^sup>*)"
proof (induction fwd t v q rule: walkFinds.induct)
  case (2 fwd t v n q)
  show ?case
  proof (cases "n = t")
    case False
    obtain v' q' where p: "pushAll (successors fwd n) v q = (v', q')" by (cases "pushAll (successors fwd n) v q")
    have v': "v' = v \<union> set fwd `` {n}" using pushAll_visited [of "successors fwd n" v q] by (simp add: p image_successors)
    have q': "set q' = set q \<union> (set fwd `` {n} - v)" using pushAll_queue [of "successors fwd n" v q] by (simp add: p image_successors)
    have "walkFinds fwd t v (n # q) = walkFinds fwd t v' q'" using False by (simp add: p)
    also have "\<dots> \<longleftrightarrow> (\<exists>b\<in>set q'. (b, t) \<in> (open_edges (set fwd) v')\<^sup>*)" using 2(1) [OF False p [symmetric]] by simp
    also have "\<dots> \<longleftrightarrow> (\<exists>b\<in>insert n (set q). (b, t) \<in> (open_edges (set fwd) v)\<^sup>*)"
      using False by (subst open_push) (auto simp: v' q')
    finally show ?thesis by simp
  qed auto
qed simp

section \<open>Reachability and dominance\<close>

definition reachableFromAnyEntry :: "string graph \<Rightarrow> string list \<Rightarrow> string \<Rightarrow> bool" where
  "reachableFromAnyEntry fwd entries target =
     (case pushAll entries {} [] of (visited, queue) \<Rightarrow> walkFinds fwd target visited queue)"

definition forwardDominatesFrom ::
  "string graph \<Rightarrow> string list \<Rightarrow> string set \<Rightarrow> string \<Rightarrow> string \<Rightarrow> bool" where
  "forwardDominatesFrom fwd entries nodeIDs dominator target =
     (if dominator \<notin> nodeIDs then False
      else if target \<notin> nodeIDs then False
      else if \<not> reachableFromAnyEntry fwd entries target then False
      else if dominator = target then True
      else case pushAll entries {dominator} [] of (visited, queue) \<Rightarrow> \<not> walkFinds fwd target visited queue)"

definition ForwardDominates :: "FlowDefinition \<Rightarrow> string \<Rightarrow> string \<Rightarrow> bool" where
  "ForwardDominates def dominator target =
     forwardDominatesFrom (forwardAdjacency def) (entryNodeIDs def) (nodeIDSet def) dominator target"

section \<open>The acceptance walk\<close>

definition crossSteps :: "'a graph \<Rightarrow> 'a set \<Rightarrow> 'a \<Rightarrow> bool \<Rightarrow> ('a \<times> bool) list" where
  "crossSteps fwd acceptance node crossed = map (\<lambda>n. (n, crossed \<or> n \<in> acceptance)) (successors fwd node)"

function acceptWalk ::
  "string graph \<Rightarrow> string set \<Rightarrow> (string \<times> bool) set \<Rightarrow> (string \<times> bool) list \<Rightarrow> bool \<Rightarrow> bool \<times> bool" where
  "acceptWalk fwd acceptance visited [] reachedDone = (reachedDone, reachedDone)"
| "acceptWalk fwd acceptance visited ((node, crossed) # queue) reachedDone =
     (if node = terminalDoneNodeID then
        (if \<not> crossed then (False, True) else acceptWalk fwd acceptance visited queue True)
      else case pushAll (crossSteps fwd acceptance node crossed) visited queue of (visited', queue') \<Rightarrow>
        acceptWalk fwd acceptance visited' queue' reachedDone)"
  by pat_completeness auto

termination
proof (relation "measure (\<lambda>(fwd, acceptance, visited, queue, reachedDone). length queue + card (snd ` set fwd \<times> UNIV - visited))")
  fix fwd :: "string graph" and acceptance visited node crossed queue v q and reachedDone :: bool
  assume "(v, q) = pushAll (crossSteps fwd acceptance node crossed) visited queue"
  then have vq: "v = fst (pushAll (crossSteps fwd acceptance node crossed) visited queue)"
      "q = snd (pushAll (crossSteps fwd acceptance node crossed) visited queue)"
    by (metis fst_conv, metis snd_conv)
  have "set (crossSteps fwd acceptance node crossed) \<subseteq> snd ` set fwd \<times> UNIV"
    by (force simp: crossSteps_def set_successors)
  from pushAll_length [OF _ this, of visited queue]
  show "((fwd, acceptance, v, q, reachedDone), fwd, acceptance, visited, (node, crossed) # queue, reachedDone)
      \<in> measure (\<lambda>(fwd, acceptance, visited, queue, reachedDone). length queue + card (snd ` set fwd \<times> UNIV - visited))"
    by (simp add: vq split_beta)
qed simp_all

definition everyForwardPathFromWriterCrossesAcceptance ::
  "string graph \<Rightarrow> string set \<Rightarrow> string \<Rightarrow> bool \<times> bool" where
  "everyForwardPathFromWriterCrossesAcceptance fwd acceptance writer =
     (case pushAll (crossSteps fwd acceptance writer False) {} [] of (visited, queue) \<Rightarrow>
        acceptWalk fwd acceptance visited queue False)"

definition EveryDonePathIncludesAcceptance :: "FlowDefinition \<Rightarrow> string \<Rightarrow> bool" where
  "EveryDonePathIncludesAcceptance def writer =
     fst (everyForwardPathFromWriterCrossesAcceptance (forwardAdjacency def) (set (fl_AcceptanceNodes def)) writer)"

section \<open>The safety pass\<close>

datatype topology_error =
    WriterIsEntry string string
  | NoDominatingFreeze string string
  | AcceptanceMissing string
  | AcceptanceBlank string
  | AcceptanceUndeclared string string
  | AcceptanceIsWriter string string
  | AcceptanceDuplicate string string
  | NoPathToDone string string
  | AcceptanceBypassed string string

fun acceptanceLoop ::
  "string \<Rightarrow> string set \<Rightarrow> string list \<Rightarrow> string set \<Rightarrow> string list \<Rightarrow> topology_error + string set" where
  "acceptanceLoop flow nodeIDs writers acceptance [] = Inr acceptance"
| "acceptanceLoop flow nodeIDs writers acceptance (i # rest) =
     (if TrimSpace i = '''' then Inl (AcceptanceBlank flow)
      else if i \<notin> nodeIDs then Inl (AcceptanceUndeclared flow i)
      else if i \<in> set writers then Inl (AcceptanceIsWriter flow i)
      else if i \<in> acceptance then Inl (AcceptanceDuplicate flow i)
      else acceptanceLoop flow nodeIDs writers (insert i acceptance) rest)"

definition validateAcceptanceNodes :: "FlowDefinition \<Rightarrow> string set \<Rightarrow> string list \<Rightarrow> topology_error + string set" where
  "validateAcceptanceNodes def nodeIDs writers =
     (if fl_AcceptanceNodes def = [] then Inl (AcceptanceMissing (fl_ID def))
      else acceptanceLoop (fl_ID def) nodeIDs writers {} (fl_AcceptanceNodes def))"

definition writerError :: "FlowDefinition \<Rightarrow> string list \<Rightarrow> string \<Rightarrow> topology_error option" where
  "writerError def freezes writer =
     (if writer \<in> set (entryNodeIDs def) then Some (WriterIsEntry (fl_ID def) writer)
      else if \<not> list_ex (\<lambda>f. forwardDominatesFrom (forwardAdjacency def) (entryNodeIDs def) (nodeIDSet def) f writer) freezes
      then Some (NoDominatingFreeze (fl_ID def) writer)
      else None)"

definition acceptError :: "FlowDefinition \<Rightarrow> string set \<Rightarrow> string \<Rightarrow> topology_error option" where
  "acceptError def acceptance writer =
     (case everyForwardPathFromWriterCrossesAcceptance (forwardAdjacency def) acceptance writer of (ok, reachedDone) \<Rightarrow>
        if ok then None
        else if \<not> reachedDone then Some (NoPathToDone (fl_ID def) writer)
        else Some (AcceptanceBypassed (fl_ID def) writer))"

definition ValidateFlowSafetyTopology :: "FlowDefinition \<Rightarrow> topology_error option" where
  "ValidateFlowSafetyTopology def =
     (case classifyWriterAndFreezeNodes def of (writers, freezes) \<Rightarrow>
        if writers = [] then None
        else andThen (firstError (writerError def freezes) writers)
          (case validateAcceptanceNodes def (nodeIDSet def) writers of
             Inl e \<Rightarrow> Some e
           | Inr acceptance \<Rightarrow> firstError (acceptError def acceptance) writers))"

section \<open>Paths\<close>

fun fpath :: "'a graph \<Rightarrow> 'a list \<Rightarrow> bool" where
  "fpath fwd [] \<longleftrightarrow> False"
| "fpath fwd [x] \<longleftrightarrow> True"
| "fpath fwd (x # y # p) \<longleftrightarrow> (x, y) \<in> set fwd \<and> fpath fwd (y # p)"

lemma fpath_snoc: "fpath fwd (p @ [y]) \<longleftrightarrow> p = [] \<or> fpath fwd p \<and> (last p, y) \<in> set fwd"
  by (induction fwd p rule: fpath.induct) auto

text \<open>The nodes reached by a path whose nodes all satisfy \<open>P\<close>.\<close>

lemma reach_path:
  assumes "P b"
  shows "(b, t) \<in> {(x, y) \<in> set fwd. P y}\<^sup>* \<longleftrightarrow> (\<exists>p. fpath fwd p \<and> hd p = b \<and> last p = t \<and> (\<forall>x\<in>set p. P x))" (is "?l \<longleftrightarrow> ?r")
proof
  assume ?l
  then show ?r
  proof (induction rule: rtrancl_induct)
    case base then show ?case using assms by (intro exI [of _ "[b]"]) simp
  next
    case (step y z)
    then obtain p where p: "fpath fwd p" "hd p = b" "last p = y" "\<forall>x\<in>set p. P x" by blast
    then have "p \<noteq> []" by auto
    with p step(2) have "fpath fwd (p @ [z]) \<and> hd (p @ [z]) = b \<and> last (p @ [z]) = z \<and> (\<forall>x\<in>set (p @ [z]). P x)"
      by (auto simp: fpath_snoc)
    then show ?case by blast
  qed
next
  have "fpath fwd p \<Longrightarrow> \<forall>x\<in>set p. P x \<Longrightarrow> (hd p, last p) \<in> {(x, y) \<in> set fwd. P y}\<^sup>*" for p
    by (induction fwd p rule: fpath.induct) (auto intro: converse_rtrancl_into_rtrancl)
  then show "?r \<Longrightarrow> ?l" by auto
qed

lemma open_restart:
  "(\<exists>b\<in>Q. (b, t) \<in> (open_edges E (W \<union> Q))\<^sup>*) \<longleftrightarrow> (\<exists>b\<in>Q. (b, t) \<in> (open_edges E W)\<^sup>*)" (is "?l \<longleftrightarrow> ?r")
proof
  have "(open_edges E (W \<union> Q))\<^sup>* \<subseteq> (open_edges E W)\<^sup>*" by (rule rtrancl_mono) (auto simp: open_edges_def)
  then show "?l \<Longrightarrow> ?r" by blast
next
  have "\<exists>b\<in>Q. (b, t) \<in> (open_edges E (W \<union> Q))\<^sup>*" if "b \<in> Q" "(b, t) \<in> (open_edges E W)\<^sup>*" for b
    using that(2)
  proof (induction rule: rtrancl_induct)
    case base then show ?case using that(1) by blast
  next
    case (step y z)
    then show ?case by (cases "z \<in> Q") (auto simp: open_edges_def intro: rtrancl_into_rtrancl)
  qed
  then show "?r \<Longrightarrow> ?l" by blast
qed

lemma walk_from:
  "(case pushAll starts W [] of (visited, queue) \<Rightarrow> walkFinds fwd t visited queue) \<longleftrightarrow>
   (\<exists>p. fpath fwd p \<and> hd p \<in> set starts \<and> last p = t \<and> set p \<inter> W = {})"
proof -
  have open_W: "open_edges (set fwd) W = {(x, y) \<in> set fwd. y \<notin> W}" by (auto simp: open_edges_def)
  have "(case pushAll starts W [] of (visited, queue) \<Rightarrow> walkFinds fwd t visited queue) \<longleftrightarrow>
      (\<exists>b\<in>set starts - W. (b, t) \<in> (open_edges (set fwd) (W \<union> (set starts - W)))\<^sup>*)"
    using pushAll_visited [of starts W "[]"] pushAll_queue [of starts W "[]"]
    by (simp add: split_beta walkFinds_open Un_Diff_cancel)
  also have "\<dots> \<longleftrightarrow> (\<exists>b\<in>set starts - W. (b, t) \<in> (open_edges (set fwd) W)\<^sup>*)" by (rule open_restart)
  also have "\<dots> \<longleftrightarrow> (\<exists>b\<in>set starts - W. \<exists>p. fpath fwd p \<and> hd p = b \<and> last p = t \<and> (\<forall>x\<in>set p. x \<notin> W))"
    unfolding open_W by (intro bex_cong refl reach_path) simp
  also have "\<dots> \<longleftrightarrow> (\<exists>p. fpath fwd p \<and> hd p \<in> set starts \<and> last p = t \<and> set p \<inter> W = {})"
  proof -
    have "hd p \<notin> W" if "fpath fwd p" "\<forall>x\<in>set p. x \<notin> W" for p using that by (cases p) auto
    then show ?thesis by (auto simp: disjoint_iff)
  qed
  finally show ?thesis .
qed

text \<open>The forward paths from an entry to a node.\<close>

definition entry_path :: "FlowDefinition \<Rightarrow> string list \<Rightarrow> string \<Rightarrow> bool" where
  "entry_path def p t \<longleftrightarrow> fpath (forwardAdjacency def) p \<and> hd p \<in> set (entryNodeIDs def) \<and> last p = t"

lemma dominates_paths:
  "forwardDominatesFrom (forwardAdjacency def) (entryNodeIDs def) (nodeIDSet def) d t \<longleftrightarrow>
     d \<in> nodeIDSet def \<and> t \<in> nodeIDSet def \<and> (\<exists>p. entry_path def p t) \<and> (\<forall>p. entry_path def p t \<longrightarrow> d \<in> set p)"
proof -
  have "t \<in> set p" if "entry_path def p t" for p
  proof -
    have "p \<noteq> []" using that by (auto simp: entry_path_def)
    then have "last p \<in> set p" by (rule last_in_set)
    then show ?thesis using that by (simp add: entry_path_def)
  qed
  moreover have neg: "(case z of (v, q) \<Rightarrow> \<not> f v q) = (\<not> (case z of (v, q) \<Rightarrow> f v q))" for z :: "'x \<times> 'y" and f
    by (simp split: prod.split)
  ultimately show ?thesis
    unfolding forwardDominatesFrom_def reachableFromAnyEntry_def neg walk_from by (auto simp: entry_path_def)
qed

section \<open>What the acceptance walk decides\<close>

definition cross_edges :: "string graph \<Rightarrow> string set \<Rightarrow> ((string \<times> bool) \<times> (string \<times> bool)) set" where
  "cross_edges fwd acc = {((n, c), m, c'). n \<noteq> terminalDoneNodeID \<and> (n, m) \<in> set fwd \<and> c' = (c \<or> m \<in> acc)}"

lemma cross_image:
  "cross_edges fwd acc `` {(n, c)} = (if n = terminalDoneNodeID then {} else set (crossSteps fwd acc n c))"
  by (auto simp: cross_edges_def crossSteps_def set_successors)

definition cross_reach :: "string graph \<Rightarrow> string set \<Rightarrow> (string \<times> bool) set \<Rightarrow> (string \<times> bool) set \<Rightarrow> (string \<times> bool) \<Rightarrow> bool" where
  "cross_reach fwd acc v Q s \<longleftrightarrow> (\<exists>b\<in>Q. (b, s) \<in> (open_edges (cross_edges fwd acc) v)\<^sup>*)"

lemma cross_reach_pop:
  "cross_reach fwd acc v (insert n Q) s \<longleftrightarrow>
   s = n \<or> cross_reach fwd acc (v \<union> cross_edges fwd acc `` {n}) (Q \<union> (cross_edges fwd acc `` {n} - v)) s"
  unfolding cross_reach_def by (rule open_push)

lemma acceptWalk_reach:
  "acceptWalk fwd acc v q r =
     (if cross_reach fwd acc v (set q) (terminalDoneNodeID, False) then (False, True)
      else (r \<or> cross_reach fwd acc v (set q) (terminalDoneNodeID, True), r \<or> cross_reach fwd acc v (set q) (terminalDoneNodeID, True)))"
proof (induction fwd acc v q r rule: acceptWalk.induct)
  case (1 fwd acc v r)
  then show ?case by (simp add: cross_reach_def)
next
  case (2 fwd acc v n c q r)
  show ?case
  proof (cases "n = terminalDoneNodeID")
    case True
    have pop: "cross_reach fwd acc v (set ((n, c) # q)) s \<longleftrightarrow> s = (n, c) \<or> cross_reach fwd acc v (set q) s" for s
      using cross_reach_pop [of fwd acc v "(n, c)" "set q" s] by (simp add: cross_image True)
    show ?thesis using 2(1) True unfolding pop by (cases c) simp_all
  next
    case False
    obtain v' q' where p: "pushAll (crossSteps fwd acc n c) v q = (v', q')" by (cases "pushAll (crossSteps fwd acc n c) v q")
    have "v' = v \<union> cross_edges fwd acc `` {(n, c)}" "set q' = set q \<union> (cross_edges fwd acc `` {(n, c)} - v)"
      using pushAll_visited [of "crossSteps fwd acc n c" v q] pushAll_queue [of "crossSteps fwd acc n c" v q] False
      by (simp_all add: p cross_image)
    then have pop: "cross_reach fwd acc v (set ((n, c) # q)) (terminalDoneNodeID, b) = cross_reach fwd acc v' (set q') (terminalDoneNodeID, b)" for b
      using cross_reach_pop [of fwd acc v "(n, c)" "set q" "(terminalDoneNodeID, b)"] False by simp
    show ?thesis using 2(2) [OF False p [symmetric]] False unfolding pop by (simp add: p)
  qed
qed

text \<open>The forward paths from a node's successors to the terminal node.\<close>

definition done_path :: "string graph \<Rightarrow> string \<Rightarrow> string list \<Rightarrow> bool" where
  "done_path fwd w p \<longleftrightarrow> p \<noteq> [] \<and> fpath fwd (w # p) \<and> last p = terminalDoneNodeID"

lemma cross_path:
  "cross_reach fwd acc {} (set (crossSteps fwd acc w False)) (n, c) \<longleftrightarrow>
     (\<exists>p. p \<noteq> [] \<and> fpath fwd (w # p) \<and> last p = n \<and> terminalDoneNodeID \<notin> set (butlast p) \<and> c = (\<exists>a\<in>set p. a \<in> acc))"
    (is "?l \<longleftrightarrow> (\<exists>p. ?path p n c)")
proof
  have full: "open_edges (cross_edges fwd acc) {} = cross_edges fwd acc" by (auto simp: open_edges_def)
  assume ?l
  then obtain b where b: "b \<in> set (crossSteps fwd acc w False)" "(b, n, c) \<in> (cross_edges fwd acc)\<^sup>*"
    unfolding cross_reach_def full by blast
  have "\<exists>p. ?path p (fst s) (snd s)" if "(b, s) \<in> (cross_edges fwd acc)\<^sup>*" for s using that
  proof (induction rule: rtrancl_induct)
    case base
    then show ?case using b(1) by (intro exI [of _ "[fst b]"]) (auto simp: crossSteps_def set_successors)
  next
    case (step s u)
    then obtain p where p: "?path p (fst s) (snd s)" by blast
    have e: "fst s \<noteq> terminalDoneNodeID" "(fst s, fst u) \<in> set fwd" "snd u = (snd s \<or> fst u \<in> acc)"
      using step(2) by (auto simp: cross_edges_def)
    have "set p = insert (last p) (set (butlast p))" using p by (metis append_butlast_last_id set_append list.set insert_is_Un sup_commute)
    with p e have "?path (p @ [fst u]) (fst u) (snd u)"
      using fpath_snoc [of fwd "w # p" "fst u"] by auto
    then show ?case by blast
  qed
  from this [OF b(2)] show "\<exists>p. ?path p n c" by simp
next
  have full: "open_edges (cross_edges fwd acc) {} = cross_edges fwd acc" by (auto simp: open_edges_def)
  have "p \<noteq> [] \<Longrightarrow> fpath fwd (w # p) \<Longrightarrow> terminalDoneNodeID \<notin> set (butlast p) \<Longrightarrow>
      \<exists>b\<in>set (crossSteps fwd acc w False). (b, last p, \<exists>a\<in>set p. a \<in> acc) \<in> (cross_edges fwd acc)\<^sup>*" for p
  proof (induction p rule: rev_induct)
    case (snoc m p)
    show ?case
    proof (cases "p = []")
      case True
      then have "(m, m \<in> acc) \<in> set (crossSteps fwd acc w False)" using snoc.prems(2) by (auto simp: crossSteps_def set_successors)
      then show ?thesis using True by (intro bexI [of _ "(m, m \<in> acc)"]) simp_all
    next
      case False
      have f: "fpath fwd (w # p)" "(last p, m) \<in> set fwd"
        using snoc.prems(2) fpath_snoc [of fwd "w # p" m] False by simp_all
      have "terminalDoneNodeID \<notin> set p" using snoc.prems(3) by simp
      then have d: "last p \<noteq> terminalDoneNodeID" "terminalDoneNodeID \<notin> set (butlast p)"
        using last_in_set [OF False] by (metis, metis in_set_butlastD)
      from snoc.IH [OF False f(1) d(2)] obtain b where b: "b \<in> set (crossSteps fwd acc w False)"
        "(b, last p, \<exists>a\<in>set p. a \<in> acc) \<in> (cross_edges fwd acc)\<^sup>*" by blast
      have "((last p, \<exists>a\<in>set p. a \<in> acc), last (p @ [m]), \<exists>a\<in>set (p @ [m]). a \<in> acc) \<in> cross_edges fwd acc"
        using f(2) d(1) by (auto simp: cross_edges_def)
      with b show ?thesis by (blast intro: rtrancl_into_rtrancl)
    qed
  qed simp
  then show "\<exists>p. ?path p n c \<Longrightarrow> ?l" unfolding cross_reach_def full by blast
qed

lemma done_path_cut:
  assumes "done_path fwd w p"
  shows "\<exists>p'. done_path fwd w p' \<and> terminalDoneNodeID \<notin> set (butlast p') \<and> set p' \<subseteq> set p"
proof -
  have prefix: "fpath fwd (xs @ ys) \<Longrightarrow> xs \<noteq> [] \<Longrightarrow> fpath fwd xs" for xs ys
    by (induction ys rule: rev_induct) (auto simp: fpath_snoc simp flip: append_assoc)
  have "terminalDoneNodeID \<in> set p" using assms last_in_set [of p] by (auto simp: done_path_def)
  then obtain ys zs where p: "p = ys @ terminalDoneNodeID # zs" "terminalDoneNodeID \<notin> set ys" by (meson split_list_first)
  have "fpath fwd (w # ys @ [terminalDoneNodeID])"
    using prefix [of "w # ys @ [terminalDoneNodeID]" zs] assms by (simp add: done_path_def p(1))
  then have "done_path fwd w (ys @ [terminalDoneNodeID])" by (simp add: done_path_def)
  then show ?thesis using p by (intro exI [of _ "ys @ [terminalDoneNodeID]"]) auto
qed

lemma acceptance_paths:
  "everyForwardPathFromWriterCrossesAcceptance fwd acc w =
     (if \<exists>p. done_path fwd w p \<and> (\<forall>a\<in>set p. a \<notin> acc) then (False, True)
      else (\<exists>p. done_path fwd w p, \<exists>p. done_path fwd w p))"
proof -
  let ?R = "\<lambda>c. cross_reach fwd acc {} (set (crossSteps fwd acc w False)) (terminalDoneNodeID, c)"
  have walk: "everyForwardPathFromWriterCrossesAcceptance fwd acc w = (if ?R False then (False, True) else (?R True, ?R True))"
    using pushAll_visited [of "crossSteps fwd acc w False" "{}" "[]"] pushAll_queue [of "crossSteps fwd acc w False" "{}" "[]"]
      open_restart [of "set (crossSteps fwd acc w False)" _ "cross_edges fwd acc" "{}"]
    by (simp add: everyForwardPathFromWriterCrossesAcceptance_def split_beta acceptWalk_reach cross_reach_def)
  have r: "?R c \<longleftrightarrow> (\<exists>p. done_path fwd w p \<and> terminalDoneNodeID \<notin> set (butlast p) \<and> c = (\<exists>a\<in>set p. a \<in> acc))" for c
    unfolding cross_path done_path_def by (simp only: conj_assoc)
  have f: "?R False \<longleftrightarrow> (\<exists>p. done_path fwd w p \<and> (\<forall>a\<in>set p. a \<notin> acc))"
  proof
    assume "?R False"
    then show "\<exists>p. done_path fwd w p \<and> (\<forall>a\<in>set p. a \<notin> acc)" unfolding r by auto
  next
    assume "\<exists>p. done_path fwd w p \<and> (\<forall>a\<in>set p. a \<notin> acc)"
    then obtain p where p: "done_path fwd w p" "\<forall>a\<in>set p. a \<notin> acc" by blast
    from done_path_cut [OF p(1)] obtain p' where "done_path fwd w p'" "terminalDoneNodeID \<notin> set (butlast p')" "set p' \<subseteq> set p"
      by blast
    moreover from this(3) p(2) have "False = (\<exists>a\<in>set p'. a \<in> acc)" by auto
    ultimately show "?R False" unfolding r by blast
  qed
  have t: "?R False \<or> ?R True \<longleftrightarrow> (\<exists>p. done_path fwd w p)"
  proof
    assume "?R False \<or> ?R True"
    then show "\<exists>p. done_path fwd w p" unfolding r by blast
  next
    assume "\<exists>p. done_path fwd w p"
    then obtain p where p: "done_path fwd w p" "terminalDoneNodeID \<notin> set (butlast p)" using done_path_cut by blast
    then have "?R (\<exists>a\<in>set p. a \<in> acc)" unfolding r by blast
    then show "?R False \<or> ?R True" by (cases "\<exists>a\<in>set p. a \<in> acc") simp_all
  qed
  show ?thesis unfolding walk f [symmetric] t [symmetric] by simp
qed

lemma acceptance_loop:
  "acceptanceLoop fl ids ws acc l = Inr A \<longleftrightarrow>
     (\<forall>i\<in>set l. TrimSpace i \<noteq> '''' \<and> i \<in> ids \<and> i \<notin> set ws \<and> i \<notin> acc) \<and> distinct l \<and> A = acc \<union> set l"
  by (induction fl ids ws acc l rule: acceptanceLoop.induct) auto

section \<open>Properties\<close>

text \<open>
  C25: The dominance check is dominance: \<open>ForwardDominates\<close> answers yes iff both nodes are declared,
  some forward path leads from an entry to the target, and every such path passes the dominator.
\<close>

theorem forward_dominates_iff:
  "ForwardDominates def d t \<longleftrightarrow>
     d \<in> nodeIDSet def \<and> t \<in> nodeIDSet def \<and> (\<exists>p. entry_path def p t) \<and> (\<forall>p. entry_path def p t \<longrightarrow> d \<in> set p)"
  unfolding ForwardDominates_def by (rule dominates_paths)

text \<open>
  C26: The safety pass decides the four invariants: a flow passes iff it has no writer, or no writer
  is an entry, each has a freeze node on every forward path from an entry, of which there is one,
  the acceptance nodes are distinct, declared, not blank and no writers, and every writer reaches
  the terminal node, on every path through an acceptance node.
\<close>

theorem safety_pass_iff:
  "ValidateFlowSafetyTopology def = None \<longleftrightarrow>
     writersOf def = [] \<or>
     (\<forall>w\<in>set (writersOf def). w \<notin> set (entryNodeIDs def) \<and>
        (\<exists>f\<in>set (freezesOf def). (\<exists>p. entry_path def p w) \<and> (\<forall>p. entry_path def p w \<longrightarrow> f \<in> set p))) \<and>
     fl_AcceptanceNodes def \<noteq> [] \<and> distinct (fl_AcceptanceNodes def) \<and>
     (\<forall>a\<in>set (fl_AcceptanceNodes def). TrimSpace a \<noteq> '''' \<and> a \<in> nodeIDSet def \<and> a \<notin> set (writersOf def)) \<and>
     (\<forall>w\<in>set (writersOf def). (\<exists>p. done_path (forwardAdjacency def) w p) \<and>
        (\<forall>p. done_path (forwardAdjacency def) w p \<longrightarrow> (\<exists>a\<in>set p. a \<in> set (fl_AcceptanceNodes def))))"
proof (cases "writersOf def = []")
  case True
  then show ?thesis by (simp add: ValidateFlowSafetyTopology_def classifyWriterAndFreezeNodes_def)
next
  case False
  have declared: "set (writersOf def) \<subseteq> nodeIDSet def" "set (freezesOf def) \<subseteq> nodeIDSet def"
    by (auto simp: writersOf_def freezesOf_def nodeIDSet_def)
  have first: "writerError def (freezesOf def) w = None \<longleftrightarrow> w \<notin> set (entryNodeIDs def) \<and>
      (\<exists>f\<in>set (freezesOf def). (\<exists>p. entry_path def p w) \<and> (\<forall>p. entry_path def p w \<longrightarrow> f \<in> set p))"
    if "w \<in> set (writersOf def)" for w
    using that declared unfolding writerError_def dominates_paths list_ex_iff by (auto split: if_splits)
  have second: "validateAcceptanceNodes def (nodeIDSet def) (writersOf def) = Inr A \<longleftrightarrow>
      fl_AcceptanceNodes def \<noteq> [] \<and> distinct (fl_AcceptanceNodes def) \<and>
      (\<forall>a\<in>set (fl_AcceptanceNodes def). TrimSpace a \<noteq> '''' \<and> a \<in> nodeIDSet def \<and> a \<notin> set (writersOf def)) \<and>
      A = set (fl_AcceptanceNodes def)" for A
    by (auto simp: validateAcceptanceNodes_def acceptance_loop)
  have third: "acceptError def A w = None \<longleftrightarrow> (\<exists>p. done_path (forwardAdjacency def) w p) \<and>
      (\<forall>p. done_path (forwardAdjacency def) w p \<longrightarrow> (\<exists>a\<in>set p. a \<in> A))" for A w
    unfolding acceptError_def acceptance_paths by (auto split: if_splits)
  have "ValidateFlowSafetyTopology def = None \<longleftrightarrow>
      (\<forall>w\<in>set (writersOf def). writerError def (freezesOf def) w = None) \<and>
      (\<exists>A. validateAcceptanceNodes def (nodeIDSet def) (writersOf def) = Inr A \<and>
           (\<forall>w\<in>set (writersOf def). acceptError def A w = None))"
    using False by (simp add: ValidateFlowSafetyTopology_def classifyWriterAndFreezeNodes_def split: sum.split)
  then show ?thesis using False first unfolding second third by auto
qed

definition demo_node :: "string \<Rightarrow> string \<Rightarrow> FlowNode" where
  "demo_node i behavior =
     \<lparr>fn_ID = i, fn_Run = '''', fn_Lifecycle = '''', fn_Behavior = behavior, fn_Agent = '''', fn_Join = '''', fn_Cohort = '''',
      fn_DependsOn = [], fn_PromptTemplate = '''', fn_Model = '''', fn_Posture = '''', fn_ContextSources = [],
      fn_ArtifactBindings = [], fn_ContextProfile = '''', fn_Config = [], fn_WorkloadClass = ''''\<rparr>"

definition demo_edge :: "string \<Rightarrow> string \<Rightarrow> string \<Rightarrow> string \<Rightarrow> FlowEdge" where
  "demo_edge a b w k = \<lparr>fe_From = a, fe_To = b, fe_When = w, fe_Kind = k\<rparr>"

definition demo_flow :: "string \<Rightarrow> FlowDefinition" where
  "demo_flow kind =
     \<lparr>fl_ID = ''demo'', fl_Version = '''', fl_Description = '''', fl_Mode = '''',
      fl_Builtin = \<lparr>bm_Editable = True, bm_ChatBaseline = False, bm_SelectableIn = [], bm_ChatSubModes = [],
        bm_Cloneable = True, bm_Mirror = \<lparr>mi_Required = False, mi_Source = ''''\<rparr>,
        bm_ChatUI = \<lparr>cu_Placement = '''', cu_ShowWhen = []\<rparr>\<rparr>,
      fl_Policy = \<lparr>po_Cap = 0, po_OnCap = '''', po_ExtendBy = 0, po_ExtendMax = 0, po_StallTimeoutSec = 0, po_NegotiationCap = 0\<rparr>,
      fl_Tools = [], fl_Contexts = [],
      fl_Nodes = [demo_node ''freeze'' ''contract.freeze'', demo_node ''coder'' ''agent.code'', demo_node ''check'' ''hub.inline''],
      fl_Edges = [demo_edge ''freeze'' ''coder'' ''done'' kind, demo_edge ''coder'' ''check'' ''done'' ''forward'',
                  demo_edge ''check'' ''done'' ''done'' ''forward'', demo_edge ''check'' ''coder'' ''continue'' ''back''],
      fl_AcceptanceNodes = [''check''], fl_ContextProfiles = []\<rparr>"

lemma demo_safe: "ValidateFlowSafetyTopology (demo_flow ''forward'') = None"
  by code_simp

theorem forward_dominates_iff_witness:
  "\<exists>p. entry_path (demo_flow ''forward'') p ''coder''"
proof -
  have "ForwardDominates (demo_flow ''forward'') ''freeze'' ''coder''" by code_simp
  then show ?thesis unfolding forward_dominates_iff by blast
qed

theorem safety_pass_iff_witness:
  "writersOf (demo_flow ''forward'') = [''coder''] \<and> (\<exists>p. done_path (forwardAdjacency (demo_flow ''forward'')) ''coder'' p)"
proof -
  have w: "writersOf (demo_flow ''forward'') = [''coder'']" by code_simp
  show ?thesis using safety_pass_iff [THEN iffD1, OF demo_safe] unfolding w by simp
qed

end
