(* ===== verification/Flow_Definition.thy ===== *)
theory Flow_Definition
  imports Flow_Topology
begin

text \<open>
  The load-time validation of a flow (\<open>agentpack/pack.go\<close>): behaviours, models, workload classes,
  artifact bindings, edges, and the safety pass of \<open>Flow_Topology\<close> at the end. An error is a
  constructor with the flow id and the names the message quotes.
\<close>

section \<open>Models and workload classes\<close>

definition ModelProviderKey :: "string \<Rightarrow> string option" where
  "ModelProviderKey model =
     (let m = ToLower (TrimSpace model)
      in if HasPrefix m ''gpt-'' then Some ''codex''
         else if HasPrefix m ''gemini-'' \<or> HasPrefix m ''auto-gemini-'' then Some ''gemini''
         else if HasPrefix m ''claude-'' then Some ''claude''
         else if HasPrefix m ''grok-'' \<or> m = ''grok-build'' then Some ''grok''
         else if HasPrefix m ''opencode/'' \<or> HasPrefix m ''opencode-go/'' then Some ''opencode''
         else if HasPrefix m ''devin/'' then Some ''devin''
         else None)"

definition WorkloadScan :: string where
  "WorkloadScan = ''scan''"

definition WorkloadHighReasoning :: string where
  "WorkloadHighReasoning = ''high_reasoning''"

definition WorkloadCoding :: string where
  "WorkloadCoding = ''coding''"

definition ValidWorkloadClass :: "string \<Rightarrow> bool" where
  "ValidWorkloadClass c \<longleftrightarrow> c \<in> {WorkloadScan, WorkloadHighReasoning, WorkloadCoding}"

definition ProviderBackedBehavior :: "string \<Rightarrow> bool" where
  "ProviderBackedBehavior canonical \<longleftrightarrow>
     canonical \<in> {''agent.delegate'', ''agent.code'', ''agent.reproduce'', ''agent.scaffold''}"

datatype flow_error =
    BaselineSelectableInChat string
  | BadNegotiationCap string int
  | NodeWithoutID string
  | DuplicateNode string string
  | UnknownBehavior string string string
  | BadLifecycle string string string
  | ModelNotConsumed string string string string
  | UnknownModel string string string
  | BadWorkloadClass string string string
  | ClassNotProviderBacked string string string string
  | NoWorkloadClass string string
  | MissingDependency string string string
  | BadDirection string string string string
  | NoArtifactInstance string string string
  | ArtifactPathEmpty string string
  | ArtifactPathNotRelative string string string
  | ArtifactPathOutside string string string
  | ArtifactNoTarget string string string
  | EdgeEmptyEndpoint string
  | EdgeFromMissing string string
  | EdgeToMissing string string
  | BadEdgeKind string string string string
  | DuplicateBackEdge string string string
  | Topology topology_error

definition canonicalIn :: "string list \<Rightarrow> string \<Rightarrow> bool" where
  "canonicalIn cs behavior \<longleftrightarrow> (case NormalizeBehaviorID behavior of None \<Rightarrow> False | Some c \<Rightarrow> c \<in> set cs)"

definition providerNode :: "FlowNode \<Rightarrow> bool" where
  "providerNode n \<longleftrightarrow> (case NormalizeBehaviorID (fn_Behavior n) of None \<Rightarrow> False | Some c \<Rightarrow> ProviderBackedBehavior c)"

definition ValidateFlowWorkloadClasses :: "FlowDefinition \<Rightarrow> flow_error option" where
  "ValidateFlowWorkloadClasses def =
     firstError (\<lambda>n. if providerNode n \<and> \<not> ValidWorkloadClass (fn_WorkloadClass n)
                     then Some (NoWorkloadClass (fl_ID def) (fn_ID n)) else None) (fl_Nodes def)"

section \<open>Artifact bindings\<close>

definition artifactOutputRequirementsPrefix :: string where
  "artifactOutputRequirementsPrefix = ''requirements/''"

definition validateArtifactOutputPath :: "string \<Rightarrow> string \<Rightarrow> string \<Rightarrow> flow_error option" where
  "validateArtifactOutputPath flow node pathTemplate =
     (let trimmed = TrimSpace pathTemplate; normalized = path_Clean trimmed
      in if trimmed = '''' then Some (ArtifactPathEmpty flow node)
         else if Contains trimmed [CHR 0x5C] \<or> Contains trimmed '':'' then Some (ArtifactPathNotRelative flow node pathTemplate)
         else if normalized = ''.'' \<or> normalized = ''..'' \<or> HasPrefix normalized ''/'' \<or> HasPrefix normalized ''../''
         then Some (ArtifactPathNotRelative flow node pathTemplate)
         else if \<not> HasPrefix normalized artifactOutputRequirementsPrefix then Some (ArtifactPathOutside flow node pathTemplate)
         else None)"

definition textValues :: "gvalue list \<Rightarrow> string list" where
  "textValues vs = concat (map (\<lambda>v. case v of GString s \<Rightarrow> if TrimSpace s \<noteq> '''' then [s] else [] | _ \<Rightarrow> []) vs)"

definition artifactOutputPathCandidates :: "gmap \<Rightarrow> string list" where
  "artifactOutputPathCandidates config =
     (case rawField ''paths'' config of GList vs \<Rightarrow> textValues vs | _ \<Rightarrow> []) @ textValues [rawField ''pathTemplate'' config]"

definition validateArtifactOutputBindingPaths :: "string \<Rightarrow> string \<Rightarrow> FlowArtifactBinding \<Rightarrow> flow_error option" where
  "validateArtifactOutputBindingPaths flow node b =
     (let candidates = artifactOutputPathCandidates (ab_ConfigJSON b)
      in if candidates = [] then Some (ArtifactNoTarget flow node (ab_SlotName b))
         else firstError (validateArtifactOutputPath flow node) candidates)"

section \<open>The definition\<close>

definition nodeError :: "string \<Rightarrow> FlowNode \<Rightarrow> flow_error option" where
  "nodeError flow n =
     (if fn_Behavior n \<noteq> '''' \<and> NormalizeBehaviorID (fn_Behavior n) = None
      then Some (UnknownBehavior flow (fn_ID n) (fn_Behavior n))
      else if ToLower (TrimSpace (fn_Lifecycle n)) \<notin> {'''', ''once'', ''reinvoke'', ''spawn''}
      then Some (BadLifecycle flow (fn_ID n) (fn_Lifecycle n))
      else if TrimSpace (fn_Model n) \<noteq> '''' \<and> \<not> canonicalIn [''agent.delegate'', ''agent.scaffold'', ''agent.code''] (fn_Behavior n)
      then Some (ModelNotConsumed flow (fn_ID n) (fn_Model n) (fn_Behavior n))
      else if TrimSpace (fn_Model n) \<noteq> '''' \<and> ModelProviderKey (fn_Model n) = None
      then Some (UnknownModel flow (fn_ID n) (fn_Model n))
      else if fn_WorkloadClass n \<noteq> '''' \<and> \<not> ValidWorkloadClass (fn_WorkloadClass n)
      then Some (BadWorkloadClass flow (fn_ID n) (fn_WorkloadClass n))
      else if fn_WorkloadClass n \<noteq> '''' \<and> \<not> providerNode n
      then Some (ClassNotProviderBacked flow (fn_ID n) (fn_WorkloadClass n) (fn_Behavior n))
      else None)"

fun nodesError :: "string \<Rightarrow> string set \<Rightarrow> FlowNode list \<Rightarrow> flow_error option" where
  "nodesError flow nodeIDs [] = None"
| "nodesError flow nodeIDs (n # rest) =
     (if fn_ID n = '''' then Some (NodeWithoutID flow)
      else if fn_ID n \<in> nodeIDs then Some (DuplicateNode flow (fn_ID n))
      else andThen (nodeError flow n) (nodesError flow (insert (fn_ID n) nodeIDs) rest))"

definition dependsError :: "string \<Rightarrow> string set \<Rightarrow> FlowNode \<Rightarrow> flow_error option" where
  "dependsError flow nodeIDs n =
     firstError (\<lambda>dep. if dep \<notin> nodeIDs then Some (MissingDependency flow (fn_ID n) dep) else None) (fn_DependsOn n)"

definition bindingError :: "string \<Rightarrow> string \<Rightarrow> FlowArtifactBinding \<Rightarrow> flow_error option" where
  "bindingError flow node b =
     (let direction = ToLower (TrimSpace (ab_Direction b))
      in if direction \<notin> {''input'', ''output''} then Some (BadDirection flow node (ab_SlotName b) (ab_Direction b))
         else if TrimSpace (ab_ArtifactInstanceID b) = '''' then Some (NoArtifactInstance flow node (ab_SlotName b))
         else if direction = ''output'' \<and> HasPrefix (TrimSpace (ab_ArtifactTypeID b)) ''file_artifact''
         then validateArtifactOutputBindingPaths flow node b
         else None)"

definition terminalIDs :: "string set" where
  "terminalIDs = {''done'', ''ask_user''}"

definition edgeError :: "string \<Rightarrow> string set \<Rightarrow> FlowEdge \<Rightarrow> flow_error option" where
  "edgeError flow nodeIDs e =
     (if fe_From e = '''' \<or> fe_To e = '''' then Some (EdgeEmptyEndpoint flow)
      else if fe_From e \<notin> nodeIDs then Some (EdgeFromMissing flow (fe_From e))
      else if fe_To e \<notin> nodeIDs \<and> fe_To e \<notin> terminalIDs then Some (EdgeToMissing flow (fe_To e))
      else if fe_Kind e \<noteq> '''' \<and> ToLower (TrimSpace (fe_Kind e)) \<notin> {''forward'', ''back''}
      then Some (BadEdgeKind flow (fe_From e) (fe_To e) (fe_Kind e))
      else None)"

fun edgesError :: "string \<Rightarrow> string set \<Rightarrow> (string \<times> string) list \<Rightarrow> FlowEdge list \<Rightarrow> flow_error option" where
  "edgesError flow nodeIDs backEdgeSources [] = None"
| "edgesError flow nodeIDs backEdgeSources (e # rest) =
     (case edgeError flow nodeIDs e of
        Some err \<Rightarrow> Some err
      | None \<Rightarrow>
          if ToLower (TrimSpace (fe_Kind e)) = ''back'' then
            (let dedup = fe_From e @ NUL # fe_When e
             in case map_of backEdgeSources dedup of
                  Some prev \<Rightarrow> Some (DuplicateBackEdge flow (fe_When e) prev)
                | None \<Rightarrow> edgesError flow nodeIDs ((dedup, fe_From e) # backEdgeSources) rest)
          else edgesError flow nodeIDs backEdgeSources rest)"

definition ValidateFlowDefinition :: "FlowDefinition \<Rightarrow> flow_error option" where
  "ValidateFlowDefinition def =
     (if bm_ChatBaseline (fl_Builtin def) \<and> list_ex (\<lambda>m. EqualFold m ''chat'') (bm_SelectableIn (fl_Builtin def))
      then Some (BaselineSelectableInChat (fl_ID def))
      else let cap = po_NegotiationCap (fl_Policy def)
      in if cap \<noteq> 0 \<and> (cap < 1 \<or> cap > 20) then Some (BadNegotiationCap (fl_ID def) cap)
      else andThen (nodesError (fl_ID def) {} (fl_Nodes def))
          (andThen (firstError (dependsError (fl_ID def) (nodeIDSet def)) (fl_Nodes def))
          (andThen (firstError (\<lambda>n. firstError (bindingError (fl_ID def) (fn_ID n)) (fn_ArtifactBindings n)) (fl_Nodes def))
          (andThen (edgesError (fl_ID def) (nodeIDSet def) [] (fl_Edges def))
                   (map_option Topology (ValidateFlowSafetyTopology def))))))"

section \<open>What a valid flow guarantees\<close>

lemma nodes_ok:
  "nodesError fl ids ns = None \<longleftrightarrow>
     (\<forall>n\<in>set ns. fn_ID n \<noteq> '''' \<and> fn_ID n \<notin> ids \<and> nodeError fl n = None) \<and> distinct (map fn_ID ns)"
  by (induction fl ids ns rule: nodesError.induct) (auto simp: image_iff)

definition back_key :: "FlowEdge \<Rightarrow> string" where
  "back_key e = fe_From e @ NUL # fe_When e"

abbreviation declared_back :: "FlowEdge \<Rightarrow> bool" where
  "declared_back e \<equiv> ToLower (TrimSpace (fe_Kind e)) = ''back''"

lemma edges_step:
  "edgesError fl ids src (e # es) = None \<longleftrightarrow>
     edgeError fl ids e = None \<and>
     (if declared_back e then back_key e \<notin> fst ` set src \<and> edgesError fl ids ((back_key e, fe_From e) # src) es = None
      else edgesError fl ids src es = None)"
  by (simp add: Let_def back_key_def [symmetric] split: option.split) (auto simp: map_of_eq_None_iff [symmetric])

lemma edges_ok:
  "edgesError fl ids src es = None \<longleftrightarrow>
     (\<forall>e\<in>set es. edgeError fl ids e = None \<and> (declared_back e \<longrightarrow> back_key e \<notin> fst ` set src)) \<and>
     distinct (map back_key (filter declared_back es))"
proof (induction es arbitrary: src)
  case (Cons e es)
  show ?case unfolding edges_step Cons.IH by (auto simp: image_iff)
qed simp

section \<open>Properties\<close>

lemma validate_parts:
  assumes "ValidateFlowDefinition def = None"
  shows "nodesError (fl_ID def) {} (fl_Nodes def) = None"
    and "\<forall>n\<in>set (fl_Nodes def). dependsError (fl_ID def) (nodeIDSet def) n = None"
    and "\<forall>n\<in>set (fl_Nodes def). \<forall>b\<in>set (fn_ArtifactBindings n). bindingError (fl_ID def) (fn_ID n) b = None"
    and "edgesError (fl_ID def) (nodeIDSet def) [] (fl_Edges def) = None"
    and "ValidateFlowSafetyTopology def = None"
  using assms by (auto simp: ValidateFlowDefinition_def Let_def split: if_splits)

text \<open>
  C27: A flow that validates is well formed: its nodes have distinct, non-empty ids; dependencies
  and edge sources are declared nodes and edge targets declared nodes or terminals; a non-empty edge
  kind is forward or back; no two back edges share source and condition; a workload class is a
  known one on a provider node; and an output file path stays below \<open>requirements/\<close>.
\<close>

theorem valid_flow_well_formed:
  assumes "ValidateFlowDefinition def = None"
  shows "distinct (map fn_ID (fl_Nodes def)) \<and> '''' \<notin> nodeIDSet def \<and>
    (\<forall>n\<in>set (fl_Nodes def). set (fn_DependsOn n) \<subseteq> nodeIDSet def) \<and>
    (\<forall>e\<in>set (fl_Edges def). fe_From e \<in> nodeIDSet def \<and> fe_To e \<in> nodeIDSet def \<union> {''done'', ''ask_user''} \<and>
       (fe_Kind e = '''' \<or> ToLower (TrimSpace (fe_Kind e)) \<in> {''forward'', ''back''})) \<and>
    distinct (map (\<lambda>e. fe_From e @ NUL # fe_When e) (filter (\<lambda>e. ToLower (TrimSpace (fe_Kind e)) = ''back'') (fl_Edges def))) \<and>
    (\<forall>n\<in>set (fl_Nodes def). fn_WorkloadClass n \<noteq> '''' \<longrightarrow> ValidWorkloadClass (fn_WorkloadClass n) \<and> providerNode n) \<and>
    (\<forall>n\<in>set (fl_Nodes def). \<forall>b\<in>set (fn_ArtifactBindings n).
       ToLower (TrimSpace (ab_Direction b)) = ''output'' \<and> HasPrefix (TrimSpace (ab_ArtifactTypeID b)) ''file_artifact'' \<longrightarrow>
       (\<forall>p\<in>set (artifactOutputPathCandidates (ab_ConfigJSON b)). HasPrefix (path_Clean (TrimSpace p)) ''requirements/''))"
proof -
  note v = validate_parts [OF assms]
  have nodes: "\<forall>n\<in>set (fl_Nodes def). fn_ID n \<noteq> '''' \<and> nodeError (fl_ID def) n = None" "distinct (map fn_ID (fl_Nodes def))"
    using v(1) by (simp_all add: nodes_ok)
  have deps: "\<forall>n\<in>set (fl_Nodes def). set (fn_DependsOn n) \<subseteq> nodeIDSet def"
    using v(2) by (auto simp: dependsError_def split: if_splits)
  have edges: "\<forall>e\<in>set (fl_Edges def). fe_From e \<in> nodeIDSet def \<and> fe_To e \<in> nodeIDSet def \<union> {''done'', ''ask_user''} \<and>
       (fe_Kind e = '''' \<or> ToLower (TrimSpace (fe_Kind e)) \<in> {''forward'', ''back''})"
    using v(4) by (fastforce simp: edges_ok edgeError_def terminalIDs_def split: if_splits)
  have dist: "distinct (map back_key (filter declared_back (fl_Edges def)))" using v(4) by (simp add: edges_ok)
  have wclass: "fn_WorkloadClass n \<noteq> '''' \<longrightarrow> ValidWorkloadClass (fn_WorkloadClass n) \<and> providerNode n"
    if "n \<in> set (fl_Nodes def)" for n
    using nodes(1) that by (fastforce simp: nodeError_def split: if_splits)
  have path: "HasPrefix (path_Clean (TrimSpace p)) ''requirements/''"
    if "validateArtifactOutputPath flow node p = None" for flow node p
    using that by (simp add: validateArtifactOutputPath_def Let_def artifactOutputRequirementsPrefix_def split: if_splits)
  have paths: "\<forall>p\<in>set (artifactOutputPathCandidates (ab_ConfigJSON b)). HasPrefix (path_Clean (TrimSpace p)) ''requirements/''"
    if "bindingError flow node b = None" "ToLower (TrimSpace (ab_Direction b)) = ''output''"
      "HasPrefix (TrimSpace (ab_ArtifactTypeID b)) ''file_artifact''" for flow node b
    using that path by (auto simp: bindingError_def Let_def validateArtifactOutputBindingPaths_def split: if_splits)
  have outputs: "\<forall>n\<in>set (fl_Nodes def). \<forall>b\<in>set (fn_ArtifactBindings n).
       ToLower (TrimSpace (ab_Direction b)) = ''output'' \<and> HasPrefix (TrimSpace (ab_ArtifactTypeID b)) ''file_artifact'' \<longrightarrow>
       (\<forall>p\<in>set (artifactOutputPathCandidates (ab_ConfigJSON b)). HasPrefix (path_Clean (TrimSpace p)) ''requirements/'')"
    using v(3) paths by blast
  have "'''' \<notin> nodeIDSet def" using nodes(1) by (auto simp: nodeIDSet_def)
  with nodes(2) deps edges dist wclass outputs show ?thesis unfolding back_key_def [abs_def] by blast
qed

lemma demo_valid: "ValidateFlowDefinition (demo_flow ''forward'') = None"
  by code_simp

theorem valid_flow_well_formed_witness:
  "distinct (map fn_ID (fl_Nodes (demo_flow ''forward''))) \<and> [] \<notin> nodeIDSet (demo_flow ''forward'')"
  using valid_flow_well_formed [OF demo_valid] by blast

end
