(* ===== verification/Drift_Telemetry.thy ===== *)
theory Drift_Telemetry
  imports Drift_Detect Flow_Definition
begin

text \<open>
  The runner's drift telemetry (\<open>runner/gate_hook.go\<close>, \<open>runner/vibe_gate.go\<close>): the per-run drift
  state with its bounded map, the post-turn hook, the one-shot ladder actions of the next prompt
  and the escalation of a drifting vibe turn. The state of a run is reached under its lock, so
  each operation below is one step on the map; \<open>recordDriftTelemetry\<close>, which takes the lock once to read
  the history and once to write the outcome, is one step as well, so two evaluations of turns of one run
  at the same time are not modelled. Stripping metadata paths is a pure filter: that the code reuses
  the array of the list it filters is not modelled.
\<close>

section \<open>The state of a run\<close>

definition driftHistoryRingCap :: nat where
  "driftHistoryRingCap = 20"

definition driftStateMaxEntries :: nat where
  "driftStateMaxEntries = 128"

definition driftStateIdleTTL :: time where
  "driftStateIdleTTL = 3600 * 10 ^ 9"

record driftRunState =
  dr_history :: "TurnSummary list"
  dr_pendingNote :: string
  dr_pendingNarrow :: bool
  dr_lastScore :: int
  dr_debateDischarged :: bool
  dr_lastSeenUnixNano :: time

definition newDriftRunState :: driftRunState where
  "newDriftRunState =
     \<lparr>dr_history = [], dr_pendingNote = '''', dr_pendingNarrow = False, dr_lastScore = 0,
      dr_debateDischarged = False, dr_lastSeenUnixNano = 0\<rparr>"

text \<open>
  \<open>driftStates.m\<close> is an association list whose order is the order in which Go happens to range over
  the map; keys are distinct. Every property holds for every order.
\<close>

type_synonym driftStates = "(string \<times> driftRunState) list"

definition driftEvictIdleLocked :: "time \<Rightarrow> driftStates \<Rightarrow> driftStates" where
  "driftEvictIdleLocked nowUnixNano m =
     filter (\<lambda>(k, v). \<not> dr_lastSeenUnixNano v < nowUnixNano - driftStateIdleTTL) m"

fun oldestEntry :: "driftStates \<Rightarrow> time \<Rightarrow> string option \<Rightarrow> string option" where
  "oldestEntry [] oldest oldestKey = oldestKey"
| "oldestEntry ((k, v) # m) oldest oldestKey =
     (if dr_lastSeenUnixNano v < oldest then oldestEntry m (dr_lastSeenUnixNano v) (Some k)
      else oldestEntry m oldest oldestKey)"

definition delete_entry :: "string \<Rightarrow> driftStates \<Rightarrow> driftStates" where
  "delete_entry k m = filter (\<lambda>(q, v). q \<noteq> k) m"

definition makeRoom :: "time \<Rightarrow> driftStates \<Rightarrow> driftStates" where
  "makeRoom now m =
     (if length m \<ge> driftStateMaxEntries then
        let m1 = driftEvictIdleLocked now m
        in if length m1 \<ge> driftStateMaxEntries
           then (case oldestEntry m1 now None of None \<Rightarrow> m1 | Some k \<Rightarrow> delete_entry k m1)
           else m1
      else m)"

definition driftStateFor :: "time \<Rightarrow> string \<Rightarrow> driftStates \<Rightarrow> driftRunState \<times> driftStates" where
  "driftStateFor now runID m =
     (let m1 = makeRoom now m;
          st = (case map_of m1 runID of None \<Rightarrow> newDriftRunState | Some st \<Rightarrow> st);
          st1 = st\<lparr>dr_lastSeenUnixNano := now\<rparr>
      in (st1, if map_of m1 runID = None then m1 @ [(runID, st1)]
               else map (\<lambda>(k, v). (k, if k = runID then st1 else v)) m1))"

text \<open>Writing through the pointer \<open>driftStateFor\<close> returned.\<close>

definition set_entry :: "string \<Rightarrow> driftRunState \<Rightarrow> driftStates \<Rightarrow> driftStates" where
  "set_entry runID st m = map (\<lambda>(k, v). (k, if k = runID then st else v)) m"

section \<open>The summary of a turn\<close>

definition stripRuntimeMetadataPaths :: "string list \<Rightarrow> string list" where
  "stripRuntimeMetadataPaths paths = filter (\<lambda>p. \<not> HasPrefix p ''.flowpilot/'') paths"

fun appendUniqueStrings :: "string list \<Rightarrow> string list \<Rightarrow> string list" where
  "appendUniqueStrings dst [] = dst"
| "appendUniqueStrings dst (s # add) =
     (if s = '''' \<or> List.member dst s then appendUniqueStrings dst add else appendUniqueStrings (dst @ [s]) add)"

definition turnSummaryFromTurnResult :: "string \<Rightarrow> TurnResult \<Rightarrow> int \<Rightarrow> TurnSummary" where
  "turnSummaryFromTurnResult turnID tr tokensConsumed =
     \<lparr>su_TurnID = turnID, su_FinalMessage = tn_FinalMessage tr, su_TokensConsumed = tokensConsumed,
      su_FilesChanged = appendUniqueStrings (stripRuntimeMetadataPaths (tn_WrittenPaths tr))
                          (stripRuntimeMetadataPaths (tn_ChangedPaths tr)),
      su_TestResults = appendUniqueStrings (to_Failed (tn_Tests tr)) (to_Regressed (tn_Tests tr)),
      su_ScopeOutOfScopePaths = tn_ScopeOutOfScopePaths tr,
      su_TestsGreen = (to_Ran (tn_Tests tr) \<and> to_Passed (tn_Tests tr) \<noteq> [] \<and> to_Failed (tn_Tests tr) = [] \<and>
                       to_Regressed (tn_Tests tr) = []),
      su_NonWritingNode = False\<rparr>"

section \<open>The post-turn hook\<close>

text \<open>
  The parts of the run the hook reads: the token count of the last usage event, the workload class
  of its flow node (empty when it has none), and whether it is inside a vibe owner debate. The
  persisted event line and the pause it may arm are outputs.
\<close>

record driftRun =
  dn_id :: string
  dn_tokens :: int
  dn_workloadClass :: string
  dn_inVibeDebate :: bool

fun dropOwnTurns :: "string \<Rightarrow> TurnSummary list \<Rightarrow> TurnSummary list" where
  "dropOwnTurns turnID [] = []"
| "dropOwnTurns turnID (t # ts) = (if su_TurnID t = turnID then dropOwnTurns turnID ts else t # ts)"

text \<open>The loop shortens the history from its end.\<close>

definition historyBefore :: "string \<Rightarrow> TurnSummary list \<Rightarrow> TurnSummary list" where
  "historyBefore turnID history = rev (dropOwnTurns turnID (rev history))"

definition pushTurn :: "TurnSummary \<Rightarrow> TurnSummary list \<Rightarrow> TurnSummary list" where
  "pushTurn summary history =
     (if history \<noteq> [] \<and> su_TurnID (last history) = su_TurnID summary
      then history[length history - 1 := summary]
      else let h = history @ [summary]
           in if length h > driftHistoryRingCap then drop (length h - driftHistoryRingCap) h else h)"

definition driftSummary :: "driftRun \<Rightarrow> string \<Rightarrow> TurnResult \<Rightarrow> TurnSummary" where
  "driftSummary rs turnID tr =
     (let summary = turnSummaryFromTurnResult turnID tr (dn_tokens rs)
      in if dn_workloadClass rs \<noteq> '''' \<and> dn_workloadClass rs \<noteq> WorkloadCoding
         then summary\<lparr>su_NonWritingNode := True\<rparr> else summary)"

definition stash :: "bool \<Rightarrow> DriftEvent \<Rightarrow> driftRunState \<Rightarrow> driftRunState" where
  "stash inVibeDebate event st =
     (case de_CorrectionAction event of
        ActionInjectSystemNote \<Rightarrow> if \<not> inVibeDebate then st\<lparr>dr_pendingNote := de_SystemNotePrompt event\<rparr> else st
      | ActionNarrowContext \<Rightarrow> if \<not> inVibeDebate then st\<lparr>dr_pendingNarrow := True\<rparr> else st
      | _ \<Rightarrow> st)"

definition recordTurn :: "bool \<Rightarrow> DriftEvent \<Rightarrow> TurnSummary \<Rightarrow> driftRunState \<Rightarrow> driftRunState" where
  "recordTurn inVibeDebate event summary st =
     stash inVibeDebate event
       (st\<lparr>dr_history := pushTurn summary (dr_history st), dr_lastScore := de_DriftScore event\<rparr>)"

definition recordDriftTelemetry ::
  "time \<Rightarrow> driftRun \<Rightarrow> string \<Rightarrow> TurnResult \<Rightarrow> driftStates \<Rightarrow> (DriftEvent \<times> bool) \<times> driftStates" where
  "recordDriftTelemetry now rs turnID tr m =
     (let summary = driftSummary rs turnID tr;
          (st, m1) = driftStateFor now (dn_id rs) m;
          history = historyBefore (su_TurnID summary) (dr_history st);
          event = (EvaluateTurnDrift history summary)\<lparr>de_RunID := dn_id rs, de_StepID := tn_StepID tr\<rparr>
      in ((event, de_CorrectionAction event = ActionPauseForHuman),
          set_entry (dn_id rs) (recordTurn (dn_inVibeDebate rs) event summary st) m1))"

section \<open>One-shot ladder actions\<close>

record driftLadderActions =
  la_systemNote :: string
  la_narrowContext :: bool

definition pullDriftLadderActions :: "time \<Rightarrow> string \<Rightarrow> driftStates \<Rightarrow> driftLadderActions \<times> driftStates" where
  "pullDriftLadderActions now runID m =
     (let (st, m1) = driftStateFor now runID m
      in (\<lparr>la_systemNote = dr_pendingNote st, la_narrowContext = dr_pendingNarrow st\<rparr>,
          set_entry runID (st\<lparr>dr_pendingNote := '''', dr_pendingNarrow := False\<rparr>) m1))"

definition restoreDriftLadderActions :: "time \<Rightarrow> string \<Rightarrow> driftLadderActions \<Rightarrow> driftStates \<Rightarrow> driftStates" where
  "restoreDriftLadderActions now runID acts m =
     (if la_systemNote acts = '''' \<and> \<not> la_narrowContext acts then m
      else let (st, m1) = driftStateFor now runID m;
               st1 = (if dr_pendingNote st = '''' then st\<lparr>dr_pendingNote := la_systemNote acts\<rparr> else st)
           in set_entry runID (if la_narrowContext acts then st1\<lparr>dr_pendingNarrow := True\<rparr> else st1) m1)"

section \<open>Escalating a drifting turn\<close>

definition latestVibeDriftScore :: "time \<Rightarrow> string \<Rightarrow> driftStates \<Rightarrow> int \<times> driftStates" where
  "latestVibeDriftScore now runID m = (let (st, m1) = driftStateFor now runID m in (dr_lastScore st, m1))"

text \<open>
  The decision of \<open>applyVibeDriftOnlyResolver\<close>: whether it starts an owner debate. \<open>vibe\<close> tells
  whether the run works in vibe mode, \<open>inDebate\<close> whether its hub is already debating.
\<close>

definition applyVibeDriftOnlyResolver ::
  "time \<Rightarrow> time \<Rightarrow> bool \<Rightarrow> bool \<Rightarrow> string \<Rightarrow> driftStates \<Rightarrow> bool \<times> driftStates" where
  "applyVibeDriftOnlyResolver now now1 vibe inDebate runID m =
     (if \<not> vibe then (False, m)
      else let (driftScore, m1) = latestVibeDriftScore now runID m
           in if driftScore < VibeDriftDebateThreshold then
                let (st, m2) = driftStateFor now1 runID m1
                in (False, set_entry runID (st\<lparr>dr_debateDischarged := False\<rparr>) m2)
              else if inDebate then (False, m1)
              else let (st, m2) = driftStateFor now1 runID m1
                   in if dr_debateDischarged st then (False, m2)
                      else (True, set_entry runID (st\<lparr>dr_debateDischarged := True\<rparr>) m2))"

text \<open>Entering an owner debate drops what is pending for the hub (\<open>stashVibeFlowForDebate\<close>).\<close>

definition dropPendingActions :: "time \<Rightarrow> string \<Rightarrow> driftStates \<Rightarrow> driftStates" where
  "dropPendingActions now runID m =
     (let (st, m1) = driftStateFor now runID m
      in set_entry runID (st\<lparr>dr_pendingNote := '''', dr_pendingNarrow := False\<rparr>) m1)"

section \<open>Sequences of operations\<close>

datatype drift_op =
    RecordTurn time driftRun string TurnResult
  | Pull time string
  | Restore time string driftLadderActions
  | ReadScore time string
  | Resolve time time bool bool string
  | DropPending time string

fun exec_drift :: "drift_op \<Rightarrow> driftStates \<Rightarrow> driftStates" where
  "exec_drift (RecordTurn now rs turnID tr) m = snd (recordDriftTelemetry now rs turnID tr m)"
| "exec_drift (Pull now r) m = snd (pullDriftLadderActions now r m)"
| "exec_drift (Restore now r acts) m = restoreDriftLadderActions now r acts m"
| "exec_drift (ReadScore now r) m = snd (latestVibeDriftScore now r m)"
| "exec_drift (Resolve now now1 vibe inDebate r) m = snd (applyVibeDriftOnlyResolver now now1 vibe inDebate r m)"
| "exec_drift (DropPending now r) m = dropPendingActions now r m"

definition drift_ops :: "drift_op list \<Rightarrow> driftStates \<Rightarrow> driftStates" where
  "drift_ops ops m = foldl (\<lambda>m op. exec_drift op m) m ops"

lemma drift_ops_simps [simp]: "drift_ops [] m = m" "drift_ops (op # ops) m = drift_ops ops (exec_drift op m)"
  by (simp_all add: drift_ops_def)

fun op_run :: "drift_op \<Rightarrow> string" where
  "op_run (RecordTurn now rs turnID tr) = dn_id rs"
| "op_run (Pull now r) = r"
| "op_run (Restore now r acts) = r"
| "op_run (ReadScore now r) = r"
| "op_run (Resolve now now1 vibe inDebate r) = r"
| "op_run (DropPending now r) = r"

text \<open>The state of a run, the zero state when it has no entry.\<close>

definition entry :: "driftStates \<Rightarrow> string \<Rightarrow> driftRunState" where
  "entry m r = (case map_of m r of None \<Rightarrow> newDriftRunState | Some st \<Rightarrow> st)"

definition driftRuns :: "driftStates \<Rightarrow> string set" where
  "driftRuns m = fst ` set m"

text \<open>Every operation updates entries one at a time.\<close>

definition updateEntry :: "time \<Rightarrow> string \<Rightarrow> (driftRunState \<Rightarrow> driftRunState) \<Rightarrow> driftStates \<Rightarrow> driftStates" where
  "updateEntry now r f m = (case driftStateFor now r m of (st, m1) \<Rightarrow> set_entry r (f st) m1)"

lemma map_of_set_entry: "map_of (set_entry r st m) = (if r \<in> driftRuns m then (map_of m)(r \<mapsto> st) else map_of m)"
  by (induction m) (auto simp: set_entry_def driftRuns_def fun_eq_iff)

lemma runs_set_entry [simp]: "driftRuns (set_entry r st m) = driftRuns m"
  and map_fst_set_entry [simp]: "map fst (set_entry r st m) = map fst m"
  by (force simp: set_entry_def driftRuns_def) (simp add: set_entry_def comp_def split_beta)

lemma map_of_None_runs: "map_of m r = None \<longleftrightarrow> r \<notin> driftRuns m"
  by (simp add: map_of_eq_None_iff driftRuns_def)

lemma add_entry:
  assumes "r \<notin> driftRuns m"
  shows "map_of (m @ [(r, st)]) = (map_of m)(r \<mapsto> st)" and "driftRuns (m @ [(r, st)]) = insert r (driftRuns m)"
proof -
  have "map_of m r = None" using assms by (simp add: map_of_None_runs)
  then show "map_of (m @ [(r, st)]) = (map_of m)(r \<mapsto> st)" by (auto simp: map_add_def fun_eq_iff split: option.splits)
qed (simp add: driftRuns_def)

lemma stateFor_parts:
  assumes "makeRoom now m = n"
  shows "fst (driftStateFor now r m) = (entry n r)\<lparr>dr_lastSeenUnixNano := now\<rparr>"
    and "snd (driftStateFor now r m) =
      (if r \<in> driftRuns n then set_entry r ((entry n r)\<lparr>dr_lastSeenUnixNano := now\<rparr>) n
       else n @ [(r, (entry n r)\<lparr>dr_lastSeenUnixNano := now\<rparr>)])"
  using assms by (simp_all add: driftStateFor_def Let_def entry_def set_entry_def map_of_None_runs)

lemma stateFor_roomy:
  assumes "length m < driftStateMaxEntries"
  shows "fst (driftStateFor now r m) = (entry m r)\<lparr>dr_lastSeenUnixNano := now\<rparr>"
    and "map_of (snd (driftStateFor now r m)) = (map_of m)(r \<mapsto> (entry m r)\<lparr>dr_lastSeenUnixNano := now\<rparr>)"
    and "driftRuns (snd (driftStateFor now r m)) = insert r (driftRuns m)"
proof -
  have room: "makeRoom now m = m" using assms by (simp add: makeRoom_def)
  show "fst (driftStateFor now r m) = (entry m r)\<lparr>dr_lastSeenUnixNano := now\<rparr>" by (rule stateFor_parts [OF room])
  show "map_of (snd (driftStateFor now r m)) = (map_of m)(r \<mapsto> (entry m r)\<lparr>dr_lastSeenUnixNano := now\<rparr>)"
    and "driftRuns (snd (driftStateFor now r m)) = insert r (driftRuns m)"
    by (simp_all add: stateFor_parts [OF room] map_of_set_entry add_entry insert_absorb del: map_of_append)
qed

lemma update_roomy:
  assumes "length m < driftStateMaxEntries"
  shows "map_of (updateEntry now r f m) = (map_of m)(r \<mapsto> f ((entry m r)\<lparr>dr_lastSeenUnixNano := now\<rparr>))"
    and "driftRuns (updateEntry now r f m) = insert r (driftRuns m)"
  using stateFor_roomy [OF assms, of now r]
  by (simp_all add: updateEntry_def split_beta map_of_set_entry)


section \<open>Operations as updates\<close>

lemma set_entry_idem: "(\<forall>v. (r, v) \<in> set m \<longrightarrow> v = st) \<Longrightarrow> set_entry r st m = m"
  unfolding set_entry_def by (rule map_idI) auto

lemma set_entry_stateFor: "set_entry r (fst (driftStateFor now r m)) (snd (driftStateFor now r m)) = snd (driftStateFor now r m)"
proof (rule set_entry_idem, intro allI impI)
  fix v assume "(r, v) \<in> set (snd (driftStateFor now r m))"
  then show "v = fst (driftStateFor now r m)"
    by (auto simp: stateFor_parts [OF refl] set_entry_def driftRuns_def image_iff split: if_splits)
qed

definition readOnly :: "driftRunState \<Rightarrow> driftRunState" where
  "readOnly st = st"

definition pulled :: "driftRunState \<Rightarrow> driftRunState" where
  "pulled st = st\<lparr>dr_pendingNote := '''', dr_pendingNarrow := False\<rparr>"

definition restored :: "driftLadderActions \<Rightarrow> driftRunState \<Rightarrow> driftRunState" where
  "restored acts st =
     (let st1 = (if dr_pendingNote st = '''' then st\<lparr>dr_pendingNote := la_systemNote acts\<rparr> else st)
      in if la_narrowContext acts then st1\<lparr>dr_pendingNarrow := True\<rparr> else st1)"

definition evaluated :: "driftRun \<Rightarrow> string \<Rightarrow> TurnResult \<Rightarrow> driftRunState \<Rightarrow> DriftEvent" where
  "evaluated rs turnID tr st =
     (EvaluateTurnDrift (historyBefore turnID (dr_history st)) (driftSummary rs turnID tr))
       \<lparr>de_RunID := dn_id rs, de_StepID := tn_StepID tr\<rparr>"

definition recorded :: "driftRun \<Rightarrow> string \<Rightarrow> TurnResult \<Rightarrow> driftRunState \<Rightarrow> driftRunState" where
  "recorded rs turnID tr st =
     recordTurn (dn_inVibeDebate rs) (evaluated rs turnID tr st) (driftSummary rs turnID tr) st"

definition discharged :: "bool \<Rightarrow> driftRunState \<Rightarrow> driftRunState" where
  "discharged b st = st\<lparr>dr_debateDischarged := b\<rparr>"

lemma summary_turn [simp]: "su_TurnID (driftSummary rs turnID tr) = turnID"
  by (simp add: driftSummary_def turnSummaryFromTurnResult_def Let_def)

lemma record_update: "snd (recordDriftTelemetry now rs turnID tr m) = updateEntry now (dn_id rs) (recorded rs turnID tr) m"
  and record_event: "fst (fst (recordDriftTelemetry now rs turnID tr m)) = evaluated rs turnID tr (fst (driftStateFor now (dn_id rs) m))"
  by (simp_all add: recordDriftTelemetry_def updateEntry_def recorded_def evaluated_def Let_def split_beta)

lemma pull_update: "snd (pullDriftLadderActions now r m) = updateEntry now r pulled m"
  by (simp add: pullDriftLadderActions_def updateEntry_def pulled_def split_beta)

lemma restore_update:
  "restoreDriftLadderActions now r acts m =
     (if la_systemNote acts = '''' \<and> \<not> la_narrowContext acts then m else updateEntry now r (restored acts) m)"
  by (simp add: restoreDriftLadderActions_def updateEntry_def restored_def Let_def split_beta)

lemma read_update:
  "latestVibeDriftScore now r m = (dr_lastScore (fst (driftStateFor now r m)), updateEntry now r readOnly m)"
  by (simp add: latestVibeDriftScore_def updateEntry_def readOnly_def set_entry_stateFor split_beta)

lemma drop_update: "dropPendingActions now r m = updateEntry now r pulled m"
  by (simp add: dropPendingActions_def updateEntry_def pulled_def split_beta)

lemma resolver_update:
  "applyVibeDriftOnlyResolver now now1 vibe inDebate r m =
     (if \<not> vibe then (False, m)
      else if dr_lastScore (fst (driftStateFor now r m)) < VibeDriftDebateThreshold
           then (False, updateEntry now1 r (discharged False) (updateEntry now r readOnly m))
      else if inDebate then (False, updateEntry now r readOnly m)
      else let m1 = updateEntry now r readOnly m
           in if dr_debateDischarged (fst (driftStateFor now1 r m1)) then (False, updateEntry now1 r readOnly m1)
              else (True, updateEntry now1 r (discharged True) m1))"
proof -
  have "snd (driftStateFor now1 r m1) = updateEntry now1 r readOnly m1" for m1
    by (simp add: updateEntry_def readOnly_def set_entry_stateFor split_beta)
  moreover have "set_entry r ((fst (driftStateFor now1 r m1))\<lparr>dr_debateDischarged := b\<rparr>) (snd (driftStateFor now1 r m1)) =
      updateEntry now1 r (discharged b) m1" for m1 b
    by (simp add: updateEntry_def discharged_def split_beta)
  ultimately show ?thesis
    unfolding applyVibeDriftOnlyResolver_def read_update by (simp add: Let_def split_beta)
qed

lemmas op_updates = record_update pull_update restore_update read_update drop_update resolver_update

section \<open>Bounds\<close>

fun op_times :: "drift_op \<Rightarrow> time list" where
  "op_times (RecordTurn now rs turnID tr) = [now]"
| "op_times (Pull now r) = [now]"
| "op_times (Restore now r acts) = [now]"
| "op_times (ReadScore now r) = [now]"
| "op_times (Resolve now now1 vibe inDebate r) = [now, now1]"
| "op_times (DropPending now r) = [now]"

definition state_ok :: "driftRunState \<Rightarrow> bool" where
  "state_ok st \<longleftrightarrow> length (dr_history st) \<le> driftHistoryRingCap \<and> 0 \<le> dr_lastScore st \<and> dr_lastScore st \<le> 100"

definition states_ok :: "time \<Rightarrow> driftStates \<Rightarrow> bool" where
  "states_ok t m \<longleftrightarrow> distinct (map fst m) \<and> length m \<le> driftStateMaxEntries \<and>
     (\<forall>(k, st)\<in>set m. state_ok st \<and> dr_lastSeenUnixNano st \<le> t)"

lemma oldest_keeps: "oldestEntry m t (Some q) \<in> insert (Some q) (Some ` driftRuns m)"
proof (induction m arbitrary: t q)
  case (Cons p m)
  obtain k v where p: "p = (k, v)" by (cases p)
  have "driftRuns (p # m) = insert k (driftRuns m)" by (simp add: p driftRuns_def)
  then show ?case using Cons.IH [of "dr_lastSeenUnixNano v" k] Cons.IH [of t q] by (simp add: p) blast
qed simp

lemma oldest_some: "\<exists>st\<in>snd ` set m. dr_lastSeenUnixNano st < t \<Longrightarrow> oldestEntry m t key \<in> Some ` driftRuns m"
proof (induction m arbitrary: key)
  case (Cons p m)
  obtain k v where p: "p = (k, v)" by (cases p)
  have runs: "driftRuns (p # m) = insert k (driftRuns m)" by (simp add: p driftRuns_def)
  show ?case
  proof (cases "dr_lastSeenUnixNano v < t")
    case True then show ?thesis using oldest_keeps [of m "dr_lastSeenUnixNano v" k] by (simp add: p runs [unfolded p])
  next
    case False
    then have "\<exists>st\<in>snd ` set m. dr_lastSeenUnixNano st < t" using Cons.prems by (simp add: p)
    from Cons.IH [OF this, of key] False show ?thesis by (simp add: p runs [unfolded p])
  qed
qed simp

lemma delete_shorter: "k \<in> driftRuns m \<Longrightarrow> length (delete_entry k m) < length m"
  unfolding delete_entry_def driftRuns_def by (auto intro: length_filter_less)

lemma sub_states:
  "states_ok t m \<Longrightarrow> states_ok t (filter P m)"
  by (auto simp: states_ok_def distinct_map_filter dest: le_trans [OF length_filter_le])

lemma room_made:
  assumes "states_ok t m" and "t < now"
  shows "states_ok t (makeRoom now m)" and "length (makeRoom now m) < driftStateMaxEntries"
proof -
  let ?m = "driftEvictIdleLocked now m"
  have e: "states_ok t ?m" using sub_states [OF assms(1)] by (simp add: driftEvictIdleLocked_def)
  show "states_ok t (makeRoom now m)"
    using assms(1) e sub_states [OF e] by (simp add: makeRoom_def Let_def delete_entry_def split: option.split)
  show "length (makeRoom now m) < driftStateMaxEntries"
  proof (cases "driftStateMaxEntries \<le> length m \<and> driftStateMaxEntries \<le> length ?m")
    case True
    then have "?m \<noteq> []" by (auto simp: driftStateMaxEntries_def)
    then obtain k st where "(k, st) \<in> set ?m" by (cases ?m) auto
    then have "\<exists>st\<in>snd ` set ?m. dr_lastSeenUnixNano st < now" using e assms(2) by (force simp: states_ok_def)
    from oldest_some [OF this, of None] obtain q where q: "oldestEntry ?m now None = Some q" "q \<in> driftRuns ?m" by auto
    have "length (delete_entry q ?m) < length ?m" by (rule delete_shorter [OF q(2)])
    moreover have "length ?m \<le> driftStateMaxEntries" using e by (simp add: states_ok_def)
    ultimately show ?thesis using True q by (simp add: makeRoom_def Let_def)
  qed (auto simp: makeRoom_def Let_def)
qed

definition keeps_ok :: "(driftRunState \<Rightarrow> driftRunState) \<Rightarrow> bool" where
  "keeps_ok f \<longleftrightarrow> (\<forall>st. state_ok st \<longrightarrow> state_ok (f st) \<and> dr_lastSeenUnixNano (f st) = dr_lastSeenUnixNano st)"

lemma set_entry_ok:
  assumes "states_ok t m" and "state_ok st" and "dr_lastSeenUnixNano st \<le> t"
  shows "states_ok t (set_entry r st m)"
  using assms unfolding states_ok_def map_fst_set_entry by (auto simp: set_entry_def)

lemma update_ok:
  assumes "states_ok t m" and "t < now" and "keeps_ok f"
  shows "states_ok now (updateEntry now r f m)"
proof -
  let ?n = "makeRoom now m"
  note room = room_made [OF assms(1,2)]
  have n: "states_ok now ?n" using room(1) assms(2) by (force simp: states_ok_def)
  have "state_ok (entry ?n r)"
  proof (cases "map_of ?n r")
    case None then show ?thesis by (simp add: entry_def state_ok_def newDriftRunState_def)
  next
    case (Some st) with map_of_SomeD [OF Some] n show ?thesis by (auto simp: entry_def states_ok_def)
  qed
  then have st: "state_ok ((entry ?n r)\<lparr>dr_lastSeenUnixNano := now\<rparr>)" by (simp add: state_ok_def)
  then have "states_ok now (snd (driftStateFor now r m))"
  proof (cases "r \<in> driftRuns ?n")
    case False
    with n room(2) st show ?thesis
      unfolding stateFor_parts [OF refl] states_ok_def by (auto simp: driftRuns_def)
  qed (use set_entry_ok [OF n] st in \<open>simp add: stateFor_parts [OF refl]\<close>)
  moreover have "state_ok (f (fst (driftStateFor now r m)))" "dr_lastSeenUnixNano (f (fst (driftStateFor now r m))) \<le> now"
    using st assms(3) by (simp_all add: keeps_ok_def stateFor_parts [OF refl])
  ultimately show ?thesis by (simp add: updateEntry_def split_beta set_entry_ok)
qed

lemma drop_own_length: "length (dropOwnTurns i ts) \<le> length ts"
  by (induction ts) auto

lemma push_length: "length h \<le> driftHistoryRingCap \<Longrightarrow> length (pushTurn t h) \<le> driftHistoryRingCap"
  by (auto simp: pushTurn_def Let_def driftHistoryRingCap_def)

lemma keeps_ok_steps:
  "keeps_ok readOnly" "keeps_ok pulled" "keeps_ok (restored acts)" "keeps_ok (discharged b)"
  by (simp_all add: keeps_ok_def state_ok_def readOnly_def pulled_def restored_def discharged_def Let_def)

lemma keeps_ok_recorded: "keeps_ok (recorded rs i tr)"
proof -
  have "0 \<le> de_DriftScore (evaluated rs i tr st) \<and> de_DriftScore (evaluated rs i tr st) \<le> 100" for st
    using driftStep_range [OF carried_range] by (simp add: evaluated_def event_score)
  then show ?thesis
    by (auto simp: keeps_ok_def state_ok_def recorded_def recordTurn_def stash_def push_length
        split: CorrectionAction.split)
qed

lemma exec_ok:
  assumes "states_ok t m" and "sorted_wrt (<) (t # op_times op)"
  shows "states_ok (last (op_times op)) (exec_drift op m)"
proof -
  note up = update_ok [OF assms(1)]
  have later: "states_ok u m" if "t \<le> u" for u using assms(1) that by (force simp: states_ok_def)
  show ?thesis
  proof (cases op)
    case (RecordTurn now rs i tr)
    then show ?thesis using up assms(2) keeps_ok_recorded by (simp add: op_updates)
  next
    case (Resolve now now1 vibe inDebate r)
    then have tn: "t < now" "now < now1" using assms(2) by simp_all
    have one: "states_ok now (updateEntry now r readOnly m)" using up tn(1) keeps_ok_steps(1) by blast
    moreover from this have "states_ok now1 (updateEntry now r readOnly m)" using tn by (force simp: states_ok_def)
    ultimately show ?thesis
      using update_ok [OF one tn(2)] keeps_ok_steps later [of now1] tn Resolve by (simp add: op_updates Let_def)
  qed (use up assms(2) keeps_ok_steps later in \<open>auto simp: op_updates\<close>)
qed

lemma ops_ok:
  "states_ok t m \<Longrightarrow> sorted_wrt (<) (t # concat (map op_times ops)) \<Longrightarrow> \<exists>u. states_ok u (drift_ops ops m)"
proof (induction ops arbitrary: t m)
  case (Cons op ops)
  have ne: "op_times op \<noteq> []" by (cases op) simp_all
  have s: "sorted_wrt (<) (op_times op @ concat (map op_times ops))" and
    "sorted_wrt (<) (t # op_times op)" using Cons.prems(2) by (auto simp: sorted_wrt_append)
  from exec_ok [OF Cons.prems(1) this(2)] have "states_ok (last (op_times op)) (exec_drift op m)" .
  moreover have "sorted_wrt (<) (last (op_times op) # concat (map op_times ops))"
    using s last_in_set [OF ne] by (simp add: sorted_wrt_append)
  ultimately show ?case using Cons.IH by auto
qed (auto)

section \<open>A run is never forgotten while there is room\<close>

lemma entry_simps:
  assumes "length m < driftStateMaxEntries"
  shows "entry (updateEntry now r f m) q = (if q = r then f ((entry m r)\<lparr>dr_lastSeenUnixNano := now\<rparr>) else entry m q)"
  by (simp add: entry_def update_roomy [OF assms])

definition roomy :: "string set \<Rightarrow> driftStates \<Rightarrow> bool" where
  "roomy R m \<longleftrightarrow> distinct (map fst m) \<and> driftRuns m \<subseteq> R"

lemma roomy_length:
  assumes "roomy R m" and "finite R" and "card R < driftStateMaxEntries"
  shows "length m < driftStateMaxEntries"
proof -
  have "length m = card (driftRuns m)" using assms(1) distinct_card [of "map fst m"] by (simp add: roomy_def driftRuns_def)
  also have "\<dots> \<le> card R" using assms(1,2) by (auto simp: roomy_def intro: card_mono)
  finally show ?thesis using assms(3) by simp
qed

lemma roomy_update:
  assumes "roomy R m" and "finite R" and "card R < driftStateMaxEntries" and "r \<in> R"
  shows "roomy R (updateEntry now r f m)"
proof -
  have l: "length m < driftStateMaxEntries" by (rule roomy_length [OF assms(1-3)])
  then have room: "makeRoom now m = m" by (simp add: makeRoom_def)
  have "distinct (map fst (updateEntry now r f m))"
    using assms(1) by (simp add: updateEntry_def split_beta stateFor_parts [OF room] roomy_def driftRuns_def)
  then show ?thesis using assms(1,4) by (simp add: roomy_def update_roomy(2) [OF l])
qed

section \<open>One debate per episode\<close>

text \<open>Whether a resolver call among \<open>ops\<close> sees the score of \<open>r\<close> below the threshold.\<close>

fun sees_decay :: "string \<Rightarrow> drift_op list \<Rightarrow> driftStates \<Rightarrow> bool" where
  "sees_decay r [] m = False"
| "sees_decay r (op # ops) m =
     ((case op of Resolve now now1 vibe inDebate q \<Rightarrow> q = r \<and> vibe \<and> dr_lastScore (entry m r) < VibeDriftDebateThreshold
       | _ \<Rightarrow> False) \<or> sees_decay r ops (exec_drift op m))"

text \<open>The lookups an operation makes, each with the map it looks into, and whether one of them evicts \<open>r\<close>.\<close>

fun lookups :: "drift_op \<Rightarrow> driftStates \<Rightarrow> (time \<times> driftStates) list" where
  "lookups (RecordTurn now rs turnID tr) m = [(now, m)]"
| "lookups (Pull now r) m = [(now, m)]"
| "lookups (Restore now r acts) m = (if la_systemNote acts = '''' \<and> \<not> la_narrowContext acts then [] else [(now, m)])"
| "lookups (ReadScore now r) m = [(now, m)]"
| "lookups (Resolve now now1 vibe inDebate r) m =
     (if \<not> vibe then []
      else let (score, m1) = latestVibeDriftScore now r m
           in (now, m) # (if \<not> score < VibeDriftDebateThreshold \<and> inDebate then [] else [(now1, m1)]))"
| "lookups (DropPending now r) m = [(now, m)]"

fun forgets :: "string \<Rightarrow> drift_op list \<Rightarrow> driftStates \<Rightarrow> bool" where
  "forgets r [] m = False"
| "forgets r (op # ops) m =
     (list_ex (\<lambda>(now, n). r \<in> driftRuns n \<and> r \<notin> driftRuns (makeRoom now n)) (lookups op m) \<or> forgets r ops (exec_drift op m))"

lemma debt_kept:
  "dr_debateDischarged (readOnly st) = dr_debateDischarged st"
  "dr_debateDischarged (pulled st) = dr_debateDischarged st"
  "dr_debateDischarged (restored acts st) = dr_debateDischarged st"
  "dr_debateDischarged (discharged b st) = b"
  "dr_debateDischarged (recorded rs i tr st) = dr_debateDischarged st"
  by (simp_all add: readOnly_def pulled_def restored_def discharged_def recorded_def recordTurn_def stash_def Let_def
      split: CorrectionAction.split)

lemma makeRoom_filter: "\<exists>P. makeRoom now m = filter P m"
proof -
  have "\<exists>P. m = filter P m" by (rule exI [of _ "\<lambda>_. True"]) simp
  then show ?thesis
    by (auto simp: makeRoom_def driftEvictIdleLocked_def delete_entry_def Let_def split: option.split)
qed

lemma distinct_room: "distinct (map fst m) \<Longrightarrow> distinct (map fst (makeRoom now m))"
  using makeRoom_filter [of now m] by (auto simp: distinct_map_filter)

lemma entry_room:
  assumes "distinct (map fst m)" and "r \<in> driftRuns (makeRoom now m)"
  shows "entry (makeRoom now m) r = entry m r"
proof -
  obtain st where st: "(r, st) \<in> set (makeRoom now m)" using assms(2) by (auto simp: driftRuns_def)
  then have "(r, st) \<in> set m" using makeRoom_filter [of now m] by auto
  with st assms(1) distinct_room [OF assms(1)] show ?thesis
    by (simp add: entry_def)
qed

lemma distinct_update: "distinct (map fst m) \<Longrightarrow> distinct (map fst (updateEntry now q f m))"
  using distinct_room [of m now]
  by (auto simp: updateEntry_def split_beta stateFor_parts [OF refl] driftRuns_def)

lemma entry_update:
  "entry (updateEntry now q f m) r =
     (if r = q then f ((entry (makeRoom now m) q)\<lparr>dr_lastSeenUnixNano := now\<rparr>) else entry (makeRoom now m) r)"
  by (auto simp: updateEntry_def split_beta stateFor_parts [OF refl] entry_def map_of_set_entry add_entry
      simp del: map_of_append split: option.split)

lemma exec_distinct: "distinct (map fst m) \<Longrightarrow> distinct (map fst (exec_drift op m))"
  by (cases op) (auto simp: op_updates Let_def intro!: distinct_update)

text \<open>A debt of \<open>r\<close>: its debate was started and its score was not seen below the threshold since.\<close>

definition indebted :: "string \<Rightarrow> driftStates \<Rightarrow> bool" where
  "indebted r m \<longleftrightarrow> distinct (map fst m) \<and> dr_debateDischarged (entry m r)"

lemma indebted_known: "indebted r m \<Longrightarrow> r \<in> driftRuns m"
  by (force simp: indebted_def entry_def newDriftRunState_def driftRuns_def dest: map_of_SomeD split: option.splits)

lemma indebted_update:
  assumes "indebted r m" and "\<not> (r \<in> driftRuns m \<and> r \<notin> driftRuns (makeRoom now m))"
    and "q = r \<Longrightarrow> dr_debateDischarged (f ((entry m r)\<lparr>dr_lastSeenUnixNano := now\<rparr>))"
  shows "indebted r (updateEntry now q f m)"
proof -
  have "r \<in> driftRuns (makeRoom now m)" using indebted_known [OF assms(1)] assms(2) by blast
  with assms(1,3) show ?thesis
    by (auto simp: indebted_def distinct_update entry_update entry_room)
qed

lemma indebted_lookup:
  assumes "indebted r m" and "r \<in> driftRuns (makeRoom now m)"
  shows "fst (driftStateFor now r m) = (entry m r)\<lparr>dr_lastSeenUnixNano := now\<rparr>"
  using assms by (simp add: stateFor_parts [OF refl] entry_room indebted_def)

lemma indebted_exec:
  assumes "indebted r m" and "\<not> forgets r [op] m" and "\<not> sees_decay r [op] m"
  shows "indebted r (exec_drift op m)"
proof -
  note known = indebted_known [OF assms(1)] and old = assms(1) [unfolded indebted_def]
  show ?thesis
  proof (cases op)
    case (Resolve now now1 vibe inDebate q)
    show ?thesis
    proof (cases vibe)
      case True
      with assms(2) known have room: "r \<in> driftRuns (makeRoom now m)" by (simp add: Resolve split_beta)
      have once: "indebted r (updateEntry now q readOnly m)"
        using room old by (intro indebted_update [OF assms(1)]) (simp_all add: debt_kept)
      note known1 = indebted_known [OF once]
      have score: "q = r \<Longrightarrow> dr_lastScore (fst (driftStateFor now q m)) = dr_lastScore (entry m r)"
        using indebted_lookup [OF assms(1) room] by simp
      show ?thesis
      proof (cases "dr_lastScore (fst (driftStateFor now q m)) < VibeDriftDebateThreshold")
        case low: True
        with assms(3) score True have "q \<noteq> r" by (auto simp: Resolve)
        moreover have "r \<in> driftRuns (makeRoom now1 (updateEntry now q readOnly m))"
          using assms(2) True low known1 by (simp add: Resolve read_update)
        ultimately show ?thesis
          using True low by (auto simp: Resolve op_updates intro!: indebted_update once)
      next
        case high: False
        show ?thesis
        proof (cases inDebate)
          case False
          then have "r \<in> driftRuns (makeRoom now1 (updateEntry now q readOnly m))"
            using assms(2) True high known1 by (simp add: Resolve read_update)
          with True high False once show ?thesis
            by (auto simp: Resolve op_updates Let_def debt_kept indebted_def [THEN iffD1, THEN conjunct2] intro!: indebted_update)
        qed (use True high once in \<open>simp add: Resolve op_updates\<close>)
      qed
    qed (use assms(1) in \<open>simp add: Resolve op_updates\<close>)
  qed (use assms(2) known old in \<open>auto simp: op_updates debt_kept intro!: indebted_update assms(1)\<close>)
qed

lemma indebted_ops:
  "indebted r m \<Longrightarrow> \<not> forgets r ops m \<Longrightarrow> \<not> sees_decay r ops m \<Longrightarrow> indebted r (drift_ops ops m)"
proof (induction ops arbitrary: m)
  case (Cons op ops)
  from Cons.prems have "indebted r (exec_drift op m)" by (intro indebted_exec) simp_all
  with Cons show ?case by simp
qed simp

lemma mounts_indebted:
  assumes "distinct (map fst m)" and "applyVibeDriftOnlyResolver now now1 vibe inDebate r m = (True, m1)"
  shows "indebted r m1"
proof -
  have "m1 = updateEntry now1 r (discharged True) (updateEntry now r readOnly m)"
    using assms(2) by (auto simp: op_updates Let_def split: if_splits)
  with assms(1) show ?thesis by (simp add: indebted_def distinct_update entry_update debt_kept)
qed

lemma indebted_refused:
  assumes "indebted r m" and "\<not> forgets r [Resolve now now1 vibe inDebate r] m"
  shows "\<not> fst (applyVibeDriftOnlyResolver now now1 vibe inDebate r m)"
proof (rule notI)
  assume go: "fst (applyVibeDriftOnlyResolver now now1 vibe inDebate r m)"
  then have v: "vibe" "\<not> inDebate" by (auto simp: op_updates split: if_splits)
  with assms(2) indebted_known [OF assms(1)] have room: "r \<in> driftRuns (makeRoom now m)" by (simp add: split_beta)
  have once: "indebted r (updateEntry now r readOnly m)"
    using room assms(1) by (intro indebted_update) (simp_all add: debt_kept indebted_def)
  have "r \<in> driftRuns (makeRoom now1 (updateEntry now r readOnly m))"
    using assms(2) v indebted_known [OF once] by (simp add: read_update)
  with go v indebted_lookup [OF once] once show False
    by (auto simp: op_updates Let_def indebted_def split: if_splits)
qed

text \<open>While fewer runs than the map holds are alive, nothing is forgotten.\<close>

lemma exec_roomy:
  assumes "roomy R m" "finite R" "card R < driftStateMaxEntries" "op_run op \<in> R"
  shows "roomy R (exec_drift op m)"
  using assms by (cases op) (auto simp: op_updates Let_def intro!: roomy_update)

lemma roomy_keeps: "roomy R m \<Longrightarrow> finite R \<Longrightarrow> card R < driftStateMaxEntries \<Longrightarrow> makeRoom now m = m"
  using roomy_length [of R m] by (simp add: makeRoom_def)

lemma roomy_lookups:
  assumes "roomy R m" "finite R" "card R < driftStateMaxEntries" "op_run op \<in> R" "(now, n) \<in> set (lookups op m)"
  shows "makeRoom now n = n"
  using assms by (cases op) (auto simp: read_update roomy_keeps [of R] roomy_update split: if_splits)

lemma roomy_forgets_nothing:
  assumes "finite R" "card R < driftStateMaxEntries"
  shows "roomy R m \<Longrightarrow> op_run ` set ops \<subseteq> R \<Longrightarrow> \<not> forgets r ops m"
proof (induction ops arbitrary: m)
  case (Cons op ops)
  then show ?case
    using roomy_lookups [OF Cons.prems(1) assms, of op] exec_roomy [OF Cons.prems(1) assms, of op]
    by (auto simp: list_ex_iff)
qed simp

lemma forgets_append: "forgets r (ops @ ops') m \<longleftrightarrow> forgets r ops m \<or> forgets r ops' (drift_ops ops m)"
  by (induction ops arbitrary: m) auto

section \<open>Evaluating a turn again\<close>

lemma push_last: "su_TurnID u = su_TurnID t \<Longrightarrow> pushTurn t (h @ [u]) = h @ [t]"
  by (simp add: pushTurn_def)

lemma push_other:
  assumes "length h < driftHistoryRingCap" and "h = [] \<or> su_TurnID (last h) \<noteq> su_TurnID t"
  shows "pushTurn t h = h @ [t]"
  using assms by (auto simp: pushTurn_def Let_def)

lemma history_before_push:
  assumes "length h < driftHistoryRingCap"
  shows "historyBefore (su_TurnID t) (pushTurn t h) = historyBefore (su_TurnID t) h \<and>
    pushTurn t (pushTurn t h) = pushTurn t h"
proof (cases h rule: rev_cases)
  case Nil
  then show ?thesis using push_other [of h t] assms push_last [of t t "[]"] by (simp add: historyBefore_def)
next
  case (snoc g u)
  show ?thesis
  proof (cases "su_TurnID u = su_TurnID t")
    case True then show ?thesis by (simp add: snoc push_last historyBefore_def)
  next
    case False
    with push_other [OF assms, of t] have "pushTurn t h = h @ [t]" by (simp add: snoc)
    then show ?thesis using push_last [of t t h] by (simp add: historyBefore_def)
  qed
qed

lemma evaluated_cong:
  "historyBefore i (dr_history st) = historyBefore i (dr_history st') \<Longrightarrow> evaluated rs i tr st = evaluated rs i tr st'"
  by (simp add: evaluated_def)

lemma recorded_history: "dr_history (recorded rs i tr st) = pushTurn (driftSummary rs i tr) (dr_history st)"
  and recorded_score: "dr_lastScore (recorded rs i tr st) = de_DriftScore (evaluated rs i tr st)"
  by (simp_all add: recorded_def recordTurn_def stash_def split: CorrectionAction.split)

lemma recorded_again:
  assumes "length (dr_history st) < driftHistoryRingCap"
  shows "evaluated rs i tr ((recorded rs i tr st)\<lparr>dr_lastSeenUnixNano := now\<rparr>) = evaluated rs i tr st"
    and "dr_history (recorded rs i tr ((recorded rs i tr st)\<lparr>dr_lastSeenUnixNano := now\<rparr>)) = dr_history (recorded rs i tr st)"
  using history_before_push [OF assms, of "driftSummary rs i tr"]
  by (simp_all add: recorded_history evaluated_def)

section \<open>A full map\<close>

lemma oldest_unique:
  assumes "distinct (map fst m)" and "(r, st) \<in> set m"
    and "\<forall>(k, v)\<in>set m. k \<noteq> r \<longrightarrow> dr_lastSeenUnixNano st < dr_lastSeenUnixNano v" and "dr_lastSeenUnixNano st < t"
  shows "oldestEntry m t key = Some r"
  using assms
proof (induction m arbitrary: t key)
  case (Cons p m)
  obtain k v where p: "p = (k, v)" by (cases p)
  have stays: "oldestEntry m (dr_lastSeenUnixNano st) (Some r) = Some r" if "\<forall>(k, v)\<in>set m. dr_lastSeenUnixNano st < dr_lastSeenUnixNano v"
    for m using that by (induction m) auto
  show ?case
  proof (cases "k = r")
    case True
    then have "r \<notin> fst ` set m" using Cons.prems(1) by (simp add: p)
    then have "v = st" "\<forall>(k, v)\<in>set m. dr_lastSeenUnixNano st < dr_lastSeenUnixNano v"
      using Cons.prems(2,3) True by (force simp: p)+
    then show ?thesis using stays Cons.prems(4) True by (simp add: p)
  next
    case False
    then have m: "distinct (map fst m)" "(r, st) \<in> set m"
      "\<forall>(k, v)\<in>set m. k \<noteq> r \<longrightarrow> dr_lastSeenUnixNano st < dr_lastSeenUnixNano v" "dr_lastSeenUnixNano st < dr_lastSeenUnixNano v"
      using Cons.prems by (auto simp: p)
    then show ?thesis using Cons.IH [OF m(1-3)] Cons.prems(4) by (simp add: p)
  qed
qed simp

lemma own_state_forgotten:
  assumes "length m = driftStateMaxEntries" and "distinct (map fst m)" and "map_of m r = Some st"
    and "\<forall>(k, v)\<in>set m. now - driftStateIdleTTL \<le> dr_lastSeenUnixNano v \<and> (k \<noteq> r \<longrightarrow> dr_lastSeenUnixNano st < dr_lastSeenUnixNano v)"
    and "dr_lastSeenUnixNano st < now"
  shows "fst (driftStateFor now r m) = newDriftRunState\<lparr>dr_lastSeenUnixNano := now\<rparr>"
proof -
  have hot: "driftEvictIdleLocked now m = m"
    unfolding driftEvictIdleLocked_def by (rule filter_True) (use assms(4) in auto)
  have "oldestEntry m now None = Some r"
    using oldest_unique [OF assms(2) map_of_SomeD [OF assms(3)] _ assms(5)] assms(4) by blast
  then have room: "makeRoom now m = delete_entry r m" using assms(1) by (simp add: makeRoom_def hot)
  have "map_of (delete_entry r m) r = None" by (auto simp: delete_entry_def map_of_eq_None_iff)
  then show ?thesis by (simp add: stateFor_parts [OF room] entry_def)
qed

lemma before_times: "sorted_wrt (<) ts \<Longrightarrow> \<exists>t::time. sorted_wrt (<) (t # ts)"
proof (cases ts)
  case (Cons u us)
  assume "sorted_wrt (<) ts"
  then have "sorted_wrt (<) ((u - 1) # ts)" using Cons by auto
  then show ?thesis by blast
qed simp

section \<open>Properties\<close>

text \<open>
  The drift memory is bounded: with a clock that strictly increases from call to call, after
  any sequence of operations the map has at most 128 entries with distinct runs, every history at
  most 20 turns, and every stored score lies between 0 and 100.
\<close>

theorem drift_state_bounded:
  assumes "sorted_wrt (<) (concat (map op_times ops))"
  shows "distinct (map fst (drift_ops ops [])) \<and> length (drift_ops ops []) \<le> 128 \<and>
    (\<forall>(r, st)\<in>set (drift_ops ops []). length (dr_history st) \<le> 20 \<and> 0 \<le> dr_lastScore st \<and> dr_lastScore st \<le> 100)"
proof -
  obtain t where "sorted_wrt (<) (t # concat (map op_times ops))" using before_times [OF assms] by blast
  then have "\<exists>u. states_ok u (drift_ops ops [])" by (rule ops_ok [rotated]) (simp add: states_ok_def)
  then show ?thesis by (auto simp: states_ok_def state_ok_def driftStateMaxEntries_def driftHistoryRingCap_def)
qed

text \<open>
  C22: One debate per drift episode: once a resolver call started an owner debate for a run, a later call
  starts another one, whatever operations on any runs come in between, only if a resolver call in between
  saw the score of the run below the threshold or a lookup meanwhile evicted the memory of the run; and
  nothing is evicted while at most 127 runs are alive.
\<close>

theorem one_debate_per_episode:
  assumes "distinct (map fst m)" and "applyVibeDriftOnlyResolver now now1 vibe inDebate r m = (True, m1)"
    and "fst (applyVibeDriftOnlyResolver now2 now3 vibe2 inDebate2 r (drift_ops ops m1))"
  shows "(sees_decay r ops m1 \<or> forgets r (ops @ [Resolve now2 now3 vibe2 inDebate2 r]) m1) \<and>
    (\<forall>R. finite R \<and> card R < 128 \<and> insert r (driftRuns m) \<union> op_run ` set ops \<subseteq> R \<longrightarrow> sees_decay r ops m1)"
proof -
  note m1 = mounts_indebted [OF assms(1,2)]
  have either: "sees_decay r ops m1 \<or> forgets r (ops @ [Resolve now2 now3 vibe2 inDebate2 r]) m1"
    using indebted_ops [OF m1, of ops] indebted_refused [of r "drift_ops ops m1" now2 now3 vibe2 inDebate2] assms(3)
    unfolding forgets_append by blast
  have "\<not> forgets r (ops @ [Resolve now2 now3 vibe2 inDebate2 r]) m1"
    if R: "finite R" "card R < 128" "insert r (driftRuns m) \<union> op_run ` set ops \<subseteq> R" for R
  proof -
    have c: "card R < driftStateMaxEntries" using R(2) by (simp add: driftStateMaxEntries_def)
    have "roomy R m" using assms(1) R(3) by (simp add: roomy_def)
    with exec_roomy [OF this R(1) c, of "Resolve now now1 vibe inDebate r"] assms(2) R(3) have "roomy R m1" by simp
    then show ?thesis using R(3) by (intro roomy_forgets_nothing [OF R(1) c]) auto
  qed
  with either show ?thesis by blast
qed

text \<open>
  Re-evaluating a turn: when the gate evaluates the same completed turn twice in a row, the
  second evaluation reports the same event and leaves the same history and score, as long as the
  run had fewer than 20 turns and there is room for its state.
\<close>

theorem reevaluation_same:
  assumes "length m < 127" and "length (dr_history (entry m (dn_id rs))) < 20"
    and "recordDriftTelemetry now rs i tr m = (out, m1)" and "recordDriftTelemetry now1 rs i tr m1 = (out1, m2)"
  shows "out1 = out \<and> dr_history (entry m2 (dn_id rs)) = dr_history (entry m1 (dn_id rs)) \<and>
    dr_lastScore (entry m2 (dn_id rs)) = dr_lastScore (entry m1 (dn_id rs))"
proof -
  let ?r = "dn_id rs" and ?st = "(entry m (dn_id rs))\<lparr>dr_lastSeenUnixNano := now\<rparr>"
  have l: "length m < driftStateMaxEntries" using assms(1) by (simp add: driftStateMaxEntries_def)
  have m1: "m1 = updateEntry now ?r (recorded rs i tr) m" and m2: "m2 = updateEntry now1 ?r (recorded rs i tr) m1"
    using record_update [of now rs i tr m] record_update [of now1 rs i tr m1] assms(3,4) by simp_all
  have "length m1 \<le> Suc (length m)"
    using l by (simp add: m1 updateEntry_def split_beta stateFor_parts [of now m m] makeRoom_def set_entry_def)
  then have l1: "length m1 < driftStateMaxEntries" using assms(1) by (simp add: driftStateMaxEntries_def)
  have e1: "entry m1 ?r = recorded rs i tr ?st" and e2: "entry m2 ?r = recorded rs i tr ((entry m1 ?r)\<lparr>dr_lastSeenUnixNano := now1\<rparr>)"
    by (simp_all add: m2 entry_simps [OF l1]) (simp add: m1 entry_simps [OF l])
  have h: "length (dr_history ?st) < driftHistoryRingCap" using assms(2) by (simp add: driftHistoryRingCap_def)
  note again = recorded_again [OF h, of rs i tr now1, folded e1]
  have "fst out1 = fst out"
    using record_event [of now rs i tr m] record_event [of now1 rs i tr m1] assms(3,4) again(1)
    by (simp add: stateFor_roomy [OF l] stateFor_roomy [OF l1])
  moreover have "snd (fst (recordDriftTelemetry u rs i tr n)) =
      (de_CorrectionAction (fst (fst (recordDriftTelemetry u rs i tr n))) = ActionPauseForHuman)" for u n
    by (simp add: recordDriftTelemetry_def Let_def split_beta)
  from this [of now m] this [of now1 m1] have "snd out = (de_CorrectionAction (fst out) = ActionPauseForHuman)"
    and "snd out1 = (de_CorrectionAction (fst out1) = ActionPauseForHuman)" by (simp_all add: assms(3,4))
  ultimately have "out1 = out" by (simp add: prod_eq_iff)
  with again show ?thesis by (simp add: e2 recorded_score) (simp add: e1 recorded_score)
qed

text \<open>
  A full map forgets the run that asks: when the map is full of recently used entries and the
  run that asks for its own state is the one not used for the longest time, the lookup drops that
  state although no new entry is needed, and the pending note and narrowing are lost.
\<close>

theorem full_map_forgets_own_run:
  assumes "length m = 128" and "distinct (map fst m)" and "map_of m r = Some st"
    and "\<forall>(k, v)\<in>set m. now - driftStateIdleTTL \<le> dr_lastSeenUnixNano v \<and> (k \<noteq> r \<longrightarrow> dr_lastSeenUnixNano st < dr_lastSeenUnixNano v)"
    and "dr_lastSeenUnixNano st < now"
  shows "fst (pullDriftLadderActions now r m) = \<lparr>la_systemNote = '''', la_narrowContext = False\<rparr>"
  using own_state_forgotten [of m r st now] assms
  by (simp add: pullDriftLadderActions_def split_beta newDriftRunState_def driftStateMaxEntries_def)

section \<open>Witnesses\<close>

theorem drift_state_bounded_witness: "length (drift_ops [Pull 1 ''run-1'', ReadScore 2 ''run-2''] []) \<le> 128"
  using drift_state_bounded [of "[Pull 1 ''run-1'', ReadScore 2 ''run-2'']"] by simp

definition demo_drifting :: driftStates where
  "demo_drifting = [(''run-1'', newDriftRunState\<lparr>dr_lastScore := 90\<rparr>)]"

theorem one_debate_per_episode_witness:
  "fst (applyVibeDriftOnlyResolver 1 2 True False ''run-1'' demo_drifting) \<and>
   \<not> fst (applyVibeDriftOnlyResolver 4 5 True False ''run-1''
       (drift_ops [Pull 3 ''run-1''] (snd (applyVibeDriftOnlyResolver 1 2 True False ''run-1'' demo_drifting))))"
proof -
  have first: "fst (applyVibeDriftOnlyResolver 1 2 True False ''run-1'' demo_drifting)"
    by (simp add: applyVibeDriftOnlyResolver_def latestVibeDriftScore_def driftStateFor_def makeRoom_def demo_drifting_def
        driftStateMaxEntries_def VibeDriftDebateThreshold_def newDriftRunState_def Let_def)
  then have eq: "applyVibeDriftOnlyResolver 1 2 True False ''run-1'' demo_drifting =
      (True, snd (applyVibeDriftOnlyResolver 1 2 True False ''run-1'' demo_drifting))" by (simp add: prod_eq_iff)
  have "distinct (map fst demo_drifting)" and runs: "driftRuns demo_drifting = {''run-1''}"
    by (simp_all add: demo_drifting_def driftRuns_def)
  note contract = one_debate_per_episode [OF this(1) eq, of 4 5 True False "[Pull 3 ''run-1'']"]
  have "\<not> fst (applyVibeDriftOnlyResolver 4 5 True False ''run-1''
       (drift_ops [Pull 3 ''run-1''] (snd (applyVibeDriftOnlyResolver 1 2 True False ''run-1'' demo_drifting))))"
  proof (rule notI, drule contract, drule conjunct2, drule spec [of _ "{''run-1''}"])
    assume "finite {''run-1''} \<and> card {''run-1''} < 128 \<and>
        insert ''run-1'' (driftRuns demo_drifting) \<union> op_run ` set [Pull 3 ''run-1''] \<subseteq> {''run-1''} \<longrightarrow>
        sees_decay ''run-1'' [Pull 3 ''run-1''] (snd (applyVibeDriftOnlyResolver 1 2 True False ''run-1'' demo_drifting))"
    then show False by (simp add: runs)
  qed
  with first show ?thesis by simp
qed

definition demo_coder :: driftRun where
  "demo_coder = \<lparr>dn_id = ''run-1'', dn_tokens = 3000, dn_workloadClass = ''coding'', dn_inVibeDebate = False\<rparr>"

theorem reevaluation_same_witness:
  "fst (recordDriftTelemetry 2 demo_coder ''t1'' zeroTurn (snd (recordDriftTelemetry 1 demo_coder ''t1'' zeroTurn []))) =
   fst (recordDriftTelemetry 1 demo_coder ''t1'' zeroTurn [])"
  using reevaluation_same [of "[]" demo_coder 1 "''t1''" zeroTurn,
      OF _ _ prod.collapse [symmetric] prod.collapse [symmetric]]
  by (simp add: entry_def newDriftRunState_def)

text \<open>128 runs, the first of them not used for the longest time and waiting for its note.\<close>

definition demo_full :: driftStates where
  "demo_full = map (\<lambda>i. (replicate i CHR ''r'',
     newDriftRunState\<lparr>dr_pendingNote := ''note'', dr_lastSeenUnixNano := int i\<rparr>)) [0..<128]"

theorem full_map_forgets_own_run_witness:
  "la_systemNote (fst (pullDriftLadderActions 200 '''' demo_full)) = '''' \<and>
   map_option dr_pendingNote (map_of demo_full '''') = Some ''note''"
proof -
  have "distinct (map fst demo_full)" by (simp add: demo_full_def comp_def distinct_map inj_on_def)
  moreover have first: "map_of demo_full '''' = Some (newDriftRunState\<lparr>dr_pendingNote := ''note'', dr_lastSeenUnixNano := 0\<rparr>)"
    by (simp add: demo_full_def upt_conv_Cons)
  ultimately show ?thesis
    using full_map_forgets_own_run [of demo_full "''''" _ 200] by (force simp: demo_full_def driftStateIdleTTL_def)
qed

text \<open>
  With a full history the second evaluation of a turn may differ: recording the turn dropped the
  oldest one, whose signal the first evaluation still carried.
\<close>

definition demo_strayed :: TurnSummary where
  "demo_strayed = (quietTurn ''t0'' [])\<lparr>su_ScopeOutOfScopePaths := [''x.go'']\<rparr>"

lemma carried_quiet: "carriedDriftScore (h @ replicate n (quietTurn i [])) = carriedDriftScore h"
proof (induction n)
  case (Suc n)
  have "h @ replicate (Suc n) (quietTurn i []) = (h @ replicate n (quietTurn i [])) @ [quietTurn i []]"
    by (simp add: replicate_append_same)
  with Suc show ?case by (simp only: carried_snoc driftStep_def quiet_signals) (simp add: quietTurn_def)
qed simp

lemma full_ring_rescores:
  fixes h defines "h \<equiv> demo_strayed # replicate 19 (quietTurn ''t1'' [])"
  shows "de_DriftScore (EvaluateTurnDrift (historyBefore ''t2'' h) (quietTurn ''t2'' [])) = 35"
    and "de_DriftScore (EvaluateTurnDrift (historyBefore ''t2'' (pushTurn (quietTurn ''t2'' []) h)) (quietTurn ''t2'' [])) = 0"
proof -
  have other: "historyBefore ''t2'' h = h" "historyBefore ''t2'' (replicate 19 (quietTurn ''t1'' []) @ [quietTurn ''t2'' []]) = replicate 19 (quietTurn ''t1'' [])"
    by (simp_all add: historyBefore_def h_def numeral_eq_Suc quietTurn_def)
  have push: "pushTurn (quietTurn ''t2'' []) h = replicate 19 (quietTurn ''t1'' []) @ [quietTurn ''t2'' []]"
    by (simp add: pushTurn_def h_def driftHistoryRingCap_def) (simp add: quietTurn_def)
  have "carriedDriftScore [demo_strayed] = 35"
    using carried_snoc [of "[]" demo_strayed] by (simp add: carriedDriftScore_def driftStep_def signalScore_def demo_strayed_def
        quietTurn_def checkRepeatedTestFailures_def checkApologyPatterns_def checkZeroDeltaProgress_def quiet_message
        zeroDeltaTokenGuard_def drift_weights)
  then have "carriedDriftScore h = 35" using carried_quiet [of "[demo_strayed]" 19 "''t1''"] by (simp add: h_def)
  moreover have "carriedDriftScore (replicate 19 (quietTurn ''t1'' [])) = 0"
    using carried_quiet [of "[]" 19 "''t1''"] by (simp add: carriedDriftScore_def)
  ultimately show "de_DriftScore (EvaluateTurnDrift (historyBefore ''t2'' h) (quietTurn ''t2'' [])) = 35"
    and "de_DriftScore (EvaluateTurnDrift (historyBefore ''t2'' (pushTurn (quietTurn ''t2'' []) h)) (quietTurn ''t2'' [])) = 0"
    by (simp_all only: push other event_score driftStep_def quiet_signals fst_conv Let_def) (simp_all add: quietTurn_def)
qed

end
