(* ===== verification/Tournament.thy ===== *)
theory Tournament
  imports Go_Value "HOL-Library.Multiset"
begin

text \<open>
  The tournament arbiter (\<open>tournament/types.go\<close>, \<open>tournament/arbiter.go\<close>) and its configuration
  (\<open>tournament/config.go\<close>). A \<open>float64\<close> is the rational number it stands for: every operation is
  the exact one followed by \<open>f64\<close>, which rounds to 53 significant bits, ties to even. All values here
  lie in the normal range, and operations are not fused (as Go compiles them for amd64).
\<close>

section \<open>Float arithmetic\<close>

definition roundEven :: "rat \<Rightarrow> int" where
  "roundEven x =
     (let n = \<lfloor>x\<rfloor>; r = x - of_int n
      in if r < 1/2 then n else if r > 1/2 then n + 1 else if even n then n else n + 1)"

fun nbits :: "nat \<Rightarrow> nat" where
  "nbits n = (if n = 0 then 0 else Suc (nbits (n div 2)))"

declare nbits.simps [simp del]

text \<open>The largest \<open>e\<close> with \<open>2 powi e \<le> x\<close>, for positive \<open>x\<close>.\<close>

definition ilog2 :: "rat \<Rightarrow> int" where
  "ilog2 x = (if x \<ge> 1 then int (nbits (nat \<lfloor>x\<rfloor>)) - 1 else - int (nbits (nat (\<lceil>1 / x\<rceil> - 1))))"

definition f64 :: "rat \<Rightarrow> rat" where
  "f64 x =
     (if x = 0 then 0
      else if x < 0 then - (of_int (roundEven (- x / 2 powi (ilog2 (- x) - 52))) * 2 powi (ilog2 (- x) - 52))
      else of_int (roundEven (x / 2 powi (ilog2 x - 52))) * 2 powi (ilog2 x - 52))"

lemma nbits_bounds: "n < 2 ^ nbits n" "0 < n \<Longrightarrow> 2 ^ nbits n \<le> 2 * n"
proof (induction n rule: nbits.induct)
  case (1 n)
  have s: "nbits n = (if n = 0 then 0 else Suc (nbits (n div 2)))" by (rule nbits.simps)
  show "n < 2 ^ nbits n" using 1(1) by (cases "n = 0") (auto simp: s)
  show "2 ^ nbits n \<le> 2 * n" if "0 < n"
  proof (cases "n div 2 = 0")
    case True with that have "n = 1" by simp
    then show ?thesis using nbits.simps [of 1] nbits.simps [of 0] by simp
  next
    case False with 1(2) that show ?thesis by (simp add: s)
  qed
qed

lemma ilog2_bounds:
  assumes "0 < x"
  shows "2 powi ilog2 x \<le> x" and "x < 2 powi (ilog2 x + 1)"
proof -
  have "2 powi ilog2 x \<le> x \<and> x < 2 powi (ilog2 x + 1)"
  proof (cases "x \<ge> 1")
    case True
    let ?n = "nat \<lfloor>x\<rfloor>"
    have n: "0 < ?n" "of_nat ?n \<le> x" "x < of_nat ?n + 1" using True by (simp_all add: floor_less_iff) linarith+
    have k: "0 < nbits ?n" using n(1) nbits.simps [of ?n] by simp
    have "(2::nat) ^ (nbits ?n - 1) \<le> ?n" using nbits_bounds(2) [OF n(1)] k by (cases "nbits ?n") simp_all
    then have "of_nat (2 ^ (nbits ?n - 1)) \<le> (of_nat ?n :: rat)" by (simp only: of_nat_le_iff)
    moreover have "Suc ?n \<le> 2 ^ nbits ?n" by (rule Suc_leI [OF nbits_bounds(1)])
    then have "of_nat (Suc ?n) \<le> (of_nat (2 ^ nbits ?n) :: rat)" by (simp only: of_nat_le_iff)
    moreover have "2 powi ilog2 x = (of_nat (2 ^ (nbits ?n - 1)) :: rat)" "2 powi (ilog2 x + 1) = (of_nat (2 ^ nbits ?n) :: rat)"
      using True k by (simp_all add: ilog2_def power_int_def nat_diff_distrib)
    ultimately show ?thesis using n(2,3) unfolding of_nat_Suc by (intro conjI; linarith)
  next
    case False
    let ?y = "1 / x" let ?m = "nat (\<lceil>?y\<rceil> - 1)"
    have y: "1 < ?y" using False assms by (simp add: field_simps)
    then have c: "2 \<le> \<lceil>?y\<rceil>" by (simp add: le_ceiling_iff)
    then have m0: "0 < ?m" and i: "int ?m = \<lceil>?y\<rceil> - 1" by linarith+
    from i have z: "of_nat ?m = (of_int (\<lceil>?y\<rceil> - 1) :: rat)" by (metis of_int_of_nat_eq)
    from m0 have m: "0 < ?m" "of_nat ?m < ?y" "?y \<le> of_nat ?m + 1"
      using ceiling_correct [of ?y] unfolding z of_int_diff of_int_1 by linarith+
    have "Suc ?m \<le> 2 ^ nbits ?m" by (rule Suc_leI [OF nbits_bounds(1)])
    then have "of_nat (Suc ?m) \<le> (of_nat (2 ^ nbits ?m) :: rat)" by (simp only: of_nat_le_iff)
    with m(3) have up: "?y \<le> 2 ^ nbits ?m" by simp
    have "of_nat (2 ^ nbits ?m) \<le> (of_nat (2 * ?m) :: rat)" using nbits_bounds(2) [OF m(1)] by (simp only: of_nat_le_iff)
    with m(2) have lo: "2 ^ nbits ?m < 2 * ?y" by simp
    have e: "ilog2 x = - int (nbits ?m)" using False by (simp add: ilog2_def)
    have "2 powi ilog2 x = (1::rat) / 2 ^ nbits ?m" by (simp add: e power_int_minus divide_inverse)
    moreover have "2 powi (ilog2 x + 1) = (2::rat) / 2 ^ nbits ?m"
      unfolding e by (subst power_int_add) (simp_all add: power_int_minus divide_inverse)
    moreover have "1 / 2 ^ nbits ?m \<le> x" "x < 2 / 2 ^ nbits ?m" using up lo assms by (simp_all add: field_simps)
    ultimately show ?thesis by (simp only:)
  qed
  then show "2 powi ilog2 x \<le> x" "x < 2 powi (ilog2 x + 1)" by simp_all
qed

lemma roundEven_range: "\<lfloor>x\<rfloor> \<le> roundEven x" "roundEven x \<le> \<lfloor>x\<rfloor> + 1"
  by (simp_all add: roundEven_def Let_def)

lemma roundEven_int [simp]: "roundEven (of_int n) = n"
  by (simp add: roundEven_def)

lemma roundEven_mono: assumes "x \<le> y" shows "roundEven x \<le> roundEven y"
proof (cases "\<lfloor>x\<rfloor> = \<lfloor>y\<rfloor>")
  case True
  then show ?thesis using assms by (auto simp: roundEven_def Let_def)
next
  case False
  with floor_mono [OF assms] have "\<lfloor>x\<rfloor> + 1 \<le> \<lfloor>y\<rfloor>" by simp
  with roundEven_range(2) [of x] roundEven_range(1) [of y] show ?thesis by linarith
qed

lemma ilog2_mono: assumes "0 < x" and "x \<le> y" shows "ilog2 x \<le> ilog2 y"
proof (rule ccontr)
  assume "\<not> ilog2 x \<le> ilog2 y"
  then have "(2::rat) powi (ilog2 y + 1) \<le> 2 powi ilog2 x" by (intro power_int_increasing) simp_all
  with ilog2_bounds [of x] ilog2_bounds [of y] assms show False by linarith
qed

lemma f64_pos: "0 < x \<Longrightarrow> f64 x = of_int (roundEven (x / 2 powi (ilog2 x - 52))) * 2 powi (ilog2 x - 52)"
  by (simp add: f64_def)

lemma f64_zero [simp]: "f64 0 = 0"
  by (simp add: f64_def)

lemma f64_binade: assumes "0 < x" shows "2 powi ilog2 x \<le> f64 x" and "f64 x \<le> 2 powi (ilog2 x + 1)"
proof -
  let ?u = "(2::rat) powi (ilog2 x - 52)"
  have u: "0 < ?u" by simp
  have e: "ilog2 x = 52 + (ilog2 x - 52)" "ilog2 x + 1 = 53 + (ilog2 x - 52)" by simp_all
  have p: "2 powi ilog2 x = 2 ^ 52 * ?u" "2 powi (ilog2 x + 1) = 2 ^ 53 * ?u"
    using power_int_add [of "2::rat" 52 "ilog2 x - 52", folded e(1)] power_int_add [of "2::rat" 53 "ilog2 x - 52", folded e(2)]
    by simp_all
  have "of_int (2 ^ 52) \<le> x / ?u" "x / ?u \<le> of_int (2 ^ 53)"
    using ilog2_bounds [OF assms] unfolding p using u by (simp_all add: pos_le_divide_eq pos_divide_le_eq mult.commute)
  from this [THEN roundEven_mono] have r: "2 ^ 52 \<le> roundEven (x / ?u)" "roundEven (x / ?u) \<le> 2 ^ 53"
    by (simp_all only: roundEven_int)
  then have "(of_int (2 ^ 52) :: rat) \<le> of_int (roundEven (x / ?u))" "(of_int (roundEven (x / ?u)) :: rat) \<le> of_int (2 ^ 53)"
    by (simp_all only: of_int_le_iff)
  then show "2 powi ilog2 x \<le> f64 x" "f64 x \<le> 2 powi (ilog2 x + 1)"
    unfolding p f64_pos [OF assms] using u by (simp_all add: mult_right_mono)
qed

lemma f64_mono_pos: assumes "0 < x" and "x \<le> y" shows "f64 x \<le> f64 y"
proof (cases "ilog2 x = ilog2 y")
  case True
  have "roundEven (x / 2 powi (ilog2 y - 52)) \<le> roundEven (y / 2 powi (ilog2 y - 52))"
    by (rule roundEven_mono) (simp add: assms(2) divide_right_mono)
  then show ?thesis using assms by (simp add: f64_pos True mult_right_mono)
next
  case False
  then have "ilog2 x + 1 \<le> ilog2 y" using ilog2_mono [OF assms] by simp
  then have "(2::rat) powi (ilog2 x + 1) \<le> 2 powi ilog2 y" by (intro power_int_increasing) simp_all
  with f64_binade(2) [OF assms(1)] f64_binade(1) [of y] assms show ?thesis by linarith
qed

lemma f64_nonneg: assumes "0 \<le> x" shows "0 \<le> f64 x"
proof (cases "x = 0")
  case False
  have "0 \<le> (2::rat) powi ilog2 x" by simp
  with f64_binade(1) [of x] False assms show ?thesis by linarith
qed simp

lemma f64_neg: "f64 (- x) = - f64 x"
  by (simp add: f64_def)

lemma f64_mono: assumes "x \<le> y" shows "f64 x \<le> f64 y"
proof -
  consider "0 < x" | "x \<le> 0" "0 \<le> y" | "y < 0" by linarith
  then show ?thesis
  proof cases
    case 1 then show ?thesis using f64_mono_pos assms by blast
  next
    case 2
    then show ?thesis using f64_nonneg [of "- x"] f64_nonneg [of y] by (simp add: f64_neg)
  next
    case 3
    then have "f64 (- y) \<le> f64 (- x)" using assms by (intro f64_mono_pos) simp_all
    then show ?thesis by (simp add: f64_neg)
  qed
qed

section \<open>Scores\<close>

record CandidateResult =
  cr_CandidateID :: string
  cr_Label :: string
  cr_ProviderKey :: string
  cr_TotalTests :: int
  cr_PassedTests :: int
  cr_BrokeExistingTests :: bool
  cr_LSPErrors :: int
  cr_ChangedPaths :: "string list"
  cr_DependentsCount :: int

record CandidateScore =
  cs_CandidateID :: string
  cs_STests :: rat
  cs_SLsp :: rat
  cs_SBlast :: rat
  cs_Total :: rat
  cs_Disqualified :: bool

record TournamentVerdict =
  tv_WinnerCandidateID :: string
  tv_Ranking :: "CandidateScore list"
  tv_NeedsHumanDecision :: bool
  tv_Reason :: string

definition weightTests :: rat where
  "weightTests = f64 (1/2)"

definition weightLSP :: rat where
  "weightLSP = f64 (3/10)"

definition weightBlast :: rat where
  "weightBlast = f64 (1/5)"

definition lspErrorPenalty :: rat where
  "lspErrorPenalty = f64 (1/10)"

definition BlastBucket :: "int \<Rightarrow> rat" where
  "BlastBucket count0 =
     (let count = (if count0 < 0 then 0 else count0)
      in if count = 0 then 1 else if count \<le> 3 then f64 (7/10) else if count \<le> 10 then f64 (3/10) else 0)"

definition lspScore :: "int \<Rightarrow> rat" where
  "lspScore errors0 =
     (let errors = (if errors0 < 0 then 0 else errors0);
          s = f64 (1 - f64 (lspErrorPenalty * f64 (of_int errors)))
      in if s < 0 then 0 else s)"

definition testScore :: "int \<Rightarrow> int \<Rightarrow> rat" where
  "testScore passed0 totalTests =
     (if totalTests \<le> 0 then 0
      else let passed1 = (if passed0 < 0 then 0 else passed0);
               passed = (if passed1 > totalTests then totalTests else passed1)
           in f64 (f64 (of_int passed) / f64 (of_int totalTests)))"

definition Score :: "CandidateResult \<Rightarrow> CandidateScore" where
  "Score r =
     (let s = \<lparr>cs_CandidateID = cr_CandidateID r, cs_STests = testScore (cr_PassedTests r) (cr_TotalTests r),
               cs_SLsp = lspScore (cr_LSPErrors r), cs_SBlast = BlastBucket (cr_DependentsCount r), cs_Total = 0,
               cs_Disqualified = cr_BrokeExistingTests r\<rparr>
      in if cs_Disqualified s then s
         else s\<lparr>cs_Total := f64 (f64 (f64 (cs_STests s * weightTests) + f64 (cs_SLsp s * weightLSP)) +
                                 f64 (cs_SBlast s * weightBlast))\<rparr>)"

section \<open>The verdict\<close>

text \<open>\<open>fmt\<close>'s \<open>%.kf\<close> of a nonnegative float: the exact decimal value rounded to \<open>k\<close> digits, ties to even.\<close>

definition fmt_f :: "nat \<Rightarrow> rat \<Rightarrow> string" where
  "fmt_f k x =
     (let n = nat (roundEven (x * 10 ^ k)); ds = digits_of (n mod 10 ^ k)
      in digits_of (n div 10 ^ k) @ ''.'' @ replicate (k - length ds) CHR ''0'' @ ds)"

definition ranked :: "CandidateScore list \<Rightarrow> CandidateScore list" where
  "ranked = sort_key (\<lambda>s. (- cs_Total s, - cs_SBlast s, cs_CandidateID s))"

definition Decide :: "CandidateResult list \<Rightarrow> TournamentVerdict" where
  "Decide results =
     (let ranking = ranked (map Score results);
          eligible = filter (\<lambda>s. \<not> cs_Disqualified s) ranking;
          human = (\<lambda>reason. \<lparr>tv_WinnerCandidateID = '''', tv_Ranking = ranking, tv_NeedsHumanDecision = True, tv_Reason = reason\<rparr>)
      in case eligible of
           [] \<Rightarrow> if ranking = [] then human ''no candidates submitted''
                 else human ''all candidates disqualified (broke existing tests)''
         | [s] \<Rightarrow> \<lparr>tv_WinnerCandidateID = cs_CandidateID s, tv_Ranking = ranking, tv_NeedsHumanDecision = False,
                   tv_Reason = ''sole eligible candidate '' @ cs_CandidateID s\<rparr>
         | first # second # _ \<Rightarrow>
             if cs_Total first = cs_Total second \<and> cs_SBlast first = cs_SBlast second
             then human (''tie between '' @ cs_CandidateID first @ '' and '' @ cs_CandidateID second @ '' at total '' @
                         fmt_f 4 (cs_Total first) @ '' '' @ emdash @ '' human decision required'')
             else \<lparr>tv_WinnerCandidateID = cs_CandidateID first, tv_Ranking = ranking, tv_NeedsHumanDecision = False,
                   tv_Reason = ''winner '' @ cs_CandidateID first @ '' at total '' @ fmt_f 4 (cs_Total first)\<rparr>)"

definition TournamentActionMerge :: string where
  "TournamentActionMerge = ''merge''"

definition TournamentActionRetry :: string where
  "TournamentActionRetry = ''retry''"

definition TournamentActionAsk :: string where
  "TournamentActionAsk = ''ask''"

definition DecideTournamentAction :: "TournamentVerdict \<Rightarrow> bool \<Rightarrow> int \<Rightarrow> int \<Rightarrow> string" where
  "DecideTournamentAction verdict autoPick attempt maxAttempts =
     (if \<not> tv_NeedsHumanDecision verdict \<and> tv_WinnerCandidateID verdict \<noteq> '''' then TournamentActionMerge
      else if \<not> autoPick then TournamentActionAsk
      else if attempt < maxAttempts then TournamentActionRetry
      else TournamentActionAsk)"

definition DistillFailureBrief :: "TournamentVerdict \<Rightarrow> int \<Rightarrow> string" where
  "DistillFailureBrief verdict attempt =
     (let ranking = sort_key (\<lambda>s. (- cs_Total s, cs_CandidateID s)) (tv_Ranking verdict)
      in ''Tournament attempt '' @ fmt_d (attempt + 1) @ '' failed: '' @ tv_Reason verdict @ ''.'' @
         concat (map (\<lambda>s. '' '' @ cs_CandidateID s @ ''='' @ fmt_f 3 (cs_Total s) @
                   (if cs_Disqualified s then '' [disqualified: broke existing tests]'' else '''') @ '';'')
                 (take 3 ranking)) @
         '' Do not repeat the failed direction above; solve from a clean slate.'')"

section \<open>Configuration\<close>

text \<open>
  An error is a constructor; the partly filled configuration the code returns
  beside it is not used by its callers.
\<close>

datatype config_error =
    AutoPickNotBool gvalue
  | BadMaxAttempts gvalue
  | SerialNotBool gvalue
  | CandidatesEmpty
  | TooManyCandidates nat
  | CandidateNotMap nat
  | CandidateIncomplete nat
  | UnknownProvider nat string
  | DuplicateCandidate string

record TournamentCandidateConfig =
  tc_CandidateID :: string
  tc_Provider :: string
  tc_Model :: string

record TournamentNodeConfig =
  tf_Candidates :: "TournamentCandidateConfig list"
  tf_AutoPick :: bool
  tf_MaxAttempts :: int
  tf_Serial :: bool

definition tournamentProviders :: "string list" where
  "tournamentProviders = [''claude'', ''codex'', ''devin'', ''gemini'', ''grok'', ''opencode'']"

definition defaultCandidates :: "TournamentCandidateConfig list" where
  "defaultCandidates =
     [\<lparr>tc_CandidateID = ''candidate-a'', tc_Provider = ''claude'', tc_Model = ''claude-sonnet''\<rparr>,
      \<lparr>tc_CandidateID = ''candidate-b'', tc_Provider = ''codex'', tc_Model = ''gpt-5.4-mini''\<rparr>]"

definition stringValue :: "gvalue \<Rightarrow> string" where
  "stringValue v = (case v of GString s \<Rightarrow> s | _ \<Rightarrow> '''')"

definition intField :: "gvalue \<Rightarrow> int option" where
  "intField v =
     (case v of
        GInt n \<Rightarrow> Some n
      | GInt64 n \<Rightarrow> Some n
      | GFloat x \<Rightarrow> Some (if x < 0 then \<lceil>x\<rceil> else \<lfloor>x\<rfloor>)
      | _ \<Rightarrow> None)"

fun parseCandidates ::
  "nat \<Rightarrow> gvalue list \<Rightarrow> string set \<Rightarrow> TournamentCandidateConfig list \<Rightarrow> config_error + TournamentCandidateConfig list" where
  "parseCandidates i [] seen cs = Inr cs"
| "parseCandidates i (item # rest) seen cs =
     (case item of
        GMap m \<Rightarrow>
          (let c = \<lparr>tc_CandidateID = TrimSpace (stringValue (rawField ''candidate_id'' m)),
                    tc_Provider = ToLower (TrimSpace (stringValue (rawField ''provider'' m))),
                    tc_Model = TrimSpace (stringValue (rawField ''model'' m))\<rparr>
           in if tc_CandidateID c = '''' \<or> tc_Provider c = '''' \<or> tc_Model c = '''' then Inl (CandidateIncomplete i)
              else if tc_Provider c \<notin> set tournamentProviders then Inl (UnknownProvider i (tc_Provider c))
              else if tc_CandidateID c \<in> seen then Inl (DuplicateCandidate (tc_CandidateID c))
              else parseCandidates (i + 1) rest (insert (tc_CandidateID c) seen) (cs @ [c]))
      | _ \<Rightarrow> Inl (CandidateNotMap i))"

definition boolField :: "string \<Rightarrow> bool \<Rightarrow> (string \<times> gvalue) list \<Rightarrow> gvalue + bool" where
  "boolField k dflt raw =
     (case map_of raw k of None \<Rightarrow> Inr dflt | Some (GBool b) \<Rightarrow> Inr b | Some v \<Rightarrow> Inl v)"

definition attemptsField :: "(string \<times> gvalue) list \<Rightarrow> gvalue + int" where
  "attemptsField raw =
     (case map_of raw ''max_attempts'' of
        None \<Rightarrow> Inr 1
      | Some v \<Rightarrow> (case intField v of
                     None \<Rightarrow> Inl v
                   | Some n \<Rightarrow> if n < 1 \<or> n > 3 then Inl v else Inr n))"

definition candidatesField :: "(string \<times> gvalue) list \<Rightarrow> config_error + TournamentCandidateConfig list" where
  "candidatesField raw =
     (case map_of raw ''candidates'' of
        None \<Rightarrow> Inr defaultCandidates
      | Some (GList l) \<Rightarrow>
          if l = [] then Inl CandidatesEmpty
          else if length l > 3 then Inl (TooManyCandidates (length l))
          else parseCandidates 0 l {} []
      | Some _ \<Rightarrow> Inl CandidatesEmpty)"

definition ParseTournamentConfig :: "(string \<times> gvalue) list \<Rightarrow> config_error + TournamentNodeConfig" where
  "ParseTournamentConfig raw =
     (if raw = [] then
        Inr \<lparr>tf_Candidates = defaultCandidates, tf_AutoPick = True, tf_MaxAttempts = 1, tf_Serial = False\<rparr>
      else case boolField ''auto_pick'' True raw of
        Inl v \<Rightarrow> Inl (AutoPickNotBool v)
      | Inr autoPick \<Rightarrow>
          (case attemptsField raw of
             Inl v \<Rightarrow> Inl (BadMaxAttempts v)
           | Inr n \<Rightarrow>
               (case boolField ''serial'' False raw of
                  Inl v \<Rightarrow> Inl (SerialNotBool v)
                | Inr serial \<Rightarrow>
                    (case candidatesField raw of
                       Inl e \<Rightarrow> Inl e
                     | Inr cs \<Rightarrow> Inr \<lparr>tf_Candidates = cs, tf_AutoPick = autoPick, tf_MaxAttempts = n, tf_Serial = serial\<rparr>))))"

section \<open>Ranking\<close>

abbreviation rank_key :: "CandidateScore \<Rightarrow> rat \<times> rat \<times> string" where
  "rank_key s \<equiv> (- cs_Total s, - cs_SBlast s, cs_CandidateID s)"

lemma map_sort_key: "map f (sort_key f xs) = sort (map f xs)"
  by (rule properties_for_sort [symmetric]) (simp_all add: mset_map)

lemma sort_key_perm:
  assumes "mset xs = mset ys" and "inj_on f (set xs)"
  shows "sort_key f xs = sort_key f ys"
proof (rule map_inj_on [of f])
  have "sort (map f xs) = sort (map f ys)"
    by (rule properties_for_sort) (simp_all add: mset_map assms(1))
  then show "map f (sort_key f xs) = map f (sort_key f ys)" by (simp add: map_sort_key)
  show "inj_on f (set (sort_key f xs) \<union> set (sort_key f ys))"
    using assms(2) mset_eq_setD [OF assms(1)] by simp
qed

lemma score_parts [simp]:
  "cs_CandidateID (Score r) = cr_CandidateID r" "cs_Disqualified (Score r) = cr_BrokeExistingTests r"
  "cs_SBlast (Score r) = BlastBucket (cr_DependentsCount r)"
  by (simp_all add: Score_def Let_def)

lemma rank_key_inj: "distinct (map cr_CandidateID rs) \<Longrightarrow> inj_on rank_key (set (map Score rs))"
  by (auto simp: inj_on_def distinct_map)

lemma score_inj: "distinct (map cr_CandidateID rs) \<Longrightarrow> inj_on Score (set rs)"
  by (auto simp: inj_on_def distinct_map dest: arg_cong [where f = cs_CandidateID])

text \<open>The specification: the candidates no eligible candidate beats.\<close>

definition candidateValue :: "CandidateResult \<Rightarrow> rat \<times> rat" where
  "candidateValue r = (cs_Total (Score r), cs_SBlast (Score r))"

definition best :: "CandidateResult list \<Rightarrow> CandidateResult \<Rightarrow> bool" where
  "best rs r \<longleftrightarrow> r \<in> set rs \<and> \<not> cr_BrokeExistingTests r \<and>
     (\<forall>q\<in>set rs. \<not> cr_BrokeExistingTests q \<longrightarrow> candidateValue q \<le> candidateValue r)"

definition eligible :: "CandidateResult list \<Rightarrow> CandidateScore list" where
  "eligible rs = filter (\<lambda>s. \<not> cs_Disqualified s) (ranked (map Score rs))"

lemma eligible_set: "set (eligible rs) = Score ` {r \<in> set rs. \<not> cr_BrokeExistingTests r}"
  by (auto simp: eligible_def ranked_def)

lemma eligible_sorted: "sorted (map rank_key (eligible rs))"
  unfolding eligible_def ranked_def by (rule sorted_filter) simp

lemma eligible_distinct:
  assumes "distinct (map cr_CandidateID rs)"
  shows "distinct (eligible rs)"
proof -
  have "distinct (map Score rs)" using assms score_inj [OF assms] by (simp add: distinct_map)
  then show ?thesis by (simp add: eligible_def ranked_def)
qed

lemma decide_none: "eligible rs = [] \<Longrightarrow> tv_NeedsHumanDecision (Decide rs) \<and> tv_WinnerCandidateID (Decide rs) = ''''"
  unfolding Decide_def Let_def eligible_def [symmetric] by simp

lemma decide_one:
  "eligible rs = [s] \<Longrightarrow> \<not> tv_NeedsHumanDecision (Decide rs) \<and> tv_WinnerCandidateID (Decide rs) = cs_CandidateID s"
  unfolding Decide_def Let_def eligible_def [symmetric] by simp

lemma decide_more:
  "eligible rs = s # u # es \<Longrightarrow>
   tv_NeedsHumanDecision (Decide rs) = (cs_Total s = cs_Total u \<and> cs_SBlast s = cs_SBlast u) \<and>
   tv_WinnerCandidateID (Decide rs) =
     (if cs_Total s = cs_Total u \<and> cs_SBlast s = cs_SBlast u then '''' else cs_CandidateID s)"
  unfolding Decide_def Let_def eligible_def [symmetric]
  by (simp only: list.case TournamentVerdict.simps if_distrib [of tv_NeedsHumanDecision] if_distrib [of tv_WinnerCandidateID])
    simp

lemma head_min: "sorted (map f (s # es)) \<Longrightarrow> u \<in> set (s # es) \<Longrightarrow> f s \<le> f u"
  by auto

lemma key_value: "rank_key s \<le> rank_key u \<Longrightarrow> (cs_Total u, cs_SBlast u) \<le> (cs_Total s, cs_SBlast s)"
  by (auto simp: less_eq_prod_def less_prod_def)

lemma best_head:
  assumes "eligible rs = Score r # es" and "r \<in> set rs" and "\<not> cr_BrokeExistingTests r"
  shows "best rs r"
proof -
  have "candidateValue q \<le> candidateValue r" if "q \<in> set rs" "\<not> cr_BrokeExistingTests q" for q
  proof -
    have "Score q \<in> set (Score r # es)" using that eligible_set [of rs] assms(1) by auto
    from key_value [OF head_min [of rank_key, OF _ this]] eligible_sorted [of rs, unfolded assms(1)]
    show ?thesis by (simp only: candidateValue_def)
  qed
  with assms(2,3) show ?thesis by (simp add: best_def)
qed

lemma best_score: "best rs r \<Longrightarrow> Score r \<in> set (eligible rs)"
  by (simp add: eligible_set best_def)

lemma eligible_origin: "s \<in> set (eligible rs) \<Longrightarrow> \<exists>r\<in>set rs. s = Score r \<and> \<not> cr_BrokeExistingTests r"
  by (auto simp: eligible_set)

lemma best_equal: "best rs r \<Longrightarrow> best rs q \<Longrightarrow> candidateValue r = candidateValue q"
  by (metis antisym best_def)

section \<open>Scores are monotone\<close>

lemma testScore_alt: "testScore p n = (if n \<le> 0 then 0 else f64 (f64 (of_int (min n (max 0 p))) / f64 (of_int n)))"
  by (auto simp: testScore_def Let_def min_def max_def)

lemma lspScore_alt: "lspScore e = max 0 (f64 (1 - f64 (lspErrorPenalty * f64 (of_int (max 0 e)))))"
  by (auto simp: lspScore_def Let_def max_def)

lemma testScore_mono: "p \<le> q \<Longrightarrow> testScore p n \<le> testScore q n"
  unfolding testScore_alt by (auto intro!: f64_mono divide_right_mono f64_nonneg simp del: of_int_min of_int_max)

lemma penalty_nonneg: "0 \<le> lspErrorPenalty"
  by (simp add: lspErrorPenalty_def f64_nonneg)

lemma lspScore_mono: "e \<le> d \<Longrightarrow> lspScore d \<le> lspScore e"
  unfolding lspScore_alt
  by (intro max.mono order_refl f64_mono diff_left_mono mult_left_mono [OF _ penalty_nonneg]) (simp del: of_int_max)

lemma f64_chain: "0 \<le> f64 (3/10)" "f64 (3/10) \<le> f64 (7/10)" "f64 (7/10) \<le> f64 1"
  by (simp_all add: f64_nonneg f64_mono)

lemma f64_one [simp]: "f64 1 = 1"
  by code_simp

lemma BlastBucket_mono: "c \<le> d \<Longrightarrow> BlastBucket d \<le> BlastBucket c"
  using f64_chain by (auto simp: BlastBucket_def Let_def)

lemma parts_range:
  "0 \<le> testScore p n" "testScore p n \<le> 1" "0 \<le> lspScore e" "lspScore e \<le> 1" "0 \<le> BlastBucket c" "BlastBucket c \<le> 1"
proof -
  show "0 \<le> testScore p n" by (auto simp: testScore_alt simp del: of_int_min of_int_max intro!: f64_nonneg divide_nonneg_nonneg)
  have "testScore p n \<le> testScore (max p n) n" by (rule testScore_mono) simp
  also have "\<dots> \<le> 1" by (cases "f64 (of_int n) = 0") (simp_all add: testScore_alt)
  finally show "testScore p n \<le> 1" .
  show "0 \<le> lspScore e" by (simp add: lspScore_alt)
  have "lspScore e \<le> lspScore (min e 0)" by (rule lspScore_mono) simp
  also have "\<dots> = 1" by (simp add: lspScore_alt)
  finally show "lspScore e \<le> 1" .
  show "0 \<le> BlastBucket c" "BlastBucket c \<le> 1" using f64_chain by (auto simp: BlastBucket_def Let_def)
qed

definition totalScore :: "rat \<Rightarrow> rat \<Rightarrow> rat \<Rightarrow> rat" where
  "totalScore s l b = f64 (f64 (f64 (s * weightTests) + f64 (l * weightLSP)) + f64 (b * weightBlast))"

lemma score_total:
  "cs_Total (Score r) = (if cr_BrokeExistingTests r then 0
     else totalScore (testScore (cr_PassedTests r) (cr_TotalTests r)) (lspScore (cr_LSPErrors r)) (BlastBucket (cr_DependentsCount r)))"
  by (simp add: Score_def Let_def totalScore_def)

lemma weights_nonneg: "0 \<le> weightTests" "0 \<le> weightLSP" "0 \<le> weightBlast"
  by (simp_all add: weightTests_def weightLSP_def weightBlast_def f64_nonneg)

lemma totalScore_mono: "s \<le> s' \<Longrightarrow> l \<le> l' \<Longrightarrow> b \<le> b' \<Longrightarrow> totalScore s l b \<le> totalScore s' l' b'"
  unfolding totalScore_def by (intro f64_mono add_mono mult_right_mono weights_nonneg)

lemma totalScore_ends: "totalScore 0 0 0 = 0" "totalScore 1 1 1 = 1"
  by code_simp+

section \<open>Properties\<close>

text \<open>
  C23: The verdict does not depend on the order in which the candidates report: for results with
  distinct ids every permutation gives the same ranking, winner and reason.
\<close>

theorem verdict_order_free:
  assumes "distinct (map cr_CandidateID rs)" and "mset rs' = mset rs"
  shows "Decide rs' = Decide rs"
proof -
  have "ranked (map Score rs') = ranked (map Score rs)"
    unfolding ranked_def
  proof (rule sort_key_perm)
    show "mset (map Score rs') = mset (map Score rs)" by (simp add: mset_map assms(2))
    show "inj_on rank_key (set (map Score rs'))" using rank_key_inj [OF assms(1)] mset_eq_setD [OF assms(2)] by simp
  qed
  then show ?thesis by (simp only: Decide_def)
qed

text \<open>
  C24: The winner is the unique best: for results with distinct ids a winner is named iff exactly
  one candidate that broke no test is beaten by no other such candidate, in total score and then in
  blast radius, and it is that candidate; otherwise the verdict asks for a human and names nobody.
\<close>

theorem winner_unique_best:
  assumes "distinct (map cr_CandidateID rs)"
  shows "(\<not> tv_NeedsHumanDecision (Decide rs) \<longleftrightarrow> (\<exists>!r. best rs r)) \<and>
    (\<forall>r. best rs r \<and> \<not> tv_NeedsHumanDecision (Decide rs) \<longrightarrow> tv_WinnerCandidateID (Decide rs) = cr_CandidateID r) \<and>
    (tv_NeedsHumanDecision (Decide rs) \<longrightarrow> tv_WinnerCandidateID (Decide rs) = '''')"
proof (cases "eligible rs")
  case Nil
  then have "\<not> best rs r" for r using best_score [of rs r] by auto
  then show ?thesis using decide_none [OF Nil] by blast
next
  case (Cons s es)
  then obtain r where r: "r \<in> set rs" "s = Score r" "\<not> cr_BrokeExistingTests r"
    using eligible_origin [of s rs] by auto
  have br: "best rs r" using best_head [of rs r es] Cons r by simp
  have inj: "q = r" if "best rs q" "Score q = Score r" for q
    using that r(1) inj_onD [OF score_inj [OF assms]] by (auto simp: best_def)
  show ?thesis
  proof (cases es)
    case Nil
    with Cons have e: "eligible rs = [s]" by simp
    then have "q = r" if "best rs q" for q using best_score [OF that] inj [OF that] r(2) by simp
    with br have "\<exists>!r. best rs r" by blast
    with \<open>\<And>q. best rs q \<Longrightarrow> q = r\<close> decide_one [OF e] r(2) show ?thesis by (metis score_parts(1))
  next
    case (Cons u us)
    with \<open>eligible rs = s # es\<close> have e: "eligible rs = s # u # us" by simp
    note d = decide_more [OF e]
    have "u \<in> set (eligible rs)" by (simp add: e)
    from eligible_origin [OF this] obtain t where t: "t \<in> set rs" "u = Score t" "\<not> cr_BrokeExistingTests t" by blast
    have ne: "t \<noteq> r" using eligible_distinct [OF assms] r(2) t(2) by (auto simp: e)
    show ?thesis
    proof (cases "candidateValue t = candidateValue r")
      case True
      then have "best rs t" using br t by (simp add: best_def)
      with br ne have "\<not> (\<exists>!r. best rs r)" by blast
      moreover from True have "cs_Total s = cs_Total u \<and> cs_SBlast s = cs_SBlast u" by (simp add: candidateValue_def r(2) t(2))
      ultimately show ?thesis using d by metis
    next
      case False
      have one: "q = r" if q: "best rs q" for q
      proof (rule ccontr)
        assume "q \<noteq> r"
        then have "Score q \<noteq> s" using inj [OF q] r(2) by blast
        with best_score [OF q] e have "Score q \<in> set (u # us)" by simp
        moreover have "sorted (map rank_key (u # us))" using eligible_sorted [of rs] by (simp add: e)
        ultimately have "candidateValue q \<le> candidateValue t"
          using key_value [OF head_min [of rank_key u us "Score q"]] t(2) by (simp only: candidateValue_def)
        moreover have "candidateValue t \<le> candidateValue r" using br t by (simp add: best_def)
        moreover have "candidateValue q = candidateValue r" by (rule best_equal [OF q br])
        ultimately show False using False by simp
      qed
      from False have "\<not> (cs_Total s = cs_Total u \<and> cs_SBlast s = cs_SBlast u)" by (auto simp: candidateValue_def r(2) t(2))
      with d have w: "\<not> tv_NeedsHumanDecision (Decide rs)" "tv_WinnerCandidateID (Decide rs) = cs_CandidateID s"
        by presburger+
      from w(2) have "tv_WinnerCandidateID (Decide rs) = cr_CandidateID r" by (simp add: r(2))
      moreover have "\<exists>!r. best rs r" using one br by blast
      ultimately show ?thesis using one w(1) by blast
    qed
  qed
qed

text \<open>
  Scores are rounded but fair: every total lies between 0 and 1, and a candidate that passes
  at least as many of the same tests, with no more errors and dependents, and broke no test, never
  scores below another.
\<close>

theorem score_fair:
  assumes "cr_TotalTests q = cr_TotalTests r" and "cr_PassedTests q \<le> cr_PassedTests r"
    and "cr_LSPErrors r \<le> cr_LSPErrors q" and "cr_DependentsCount r \<le> cr_DependentsCount q"
    and "\<not> cr_BrokeExistingTests r"
  shows "0 \<le> cs_Total (Score q) \<and> cs_Total (Score q) \<le> cs_Total (Score r) \<and> cs_Total (Score r) \<le> 1"
proof -
  have up: "totalScore (testScore p n) (lspScore e) (BlastBucket c) \<le> 1" for p n e c
    using totalScore_mono [of _ 1 _ 1 _ 1, OF parts_range(2,4,6)] by (simp add: totalScore_ends)
  have lo: "0 \<le> totalScore (testScore p n) (lspScore e) (BlastBucket c)" for p n e c
    using totalScore_mono [of 0 _ 0 _ 0, OF parts_range(1,3,5)] by (simp add: totalScore_ends)
  have "totalScore (testScore (cr_PassedTests q) (cr_TotalTests q)) (lspScore (cr_LSPErrors q)) (BlastBucket (cr_DependentsCount q))
      \<le> totalScore (testScore (cr_PassedTests r) (cr_TotalTests r)) (lspScore (cr_LSPErrors r)) (BlastBucket (cr_DependentsCount r))"
    unfolding assms(1) by (intro totalScore_mono testScore_mono lspScore_mono BlastBucket_mono assms(2-4))
  then show ?thesis using assms(5) up lo by (simp add: score_total)
qed

lemma parse_candidates_ok:
  "parseCandidates i l seen cs = Inr out \<Longrightarrow> distinct (map tc_CandidateID cs) \<Longrightarrow> seen = tc_CandidateID ` set cs \<Longrightarrow>
   tc_Provider ` set cs \<subseteq> set tournamentProviders \<Longrightarrow>
   length out = length cs + length l \<and> distinct (map tc_CandidateID out) \<and> tc_Provider ` set out \<subseteq> set tournamentProviders"
  by (induction i l seen cs rule: parseCandidates.induct) (auto simp: Let_def split: gvalue.splits if_splits)

lemma default_candidates_ok:
  "length defaultCandidates = 2 \<and> distinct (map tc_CandidateID defaultCandidates) \<and>
   tc_Provider ` set defaultCandidates \<subseteq> set tournamentProviders"
  by (simp add: defaultCandidates_def tournamentProviders_def)

text \<open>
  A tournament is bounded: a configuration that parses has one to three candidates with distinct
  ids and known providers and allows one to three attempts; with it a retry is only taken with
  automatic picking on, when no winner was named, and before the last allowed attempt.
\<close>

theorem tournament_bounded:
  assumes "ParseTournamentConfig raw = Inr cfg"
  shows "length (tf_Candidates cfg) \<in> {1..3} \<and> distinct (map tc_CandidateID (tf_Candidates cfg)) \<and>
    tc_Provider ` set (tf_Candidates cfg) \<subseteq> set tournamentProviders \<and> tf_MaxAttempts cfg \<in> {1..3} \<and>
    (DecideTournamentAction v (tf_AutoPick cfg) n (tf_MaxAttempts cfg) = TournamentActionRetry \<longrightarrow>
       n < 3 \<and> tf_AutoPick cfg \<and> (tv_NeedsHumanDecision v \<or> tv_WinnerCandidateID v = ''''))"
proof -
  have "length cs \<in> {1..3} \<and> distinct (map tc_CandidateID cs) \<and> tc_Provider ` set cs \<subseteq> set tournamentProviders"
    if "candidatesField raw = Inr cs" for cs
    using that parse_candidates_ok [of 0 _ "{}" "[]" cs] default_candidates_ok
    by (auto simp: candidatesField_def Suc_le_eq split: option.splits gvalue.splits if_splits)
  moreover have "n \<in> {1..3}" if "attemptsField raw = Inr n" for n
    using that by (auto simp: attemptsField_def split: option.splits if_splits)
  ultimately have "length (tf_Candidates cfg) \<in> {1..3} \<and> distinct (map tc_CandidateID (tf_Candidates cfg)) \<and>
      tc_Provider ` set (tf_Candidates cfg) \<subseteq> set tournamentProviders \<and> tf_MaxAttempts cfg \<in> {1..3}"
    using assms default_candidates_ok by (auto simp: ParseTournamentConfig_def split: if_splits sum.splits)
  then show ?thesis
    by (auto simp: DecideTournamentAction_def TournamentActionMerge_def TournamentActionAsk_def TournamentActionRetry_def)
qed

section \<open>Witnesses\<close>

definition demo_candidate :: "string \<Rightarrow> int \<Rightarrow> CandidateResult" where
  "demo_candidate i n =
     \<lparr>cr_CandidateID = i, cr_Label = '''', cr_ProviderKey = ''claude'', cr_TotalTests = 10, cr_PassedTests = n,
      cr_BrokeExistingTests = False, cr_LSPErrors = 1, cr_ChangedPaths = [], cr_DependentsCount = 2\<rparr>"

theorem verdict_order_free_witness:
  "Decide [demo_candidate ''b'' 7, demo_candidate ''a'' 9] = Decide [demo_candidate ''a'' 9, demo_candidate ''b'' 7]"
  by (rule verdict_order_free) (simp_all add: demo_candidate_def)

theorem winner_unique_best_witness:
  "\<not> tv_NeedsHumanDecision (Decide [demo_candidate ''a'' 9]) \<and> (\<exists>!r. best [demo_candidate ''a'' 9] r)"
proof -
  have d: "distinct (map cr_CandidateID [demo_candidate ''a'' 9])" by simp
  have "eligible [demo_candidate ''a'' 9] = [Score (demo_candidate ''a'' 9)]"
    by (simp add: eligible_def ranked_def demo_candidate_def)
  from decide_one [OF this] have h: "\<not> tv_NeedsHumanDecision (Decide [demo_candidate ''a'' 9])" ..
  with conjunct1 [OF winner_unique_best [OF d]] show ?thesis by blast
qed

theorem score_fair_witness:
  "cs_Total (Score (demo_candidate ''b'' 7)) \<le> cs_Total (Score (demo_candidate ''a'' 9))"
  using score_fair [of "demo_candidate ''b'' 7" "demo_candidate ''a'' 9"] by (simp add: demo_candidate_def)

theorem tournament_bounded_witness:
  "length defaultCandidates \<in> {1..3::nat} \<and> DecideTournamentAction (Decide []) True 3 1 \<noteq> TournamentActionRetry"
proof -
  let ?cfg = "\<lparr>tf_Candidates = defaultCandidates, tf_AutoPick = True, tf_MaxAttempts = 1, tf_Serial = False\<rparr>"
  have "ParseTournamentConfig [] = Inr ?cfg" by (simp add: ParseTournamentConfig_def)
  from tournament_bounded [OF this, of "Decide []" 3] show ?thesis by simp
qed

end
