(* ===== verification/Flow_Routing.thy ===== *)
theory Flow_Routing
  imports Flow_Definition
begin

text \<open>
  How the executor reads the graph of a running flow (\<open>runner/flow_executor.go\<close>): entry nodes,
  dependencies, the spine, the back edge a continue signal takes, and the node a spawn belongs to.
\<close>

section \<open>Edges\<close>

definition isForwardEdge :: "FlowEdge \<Rightarrow> bool" where
  "isForwardEdge e = EqualFold (TrimSpace (fe_Kind e)) ''forward''"

definition whenIs :: "string \<Rightarrow> FlowEdge \<Rightarrow> bool" where
  "whenIs w e = EqualFold (TrimSpace (fe_When e)) w"

definition isContinueBackEdge :: "FlowEdge \<Rightarrow> bool" where
  "isContinueBackEdge e \<longleftrightarrow> EqualFold (TrimSpace (fe_Kind e)) ''back'' \<and> whenIs ''continue'' e"

definition nodeHasIncomingForwardEdge :: "FlowEdge list \<Rightarrow> string \<Rightarrow> bool" where
  "nodeHasIncomingForwardEdge edges nodeID = list_ex (\<lambda>e. isForwardEdge e \<and> fe_To e = nodeID) edges"

fun firstOccurrences :: "string list \<Rightarrow> string list \<Rightarrow> string list" where
  "firstOccurrences seen [] = []"
| "firstOccurrences seen (x # xs) =
     (if x = '''' \<or> x \<in> set seen then firstOccurrences seen xs else x # firstOccurrences (x # seen) xs)"

definition forwardEdgeSources :: "FlowEdge list \<Rightarrow> string \<Rightarrow> string list" where
  "forwardEdgeSources edges nodeID =
     (if nodeID = '''' then []
      else firstOccurrences [] (map fe_From (filter (\<lambda>e. isForwardEdge e \<and> fe_To e = nodeID) edges)))"

definition forwardDoneTargets :: "FlowEdge list \<Rightarrow> string \<Rightarrow> string list" where
  "forwardDoneTargets edges fromNodeID =
     firstOccurrences [] (map fe_To (filter (\<lambda>e. fe_From e = fromNodeID \<and> isForwardEdge e \<and> whenIs ''done'' e) edges))"

section \<open>Entry nodes\<close>

definition entryNodesNoDeps :: "FlowDefinition \<Rightarrow> FlowNode list" where
  "entryNodesNoDeps def =
     filter (\<lambda>n. \<not> fn_DependsOn n \<noteq> [] \<and> \<not> nodeHasIncomingForwardEdge (fl_Edges def) (fn_ID n)) (fl_Nodes def)"

definition entryDelegateNodes :: "FlowDefinition \<Rightarrow> FlowNode list" where
  "entryDelegateNodes def =
     filter (\<lambda>n. \<not> fn_DependsOn n \<noteq> [] \<and> \<not> nodeHasIncomingForwardEdge (fl_Edges def) (fn_ID n) \<and>
                 NormalizeBehaviorID (fn_Behavior n) = Some ''agent.delegate'') (fl_Nodes def)"

definition findFlowNode :: "FlowNode list \<Rightarrow> string \<Rightarrow> FlowNode option" where
  "findFlowNode nodes i = find (\<lambda>n. fn_ID n = i) nodes"

definition isHubInline :: "FlowNode list \<Rightarrow> string \<Rightarrow> bool" where
  "isHubInline nodes i =
     (case findFlowNode nodes i of None \<Rightarrow> False | Some n \<Rightarrow> NormalizeBehaviorID (fn_Behavior n) = Some ''hub.inline'')"

definition negotiationHubNodeFor :: "FlowEdge list \<Rightarrow> FlowNode list \<Rightarrow> FlowNode option" where
  "negotiationHubNodeFor edges nodes =
     (case find (\<lambda>e. isForwardEdge e \<and> whenIs ''continue'' e \<and> isHubInline nodes (fe_From e) \<and> isHubInline nodes (fe_To e)) edges of
        None \<Rightarrow> None | Some e \<Rightarrow> findFlowNode nodes (fe_To e))"

definition flowNodeLifecycle :: "FlowNode \<Rightarrow> string" where
  "flowNodeLifecycle n =
     (let l = ToLower (TrimSpace (fn_Lifecycle n)) in if l = ''spawn'' \<or> l = ''once'' then l else ''reinvoke'')"

definition flowNodeReusesChild :: "FlowNode \<Rightarrow> bool" where
  "flowNodeReusesChild n \<longleftrightarrow> flowNodeLifecycle n = ''reinvoke''"

section \<open>Walks of the executor\<close>

definition realTarget :: "string \<Rightarrow> bool" where
  "realTarget i \<longleftrightarrow> i \<noteq> '''' \<and> i \<noteq> ''done'' \<and> i \<noteq> ''ask_user''"

text \<open>The edges \<open>forwardReachableNodeIDs\<close> and \<open>forwardDistance\<close> follow.\<close>

definition reachGraph :: "FlowEdge list \<Rightarrow> string graph" where
  "reachGraph edges = map (\<lambda>e. (fe_From e, TrimSpace (fe_To e)))
     (filter (\<lambda>e. isForwardEdge e \<and> realTarget (TrimSpace (fe_To e))) edges)"

definition distanceGraph :: "FlowEdge list \<Rightarrow> string graph" where
  "distanceGraph edges = map (\<lambda>e. (TrimSpace (fe_From e), TrimSpace (fe_To e)))
     (filter (\<lambda>e. isForwardEdge e \<and> realTarget (TrimSpace (fe_To e))) edges)"

function reachLoop :: "'a graph \<Rightarrow> 'a set \<Rightarrow> 'a list \<Rightarrow> 'a set" where
  "reachLoop g reachable [] = reachable"
| "reachLoop g reachable (cur # queue) =
     (case pushAll (successors g cur) reachable queue of (reachable', queue') \<Rightarrow> reachLoop g reachable' queue')"
  by pat_completeness auto

termination
proof (relation "measure (\<lambda>(g, visited, queue). length queue + card (snd ` set g - visited))")
  fix g :: "'a graph" and visited cur queue v q
  assume "(v, q) = pushAll (successors g cur) visited queue"
  then have vq: "v = fst (pushAll (successors g cur) visited queue)" "q = snd (pushAll (successors g cur) visited queue)"
    by (metis fst_conv, metis snd_conv)
  have "set (successors g cur) \<subseteq> snd ` set g" by (force simp: set_successors)
  from pushAll_length [OF _ this, of visited queue]
  show "((g, v, q), g, visited, cur # queue) \<in> measure (\<lambda>(g, visited, queue). length queue + card (snd ` set g - visited))"
    by (simp add: vq split_beta)
qed simp

definition forwardReachableNodeIDs :: "FlowEdge list \<Rightarrow> string \<Rightarrow> string set" where
  "forwardReachableNodeIDs edges startID = (if startID = '''' then {} else reachLoop (reachGraph edges) {} [startID])"

text \<open>\<open>forwardDistance\<close>: the inner loop ends early when it reaches the target.\<close>

fun distPush ::
  "string \<Rightarrow> nat \<Rightarrow> string list \<Rightarrow> (string \<rightharpoonup> nat) \<Rightarrow> string list \<Rightarrow> nat + (string \<rightharpoonup> nat) \<times> string list" where
  "distPush target d [] dists queue = Inr (dists, queue)"
| "distPush target d (n # ns) dists queue =
     (if dists n \<noteq> None then distPush target d ns dists queue
      else if n = target then Inl d
      else distPush target d ns (dists(n \<mapsto> d)) (queue @ [n]))"

lemma distPush_pushAll:
  "distPush target d ns dists queue = Inr (dists', queue') \<Longrightarrow> pushAll ns (dom dists) queue = (dom dists', queue')"
  by (induction target d ns dists queue rule: distPush.induct) (auto simp: domIff split: if_splits)

function distLoop :: "string graph \<Rightarrow> string \<Rightarrow> (string \<rightharpoonup> nat) \<Rightarrow> string list \<Rightarrow> int" where
  "distLoop g target dists [] = -1"
| "distLoop g target dists (cur # queue) =
     (case distPush target (the (dists cur) + 1) (successors g cur) dists queue of
        Inl d \<Rightarrow> int d
      | Inr (dists', queue') \<Rightarrow> distLoop g target dists' queue')"
  by pat_completeness auto

termination
proof (relation "measure (\<lambda>(g, target, dists, queue). length queue + card (snd ` set g - dom dists))")
  fix g :: "string graph" and target cur and dists :: "string \<rightharpoonup> nat" and queue x v q
  assume "distPush target (the (dists cur) + 1) (successors g cur) dists queue = Inr x" "(v, q) = x"
  then have "pushAll (successors g cur) (dom dists) queue = (dom v, q)" using distPush_pushAll by blast
  moreover have "set (successors g cur) \<subseteq> snd ` set g" by (force simp: set_successors)
  ultimately show "((g, target, v, q), g, target, dists, cur # queue)
      \<in> measure (\<lambda>(g, target, dists, queue). length queue + card (snd ` set g - dom dists))"
    using pushAll_length [of "snd ` set g" "successors g cur" "dom dists" queue] by simp
qed simp

definition forwardDistance :: "FlowEdge list \<Rightarrow> string \<Rightarrow> string \<Rightarrow> int" where
  "forwardDistance edges from target =
     (if from = '''' \<or> target = '''' then -1 else distLoop (distanceGraph edges) target [from \<mapsto> 0] [from])"

section \<open>The back edge of a continue signal\<close>

definition phaseHubs :: "FlowEdge list \<Rightarrow> string list" where
  "phaseHubs edges = map (\<lambda>e. TrimSpace (fe_To e))
     (filter (\<lambda>e. isForwardEdge e \<and> whenIs ''continue'' e \<and> TrimSpace (fe_To e) \<noteq> '''') edges)"

fun nearestAnchor ::
  "FlowEdge list \<Rightarrow> string \<Rightarrow> FlowEdge list \<Rightarrow> string \<Rightarrow> int \<Rightarrow> string \<times> int" where
  "nearestAnchor edges fromID [] bestTarget bestDist = (bestTarget, bestDist)"
| "nearestAnchor edges fromID (e # rest) bestTarget bestDist =
     (if \<not> isContinueBackEdge e \<or> fe_To e = '''' \<or> TrimSpace (fe_From e) = fromID then nearestAnchor edges fromID rest bestTarget bestDist
      else if TrimSpace (fe_From e) \<in> set (phaseHubs edges) then nearestAnchor edges fromID rest bestTarget bestDist
      else let gap = forwardDistance edges (TrimSpace (fe_From e)) fromID
           in if gap \<ge> 0 \<and> (bestDist < 0 \<or> gap < bestDist) then nearestAnchor edges fromID rest (fe_To e) gap
              else nearestAnchor edges fromID rest bestTarget bestDist)"

definition anyAnchor :: "FlowEdge list \<Rightarrow> string option" where
  "anyAnchor edges =
     map_option fe_To (find (\<lambda>e. isContinueBackEdge e \<and> fe_To e \<noteq> '''' \<and>
        TrimSpace (fe_From e) \<notin> set (phaseHubs edges)) edges)"

text \<open>The optional source is \<open>''''\<close> when it is not given.\<close>

definition resolveContinueBackEdgeTarget :: "FlowEdge list \<Rightarrow> string \<Rightarrow> string option" where
  "resolveContinueBackEdgeTarget edges from =
     (let fromID = TrimSpace from
      in if fromID \<noteq> '''' then
           (case find (\<lambda>e. isContinueBackEdge e \<and> fe_To e \<noteq> '''' \<and> TrimSpace (fe_From e) = fromID) edges of
              Some e \<Rightarrow> Some (fe_To e)
            | None \<Rightarrow>
                (case nearestAnchor edges fromID edges '''' (-1) of (bestTarget, bestDist) \<Rightarrow>
                   if bestDist \<ge> 0 then Some bestTarget else anyAnchor edges))
         else anyAnchor edges)"

section \<open>Predecessors\<close>

text \<open>
  \<open>flowForwardDonePredecessors\<close>: the recursive walk as a stack of the loops it has open, the
  innermost first; \<open>incoming\<close> is the graph of reversed done edges.
\<close>

definition doneIncoming :: "FlowEdge list \<Rightarrow> string graph" where
  "doneIncoming edges = map (\<lambda>e. (TrimSpace (fe_To e), TrimSpace (fe_From e)))
     (filter (\<lambda>e. isForwardEdge e \<and> whenIs ''done'' e \<and> TrimSpace (fe_From e) \<noteq> '''' \<and> TrimSpace (fe_To e) \<noteq> '''') edges)"

function predWalk :: "'a graph \<Rightarrow> 'a set \<Rightarrow> 'a list \<Rightarrow> 'a list \<Rightarrow> 'a list" where
  "predWalk g seen out [] = out"
| "predWalk g seen out (pred # rest) =
     (if pred \<in> seen then predWalk g seen out rest
      else predWalk g (insert pred seen) (out @ [pred]) (successors g pred @ rest))"
  by pat_completeness auto

termination
proof (relation "measures [\<lambda>(g, seen, out, todo). card ((snd ` set g \<union> set todo) - seen), \<lambda>(g, seen, out, todo). length todo]",
    simp_all only: wf_measures, goal_cases)
  case (1 g seen out pred rest)
  then have "(snd ` set g \<union> set (pred # rest)) - seen = (snd ` set g \<union> set rest) - seen" by auto
  then show ?case by simp
next
  case (2 g seen out pred rest)
  have "set (successors g pred) \<subseteq> snd ` set g" by (force simp: set_successors)
  then have "(snd ` set g \<union> set (successors g pred @ rest)) - insert pred seen \<subset> (snd ` set g \<union> set (pred # rest)) - seen"
    using 2 by auto
  then have "card ((snd ` set g \<union> set (successors g pred @ rest)) - insert pred seen) < card ((snd ` set g \<union> set (pred # rest)) - seen)"
    by (rule psubset_card_mono [rotated]) simp
  then show ?case by simp
qed

definition flowForwardDonePredecessors :: "FlowEdge list \<Rightarrow> string \<Rightarrow> string list" where
  "flowForwardDonePredecessors edges startID =
     (let start = TrimSpace startID
      in if start = '''' then [] else predWalk (doneIncoming edges) {start} [] (successors (doneIncoming edges) start))"

section \<open>The spine\<close>

text \<open>The nodes every pass of the flow must visit: \<open>ids\<close> are the declared nodes.\<close>

function spineLoop :: "FlowEdge list \<Rightarrow> string list \<Rightarrow> string set \<Rightarrow> string list \<Rightarrow> string set" where
  "spineLoop edges ids spine [] = spine"
| "spineLoop edges ids spine (cur # queue) =
     (if cur \<in> spine then spineLoop edges ids spine queue
      else spineLoop edges ids (insert cur spine)
             (queue @ filter (\<lambda>n. n \<in> set ids \<and> n \<notin> insert cur spine) (forwardDoneTargets edges cur)))"
  by pat_completeness auto

termination
proof (relation "measures [\<lambda>(edges, ids, spine, queue). card ((set ids \<union> set queue) - spine), \<lambda>(edges, ids, spine, queue). length queue]",
    simp_all only: wf_measures, goal_cases)
  case (1 edges ids spine cur queue)
  then have "(set ids \<union> set (cur # queue)) - spine = (set ids \<union> set queue) - spine" by auto
  then show ?case by simp
next
  case (2 edges ids spine cur queue)
  let ?q = "queue @ filter (\<lambda>n. n \<in> set ids \<and> n \<notin> insert cur spine) (forwardDoneTargets edges cur)"
  have "(set ids \<union> set ?q) - insert cur spine \<subset> (set ids \<union> set (cur # queue)) - spine" using 2 by auto
  then have "card ((set ids \<union> set ?q) - insert cur spine) < card ((set ids \<union> set (cur # queue)) - spine)"
    by (rule psubset_card_mono [rotated]) simp
  then show ?case by simp
qed

definition spineNodeIDs :: "FlowNode list \<Rightarrow> FlowEdge list \<Rightarrow> string set" where
  "spineNodeIDs nodes edges =
     spineLoop edges (map fn_ID nodes) {}
       (map fn_ID (filter (\<lambda>n. fn_DependsOn n = [] \<and> \<not> nodeHasIncomingForwardEdge edges (fn_ID n)) nodes))"

section \<open>Agents and joins\<close>

text \<open>\<open>path.Ext\<close>, and the agent name in an agent reference.\<close>

definition path_Ext :: "string \<Rightarrow> string" where
  "path_Ext p =
     (let e = text_before (CHR ''/'') (rev p)
      in if CHR ''.'' \<in> set e then rev (takeWhile (\<lambda>c. c \<noteq> CHR ''.'') e @ [CHR ''.'']) else '''')"

definition agentNameFromRef :: "string \<Rightarrow> string" where
  "agentNameFromRef agentRef =
     (let agent = map (\<lambda>c. if c = CHR 0x5C then CHR ''/'' else c) (TrimSpace agentRef); base = path_Base agent
      in if TrimSpace agentRef = '''' then '''' else take (length base - length (path_Ext base)) base)"

definition flowNodeAgentName :: "FlowNode \<Rightarrow> string" where
  "flowNodeAgentName n = agentNameFromRef (fn_Agent n)"

definition PostureReadOnly :: string where "PostureReadOnly = ''read_only''"

definition PostureVerdictOnly :: string where "PostureVerdictOnly = ''verdict_only''"

definition flowNodeIsVerdictMember :: "FlowNode \<Rightarrow> bool" where
  "flowNodeIsVerdictMember n \<longleftrightarrow>
     TrimSpace (fn_Cohort n) \<noteq> '''' \<or> TrimSpace (fn_Posture n) = PostureReadOnly \<or> TrimSpace (fn_Posture n) = PostureVerdictOnly"

record cohortEntry =
  ce_Label :: string
  ce_Provider :: string
  ce_FinalMessage :: string
  ce_Status :: string
  ce_Err :: string
  ce_MachineVerdict :: string
  ce_VerdictDetail :: string

definition singleMemberDelegateJoinTarget ::
  "FlowNode list \<Rightarrow> FlowEdge list \<Rightarrow> cohortEntry list \<Rightarrow> (string \<times> string) option" where
  "singleMemberDelegateJoinTarget nodes edges entries =
     (case entries of
        [entry] \<Rightarrow>
          (let targets = forwardDoneTargets edges (ce_Label entry)
           in if ce_Status entry = ''completed'' \<and> targets \<noteq> [] \<and>
                 list_all (\<lambda>i. case findFlowNode nodes i of None \<Rightarrow> False | Some t \<Rightarrow> providerNode t) targets
              then Some (ce_Label entry, ce_FinalMessage entry) else None)
      | _ \<Rightarrow> None)"

end
