(* ===== verification/Routing_Safety.thy ===== *)
theory Routing_Safety
  imports Flow_Routing
begin

text \<open>
  What the walks of \<open>Flow_Routing\<close> compute: the spine and the predecessors as closures, the
  distance as the length of a shortest path, the back edge a continue signal takes, and the entry
  nodes of a validated flow.
\<close>


section \<open>What the walks compute\<close>

lemma set_forwardDoneTargets:
  "set (forwardDoneTargets edges n) =
     {m. m \<noteq> '''' \<and> (\<exists>e\<in>set edges. fe_From e = n \<and> fe_To e = m \<and> isForwardEdge e \<and> whenIs ''done'' e)}"
proof -
  have first: "set (firstOccurrences seen xs) = set xs - insert '''' (set seen)" for seen xs
    by (induction seen xs rule: firstOccurrences.induct) auto
  show ?thesis by (auto simp: forwardDoneTargets_def first)
qed

definition done_step :: "FlowEdge list \<Rightarrow> string list \<Rightarrow> (string \<times> string) set" where
  "done_step edges ids = {(a, b). b \<in> set ids \<and> b \<in> set (forwardDoneTargets edges a)}"

lemma spineLoop_closure:
  "(\<And>x. x \<in> spine \<Longrightarrow> done_step edges ids `` {x} \<subseteq> spine \<union> set queue) \<Longrightarrow>
   spineLoop edges ids spine queue = (done_step edges ids)\<^sup>* `` (spine \<union> set queue)"
proof (induction edges ids spine queue rule: spineLoop.induct)
  case (1 edges ids spine)
  then have "done_step edges ids `` spine \<subseteq> spine" by auto
  then show ?case by (simp add: Image_closed_trancl)
next
  case (2 edges ids spine cur queue)
  show ?case
  proof (cases "cur \<in> spine")
    case True
    then show ?thesis using 2(1) 2(3) by (simp add: insert_absorb)
  next
    case False
    let ?R = "done_step edges ids"
    let ?q = "queue @ filter (\<lambda>n. n \<in> set ids \<and> n \<notin> insert cur spine) (forwardDoneTargets edges cur)"
    have q: "set ?q = set queue \<union> (?R `` {cur} - insert cur spine)" by (auto simp: done_step_def)
    have closed: "?R `` {x} \<subseteq> insert cur spine \<union> set ?q" if "x \<in> insert cur spine" for x
      using that 2(3) [of x] unfolding q by auto
    have step: "?R `` {cur} \<subseteq> ?R\<^sup>* `` {cur}" by auto
    have "spineLoop edges ids spine (cur # queue) = spineLoop edges ids (insert cur spine) ?q" using False by simp
    also have "\<dots> = ?R\<^sup>* `` (insert cur spine \<union> set ?q)" using False closed by (rule 2(2))
    also have "\<dots> = ?R\<^sup>* `` (spine \<union> set (cur # queue))"
    proof
      show "?R\<^sup>* `` (insert cur spine \<union> set ?q) \<subseteq> ?R\<^sup>* `` (spine \<union> set (cur # queue))"
        unfolding q by (auto intro: converse_rtrancl_into_rtrancl)
      show "?R\<^sup>* `` (spine \<union> set (cur # queue)) \<subseteq> ?R\<^sup>* `` (insert cur spine \<union> set ?q)"
        unfolding q by auto
    qed
    finally show ?thesis .
  qed
qed

text \<open>The walk of the predecessors visits what the loops it has open reach.\<close>

lemma predWalk_set:
  "(\<And>x. x \<in> seen \<Longrightarrow> set g `` {x} \<subseteq> seen \<union> set todo) \<Longrightarrow>
   set (predWalk g seen out todo) = set out \<union> ((set g)\<^sup>* `` (seen \<union> set todo) - seen)"
proof (induction g seen out todo rule: predWalk.induct)
  case (1 g seen out)
  then have "set g `` seen \<subseteq> seen" by auto
  then show ?case by (simp add: Image_closed_trancl)
next
  case (2 g seen out p todo)
  show ?case
  proof (cases "p \<in> seen")
    case True
    then show ?thesis using 2(1) 2(3) by (simp add: insert_absorb)
  next
    case False
    let ?E = "set g"
    have s: "set (successors g p @ todo) = ?E `` {p} \<union> set todo" by (auto simp: set_successors)
    have closed: "?E `` {x} \<subseteq> insert p seen \<union> set (successors g p @ todo)" if "x \<in> insert p seen" for x
      using that 2(3) [of x] unfolding s by auto
    have reach: "?E\<^sup>* `` (insert p seen \<union> set (successors g p @ todo)) = ?E\<^sup>* `` (seen \<union> set (p # todo))"
      unfolding s by (auto intro: converse_rtrancl_into_rtrancl)
    have "p \<in> ?E\<^sup>* `` (seen \<union> set (p # todo))" by auto
    then show ?thesis using False 2(2) [OF False closed] unfolding reach by auto
  qed
qed

lemma predWalk_distinct: "distinct out \<Longrightarrow> set out \<subseteq> seen \<Longrightarrow> distinct (predWalk g seen out todo)"
  by (induction g seen out todo rule: predWalk.induct) auto

lemma push_trancl:
  assumes closed: "\<And>x. x \<in> v \<Longrightarrow> E `` {x} \<subseteq> v \<or> x \<in> insert n Q"
  shows "v \<union> E `` {n} \<union> E\<^sup>+ `` (Q \<union> (E `` {n} - v)) = v \<union> E\<^sup>+ `` insert n Q" (is "?l = ?r")
proof
  have "E `` {n} \<subseteq> E\<^sup>+ `` {n}" by auto
  moreover have "E\<^sup>+ `` (E `` {n}) \<subseteq> E\<^sup>+ `` {n}" by (auto intro: trancl_into_trancl2)
  ultimately show "?l \<subseteq> ?r" by blast
next
  have out: "y \<in> ?l" if "(x, y) \<in> E\<^sup>+" "x \<in> v \<union> E `` {n} \<union> insert n Q" for x y using that
  proof (induction rule: converse_trancl_induct)
    case (base x)
    then show ?case using closed [of x] by auto
  next
    case (step x z)
    have xy: "(x, y) \<in> E\<^sup>+" using step(1,2) by (rule trancl_into_trancl2)
    consider "x \<in> Q \<union> (E `` {n} - v)" | "x = n" | "x \<in> v" "E `` {x} \<subseteq> v" using step(4) closed [of x] by blast
    then show ?case
    proof cases
      case 1 then show ?thesis using xy by blast
    next
      case 2 then show ?thesis using step(1,3) by blast
    next
      case 3 then show ?thesis using step(1,3) by blast
    qed
  qed
  show "?r \<subseteq> ?l" using out by blast
qed

lemma reachLoop_closure:
  "(\<And>x. x \<in> reachable \<Longrightarrow> set g `` {x} \<subseteq> reachable \<or> x \<in> set queue) \<Longrightarrow>
   reachLoop g reachable queue = reachable \<union> (set g)\<^sup>+ `` set queue"
proof (induction g reachable queue rule: reachLoop.induct)
  case (2 g v n q)
  obtain v' q' where p: "pushAll (successors g n) v q = (v', q')" by (cases "pushAll (successors g n) v q")
  have v': "v' = v \<union> set g `` {n}" using pushAll_visited [of "successors g n" v q] by (simp add: p image_successors)
  have q': "set q' = set q \<union> (set g `` {n} - v)" using pushAll_queue [of "successors g n" v q] by (simp add: p image_successors)
  have old: "set g `` {x} \<subseteq> v \<or> x \<in> insert n (set q)" if "x \<in> v" for x using 2(2) [OF that] by simp
  then have closed: "set g `` {x} \<subseteq> v' \<or> x \<in> set q'" if "x \<in> v'" for x using that unfolding v' q' by blast
  have "reachLoop g v (n # q) = v' \<union> (set g)\<^sup>+ `` set q'" using 2(1) [OF p [symmetric] closed] by (simp add: p)
  also have "\<dots> = v \<union> (set g)\<^sup>+ `` set (n # q)" unfolding v' q' using push_trancl [of v "set g" n "set q", OF old] by simp
  finally show ?case .
qed simp

section \<open>Distances\<close>

definition exact :: "'a graph \<Rightarrow> 'a \<Rightarrow> 'a \<Rightarrow> nat \<Rightarrow> bool" where
  "exact g s x n \<longleftrightarrow> (s, x) \<in> set g ^^ n \<and> (\<forall>m<n. (s, x) \<notin> set g ^^ m)"

lemma exact_unique: "exact g s x m \<Longrightarrow> exact g s x n \<Longrightarrow> m = n"
  by (metis exact_def linorder_neqE_nat)

lemma exact_exists: "(s, x) \<in> set g ^^ n \<Longrightarrow> \<exists>m\<le>n. exact g s x m"
  unfolding exact_def using exists_least_iff [of "\<lambda>m. (s, x) \<in> set g ^^ m"] by (metis leI)

text \<open>The state of the search: every table entry is exact and the queue is in order of distance.\<close>

definition bfs :: "string graph \<Rightarrow> string \<Rightarrow> (string \<rightharpoonup> nat) \<Rightarrow> string list \<Rightarrow> bool" where
  "bfs g s dists queue \<longleftrightarrow>
     dists s = Some 0 \<and> (\<forall>x n. dists x = Some n \<longrightarrow> exact g s x n) \<and>
     (\<forall>x\<in>dom dists - set queue. set g `` {x} \<subseteq> dom dists) \<and> set queue \<subseteq> dom dists \<and>
     sorted (map (the \<circ> dists) queue) \<and> (\<forall>x\<in>set queue. the (dists x) \<le> Suc (the (dists (hd queue))))"

lemma exact_pred:
  assumes "exact g s x (Suc k)" shows "\<exists>y. exact g s y k \<and> (y, x) \<in> set g"
proof -
  from assms have short: "\<forall>j<Suc k. (s, x) \<notin> set g ^^ j" and "(s, x) \<in> set g ^^ Suc k" by (simp_all add: exact_def)
  from this(2) obtain y where y: "(s, y) \<in> set g ^^ k" "(y, x) \<in> set g" by (rule relpow_Suc_E)
  from exact_exists [OF y(1)] obtain m where m: "m \<le> k" "exact g s y m" by blast
  then have "(s, y) \<in> set g ^^ m" by (simp add: exact_def)
  then have "(s, x) \<in> set g ^^ Suc m" using y(2) by (rule relpow_Suc_I)
  then have "\<not> Suc m < Suc k" using short by blast
  then have "m = k" using m(1) by simp
  then show ?thesis using m(2) y(2) by blast
qed

lemma bfsD:
  assumes "bfs g s dists queue"
  shows "dists s = Some 0" and "dists x = Some n \<Longrightarrow> exact g s x n"
    and "x \<in> dom dists \<Longrightarrow> x \<notin> set queue \<Longrightarrow> (x, y) \<in> set g \<Longrightarrow> y \<in> dom dists" and "set queue \<subseteq> dom dists"
    and "sorted (map (the \<circ> dists) queue)" and "x \<in> set queue \<Longrightarrow> the (dists x) \<le> Suc (the (dists (hd queue)))"
  using assms unfolding bfs_def by blast+

lemma bfs_below:
  assumes "bfs g s dists queue"
  shows "exact g s x k \<Longrightarrow> \<forall>q\<in>set queue. k \<le> the (dists q) \<Longrightarrow> dists x = Some k"
proof (induction k arbitrary: x)
  case 0
  then have "x = s" by (simp add: exact_def)
  then show ?case using bfsD(1) [OF assms] by simp
next
  case (Suc k)
  from exact_pred [OF Suc.prems(1)] obtain y where y: "exact g s y k" "(y, x) \<in> set g" by blast
  have d: "dists y = Some k" by (rule Suc.IH [OF y(1)]) (use Suc.prems(2) in auto)
  have "y \<notin> set queue"
  proof
    assume "y \<in> set queue"
    with Suc.prems(2) have "Suc k \<le> the (dists y)" by blast
    then show False using d by simp
  qed
  then have "x \<in> dom dists" using bfsD(3) [OF assms _ _ y(2)] d by blast
  then obtain j where j: "dists x = Some j" by blast
  then have "j = Suc k" using bfsD(2) [OF assms j] exact_unique Suc.prems(1) by metis
  then show ?case using j by simp
qed

lemma distPush_found: "distPush target d ns dists queue = Inl d' \<Longrightarrow> d' = d \<and> target \<in> set ns \<and> dists target = None"
  by (induction target d ns dists queue rule: distPush.induct) (auto split: if_splits)

lemma distPush_pushed:
  "distPush target d ns dists queue = Inr (dists', queue') \<Longrightarrow>
   dists' = (\<lambda>x. if dists x = None \<and> x \<in> set ns then Some d else dists x) \<and>
   (\<exists>new. queue' = queue @ new \<and> set new = set ns - dom dists) \<and> (target \<in> set ns \<longrightarrow> target \<in> dom dists)"
proof (induction target d ns dists queue rule: distPush.induct)
  case (2 target d n ns dists queue)
  show ?case
  proof (cases "dists n")
    case (Some m)
    then show ?thesis using 2(1) 2(3) by (auto simp: fun_eq_iff)
  next
    case None
    with 2(3) have ne: "n \<noteq> target" by (auto split: if_splits)
    with None 2(3) have "distPush target d ns (dists(n \<mapsto> d)) (queue @ [n]) = Inr (dists', queue')" by simp
    with 2(2) None ne obtain new where "dists' = (\<lambda>x. if (dists(n \<mapsto> d)) x = None \<and> x \<in> set ns then Some d else (dists(n \<mapsto> d)) x)"
      "queue' = (queue @ [n]) @ new" "set new = set ns - dom (dists(n \<mapsto> d))" "target \<in> set ns \<longrightarrow> target \<in> dom (dists(n \<mapsto> d))" by blast
    then show ?thesis using None ne by (auto simp: fun_eq_iff intro!: exI [of _ "n # new"])
  qed
qed auto

lemma bfs_new:
  assumes "bfs g s dists (cur # queue)" and "(cur, n) \<in> set g" and "dists n = None"
  shows "exact g s n (Suc (the (dists cur)))"
proof -
  let ?d = "the (dists cur)"
  have "cur \<in> dom dists" using bfsD(4) [OF assms(1)] by simp
  then have "exact g s cur ?d" using bfsD(2) [OF assms(1)] by auto
  then have "(s, cur) \<in> set g ^^ ?d" by (simp add: exact_def)
  then have "(s, n) \<in> set g ^^ Suc ?d" using assms(2) by (rule relpow_Suc_I)
  from exact_exists [OF this] obtain m where m: "m \<le> Suc ?d" "exact g s n m" by blast
  have "\<not> m \<le> ?d"
  proof
    assume "m \<le> ?d"
    moreover have "\<forall>q\<in>set queue. ?d \<le> the (dists q)" using bfsD(5) [OF assms(1)] by simp
    ultimately have "\<forall>q\<in>set (cur # queue). m \<le> the (dists q)" by auto
    from bfs_below [OF assms(1) m(2) this] show False using assms(3) by simp
  qed
  then have "m = Suc ?d" using m(1) by simp
  then show ?thesis using m(2) by simp
qed

lemma bfs_step:
  assumes "bfs g s dists (cur # queue)"
    and "distPush target (the (dists cur) + 1) (successors g cur) dists queue = Inr (dists', queue')"
  shows "bfs g s dists' queue'"
proof -
  let ?d = "the (dists cur)"
  note inv = bfsD [OF assms(1)]
  from distPush_pushed [OF assms(2)] obtain new where d': "dists' = (\<lambda>x. if dists x = None \<and> (cur, x) \<in> set g then Some (Suc ?d) else dists x)"
    and q': "queue' = queue @ new" and new: "set new = {x. (cur, x) \<in> set g} - dom dists"
    unfolding set_successors Suc_eq_plus1 [symmetric] mem_Collect_eq by blast
  have keep: "dists x \<noteq> None \<Longrightarrow> dists' x = dists x" for x by (simp add: d')
  have fresh: "x \<in> set new \<Longrightarrow> dists' x = Some (Suc ?d)" for x using new by (auto simp: d')
  have dom: "dom dists' = dom dists \<union> set new" using new by (auto simp: d' split: if_splits)
  have old: "the (dists' x) = the (dists x)" if "x \<in> set queue" for x using inv(4) that keep by auto
  have low: "?d \<le> the (dists x)" "the (dists x) \<le> Suc ?d" if "x \<in> set queue" for x
    using inv(5) inv(6) [of x] that by auto
  have "dists' s = Some 0" using inv(1) keep by simp
  moreover have "exact g s x n" if "dists' x = Some n" for x n
    using that inv(2) bfs_new [OF assms(1)] by (auto simp: d' split: if_splits)
  moreover have "y \<in> dom dists'" if "x \<in> dom dists' - set queue'" "(x, y) \<in> set g" for x y
  proof (cases "x = cur")
    case True
    then show ?thesis using that(2) new dom by auto
  next
    case False
    then show ?thesis using that inv(3) [of x y] unfolding dom q' by auto
  qed
  moreover have "set queue' \<subseteq> dom dists'" using inv(4) by (auto simp: dom q')
  moreover have "sorted (map (the \<circ> dists') queue')"
  proof -
    have "sorted (map (the \<circ> dists') queue)" using inv(5) old by (simp cong: map_cong)
    moreover have "map (the \<circ> dists') new = replicate (length new) (Suc ?d)" using fresh by (induction new) auto
    ultimately show ?thesis using low old by (auto simp: q' sorted_append)
  qed
  moreover have "the (dists' x) \<le> Suc (the (dists' (hd queue')))" if x: "x \<in> set queue'" for x
  proof -
    have up: "?d \<le> the (dists' z) \<and> the (dists' z) \<le> Suc ?d" if "z \<in> set queue'" for z
      using that low old fresh by (auto simp: q')
    have "hd queue' \<in> set queue'" using x by (cases queue') auto
    with up [OF x] up [of "hd queue'"] show ?thesis by linarith
  qed
  ultimately show ?thesis unfolding bfs_def by blast
qed

lemma distLoop_exact:
  "bfs g s dists queue \<Longrightarrow> dists target = None \<Longrightarrow>
   (distLoop g target dists queue = -1 \<and> (s, target) \<notin> (set g)\<^sup>*) \<or>
   (\<exists>n. distLoop g target dists queue = int n \<and> exact g s target n)"
proof (induction g target dists queue rule: distLoop.induct)
  case (1 g target dists)
  note inv = bfsD [OF 1(1)]
  have "target \<in> dom dists" if "(s, target) \<in> (set g)\<^sup>*"
    using that by (induction rule: rtrancl_induct) (use inv(1) inv(3) in auto)
  then show ?case using 1(2) by auto
next
  case (2 g target dists cur queue)
  show ?case
  proof (cases "distPush target (the (dists cur) + 1) (successors g cur) dists queue")
    case (Inl d)
    from distPush_found [OF this] have "d = Suc (the (dists cur))" "(cur, target) \<in> set g" by (simp_all add: set_successors)
    then show ?thesis using bfs_new [OF 2(2) _ 2(3)] Inl by (intro disjI2 exI [of _ d]) simp
  next
    case (Inr p)
    obtain dists' queue' where p: "p = (dists', queue')" by (cases p)
    note push = Inr [unfolded p]
    have "dists' target = None" using distPush_pushed [OF push] 2(3) by (auto split: if_splits)
    from 2(1) [OF Inr p [symmetric] bfs_step [OF 2(2) push] this] show ?thesis by (simp add: push [simplified])
  qed
qed

lemma distLoop_seen: "dists target \<noteq> None \<Longrightarrow> distLoop g target dists queue = -1"
proof (induction g target dists queue rule: distLoop.induct)
  case (2 g target dists cur queue)
  show ?case
  proof (cases "distPush target (the (dists cur) + 1) (successors g cur) dists queue")
    case (Inl d)
    from distPush_found [OF this] 2(2) show ?thesis by simp
  next
    case (Inr p)
    obtain dists' queue' where p: "p = (dists', queue')" by (cases p)
    note push = Inr [unfolded p]
    have "dists' target \<noteq> None" using distPush_pushed [OF push] 2(2) by auto
    from 2(1) [OF Inr p [symmetric] this] show ?thesis by (simp add: push [simplified])
  qed
qed simp

lemma forwardDistance_exact:
  assumes "a \<noteq> []" "b \<noteq> []" "a \<noteq> b"
  shows "(forwardDistance edges a b = -1 \<and> (a, b) \<notin> (set (distanceGraph edges))\<^sup>*) \<or>
    (\<exists>n. forwardDistance edges a b = int n \<and> exact (distanceGraph edges) a b n)"
proof -
  have "bfs (distanceGraph edges) a [a \<mapsto> 0] [a]" by (simp add: bfs_def exact_def)
  from distLoop_exact [OF this, of b] assms show ?thesis by (simp add: forwardDistance_def)
qed



section \<open>The back edge\<close>

definition anchor :: "FlowEdge list \<Rightarrow> FlowEdge \<Rightarrow> bool" where
  "anchor edges e \<longleftrightarrow> isContinueBackEdge e \<and> fe_To e \<noteq> '''' \<and> TrimSpace (fe_From e) \<notin> set (phaseHubs edges)"

definition gap :: "FlowEdge list \<Rightarrow> string \<Rightarrow> FlowEdge \<Rightarrow> int" where
  "gap edges fromID e = forwardDistance edges (TrimSpace (fe_From e)) fromID"

lemma nearestAnchor_step:
  "nearestAnchor edges fromID (e # rest) bestTarget bestDist =
     (if anchor edges e \<and> TrimSpace (fe_From e) \<noteq> fromID \<and> gap edges fromID e \<ge> 0 \<and> (bestDist < 0 \<or> gap edges fromID e < bestDist)
      then nearestAnchor edges fromID rest (fe_To e) (gap edges fromID e)
      else nearestAnchor edges fromID rest bestTarget bestDist)"
  by (auto simp: anchor_def gap_def Let_def)

lemma nearestAnchor_min:
  "nearestAnchor edges fromID l bestTarget bestDist = (t, d) \<Longrightarrow>
   (0 \<le> bestDist \<longrightarrow> 0 \<le> d \<and> d \<le> bestDist) \<and>
   (\<forall>e\<in>set l. anchor edges e \<and> TrimSpace (fe_From e) \<noteq> fromID \<and> 0 \<le> gap edges fromID e \<longrightarrow> 0 \<le> d \<and> d \<le> gap edges fromID e) \<and>
   (t = bestTarget \<and> d = bestDist \<or>
    (\<exists>e\<in>set l. anchor edges e \<and> TrimSpace (fe_From e) \<noteq> fromID \<and> t = fe_To e \<and> d = gap edges fromID e \<and> 0 \<le> d))"
proof (induction l arbitrary: bestTarget bestDist)
  case (Cons e l)
  show ?case
  proof (cases "anchor edges e \<and> TrimSpace (fe_From e) \<noteq> fromID \<and> gap edges fromID e \<ge> 0 \<and> (bestDist < 0 \<or> gap edges fromID e < bestDist)")
    case True
    with Cons.prems have "nearestAnchor edges fromID l (fe_To e) (gap edges fromID e) = (t, d)"
      unfolding nearestAnchor_step by simp
    from Cons.IH [OF this] True show ?thesis by auto
  next
    case False
    with Cons.prems have "nearestAnchor edges fromID l bestTarget bestDist = (t, d)"
      unfolding nearestAnchor_step by simp
    from Cons.IH [OF this] False show ?thesis by force
  qed
qed simp

lemma find_None: "find P xs = None \<Longrightarrow> x \<in> set xs \<Longrightarrow> \<not> P x"
  by (simp add: find_None_iff)

text \<open>
  C28: A continue signal of a node without a back edge of its own re-enters at a nearest anchor: when
  some anchor reaches the node over forward edges, the target is that of an anchor from which the
  node is no more edges away than from any other.
\<close>

theorem continue_takes_nearest_anchor:
  assumes "TrimSpace from \<noteq> ''''"
    and "\<forall>e\<in>set edges. isContinueBackEdge e \<and> fe_To e \<noteq> '''' \<longrightarrow> TrimSpace (fe_From e) \<noteq> TrimSpace from"
    and "a \<in> set edges" and "anchor edges a" and "TrimSpace (fe_From a) \<noteq> ''''"
    and "(TrimSpace (fe_From a), TrimSpace from) \<in> (set (distanceGraph edges))\<^sup>*"
  shows "\<exists>e n. e \<in> set edges \<and> anchor edges e \<and> resolveContinueBackEdgeTarget edges from = Some (fe_To e) \<and>
    (TrimSpace (fe_From e), TrimSpace from) \<in> set (distanceGraph edges) ^^ n \<and>
    (\<forall>b\<in>set edges. anchor edges b \<and> TrimSpace (fe_From b) \<noteq> '''' \<longrightarrow>
       (\<forall>m<n. (TrimSpace (fe_From b), TrimSpace from) \<notin> set (distanceGraph edges) ^^ m))"
proof -
  let ?f = "TrimSpace from" and ?g = "gap edges (TrimSpace from)"
  have other: "TrimSpace (fe_From e) \<noteq> ?f" if "e \<in> set edges" "anchor edges e" for e
    using assms(2) that by (auto simp: anchor_def)
  obtain t d where td: "nearestAnchor edges ?f edges '''' (-1) = (t, d)" by fastforce
  note min = nearestAnchor_min [OF td]
  have exact: "(?g e = -1 \<and> (TrimSpace (fe_From e), ?f) \<notin> (set (distanceGraph edges))\<^sup>*) \<or>
      (\<exists>n. ?g e = int n \<and> exact (distanceGraph edges) (TrimSpace (fe_From e)) ?f n)"
    if "e \<in> set edges" "anchor edges e" "TrimSpace (fe_From e) \<noteq> ''''" for e
    using forwardDistance_exact [OF that(3) assms(1) other [OF that(1,2)]] by (simp add: gap_def)
  have "0 \<le> ?g a" using exact [OF assms(3-5)] assms(6) by auto
  then have "0 \<le> d" using min assms(3,4) other [OF assms(3,4)] by blast
  then obtain e where e: "e \<in> set edges" "anchor edges e" "t = fe_To e" "d = ?g e" using min by auto
  have src: "TrimSpace (fe_From e) \<noteq> ''''" using e(4) \<open>0 \<le> d\<close> by (auto simp: gap_def forwardDistance_def)
  from exact [OF e(1,2) src] e(4) \<open>0 \<le> d\<close> obtain n where n: "d = int n" "exact (distanceGraph edges) (TrimSpace (fe_From e)) ?f n" by auto
  have "find (\<lambda>e. isContinueBackEdge e \<and> fe_To e \<noteq> '''' \<and> TrimSpace (fe_From e) = ?f) edges = None"
    using assms(2) by (auto simp: find_None_iff)
  then have "resolveContinueBackEdgeTarget edges from = Some (fe_To e)"
    using assms(1) td \<open>0 \<le> d\<close> e(3) by (simp add: resolveContinueBackEdgeTarget_def Let_def)
  moreover have "(TrimSpace (fe_From b), ?f) \<notin> set (distanceGraph edges) ^^ m"
    if b: "b \<in> set edges" "anchor edges b" "TrimSpace (fe_From b) \<noteq> ''''" and m: "m < n" for b m
  proof
    assume p: "(TrimSpace (fe_From b), ?f) \<in> set (distanceGraph edges) ^^ m"
    from exact_exists [OF p] obtain j where j: "j \<le> m" "exact (distanceGraph edges) (TrimSpace (fe_From b)) ?f j" by blast
    have "(TrimSpace (fe_From b), ?f) \<in> (set (distanceGraph edges))\<^sup>*" using p by (rule relpow_imp_rtrancl)
    with exact [OF b] obtain k where k: "?g b = int k" "exact (distanceGraph edges) (TrimSpace (fe_From b)) ?f k" by auto
    have "k = j" using k(2) j(2) by (rule exact_unique)
    moreover have "d \<le> ?g b" using min b k(1) other [OF b(1,2)] by auto
    ultimately show False using k(1) n(1) j(1) m by simp
  qed
  ultimately show ?thesis using e(1,2) n(2) by (auto simp: exact_def)
qed

section \<open>Entry nodes\<close>

lemma lower_C5: "lower_char (CHR 0xC5) = CHR 0xC5"
  by (simp add: lower_char_def less_eq_char_def)

lemma ToLower_pair:
  "ToLower (c # d # ds) =
     (if c = CHR 0xC4 \<and> d = CHR 0xB0 then CHR ''i'' # ToLower ds
      else if c = CHR 0xE2 \<and> d = CHR 0x84 \<and> ds \<noteq> [] \<and> hd ds = CHR 0xAA then CHR ''k'' # ToLower (tl ds)
      else lower_char c # ToLower (d # ds))"
  by (subst ToLower.simps(2)) (cases ds; simp del: ToLower.simps)

lemma foldCase_pair:
  "foldCase (c # d # ds) =
     (if c = CHR 0xC5 \<and> d = CHR 0xBF then CHR ''s'' # foldCase ds
      else if c = CHR 0xE2 \<and> d = CHR 0x84 \<and> ds \<noteq> [] \<and> hd ds = CHR 0xAA then CHR ''k'' # foldCase (tl ds)
      else lower_char c # foldCase (d # ds))"
  by (subst foldCase.simps(2)) (cases ds; simp del: foldCase.simps)

text \<open>Where the lower case is ASCII without an \<open>i\<close>, it is the fold.\<close>

lemma fold_lower:
  "CHR ''i'' \<notin> set (ToLower x) \<Longrightarrow> CHR 0xC5 \<notin> set (ToLower x) \<Longrightarrow> foldCase x = ToLower x"
proof (induction x rule: length_induct)
  case (1 x)
  have IH: "foldCase ys = ToLower ys" if "length ys < length x" "set (ToLower ys) \<subseteq> set (ToLower x)" for ys
    using 1 that by blast
  consider "x = []" | c where "x = [c]" | c d ds where "x = c # d # ds" by (metis list.exhaust)
  then show ?case
  proof cases
    case (3 c d ds)
    have i: "\<not> (c = CHR 0xC4 \<and> d = CHR 0xB0)" using 1(2) 3 by (auto simp: ToLower_pair simp del: ToLower.simps)
    then have s: "\<not> (c = CHR 0xC5 \<and> d = CHR 0xBF)" using 1(3) 3 by (auto simp: ToLower_pair lower_C5 simp del: ToLower.simps)
    show ?thesis
    proof (cases "c = CHR 0xE2 \<and> d = CHR 0x84 \<and> ds \<noteq> [] \<and> hd ds = CHR 0xAA")
      case True
      then have l: "ToLower x = CHR ''k'' # ToLower (tl ds)" and f: "foldCase x = CHR ''k'' # foldCase (tl ds)"
        by (simp_all add: 3 ToLower_pair foldCase_pair del: ToLower.simps foldCase.simps)
      have "set (ToLower (tl ds)) \<subseteq> set (ToLower x)" unfolding l by auto
      then have "foldCase (tl ds) = ToLower (tl ds)" by (rule IH [rotated]) (simp add: 3)
      then show ?thesis by (simp add: l f)
    next
      case False
      then have l: "ToLower x = lower_char c # ToLower (d # ds)" and f: "foldCase x = lower_char c # foldCase (d # ds)"
        unfolding 3 ToLower_pair foldCase_pair using i s by (auto simp del: ToLower.simps foldCase.simps)
      have "set (ToLower (d # ds)) \<subseteq> set (ToLower x)" unfolding l by auto
      then have "foldCase (d # ds) = ToLower (d # ds)" by (rule IH [rotated]) (simp add: 3)
      then show ?thesis by (simp add: l f del: ToLower.simps foldCase.simps)
    qed
  qed simp_all
qed

lemma fold_words [simp]: "foldCase ''forward'' = ''forward''" "foldCase ''back'' = ''back''" "foldCase ''done'' = ''done''"
  by (simp_all add: lower_char_def less_eq_char_def)

lemma kind_fold:
  assumes "ToLower k = ''forward'' \<or> ToLower k = ''back''"
  shows "EqualFold k ''forward'' \<or> EqualFold k ''back''"
proof -
  have "CHR ''i'' \<notin> set (ToLower k)" "CHR 0xC5 \<notin> set (ToLower k)" using assms by auto
  from fold_lower [OF this] assms show ?thesis unfolding EqualFold_def fold_words by metis
qed

lemma writer_not_entry:
  assumes "ValidateFlowSafetyTopology def = None" and "w \<in> set (writersOf def)"
  shows "w \<notin> set (entryNodeIDs def)"
proof -
  have "\<forall>w\<in>set (writersOf def). writerError def (freezesOf def) w = None"
    using assms by (auto simp: ValidateFlowSafetyTopology_def classifyWriterAndFreezeNodes_def split: if_splits sum.splits)
  with assms(2) have "writerError def (freezesOf def) w = None" by blast
  then show ?thesis unfolding writerError_def by (auto split: if_splits)
qed

text \<open>
  In a flow that validates and whose edges all name their kind, no entry node of the executor is
  a writer: the run never starts at a node that writes code.
\<close>

theorem writer_never_runtime_entry:
  assumes "ValidateFlowDefinition def = None" and "\<forall>e\<in>set (fl_Edges def). fe_Kind e \<noteq> ''''"
    and "n \<in> set (entryNodesNoDeps def)"
  shows "fn_ID n \<notin> set (writersOf def)"
proof
  assume w: "fn_ID n \<in> set (writersOf def)"
  then have "fn_ID n \<in> nodeIDSet def" by (auto simp: writersOf_def nodeIDSet_def)
  moreover have "fn_ID n \<notin> set (entryNodeIDs def)" using validate_parts(5) [OF assms(1)] w by (rule writer_not_entry)
  ultimately obtain e where e: "e \<in> set (fl_Edges def)" "\<not> isBackEdge e" "fe_To e = fn_ID n"
    by (auto simp: entryNodeIDs_def nodeIDSet_def)
  have "edgeError (fl_ID def) (nodeIDSet def) e = None" using validate_parts(4) [OF assms(1)] e(1) by (simp add: edges_ok)
  then have "ToLower (TrimSpace (fe_Kind e)) = ''forward'' \<or> ToLower (TrimSpace (fe_Kind e)) = ''back''"
    using assms(2) e(1) by (auto simp: edgeError_def split: if_splits)
  from kind_fold [OF this] have "isForwardEdge e" using e(2) by (simp add: isForwardEdge_def isBackEdge_def)
  then have "nodeHasIncomingForwardEdge (fl_Edges def) (fn_ID n)"
    using e by (auto simp: nodeHasIncomingForwardEdge_def list_ex_iff)
  then show False using assms(3) by (simp add: entryNodesNoDeps_def)
qed

lemma demo_blank_valid: "ValidateFlowDefinition (demo_flow '''') = None"
  by code_simp

text \<open>A flow whose freeze edge names no kind validates, and the executor starts at its writer.\<close>

theorem blank_kind_bypass:
  "ValidateFlowDefinition (demo_flow '''') = None \<and> writersOf (demo_flow '''') = [''coder''] \<and>
   map fn_ID (entryNodesNoDeps (demo_flow '''')) = [''freeze'', ''coder'']"
  by (intro conjI demo_blank_valid; code_simp)

theorem writer_never_runtime_entry_witness:
  "''freeze'' \<notin> set (writersOf (demo_flow ''forward''))"
proof -
  have "demo_node ''freeze'' ''contract.freeze'' \<in> set (entryNodesNoDeps (demo_flow ''forward''))" by code_simp
  from writer_never_runtime_entry [OF demo_valid _ this] show ?thesis by (simp add: demo_flow_def demo_edge_def demo_node_def)
qed

text \<open>
  The spine is what the done edges reach: a node is in \<open>spineNodeIDs\<close> iff a chain of forward
  done edges through declared nodes leads to it from an entry node.
\<close>

theorem spine_is_reachable:
  "spineNodeIDs nodes edges =
     {i. \<exists>n\<in>set nodes. fn_DependsOn n = [] \<and> \<not> nodeHasIncomingForwardEdge edges (fn_ID n) \<and>
         (fn_ID n, i) \<in> (done_step edges (map fn_ID nodes))\<^sup>*}"
  unfolding spineNodeIDs_def by (subst spineLoop_closure) auto

lemma predecessors_are_ancestors:
  assumes "TrimSpace start \<noteq> []"
  shows "set (flowForwardDonePredecessors edges start) = (set (doneIncoming edges))\<^sup>* `` {TrimSpace start} - {TrimSpace start}"
    and "distinct (flowForwardDonePredecessors edges start)"
proof -
  let ?g = "doneIncoming edges" and ?s = "TrimSpace start"
  have "set (predWalk ?g {?s} [] (successors ?g ?s)) = set [] \<union> ((set ?g)\<^sup>* `` ({?s} \<union> set (successors ?g ?s)) - {?s})"
    by (rule predWalk_set) (auto simp: set_successors)
  moreover have "(set ?g)\<^sup>* `` ({?s} \<union> set (successors ?g ?s)) = (set ?g)\<^sup>* `` {?s}"
    by (auto simp: set_successors intro: converse_rtrancl_into_rtrancl)
  ultimately show "set (flowForwardDonePredecessors edges start) = (set ?g)\<^sup>* `` {?s} - {?s}"
    using assms by (simp add: flowForwardDonePredecessors_def Let_def)
  show "distinct (flowForwardDonePredecessors edges start)"
    by (simp add: flowForwardDonePredecessors_def Let_def predWalk_distinct)
qed

text \<open>The nodes a new round resets; on a forward cycle the start is among them.\<close>

lemma reachable_closure:
  assumes "start \<noteq> []" shows "forwardReachableNodeIDs edges start = (set (reachGraph edges))\<^sup>+ `` {start}"
  using assms reachLoop_closure [of "{}" "reachGraph edges" "[start]"] by (simp add: forwardReachableNodeIDs_def)

lemma start_reachable_on_cycle:
  "''a'' \<in> forwardReachableNodeIDs [demo_edge ''a'' ''b'' ''done'' ''forward'', demo_edge ''b'' ''a'' ''done'' ''forward''] ''a''"
  by code_simp

definition demo_loop :: "FlowEdge list" where
  "demo_loop = [demo_edge ''coder'' ''review'' ''done'' ''forward'', demo_edge ''coder'' ''coder'' ''continue'' ''back'']"

theorem continue_takes_nearest_anchor_witness:
  "\<exists>e. e \<in> set demo_loop \<and> anchor demo_loop e \<and> resolveContinueBackEdgeTarget demo_loop ''review'' = Some (fe_To e)"
proof -
  let ?a = "demo_edge ''coder'' ''coder'' ''continue'' ''back''"
  have trim: "TrimSpace ''review'' = ''review''" "TrimSpace ''coder'' = ''coder''" by code_simp+
  have own: "\<forall>e\<in>set demo_loop. isContinueBackEdge e \<and> fe_To e \<noteq> [] \<longrightarrow> TrimSpace (fe_From e) \<noteq> TrimSpace ''review''"
    by code_simp
  have a: "anchor demo_loop ?a" unfolding anchor_def by code_simp
  have g: "distanceGraph demo_loop = [(''coder'', ''review'')]" by code_simp
  have "(TrimSpace (fe_From ?a), TrimSpace ''review'') \<in> (set (distanceGraph demo_loop))\<^sup>*"
    unfolding g by (auto simp: demo_edge_def trim)
  from continue_takes_nearest_anchor [OF _ own _ a _ this] show ?thesis
    by (auto simp: demo_loop_def demo_edge_def trim)
qed

end
