(* ===== verification/Flow_Steps.thy ===== *)
theory Flow_Steps
  imports Routing_Safety Workflow_Machine
begin

text \<open>
  The step timeline of a flow run: \<open>runner/flow_step_runtime.go\<close>, \<open>runner/step_transition_log.go\<close>,
  and the operations of \<open>flow_executor.go\<close> and \<open>interactive_service.go\<close> that settle it. The store
  is the local one, whose step writes cannot fail; appending to the transition log can, as
  \<open>en_append\<close> decides. One instant \<open>en_now\<close> stands for the clock of an operation.
\<close>

section \<open>State\<close>

record stepTransitionLine =
  sl_RunID :: string
  sl_NodeID :: string
  sl_Status :: string
  sl_Provider :: string
  sl_Model :: string
  sl_VibeSprintIndex :: int
  sl_TS :: string

record flowRun =
  fr_flowEngineDriven :: bool
  fr_activeFlowNodes :: "FlowNode list"
  fr_activeFlowEdges :: "FlowEdge list"
  fr_activeHubNodeID :: string
  fr_vibeSprintIndex :: int
  fr_transitionLogDegraded :: bool
  fr_transitionLogDegradedAt :: string
  fr_transitionLogDegradedReason :: string

record stepState =
  ss_runs :: "string \<rightharpoonup> flowRun"
  ss_store :: fakeWorkflowStore
  ss_log :: "string \<Rightarrow> stepTransitionLine list"

record stepEnv =
  en_now :: string
  en_quote :: "string \<Rightarrow> string"
  en_append :: "stepTransitionLine \<Rightarrow> string option"
  en_posture :: "FlowNode \<Rightarrow> string \<times> string"

fun status_text :: "RuntimeWorkflowStepStatus \<Rightarrow> string" where
  "status_text StepStatusPending = ''PENDING''"
| "status_text StepStatusRunning = ''RUNNING''"
| "status_text StepStatusWaitingUserApr = ''WAITING_USER_APPROVAL''"
| "status_text StepStatusCanceled = ''CANCELED''"
| "status_text StepStatusDone = ''DONE''"
| "status_text StepStatusFailed = ''FAILED''"
| "status_text StepStatusSkipped = ''SKIPPED''"
| "status_text (StepStatusOther x) = x"

definition status_of :: "string \<Rightarrow> RuntimeWorkflowStepStatus" where
  "status_of x =
     (if x = ''PENDING'' then StepStatusPending else if x = ''RUNNING'' then StepStatusRunning
      else if x = ''WAITING_USER_APPROVAL'' then StepStatusWaitingUserApr else if x = ''CANCELED'' then StepStatusCanceled
      else if x = ''DONE'' then StepStatusDone else if x = ''FAILED'' then StepStatusFailed
      else if x = ''SKIPPED'' then StepStatusSkipped else StepStatusOther x)"

definition noStatus :: RuntimeWorkflowStepStatus where
  "noStatus = StepStatusOther ''''"

definition flowEngineDrivenUnlocked :: "string \<Rightarrow> stepState \<Rightarrow> bool" where
  "flowEngineDrivenUnlocked runID s = (case ss_runs s runID of None \<Rightarrow> False | Some rs \<Rightarrow> fr_flowEngineDriven rs)"

definition markFlowEngineDriven :: "string \<Rightarrow> stepState \<Rightarrow> stepState" where
  "markFlowEngineDriven runID s =
     (case ss_runs s runID of None \<Rightarrow> s
      | Some rs \<Rightarrow> s\<lparr>ss_runs := (ss_runs s)(runID \<mapsto> rs\<lparr>fr_flowEngineDriven := True\<rparr>)\<rparr>)"

definition activeFlowNodesFor :: "string \<Rightarrow> stepState \<Rightarrow> FlowNode list" where
  "activeFlowNodesFor runID s = (case ss_runs s runID of None \<Rightarrow> [] | Some rs \<Rightarrow> fr_activeFlowNodes rs)"

definition activeFlowEdgesFor :: "string \<Rightarrow> stepState \<Rightarrow> FlowEdge list" where
  "activeFlowEdgesFor runID s = (case ss_runs s runID of None \<Rightarrow> [] | Some rs \<Rightarrow> fr_activeFlowEdges rs)"

definition activeHubNodeIDFor :: "string \<Rightarrow> stepState \<Rightarrow> string" where
  "activeHubNodeIDFor runID s = (case ss_runs s runID of None \<Rightarrow> '''' | Some rs \<Rightarrow> fr_activeHubNodeID rs)"

definition rowsOf :: "string \<Rightarrow> stepState \<Rightarrow> RuntimeWorkflowStep list" where
  "rowsOf runID s = LoadRunSteps runID (ss_store s)"

section \<open>Hub nodes\<close>

definition hubInlineNodeID :: "FlowNode list \<Rightarrow> string" where
  "hubInlineNodeID nodes =
     (case find (\<lambda>n. NormalizeBehaviorID (fn_Behavior n) = Some ''hub.inline'') nodes of None \<Rightarrow> '''' | Some n \<Rightarrow> fn_ID n)"

definition countHubInlineNodes :: "FlowNode list \<Rightarrow> nat" where
  "countHubInlineNodes nodes = length (filter (\<lambda>n. NormalizeBehaviorID (fn_Behavior n) = Some ''hub.inline'') nodes)"

definition hubNodeIDForCohortJoin :: "FlowNode list \<Rightarrow> FlowEdge list \<Rightarrow> string list \<Rightarrow> string option" where
  "hubNodeIDForCohortJoin nodes edges joinedNodeIDs =
     (if countHubInlineNodes nodes \<le> 1 then None
      else map_option (\<lambda>(i, e). TrimSpace (fe_To e))
        (find (\<lambda>(i, e). i \<noteq> '''' \<and> isForwardEdge e \<and> TrimSpace (fe_From e) = i \<and> isHubInline nodes (TrimSpace (fe_To e)))
          (List.product joinedNodeIDs edges)))"

definition zeroFlow :: FlowDefinition where
  "zeroFlow =
     \<lparr>fl_ID = [], fl_Version = [], fl_Description = [], fl_Mode = [],
      fl_Builtin = \<lparr>bm_Editable = False, bm_ChatBaseline = False, bm_SelectableIn = [], bm_ChatSubModes = [],
        bm_Cloneable = False, bm_Mirror = \<lparr>mi_Required = False, mi_Source = []\<rparr>,
        bm_ChatUI = \<lparr>cu_Placement = [], cu_ShowWhen = []\<rparr>\<rparr>,
      fl_Policy = \<lparr>po_Cap = 0, po_OnCap = [], po_ExtendBy = 0, po_ExtendMax = 0, po_StallTimeoutSec = 0, po_NegotiationCap = 0\<rparr>,
      fl_Tools = [], fl_Contexts = [], fl_Nodes = [], fl_Edges = [], fl_AcceptanceNodes = [], fl_ContextProfiles = []\<rparr>"

definition flowEntryNodeID :: "FlowNode list \<Rightarrow> string" where
  "flowEntryNodeID nodes =
     (case entryDelegateNodes (zeroFlow\<lparr>fl_Nodes := nodes\<rparr>) of [] \<Rightarrow> [] | n # _ \<Rightarrow> fn_ID n)"

section \<open>The transition log\<close>

definition markTransitionLogDegraded :: "stepEnv \<Rightarrow> string \<Rightarrow> string \<Rightarrow> string \<Rightarrow> string \<Rightarrow> stepState \<Rightarrow> stepState" where
  "markTransitionLogDegraded env runID nodeID status err s =
     (case ss_runs s runID of None \<Rightarrow> s
      | Some rs \<Rightarrow> s\<lparr>ss_runs := (ss_runs s)(runID \<mapsto> rs\<lparr>fr_transitionLogDegraded := True,
          fr_transitionLogDegradedAt := en_now env,
          fr_transitionLogDegradedReason := ''append node='' @ en_quote env nodeID @ '' status='' @ en_quote env status @ '': '' @ err\<rparr>)\<rparr>)"

definition appendStepTransitionLog ::
  "stepEnv \<Rightarrow> string \<Rightarrow> string \<Rightarrow> string \<Rightarrow> string \<Rightarrow> string \<Rightarrow> stepState \<Rightarrow> stepState" where
  "appendStepTransitionLog env runID nodeID status provider model s =
     (if runID = '''' \<or> nodeID = '''' then s
      else if \<not> flowEngineDrivenUnlocked runID s then s
      else let line = \<lparr>sl_RunID = runID, sl_NodeID = nodeID, sl_Status = status, sl_Provider = provider, sl_Model = model,
                       sl_VibeSprintIndex = (case ss_runs s runID of None \<Rightarrow> 0 | Some rs \<Rightarrow> fr_vibeSprintIndex rs),
                       sl_TS = en_now env\<rparr>
      in case en_append env line of
           None \<Rightarrow> s\<lparr>ss_log := (ss_log s)(runID := ss_log s runID @ [line])\<rparr>
         | Some err \<Rightarrow> markTransitionLogDegraded env runID nodeID status err s)"

section \<open>Step writes\<close>

definition statusPatch :: "string \<Rightarrow> RuntimeWorkflowStepStatus \<Rightarrow> WorkflowStepPatch" where
  "statusPatch now status =
     (let p = zeroPatch\<lparr>pt_Status := status\<rparr>
      in case status of
           StepStatusRunning \<Rightarrow> p\<lparr>pt_StartedAt := Some now, pt_FinishedAt := Some ''''\<rparr>
         | StepStatusDone \<Rightarrow> p\<lparr>pt_FinishedAt := Some now\<rparr>
         | StepStatusFailed \<Rightarrow> p\<lparr>pt_FinishedAt := Some now\<rparr>
         | StepStatusCanceled \<Rightarrow> p\<lparr>pt_FinishedAt := Some now\<rparr>
         | StepStatusSkipped \<Rightarrow> p\<lparr>pt_FinishedAt := Some now\<rparr>
         | StepStatusPending \<Rightarrow> p\<lparr>pt_StartedAt := Some '''', pt_FinishedAt := Some ''''\<rparr>
         | _ \<Rightarrow> p)"

definition applyPatch :: "string \<Rightarrow> string \<Rightarrow> WorkflowStepPatch \<Rightarrow> stepState \<Rightarrow> stepState" where
  "applyPatch runID nodeID p s =
     s\<lparr>ss_store := ApplyStepTransition runID \<lparr>tr_StepID = nodeID, tr_Patch = p, tr_Logs = []\<rparr> (ss_store s)\<rparr>"

definition setFlowStepStatusCore :: "stepEnv \<Rightarrow> string \<Rightarrow> string \<Rightarrow> RuntimeWorkflowStepStatus \<Rightarrow> stepState \<Rightarrow> stepState" where
  "setFlowStepStatusCore env runID nodeID status s =
     (if nodeID = '''' then s
      else appendStepTransitionLog env runID nodeID (status_text status) '''' ''''
             (applyPatch runID nodeID (statusPatch (en_now env) status) s))"

definition setFlowStepPosture :: "stepEnv \<Rightarrow> string \<Rightarrow> string \<Rightarrow> string \<Rightarrow> string \<Rightarrow> stepState \<Rightarrow> stepState" where
  "setFlowStepPosture env runID nodeID provider model s =
     (if nodeID = '''' then s
      else appendStepTransitionLog env runID nodeID '''' provider model
             (applyPatch runID nodeID (zeroPatch\<lparr>pt_Provider := Some provider, pt_Model := Some model\<rparr>) s))"

definition setFlowStepAwaitingUser :: "stepEnv \<Rightarrow> string \<Rightarrow> stepState \<Rightarrow> stepState" where
  "setFlowStepAwaitingUser env runID s =
     (let hubID = hubInlineNodeID (activeFlowNodesFor runID s); steps = rowsOf runID s
      in if \<not> flowEngineDrivenUnlocked runID s then s
         else if hubID \<noteq> '''' then setFlowStepStatusCore env runID hubID StepStatusWaitingUserApr s
         else if list_ex (\<lambda>st. st_Status st = StepStatusWaitingUserApr) steps then s
         else case find (\<lambda>st. st_Status st = StepStatusRunning) steps of
                Some st \<Rightarrow> setFlowStepStatusCore env runID (st_ID st) StepStatusWaitingUserApr s
              | None \<Rightarrow>
                  (case find (\<lambda>st. st_ID st = ''audit'') steps of
                     Some st \<Rightarrow> setFlowStepStatusCore env runID (st_ID st) StepStatusWaitingUserApr s
                   | None \<Rightarrow> s))"

definition lookupFlowStepStatus :: "string \<Rightarrow> string \<Rightarrow> stepState \<Rightarrow> RuntimeWorkflowStepStatus" where
  "lookupFlowStepStatus runID nodeID s =
     (if TrimSpace runID = '''' \<or> TrimSpace nodeID = '''' then noStatus
      else case find (\<lambda>st. st_ID st = nodeID \<or> st_NodeID st = nodeID) (rowsOf runID s) of
             None \<Rightarrow> noStatus | Some st \<Rightarrow> st_Status st)"

definition markForwardDonePredecessorsSkipped :: "stepEnv \<Rightarrow> string \<Rightarrow> FlowEdge list \<Rightarrow> string \<Rightarrow> stepState \<Rightarrow> stepState" where
  "markForwardDonePredecessorsSkipped env runID edges startID s =
     fold (\<lambda>i s. let st = lookupFlowStepStatus runID i s
                 in if st \<noteq> noStatus \<and> st \<noteq> StepStatusPending then s
                    else setFlowStepStatusCore env runID i StepStatusSkipped s)
       (flowForwardDonePredecessors edges startID) s"

section \<open>Seeding\<close>

definition zeroStep :: RuntimeWorkflowStep where
  "zeroStep =
     \<lparr>st_ID = '''', st_StepType = '''', st_Status = noStatus, st_RequiresApproval = False, st_StartedAt = '''',
      st_FinishedAt = '''', st_RetryCount = 0, st_RejectionNote = '''', st_BehaviorID = '''', st_NodeID = '''',
      st_AgentRef = '''', st_Provider = '''', st_Model = '''', st_YoloMode = False\<rparr>"

definition rowFromNode :: "stepEnv \<Rightarrow> RuntimeWorkflowStepStatus \<Rightarrow> string \<Rightarrow> FlowNode \<Rightarrow> RuntimeWorkflowStep" where
  "rowFromNode env status ts n =
     (let row = zeroStep\<lparr>st_ID := fn_ID n, st_StepType := fn_ID n, st_NodeID := fn_ID n,
            st_BehaviorID := (case NormalizeBehaviorID (fn_Behavior n) of None \<Rightarrow> '''' | Some c \<Rightarrow> c),
            st_AgentRef := flowNodeAgentName n, st_Status := status,
            st_Provider := fst (en_posture env n), st_Model := snd (en_posture env n)\<rparr>
      in if status = StepStatusDone then row\<lparr>st_StartedAt := ts, st_FinishedAt := ts\<rparr>
         else if status \<in> {StepStatusFailed, StepStatusSkipped, StepStatusCanceled} then row\<lparr>st_FinishedAt := ts\<rparr>
         else row)"

definition flowStepRowsFromNodes :: "stepEnv \<Rightarrow> FlowNode list \<Rightarrow> RuntimeWorkflowStepStatus \<Rightarrow> string \<Rightarrow> RuntimeWorkflowStep list" where
  "flowStepRowsFromNodes env nodes status ts = map (rowFromNode env status ts) nodes"

definition keepProgress :: "RuntimeWorkflowStep \<Rightarrow> RuntimeWorkflowStep \<Rightarrow> RuntimeWorkflowStep" where
  "keepProgress old row =
     row\<lparr>st_Status := st_Status old, st_StartedAt := st_StartedAt old, st_FinishedAt := st_FinishedAt old,
         st_RetryCount := st_RetryCount old, st_RejectionNote := st_RejectionNote old\<rparr>"

text \<open>A Go map built over a list: the last entry of a key wins.\<close>

definition lastRow :: "RuntimeWorkflowStep list \<Rightarrow> string \<rightharpoonup> RuntimeWorkflowStep" where
  "lastRow rows i = find (\<lambda>r. st_NodeID r = i) (rev rows)"

fun mergeExisting ::
  "RuntimeWorkflowStep list \<Rightarrow> string list \<Rightarrow> RuntimeWorkflowStep list \<Rightarrow> RuntimeWorkflowStep list" where
  "mergeExisting fresh seen [] = filter (\<lambda>r. st_NodeID r \<notin> set seen) fresh"
| "mergeExisting fresh seen (row # rows) =
     (if st_NodeID row = '''' \<or> st_NodeID row \<in> set seen then mergeExisting fresh seen rows
      else (case lastRow fresh (st_NodeID row) of None \<Rightarrow> row | Some r \<Rightarrow> r) # mergeExisting fresh (st_NodeID row # seen) rows)"

definition mergeReseedSteps :: "RuntimeWorkflowStep list \<Rightarrow> RuntimeWorkflowStep list \<Rightarrow> RuntimeWorkflowStep list" where
  "mergeReseedSteps existing fresh =
     (let prior = filter (\<lambda>r. st_NodeID r \<noteq> '''') existing
      in if prior = [] then fresh
         else mergeExisting (map (\<lambda>r. case lastRow prior (st_NodeID r) of None \<Rightarrow> r | Some old \<Rightarrow> keepProgress old r) fresh) [] existing)"

definition seed :: "string \<Rightarrow> RuntimeWorkflowStep list \<Rightarrow> stepState \<Rightarrow> stepState" where
  "seed runID rows s = s\<lparr>ss_store := (ss_store s)\<lparr>fw_steps := (fw_steps (ss_store s))(runID := rows)\<rparr>\<rparr>"

definition reseedFlowStepRuntime :: "stepEnv \<Rightarrow> string \<Rightarrow> FlowNode list \<Rightarrow> stepState \<Rightarrow> stepState" where
  "reseedFlowStepRuntime env runID nodes s =
     (if nodes = [] then s
      else seed runID (mergeReseedSteps (rowsOf runID s) (flowStepRowsFromNodes env nodes StepStatusPending '''')) s)"

definition seedFlowStepRuntimeRows :: "string \<Rightarrow> RuntimeWorkflowStep list \<Rightarrow> stepState \<Rightarrow> stepState" where
  "seedFlowStepRuntimeRows runID rows s = (if rows = [] then s else seed runID rows s)"

definition reseedFlowStepRuntimeForResume :: "stepEnv \<Rightarrow> string \<Rightarrow> FlowNode list \<Rightarrow> bool \<Rightarrow> stepState \<Rightarrow> stepState" where
  "reseedFlowStepRuntimeForResume env runID nodes completed s =
     seedFlowStepRuntimeRows runID
       (if completed then flowStepRowsFromNodes env nodes StepStatusDone (en_now env)
        else flowStepRowsFromNodes env nodes StepStatusPending '''') s"

section \<open>Sealing and restarting a round\<close>

fun statusByNode :: "RuntimeWorkflowStep list \<Rightarrow> string \<Rightarrow> RuntimeWorkflowStepStatus" where
  "statusByNode steps i = (case lastRow steps i of None \<Rightarrow> noStatus | Some r \<Rightarrow> st_Status r)"

definition unvisitedSpineNodes :: "string \<Rightarrow> stepState \<Rightarrow> string list" where
  "unvisitedSpineNodes runID s =
     (let nodes = activeFlowNodesFor runID s; spine = spineNodeIDs nodes (activeFlowEdgesFor runID s); steps = rowsOf runID s
      in if ss_runs s runID = None \<or> spine = {} \<or> steps = [] then []
         else map fn_ID (filter (\<lambda>n. fn_ID n \<in> spine \<and>
                statusByNode steps (fn_ID n) \<in> {StepStatusPending, StepStatusWaitingUserApr}) nodes))"

definition isTerminalStepStatus :: "RuntimeWorkflowStepStatus \<Rightarrow> bool" where
  "isTerminalStepStatus st \<longleftrightarrow> st \<in> {StepStatusDone, StepStatusFailed, StepStatusCanceled, StepStatusSkipped}"

text \<open>The settling loop of \<open>markFlowRunComplete\<close>, over the rows it loaded.\<close>

definition activeIDs :: "string \<Rightarrow> stepState \<Rightarrow> string list" where
  "activeIDs runID s = filter (\<lambda>i. i \<noteq> '''') (map (\<lambda>n. TrimSpace (fn_ID n)) (activeFlowNodesFor runID s))"

definition settleRow :: "stepEnv \<Rightarrow> string \<Rightarrow> string list \<Rightarrow> RuntimeWorkflowStep \<Rightarrow> stepState \<Rightarrow> stepState" where
  "settleRow env runID active st s =
     (if active \<noteq> [] \<and> st_ID st \<notin> set active \<and> st_NodeID st \<notin> set active then s
      else if isTerminalStepStatus (st_Status st) then s
      else if st_Status st = StepStatusPending then setFlowStepStatusCore env runID (st_ID st) StepStatusSkipped s
      else setFlowStepStatusCore env runID (st_ID st) StepStatusDone s)"

definition markFlowRunComplete :: "stepEnv \<Rightarrow> string \<Rightarrow> stepState \<Rightarrow> stepState" where
  "markFlowRunComplete env runID s =
     (let s1 = fold (settleRow env runID (activeIDs runID s)) (rowsOf runID s) s
      in s1\<lparr>ss_store := SetRunStatus runID RunStatusEngineDone (en_now env) (ss_store s1)\<rparr>)"

text \<open>The last guard of a done signal and the seal it protects; \<open>Inl\<close> names the unvisited nodes.\<close>

definition sealDone :: "stepEnv \<Rightarrow> bool \<Rightarrow> bool \<Rightarrow> string \<Rightarrow> stepState \<Rightarrow> string list + stepState" where
  "sealDone env agentInitiated viaEngineEdge runID s =
     (if (agentInitiated \<or> viaEngineEdge) \<and> flowEngineDrivenUnlocked runID s \<and> unvisitedSpineNodes runID s \<noteq> []
      then Inl (unvisitedSpineNodes runID s)
      else if flowEngineDrivenUnlocked runID s then Inr (markFlowRunComplete env runID s)
      else Inr s)"

definition isVibeLockNode :: "string \<Rightarrow> bool" where
  "isVibeLockNode i \<longleftrightarrow> i = ''ss_lock'' \<or> i = ''cp_lock''"

text \<open>The reset of the timeline when a continue signal starts a new round.\<close>

definition reentryNode :: "string \<Rightarrow> stepState \<Rightarrow> string" where
  "reentryNode runID s =
     (let nodes = activeFlowNodesFor runID s; hub = activeHubNodeIDFor runID s
      in case resolveContinueBackEdgeTarget (activeFlowEdgesFor runID s) (if hub = '''' then hubInlineNodeID nodes else hub) of
           Some i \<Rightarrow> i | None \<Rightarrow> flowEntryNodeID nodes)"

definition resetRound :: "stepEnv \<Rightarrow> string \<Rightarrow> stepState \<Rightarrow> stepState" where
  "resetRound env runID s =
     (let nodes = activeFlowNodesFor runID s; edges = activeFlowEdgesFor runID s; reentryID = reentryNode runID s;
          resetIDs = (if edges = [] then {} else forwardReachableNodeIDs edges reentryID)
      in if \<not> flowEngineDrivenUnlocked runID s \<or> reentryID = '''' then s
         else setFlowStepStatusCore env runID reentryID StepStatusRunning
           (fold (\<lambda>n s. if fn_ID n = reentryID \<or> isVibeLockNode (fn_ID n) then s
                        else if edges = [] \<or> fn_ID n \<in> resetIDs then setFlowStepStatusCore env runID (fn_ID n) StepStatusPending s
                        else s) nodes s))"

section \<open>Replaying the log\<close>

record lastLine =
  ll_status :: string
  ll_provider :: string
  ll_model :: string
  ll_ts :: string

definition zeroLast :: lastLine where
  "zeroLast = \<lparr>ll_status = '''', ll_provider = '''', ll_model = '''', ll_ts = ''''\<rparr>"

definition orKeep :: "string \<Rightarrow> string \<Rightarrow> string" where
  "orKeep new old = (if TrimSpace new \<noteq> '''' then TrimSpace new else old)"

definition absorbStatus :: "string \<Rightarrow> string \<Rightarrow> string" where
  "absorbStatus st cur =
     (if st = '''' then cur
      else if isTerminalStepStatus (status_of cur) then (if st = cur then st else cur)
      else if (cur = ''FAILED'' \<or> cur = ''CANCELED'') \<and> st = ''DONE'' then cur
      else st)"

definition absorb :: "stepTransitionLine \<Rightarrow> lastLine \<Rightarrow> lastLine" where
  "absorb l cur =
     \<lparr>ll_status = absorbStatus (TrimSpace (sl_Status l)) (ll_status cur), ll_provider = orKeep (sl_Provider l) (ll_provider cur),
      ll_model = orKeep (sl_Model l) (ll_model cur), ll_ts = orKeep (sl_TS l) (ll_ts cur)\<rparr>"

text \<open>The entry of a node in \<open>lastByNode\<close>.\<close>

definition replayed :: "int \<Rightarrow> string \<Rightarrow> stepTransitionLine \<Rightarrow> bool" where
  "replayed currentSprint nodeID l \<longleftrightarrow>
     \<not> (currentSprint > 1 \<and> sl_VibeSprintIndex l \<noteq> currentSprint) \<and> TrimSpace (sl_NodeID l) \<noteq> '''' \<and> TrimSpace (sl_NodeID l) = nodeID"

definition lastByNode :: "int \<Rightarrow> stepTransitionLine list \<Rightarrow> string \<Rightarrow> lastLine option" where
  "lastByNode currentSprint lines nodeID =
     (let ls = filter (replayed currentSprint nodeID) lines in if ls = [] then None else Some (fold absorb ls zeroLast))"

definition restartStatus :: "string set \<Rightarrow> string \<Rightarrow> RuntimeWorkflowStepStatus \<Rightarrow> RuntimeWorkflowStepStatus" where
  "restartStatus keep nodeID status =
     (if status = StepStatusRunning then StepStatusCanceled
      else if status = StepStatusWaitingUserApr \<and> nodeID \<notin> keep then StepStatusCanceled
      else status)"

definition stampRow :: "string \<Rightarrow> RuntimeWorkflowStep \<Rightarrow> RuntimeWorkflowStep" where
  "stampRow stamp row =
     (let started = (if st_StartedAt row = '''' then stamp else st_StartedAt row)
      in case st_Status row of
           StepStatusDone \<Rightarrow> row\<lparr>st_StartedAt := started, st_FinishedAt := stamp\<rparr>
         | StepStatusFailed \<Rightarrow> row\<lparr>st_FinishedAt := stamp\<rparr>
         | StepStatusCanceled \<Rightarrow> row\<lparr>st_FinishedAt := stamp\<rparr>
         | StepStatusSkipped \<Rightarrow> row\<lparr>st_FinishedAt := stamp\<rparr>
         | StepStatusRunning \<Rightarrow> row\<lparr>st_StartedAt := started, st_FinishedAt := ''''\<rparr>
         | StepStatusWaitingUserApr \<Rightarrow> row\<lparr>st_StartedAt := started, st_FinishedAt := ''''\<rparr>
         | StepStatusPending \<Rightarrow> row\<lparr>st_StartedAt := '''', st_FinishedAt := ''''\<rparr>
         | _ \<Rightarrow> row)"

definition replayRow :: "string \<Rightarrow> string set \<Rightarrow> lastLine \<Rightarrow> RuntimeWorkflowStep \<Rightarrow> RuntimeWorkflowStep" where
  "replayRow now keep cur row =
     (let posture = row\<lparr>st_Provider := (if ll_provider cur \<noteq> '''' then ll_provider cur else st_Provider row),
                        st_Model := (if ll_model cur \<noteq> '''' then ll_model cur else st_Model row)\<rparr>
      in if ll_status cur = '''' then posture
         else stampRow (if ll_ts cur = '''' then now else ll_ts cur)
                (posture\<lparr>st_Status := restartStatus keep (st_ID row) (status_of (ll_status cur))\<rparr>))"

text \<open>The table \<open>byID\<close> holds the last row of an id. No node id keeps its wait when \<open>keep\<close> is nil or empty.\<close>

fun applyStepTransitionReplaySprint ::
  "string \<Rightarrow> string set \<Rightarrow> int \<Rightarrow> stepTransitionLine list \<Rightarrow> RuntimeWorkflowStep list \<Rightarrow> RuntimeWorkflowStep list" where
  "applyStepTransitionReplaySprint now keep currentSprint lines [] = []"
| "applyStepTransitionReplaySprint now keep currentSprint lines (row # rows) =
     (if st_ID row \<in> st_ID ` set rows then row
      else case lastByNode currentSprint lines (st_ID row) of None \<Rightarrow> row | Some cur \<Rightarrow> replayRow now keep cur row)
     # applyStepTransitionReplaySprint now keep currentSprint lines rows"

definition applyStepTransitionReplay ::
  "string \<Rightarrow> string set \<Rightarrow> stepTransitionLine list \<Rightarrow> RuntimeWorkflowStep list \<Rightarrow> RuntimeWorkflowStep list" where
  "applyStepTransitionReplay now keep lines rows = applyStepTransitionReplaySprint now keep 0 lines rows"

text \<open>The pending gates are given by their statuses, the loop by its active node and status.\<close>

definition hasPendingGate :: "string list \<Rightarrow> string list \<Rightarrow> bool" where
  "hasPendingGate approvals questions = list_ex (\<lambda>x. EqualFold (TrimSpace x) ''pending'') (approvals @ questions)"

definition keepWaitingNodeIDsForResume ::
  "string \<Rightarrow> string \<Rightarrow> FlowNode list \<Rightarrow> string list \<Rightarrow> string list \<Rightarrow> string list \<Rightarrow> string set" where
  "keepWaitingNodeIDsForResume activeNode loopStatus nodes approvals questions extra =
     (let hubID = hubInlineNodeID nodes; pending = hasPendingGate approvals questions; active = TrimSpace activeNode
      in (if pending \<and> hubID \<noteq> '''' then {hubID} else {}) \<union>
         (if active \<noteq> '''' \<and> (TrimSpace loopStatus = ''blocked'' \<or> pending) then {active} else {}) \<union>
         set (filter (\<lambda>i. i \<noteq> '''') (map TrimSpace extra)))"

text \<open>
  The rows \<open>reconstructRun\<close> seeds: \<open>rows\<close> come from the walk over the sessions, \<open>finished\<close> says that
  the flow finished, and the children with a pending gate wait in any case.
\<close>

definition promoteHub :: "string \<Rightarrow> string \<Rightarrow> RuntimeWorkflowStep \<Rightarrow> RuntimeWorkflowStep" where
  "promoteHub now hubID row =
     (if st_ID row = hubID \<and> st_Status row = StepStatusPending
      then row\<lparr>st_Status := StepStatusDone, st_StartedAt := now, st_FinishedAt := now\<rparr> else row)"

definition resumedRows ::
  "string \<Rightarrow> string set \<Rightarrow> int \<Rightarrow> FlowNode list \<Rightarrow> bool \<Rightarrow> string list \<Rightarrow> stepTransitionLine list \<Rightarrow>
   RuntimeWorkflowStep list \<Rightarrow> RuntimeWorkflowStep list" where
  "resumedRows now keep sprint nodes finished childWaiting lines rows =
     (let hubID = hubInlineNodeID nodes;
          r1 = (if lines = [] then rows else applyStepTransitionReplaySprint now keep sprint lines rows);
          r2 = (if lines \<noteq> [] \<and> finished \<and> hubID \<noteq> '''' then map (promoteHub now hubID) r1 else r1)
      in map (\<lambda>r. if st_ID r \<in> set childWaiting then r\<lparr>st_Status := StepStatusWaitingUserApr\<rparr> else r) r2)"

end
