(* ===== verification/Step_Safety.thy ===== *)
theory Step_Safety
  imports Flow_Steps
begin

text \<open>
  What the step timeline guarantees: the writes as a log, what a replay of the log restores and what
  it loses, the reseed that keeps progress, the seal of a finished flow, and the reset of a round.
\<close>

section \<open>Writes and the log\<close>

lemma status_roundtrip: "status_of (status_text st) = st \<longleftrightarrow> st \<notin> StepStatusOther ` {''PENDING'', ''RUNNING'', ''WAITING_USER_APPROVAL'', ''CANCELED'', ''DONE'', ''FAILED'', ''SKIPPED''}"
  by (cases st) (auto simp: status_of_def)

lemma patchFirst_map:
  "distinct (map st_ID rows) \<Longrightarrow>
   patchFirst t rows = map (\<lambda>r. if st_ID r = tr_StepID t then patchStep (tr_Patch t) r else r) rows"
proof (induction rows)
  case (Cons r rows)
  have "map (\<lambda>r. if st_ID r = tr_StepID t then patchStep (tr_Patch t) r else r) rows = rows" if "st_ID r = tr_StepID t"
    using Cons.prems that by (intro map_idI) (auto simp: image_iff)
  then show ?case using Cons by auto
qed simp

text \<open>
  A sequence of writes, as the timeline receives it: each with the clock and the outcome of the append it
  meets, and the case in which all meet the same.
\<close>

definition timedWrites :: "string \<Rightarrow> (stepEnv \<times> string \<times> RuntimeWorkflowStepStatus) list \<Rightarrow> stepState \<Rightarrow> stepState" where
  "timedWrites runID ops s = fold (\<lambda>(env, i, st). setFlowStepStatusCore env runID i st) ops s"

definition writes :: "stepEnv \<Rightarrow> string \<Rightarrow> (string \<times> RuntimeWorkflowStepStatus) list \<Rightarrow> stepState \<Rightarrow> stepState" where
  "writes env runID ops s = fold (\<lambda>(i, st). setFlowStepStatusCore env runID i st) ops s"

lemma writes_timed: "writes env runID ops s = timedWrites runID (map (Pair env) ops) s"
  by (simp add: writes_def timedWrites_def fold_map comp_def)




lemma rows_applyPatch [simp]: "rowsOf r (applyPatch runID i p s) =
    (if r = runID then patchFirst \<lparr>tr_StepID = i, tr_Patch = p, tr_Logs = []\<rparr> (rowsOf r s) else rowsOf r s)"
  by (simp add: rowsOf_def LoadRunSteps_def applyPatch_def ApplyStepTransition_def)

lemma rows_log [simp]: "rowsOf r (s\<lparr>ss_log := x\<rparr>) = rowsOf r s"
  by (simp add: rowsOf_def)

lemma rows_append [simp]: "rowsOf r (appendStepTransitionLog env runID i st p m s) = rowsOf r s"
  by (simp add: rowsOf_def appendStepTransitionLog_def markTransitionLogDegraded_def Let_def split: option.split)

lemma other_applyPatch [simp]:
  "ss_runs (applyPatch runID i p s) = ss_runs s" "ss_log (applyPatch runID i p s) = ss_log s"
  "flowEngineDrivenUnlocked r (applyPatch runID i p s) = flowEngineDrivenUnlocked r s"
  by (simp_all add: applyPatch_def flowEngineDrivenUnlocked_def)

lemma rows_set [simp]: "rowsOf r (setFlowStepStatusCore env runID i st s) =
    (if r = runID \<and> i \<noteq> [] then patchFirst \<lparr>tr_StepID = i, tr_Patch = statusPatch (en_now env) st, tr_Logs = []\<rparr> (rowsOf r s)
     else rowsOf r s)"
  by (simp add: setFlowStepStatusCore_def)






text \<open>The statuses the writes leave: of each row the last one written to it.\<close>

definition lastWrite :: "(string \<times> RuntimeWorkflowStepStatus) list \<Rightarrow> string \<Rightarrow> RuntimeWorkflowStepStatus \<Rightarrow> RuntimeWorkflowStepStatus" where
  "lastWrite ops i old = fold (\<lambda>op st. if fst op = i then snd op else st) ops old"

lemma patch_status: "st \<noteq> noStatus \<Longrightarrow> st_Status (patchStep (statusPatch now st) r) = st"
  by (cases st) (simp_all add: patchStep_def statusPatch_def zeroPatch_def noStatus_def)

lemma timed_status:
  "distinct (map st_ID (rowsOf runID s)) \<Longrightarrow> \<forall>(env, i, st)\<in>set ops. i \<noteq> [] \<and> st \<noteq> noStatus \<Longrightarrow>
   map (\<lambda>r. (st_ID r, st_Status r)) (rowsOf runID (timedWrites runID ops s)) =
   map (\<lambda>r. (st_ID r, lastWrite (map snd ops) (st_ID r) (st_Status r))) (rowsOf runID s)"
proof (induction ops arbitrary: s)
  case (Cons op ops)
  obtain env i st where op: "op = (env, i, st)" by (cases op)
  let ?s = "setFlowStepStatusCore env runID i st s"
  have i: "i \<noteq> []" "st \<noteq> noStatus" using Cons.prems(2) by (auto simp: op)
  have d: "distinct (map st_ID (rowsOf runID ?s))" using Cons.prems(1) by simp
  have "timedWrites runID (op # ops) s = timedWrites runID ops ?s" by (simp add: timedWrites_def op)
  then show ?case using Cons.IH [OF d] Cons.prems(2) i
    by (simp add: patchFirst_map [OF Cons.prems(1)] op lastWrite_def patch_status comp_def)
qed (simp add: timedWrites_def lastWrite_def)

lemma writes_status:
  "distinct (map st_ID (rowsOf runID s)) \<Longrightarrow> \<forall>(i, st)\<in>set ops. i \<noteq> [] \<and> st \<noteq> noStatus \<Longrightarrow>
   map (\<lambda>r. (st_ID r, st_Status r)) (rowsOf runID (writes env runID ops s)) =
   map (\<lambda>r. (st_ID r, lastWrite ops (st_ID r) (st_Status r))) (rowsOf runID s)"
  using timed_status [of runID s "map (Pair env) ops"] by (auto simp: writes_timed comp_def)

section \<open>What a replay restores\<close>


definition named :: "RuntimeWorkflowStepStatus \<Rightarrow> bool" where
  "named st \<longleftrightarrow> st \<notin> range StepStatusOther"

















section \<open>Reseeding\<close>

definition progress :: "RuntimeWorkflowStep \<Rightarrow> string \<times> RuntimeWorkflowStepStatus \<times> string \<times> string \<times> int64 \<times> string" where
  "progress r = (st_NodeID r, st_Status r, st_StartedAt r, st_FinishedAt r, st_RetryCount r, st_RejectionNote r)"

lemma find_SomeD: "find P xs = Some x \<Longrightarrow> x \<in> set xs \<and> P x"
  by (induction xs) (auto split: if_splits)

lemma lastRow_Some: "distinct (map st_NodeID rows) \<Longrightarrow> r \<in> set rows \<Longrightarrow> lastRow rows (st_NodeID r) = Some r"
proof -
  assume d: "distinct (map st_NodeID rows)" and r: "r \<in> set rows"
  then have "find (\<lambda>q. st_NodeID q = st_NodeID r) (rev rows) \<noteq> None" by (auto simp: find_None_iff)
  then obtain q where q: "find (\<lambda>q. st_NodeID q = st_NodeID r) (rev rows) = Some q" by blast
  then have "q \<in> set rows" "st_NodeID q = st_NodeID r" using find_SomeD by fastforce+
  then have "q = r" using d r by (metis distinct_map inj_onD)
  then show ?thesis using q by (simp add: lastRow_def)
qed

lemma lastRow_None: "lastRow rows i = None \<longleftrightarrow> i \<notin> st_NodeID ` set rows"
  by (auto simp: lastRow_def find_None_iff)

lemma lastRow_SomeD: "lastRow rows i = Some r \<Longrightarrow> r \<in> set rows \<and> st_NodeID r = i"
  unfolding lastRow_def using find_SomeD by fastforce

lemma mergeExisting_app:
  "distinct (map st_NodeID (filter (\<lambda>r. st_NodeID r \<noteq> []) rows)) \<Longrightarrow>
   \<forall>r\<in>set rows. st_NodeID r = [] \<or> st_NodeID r \<notin> set seen \<Longrightarrow>
   mergeExisting fresh seen rows =
     map (\<lambda>row. case lastRow fresh (st_NodeID row) of None \<Rightarrow> row | Some r \<Rightarrow> r) (filter (\<lambda>r. st_NodeID r \<noteq> []) rows) @
     filter (\<lambda>r. st_NodeID r \<notin> set seen \<union> st_NodeID ` set (filter (\<lambda>r. st_NodeID r \<noteq> []) rows)) fresh"
proof (induction fresh seen rows rule: mergeExisting.induct)
  case (2 fresh seen row rows)
  show ?case
  proof (cases "st_NodeID row = []")
    case False
    then have "st_NodeID row \<notin> set seen" using 2(4) by simp
    moreover have "\<forall>r\<in>set rows. st_NodeID r = [] \<or> st_NodeID r \<notin> set (st_NodeID row # seen)"
      using False 2(3,4) by (auto simp: image_iff)
    moreover have "distinct (map st_NodeID (filter (\<lambda>r. st_NodeID r \<noteq> []) rows))" using 2(3) False by simp
    ultimately have "mergeExisting fresh seen (row # rows) = (case lastRow fresh (st_NodeID row) of None \<Rightarrow> row | Some r \<Rightarrow> r) #
        map (\<lambda>row. case lastRow fresh (st_NodeID row) of None \<Rightarrow> row | Some r \<Rightarrow> r) (filter (\<lambda>r. st_NodeID r \<noteq> []) rows) @
        filter (\<lambda>r. st_NodeID r \<notin> set (st_NodeID row # seen) \<union> st_NodeID ` set (filter (\<lambda>r. st_NodeID r \<noteq> []) rows)) fresh"
      using False 2(2) by simp
    moreover have "(\<lambda>r. st_NodeID r \<notin> set (st_NodeID row # seen) \<union> st_NodeID ` set (filter (\<lambda>r. st_NodeID r \<noteq> []) rows)) =
        (\<lambda>r. st_NodeID r \<notin> set seen \<union> st_NodeID ` set (filter (\<lambda>r. st_NodeID r \<noteq> []) (row # rows)))"
      using False by auto
    ultimately show ?thesis using False by simp
  qed (use 2 in simp)
qed simp

text \<open>
  A reseed keeps progress: a row of the flow keeps its place, status, times, retry count and
  note, catalog rows go, and the nodes new to the flow follow in their own order.
\<close>

theorem reseed_keeps_progress:
  assumes "distinct (map st_NodeID (filter (\<lambda>r. st_NodeID r \<noteq> '''') existing))" and "distinct (map st_NodeID fresh)"
  shows "map progress (mergeReseedSteps existing fresh) =
    map progress (filter (\<lambda>r. st_NodeID r \<noteq> '''') existing) @
    map progress (filter (\<lambda>r. st_NodeID r \<notin> st_NodeID ` set (filter (\<lambda>r. st_NodeID r \<noteq> '''') existing)) fresh)"
proof -
  let ?prior = "filter (\<lambda>r. st_NodeID r \<noteq> []) existing"
  let ?kept = "map (\<lambda>r. case lastRow ?prior (st_NodeID r) of None \<Rightarrow> r | Some old \<Rightarrow> keepProgress old r) fresh"
  have id: "st_NodeID (case lastRow ?prior (st_NodeID r) of None \<Rightarrow> r | Some old \<Rightarrow> keepProgress old r) = st_NodeID r" for r
    by (simp add: keepProgress_def split: option.split)
  have kept: "progress (case lastRow ?kept (st_NodeID row) of None \<Rightarrow> row | Some r \<Rightarrow> r) = progress row" if row: "row \<in> set ?prior" for row
  proof (cases "lastRow ?kept (st_NodeID row)")
    case (Some r)
    then obtain q where q: "r = (case lastRow ?prior (st_NodeID q) of None \<Rightarrow> q | Some old \<Rightarrow> keepProgress old q)" "st_NodeID r = st_NodeID row"
      using lastRow_SomeD [OF Some] by auto
    then have "st_NodeID q = st_NodeID row" using id by metis
    then have "r = keepProgress row q" using q(1) lastRow_Some [OF assms(1) row] by simp
    then show ?thesis using Some \<open>st_NodeID q = st_NodeID row\<close> by (simp add: progress_def keepProgress_def)
  qed simp
  have new: "filter (\<lambda>r. st_NodeID r \<notin> st_NodeID ` set ?prior) ?kept = filter (\<lambda>r. st_NodeID r \<notin> st_NodeID ` set ?prior) fresh"
  proof (induction fresh)
    case (Cons r fresh)
    then show ?case using lastRow_None [of ?prior "st_NodeID r"] id [of r] by (auto split: option.split)
  qed simp
  show ?thesis
  proof (cases "?prior = []")
    case True
    then show ?thesis by (simp add: mergeReseedSteps_def Let_def)
  next
    case False
    then have "mergeReseedSteps existing fresh = mergeExisting ?kept [] existing" by (simp add: mergeReseedSteps_def Let_def)
    also have "\<dots> = map (\<lambda>row. case lastRow ?kept (st_NodeID row) of None \<Rightarrow> row | Some r \<Rightarrow> r) ?prior @
        filter (\<lambda>r. st_NodeID r \<notin> st_NodeID ` set ?prior) ?kept"
      using mergeExisting_app [OF assms(1), of "[]" ?kept] by simp
    finally show ?thesis unfolding new using kept by simp
  qed
qed

section \<open>Sealing\<close>

definition settleTo :: "string list \<Rightarrow> RuntimeWorkflowStep \<Rightarrow> RuntimeWorkflowStepStatus option" where
  "settleTo active st =
     (if active \<noteq> [] \<and> st_ID st \<notin> set active \<and> st_NodeID st \<notin> set active then None
      else if isTerminalStepStatus (st_Status st) then None
      else Some (if st_Status st = StepStatusPending then StepStatusSkipped else StepStatusDone))"

lemma settleRow_to:
  "settleRow env runID active st s =
     (case settleTo active st of None \<Rightarrow> s | Some x \<Rightarrow> setFlowStepStatusCore env runID (st_ID st) x s)"
  by (simp add: settleRow_def settleTo_def)

definition settledTo :: "stepEnv \<Rightarrow> string list \<Rightarrow> RuntimeWorkflowStep \<Rightarrow> RuntimeWorkflowStep \<Rightarrow> RuntimeWorkflowStep" where
  "settledTo env active st r =
     (case settleTo active st of None \<Rightarrow> r | Some x \<Rightarrow> patchStep (statusPatch (en_now env) x) r)"

lemma settledTo_id [simp]: "st_ID (settledTo env active st r) = st_ID r"
  by (simp add: settledTo_def split: option.split)

lemma settle_one:
  assumes "distinct (map st_ID (rowsOf runID s))" and "st_ID st \<noteq> []"
  shows "rowsOf runID (settleRow env runID active st s) =
    map (\<lambda>r. if st_ID r = st_ID st then settledTo env active st r else r) (rowsOf runID s)"
proof (cases "settleTo active st")
  case None
  then show ?thesis by (simp add: settleRow_to settledTo_def cong del: if_weak_cong)
next
  case (Some x)
  then show ?thesis using assms by (simp add: settleRow_to settledTo_def patchFirst_map cong del: if_weak_cong)
qed

lemma settle_all:
  "distinct (map st_ID (rowsOf runID s)) \<Longrightarrow> distinct (map st_ID l) \<Longrightarrow> \<forall>st\<in>set l. st_ID st \<noteq> [] \<Longrightarrow>
   rowsOf runID (fold (settleRow env runID active) l s) =
   map (\<lambda>r. case find (\<lambda>st. st_ID st = st_ID r) l of None \<Rightarrow> r | Some st \<Rightarrow> settledTo env active st r) (rowsOf runID s)"
proof (induction l arbitrary: s)
  case (Cons st l)
  let ?s = "settleRow env runID active st s"
  have one: "rowsOf runID ?s = map (\<lambda>r. if st_ID r = st_ID st then settledTo env active st r else r) (rowsOf runID s)"
    using Cons.prems(1,3) by (intro settle_one) simp_all
  have "map st_ID (rowsOf runID ?s) = map st_ID (rowsOf runID s)" unfolding one by simp
  then have d: "distinct (map st_ID (rowsOf runID ?s))" using Cons.prems(1) by simp
  have none: "find (\<lambda>q. st_ID q = st_ID st) l = None" using Cons.prems(2) by (fastforce simp: find_None_iff image_iff)
  have "rowsOf runID (fold (settleRow env runID active) (st # l) s) =
      map (\<lambda>r. case find (\<lambda>st. st_ID st = st_ID r) l of None \<Rightarrow> r | Some st \<Rightarrow> settledTo env active st r) (rowsOf runID ?s)"
    using Cons.IH [OF d] Cons.prems(2,3) by simp
  then show ?case unfolding one by (auto simp: none)
qed simp

lemma find_self: "distinct (map f xs) \<Longrightarrow> x \<in> set xs \<Longrightarrow> find (\<lambda>y. f y = f x) xs = Some x"
  by (induction xs) (auto simp: image_iff)

lemma complete_rows:
  assumes "distinct (map st_ID (rowsOf runID s))" and "\<forall>r\<in>set (rowsOf runID s). st_ID r \<noteq> []"
  shows "rowsOf runID (markFlowRunComplete env runID s) = map (\<lambda>r. settledTo env (activeIDs runID s) r r) (rowsOf runID s)"
proof -
  have "rowsOf runID (markFlowRunComplete env runID s) = rowsOf runID (fold (settleRow env runID (activeIDs runID s)) (rowsOf runID s) s)"
    by (simp add: markFlowRunComplete_def Let_def rowsOf_def LoadRunSteps_def SetRunStatus_def)
  then show ?thesis unfolding settle_all [OF assms(1) assms(1) assms(2)] using find_self [OF assms(1)] by simp
qed

lemma settled_status:
  "st_Status (settledTo env active r r) = (case settleTo active r of None \<Rightarrow> st_Status r | Some x \<Rightarrow> x)"
  by (auto simp: settledTo_def settleTo_def patch_status noStatus_def)

text \<open>
  Completing a flow settles it: every step of the active flow ends terminal, a step that was
  terminal and a step of another mounted flow keep their rows, and the run is recorded as done.
\<close>

theorem done_settles_active:
  assumes "distinct (map st_ID (rowsOf runID s))" and "\<forall>r\<in>set (rowsOf runID s). st_ID r \<noteq> ''''"
  shows "fw_runStatus (ss_store (markFlowRunComplete env runID s)) runID = Some RunStatusEngineDone \<and>
    length (rowsOf runID (markFlowRunComplete env runID s)) = length (rowsOf runID s) \<and>
    (\<forall>k<length (rowsOf runID s).
       let r = rowsOf runID s ! k; r' = rowsOf runID (markFlowRunComplete env runID s) ! k;
           mine = (activeIDs runID s = [] \<or> st_ID r \<in> set (activeIDs runID s) \<or> st_NodeID r \<in> set (activeIDs runID s))
       in (mine \<longrightarrow> isTerminalStepStatus (st_Status r')) \<and>
          (\<not> mine \<or> isTerminalStepStatus (st_Status r) \<longrightarrow> r' = r))"
proof -
  have "fw_runStatus (ss_store (markFlowRunComplete env runID s)) runID = Some RunStatusEngineDone"
    by (simp add: markFlowRunComplete_def Let_def SetRunStatus_def)
  moreover have "isTerminalStepStatus (st_Status (settledTo env active r r))"
    if "active = [] \<or> st_ID r \<in> set active \<or> st_NodeID r \<in> set active" for active r
    using that by (auto simp: settled_status settleTo_def isTerminalStepStatus_def)
  moreover have "settledTo env active r r = r"
    if "\<not> (active = [] \<or> st_ID r \<in> set active \<or> st_NodeID r \<in> set active) \<or> isTerminalStepStatus (st_Status r)" for active r
    using that by (auto simp: settledTo_def settleTo_def)
  ultimately show ?thesis unfolding complete_rows [OF assms] by (simp add: Let_def) blast
qed

lemma lastRow_flow:
  assumes "distinct (map st_ID rows)" and "\<forall>r\<in>set rows. st_NodeID r = st_ID r" and "r \<in> set rows"
  shows "lastRow rows (st_ID r) = Some r"
proof -
  have "map st_NodeID rows = map st_ID rows" using assms(2) by simp
  then have "distinct (map st_NodeID (rev rows))" using assms(1) by (metis distinct_rev rev_map)
  then have "find (\<lambda>q. st_NodeID q = st_NodeID r) (rev rows) = Some r" using find_self [of st_NodeID "rev rows" r] assms(3) by simp
  then show ?thesis using assms(2,3) by (simp add: lastRow_def)
qed

text \<open>
  C30: No fabricated skips: when a done signal of an agent or an engine edge is sealed, no step of
  the spine ends skipped that was not skipped before.
\<close>

theorem seal_skips_no_spine:
  assumes "sealDone env agentInitiated viaEngineEdge runID s = Inr s'" and "agentInitiated \<or> viaEngineEdge"
    and "flowEngineDrivenUnlocked runID s"
    and "distinct (map st_ID (rowsOf runID s))" and "\<forall>r\<in>set (rowsOf runID s). st_ID r \<noteq> '''' \<and> st_NodeID r = st_ID r"
    and "r' \<in> set (rowsOf runID s')" and "st_ID r' \<in> spineNodeIDs (activeFlowNodesFor runID s) (activeFlowEdgesFor runID s)"
    and "st_Status r' = StepStatusSkipped"
  shows "\<exists>r\<in>set (rowsOf runID s). st_ID r = st_ID r' \<and> st_Status r = StepStatusSkipped"
proof -
  let ?spine = "spineNodeIDs (activeFlowNodesFor runID s) (activeFlowEdgesFor runID s)"
  have visited: "unvisitedSpineNodes runID s = []" and s': "s' = markFlowRunComplete env runID s"
    using assms(1,2,3) by (auto simp: sealDone_def split: if_splits)
  have ids: "\<forall>r\<in>set (rowsOf runID s). st_ID r \<noteq> []" using assms(5) by simp
  from assms(6) obtain r where r: "r \<in> set (rowsOf runID s)" "r' = settledTo env (activeIDs runID s) r r"
    unfolding s' complete_rows [OF assms(4) ids] by auto
  have spine: "st_ID r \<in> ?spine" using assms(7) r(2) by simp
  have "?spine \<subseteq> fn_ID ` set (activeFlowNodesFor runID s)"
  proof
    fix i assume "i \<in> ?spine"
    then have "i \<in> (done_step (activeFlowEdgesFor runID s) (map fn_ID (activeFlowNodesFor runID s)))\<^sup>*
        `` (fn_ID ` set (activeFlowNodesFor runID s))"
      unfolding spineNodeIDs_def by (subst (asm) spineLoop_closure) auto
    then show "i \<in> fn_ID ` set (activeFlowNodesFor runID s)" by (auto simp: done_step_def elim: rtranclE)
  qed
  then obtain n where n: "n \<in> set (activeFlowNodesFor runID s)" "fn_ID n = st_ID r" using spine by auto
  have look: "statusByNode (rowsOf runID s) (st_ID r) = st_Status r"
    using lastRow_flow [OF assms(4) _ r(1)] assms(5) by simp
  have "ss_runs s runID \<noteq> None" using assms(3) by (auto simp: flowEngineDrivenUnlocked_def split: option.splits)
  moreover have "rowsOf runID s \<noteq> []" "?spine \<noteq> {}" using r(1) spine by auto
  ultimately have "\<forall>x\<in>set (activeFlowNodesFor runID s). fn_ID x \<in> ?spine \<longrightarrow>
      statusByNode (rowsOf runID s) (fn_ID x) \<notin> {StepStatusPending, StepStatusWaitingUserApr}"
    using visited by (auto simp: unvisitedSpineNodes_def Let_def filter_empty_conv simp del: statusByNode.simps)
  from bspec [OF this n(1)] spine have "st_Status r \<notin> {StepStatusPending, StepStatusWaitingUserApr}"
    unfolding n(2) look by blast
  then have "st_Status r = StepStatusSkipped"
    using assms(8) r(2) by (auto simp: settled_status settleTo_def split: if_splits)
  then show ?thesis using r by auto
qed

section \<open>A new round\<close>

definition resetOps :: "string \<Rightarrow> stepState \<Rightarrow> (string \<times> RuntimeWorkflowStepStatus) list" where
  "resetOps runID s =
     (let reentry = reentryNode runID s; edges = activeFlowEdgesFor runID s
      in map (\<lambda>n. (fn_ID n, StepStatusPending))
           (filter (\<lambda>n. \<not> (fn_ID n = reentry \<or> isVibeLockNode (fn_ID n)) \<and> (edges = [] \<or> fn_ID n \<in> forwardReachableNodeIDs edges reentry))
             (activeFlowNodesFor runID s)) @ [(reentry, StepStatusRunning)])"

lemma resetRound_writes:
  assumes "flowEngineDrivenUnlocked runID s" and "reentryNode runID s \<noteq> []"
  shows "resetRound env runID s = writes env runID (resetOps runID s) s"
proof -
  have f: "fold (\<lambda>n s. if A n then s else if B n then g n s else s) ns s = fold g (filter (\<lambda>n. \<not> A n \<and> B n) ns) s"
    for A B and g :: "'x \<Rightarrow> 'y \<Rightarrow> 'y" and ns s
    by (induction ns arbitrary: s) auto
  show ?thesis using assms
    by (auto simp: resetRound_def resetOps_def writes_def Let_def f fold_map comp_def)
qed

lemma lastWrite_pending:
  "lastWrite (map (\<lambda>n. (fn_ID n, StepStatusPending)) ns @ [(i, StepStatusRunning)]) j old =
     (if j = i then StepStatusRunning else if j \<in> fn_ID ` set ns then StepStatusPending else old)"
  by (induction ns arbitrary: old) (auto simp: lastWrite_def)

text \<open>
  A continue signal restarts exactly the loop: the re-entry node runs, the nodes it reaches over
  forward edges wait again, the lock nodes apart, and every other step keeps its status.
\<close>

theorem round_resets_loop:
  assumes "flowEngineDrivenUnlocked runID s" and "distinct (map st_ID (rowsOf runID s))"
    and "\<forall>n\<in>set (activeFlowNodesFor runID s). fn_ID n \<noteq> ''''" and "activeFlowEdgesFor runID s \<noteq> []"
    and "reentryNode runID s \<noteq> ''''"
  shows "map (\<lambda>r. (st_ID r, st_Status r)) (rowsOf runID (resetRound env runID s)) =
    map (\<lambda>r. (st_ID r,
        if st_ID r = reentryNode runID s then StepStatusRunning
        else if st_ID r \<in> fn_ID ` set (activeFlowNodesFor runID s) \<and> \<not> isVibeLockNode (st_ID r) \<and>
                (reentryNode runID s, st_ID r) \<in> (set (reachGraph (activeFlowEdgesFor runID s)))\<^sup>+ then StepStatusPending
        else st_Status r)) (rowsOf runID s)"
proof -
  let ?re = "reentryNode runID s" and ?nodes = "activeFlowNodesFor runID s" and ?edges = "activeFlowEdgesFor runID s"
  have named: "\<forall>(i, st)\<in>set (resetOps runID s). i \<noteq> [] \<and> st \<noteq> noStatus"
    using assms(3,5) by (auto simp: resetOps_def Let_def noStatus_def)
  have "lastWrite (resetOps runID s) i old =
      (if i = ?re then StepStatusRunning
       else if i \<in> fn_ID ` set ?nodes \<and> \<not> isVibeLockNode i \<and> (?re, i) \<in> (set (reachGraph ?edges))\<^sup>+ then StepStatusPending
       else old)" for i old
    using assms(4) unfolding resetOps_def Let_def lastWrite_pending reachable_closure [OF assms(5)] by auto
  then show ?thesis
    unfolding resetRound_writes [OF assms(1,5)] writes_status [OF assms(2) named] by simp
qed

section \<open>Witnesses\<close>

definition demo_step_env :: stepEnv where
  "demo_step_env = \<lparr>en_now = ''t'', en_quote = (\<lambda>x. x), en_append = (\<lambda>l. None), en_posture = (\<lambda>n. ('''', ''''))\<rparr>"

definition demo_step_run :: stepState where
  "demo_step_run =
     reseedFlowStepRuntime demo_step_env ''r'' (fl_Nodes (demo_flow ''forward''))
       \<lparr>ss_runs = [''r'' \<mapsto> \<lparr>fr_flowEngineDriven = True, fr_activeFlowNodes = fl_Nodes (demo_flow ''forward''),
           fr_activeFlowEdges = fl_Edges (demo_flow ''forward''), fr_activeHubNodeID = ''check'', fr_vibeSprintIndex = 0,
           fr_transitionLogDegraded = False, fr_transitionLogDegradedAt = '''', fr_transitionLogDegradedReason = ''''\<rparr>],
        ss_store = \<lparr>fw_steps = (\<lambda>r. []), fw_runStatus = Map.empty, fw_finished = Map.empty, fw_logs = (\<lambda>i. []), fw_applies = 0\<rparr>,
        ss_log = (\<lambda>r. [])\<rparr>"

definition demo_statuses :: "stepState \<Rightarrow> RuntimeWorkflowStepStatus list" where
  "demo_statuses s = map st_Status (rowsOf ''r'' s)"

lemma demo_rows:
  "map st_ID (rowsOf ''r'' demo_step_run) = [''freeze'', ''coder'', ''check'']" "demo_statuses demo_step_run = replicate 3 StepStatusPending"
  by code_simp+

text \<open>A step that failed in its second round comes back as done, its status of the first.\<close>

theorem second_round_lost:
  "demo_statuses (writes demo_step_env ''r'' [(''coder'', StepStatusFailed)] (resetRound demo_step_env ''r''
       (writes demo_step_env ''r'' [(''coder'', StepStatusDone)] demo_step_run))) ! 1 = StepStatusFailed \<and>
   map st_Status (applyStepTransitionReplay ''t'' {} (ss_log (writes demo_step_env ''r'' [(''coder'', StepStatusFailed)] (resetRound demo_step_env ''r''
       (writes demo_step_env ''r'' [(''coder'', StepStatusDone)] demo_step_run))) ''r'') (rowsOf ''r'' demo_step_run)) ! 1 = StepStatusDone"
  by (intro conjI; code_simp)




theorem reseed_keeps_progress_witness:
  "map progress (mergeReseedSteps (rowsOf ''r'' demo_step_run) (flowStepRowsFromNodes demo_step_env [demo_node ''audit'' ''artifact.audit_draft''] StepStatusPending [])) =
   map progress (rowsOf ''r'' demo_step_run) @ [(''audit'', StepStatusPending, [], [], 0, [])]"
proof -
  have f: "filter (\<lambda>r. st_NodeID r \<noteq> []) (rowsOf ''r'' demo_step_run) = rowsOf ''r'' demo_step_run" by code_simp
  have n: "map st_NodeID (rowsOf ''r'' demo_step_run) = [''freeze'', ''coder'', ''check'']" by code_simp
  have i: "st_NodeID ` set (rowsOf ''r'' demo_step_run) = set [''freeze'', ''coder'', ''check'']" using n by (metis set_map)
  have "map progress (filter (\<lambda>r. st_NodeID r \<notin> set [''freeze'', ''coder'', ''check''])
      (flowStepRowsFromNodes demo_step_env [demo_node ''audit'' ''artifact.audit_draft''] StepStatusPending [])) =
      [(''audit'', StepStatusPending, [], [], 0, [])]" by code_simp
  moreover have "distinct (map st_NodeID (flowStepRowsFromNodes demo_step_env [demo_node ''audit'' ''artifact.audit_draft''] StepStatusPending []))"
    by (simp add: flowStepRowsFromNodes_def)
  ultimately show ?thesis
    using reseed_keeps_progress [of "rowsOf ''r'' demo_step_run" "flowStepRowsFromNodes demo_step_env [demo_node ''audit'' ''artifact.audit_draft''] StepStatusPending []"]
    unfolding f n i by simp
qed

lemma demo_ids: "distinct (map st_ID (rowsOf ''r'' demo_step_run))" "\<forall>r\<in>set (rowsOf ''r'' demo_step_run). st_ID r \<noteq> []"
proof -
  show "distinct (map st_ID (rowsOf ''r'' demo_step_run))" unfolding demo_rows(1) by simp
  have "[] \<notin> set (map st_ID (rowsOf ''r'' demo_step_run))" unfolding demo_rows(1) by simp
  then show "\<forall>r\<in>set (rowsOf ''r'' demo_step_run). st_ID r \<noteq> []" by (metis image_eqI list.set_map)
qed

theorem done_settles_active_witness:
  "fw_runStatus (ss_store (markFlowRunComplete demo_step_env ''r'' demo_step_run)) ''r'' = Some RunStatusEngineDone \<and>
   isTerminalStepStatus (st_Status (rowsOf ''r'' (markFlowRunComplete demo_step_env ''r'' demo_step_run) ! 1))"
proof -
  have len: "1 < length (rowsOf ''r'' demo_step_run)" by code_simp
  have act: "st_ID (rowsOf ''r'' demo_step_run ! 1) \<in> set (activeIDs ''r'' demo_step_run)" by code_simp
  show ?thesis using done_settles_active [OF demo_ids, of demo_step_env] len act unfolding Let_def by blast
qed

definition demo_end :: stepState where
  "demo_end = writes demo_step_env ''r'' [(''freeze'', StepStatusSkipped), (''coder'', StepStatusDone), (''check'', StepStatusRunning)] demo_step_run"

theorem seal_skips_no_spine_witness:
  "\<exists>r\<in>set (rowsOf ''r'' demo_end). st_ID r = ''freeze'' \<and> st_Status r = StepStatusSkipped"
proof -
  let ?s = "markFlowRunComplete demo_step_env ''r'' demo_end" and ?r = "rowsOf ''r'' (markFlowRunComplete demo_step_env ''r'' demo_end) ! 0"
  have driven: "flowEngineDrivenUnlocked ''r'' demo_end" and un: "unvisitedSpineNodes ''r'' demo_end = []" by code_simp+
  have sealed: "sealDone demo_step_env True False ''r'' demo_end = Inr ?s" by (simp add: sealDone_def driven un)
  have ids: "map (\<lambda>r. (st_ID r, st_NodeID r)) (rowsOf ''r'' demo_end) = map (\<lambda>i. (i, i)) [''freeze'', ''coder'', ''check'']" by code_simp
  have "distinct (map fst (map (\<lambda>r. (st_ID r, st_NodeID r)) (rowsOf ''r'' demo_end)))" unfolding ids by simp
  then have d: "distinct (map st_ID (rowsOf ''r'' demo_end))" by (simp add: comp_def)
  have "\<forall>p\<in>set (map (\<lambda>r. (st_ID r, st_NodeID r)) (rowsOf ''r'' demo_end)). fst p \<noteq> [] \<and> snd p = fst p" unfolding ids by simp
  then have eq: "\<forall>r\<in>set (rowsOf ''r'' demo_end). st_ID r \<noteq> [] \<and> st_NodeID r = st_ID r" by simp
  have len: "0 < length (rowsOf ''r'' ?s)" by code_simp
  have r: "st_ID ?r = ''freeze''" "st_Status ?r = StepStatusSkipped" by code_simp+
  have sp: "''freeze'' \<in> spineNodeIDs (activeFlowNodesFor ''r'' demo_end) (activeFlowEdgesFor ''r'' demo_end)" by code_simp
  show ?thesis using seal_skips_no_spine [OF sealed _ driven d eq nth_mem [OF len]] unfolding r using sp by blast
qed

theorem round_resets_loop_witness:
  "demo_statuses (resetRound demo_step_env ''r'' demo_end) = [StepStatusSkipped, StepStatusRunning, StepStatusPending]"
proof -
  have h: "flowEngineDrivenUnlocked ''r'' demo_end" "activeFlowEdgesFor ''r'' demo_end \<noteq> []" "reentryNode ''r'' demo_end = ''coder''"
    by code_simp+
  have ids: "map st_ID (rowsOf ''r'' demo_end) = [''freeze'', ''coder'', ''check'']" by code_simp
  have d: "distinct (map st_ID (rowsOf ''r'' demo_end))" unfolding ids by simp
  have "map fn_ID (activeFlowNodesFor ''r'' demo_end) = [''freeze'', ''coder'', ''check'']" by code_simp
  then have n: "fn_ID ` set (activeFlowNodesFor ''r'' demo_end) = set [''freeze'', ''coder'', ''check'']" by (metis set_map)
  have "\<forall>i\<in>fn_ID ` set (activeFlowNodesFor ''r'' demo_end). i \<noteq> []" unfolding n by simp
  then have ne: "\<forall>n\<in>set (activeFlowNodesFor ''r'' demo_end). fn_ID n \<noteq> []" by blast
  have g: "set (reachGraph (activeFlowEdgesFor ''r'' demo_end)) = {(''freeze'', ''coder''), (''coder'', ''check'')}" by code_simp
  have no: "(''coder'', ''freeze'') \<notin> {(''freeze'', ''coder''), (''coder'', ''check'')}\<^sup>+" by (auto elim: tranclE)
  have yes: "(''coder'', ''check'') \<in> {(''freeze'', ''coder''), (''coder'', ''check'')}\<^sup>+" by auto
  have old: "map (\<lambda>r. (st_ID r, st_Status r)) (rowsOf ''r'' demo_end) =
      [(''freeze'', StepStatusSkipped), (''coder'', StepStatusDone), (''check'', StepStatusRunning)]" by code_simp
  have "map snd (map (\<lambda>r. (st_ID r, st_Status r)) (rowsOf ''r'' (resetRound demo_step_env ''r'' demo_end))) =
      map (\<lambda>(i, st). if i = ''coder'' then StepStatusRunning
         else if i \<in> set [''freeze'', ''coder'', ''check''] \<and> \<not> isVibeLockNode i \<and> (''coder'', i) \<in> {(''freeze'', ''coder''), (''coder'', ''check'')}\<^sup>+
         then StepStatusPending else st) (map (\<lambda>r. (st_ID r, st_Status r)) (rowsOf ''r'' demo_end))"
    using round_resets_loop [OF h(1) d ne h(2), of demo_step_env] unfolding h(3) n g by simp
  then show ?thesis unfolding old demo_statuses_def using no yes by (simp add: isVibeLockNode_def comp_def)
qed

end
