(* ===== verification/Agent_Orchestrator.thy ===== *)
theory Agent_Orchestrator
  imports Flow_Routing "HOL-Library.AList"
begin

text \<open>
  The in-memory agent tree (\<open>runner/agent_orchestrator.go\<close>): children and their completion
  channels, run summaries, the cohort barrier, the message bus with its queued feedback, and the
  loop state. Every method of the source holds the mutex from start to end, so each is one state
  function. A Go map whose missing keys are read as the zero value is a total function; the map the
  code iterates over (\<open>cohortExpected\<close>) is an association list with distinct keys, and the map whose
  presence test matters (\<open>waiters\<close>, \<open>summaries\<close>) is a partial one. Counters are unbounded integers.
\<close>

section \<open>Data\<close>

record AgentLoopState =
  ls_Status :: string
  ls_Round :: int
  ls_RoundCap :: int
  ls_Cap :: int
  ls_GateReason :: string
  ls_OpenIssues :: int
  ls_Mode :: string
  ls_ActiveNode :: string
  ls_ExtendCount :: int
  ls_ExtendBy :: int
  ls_BlockReason :: string
  ls_VibeTaskIndex :: int
  ls_VibeTaskTotal :: int
  ls_VibeTaskName :: string
  ls_NegotiationRound :: int
  ls_NegotiationCap :: int
  ls_CompletionKind :: string

definition zeroLoop :: AgentLoopState where
  "zeroLoop =
     \<lparr>ls_Status = [], ls_Round = 0, ls_RoundCap = 0, ls_Cap = 0, ls_GateReason = [], ls_OpenIssues = 0,
      ls_Mode = [], ls_ActiveNode = [], ls_ExtendCount = 0, ls_ExtendBy = 0, ls_BlockReason = [],
      ls_VibeTaskIndex = 0, ls_VibeTaskTotal = 0, ls_VibeTaskName = [], ls_NegotiationRound = 0,
      ls_NegotiationCap = 0, ls_CompletionKind = []\<rparr>"

record AgentBusMessage =
  bm_ID :: string
  bm_ParentRunID :: string
  bm_FromRunID :: string
  bm_ToRunID :: string
  bm_Kind :: string
  bm_Message :: string
  bm_Queued :: bool
  bm_OccurredAt :: string

record AgentDependencyEdge =
  ade_FromRunID :: string
  ade_ToRunID :: string
  ade_Kind :: string

record AgentRunSummary =
  su_RunID :: string
  su_AgentName :: string
  su_Label :: string
  su_Role :: string
  su_Status :: string
  su_ParentRunID :: string
  su_CreatedAt :: string
  su_DependsOn :: "string list"
  su_AgentStatus :: string
  su_ProviderKey :: string
  su_ModelName :: string
  su_WaitForResult :: bool
  su_ActivationSeq :: int
  su_VibeTaskIndex :: int
  su_VibeTaskTotal :: int
  su_VibeTaskName :: string

record AgentGraphSnapshot =
  gs_ParentRunID :: string
  gs_Runs :: "AgentRunSummary list"
  gs_Edges :: "AgentDependencyEdge list"
  gs_BusMessages :: "AgentBusMessage list"
  gs_LoopState :: AgentLoopState

record agentCompletion =
  ac_finalMessage :: string
  ac_failed :: bool
  ac_errMsg :: string
  ac_status :: string

text \<open>A channel of capacity one: its buffer, and whether it is closed.\<close>

record completionChan =
  ch_buffer :: "agentCompletion list"
  ch_closed :: bool

record AgentOrchestrator =
  o_children :: "string \<Rightarrow> string list"
  o_waiters :: "string \<rightharpoonup> nat"
  o_chans :: "completionChan list"
  o_historical :: "string \<Rightarrow> AgentRunSummary list"
  o_summaries :: "string \<Rightarrow> string \<rightharpoonup> AgentRunSummary"
  o_edges :: "string \<Rightarrow> AgentDependencyEdge list"
  o_bus :: "string \<Rightarrow> AgentBusMessage list"
  o_loop :: "string \<Rightarrow> AgentLoopState"
  o_queued :: "string \<Rightarrow> AgentBusMessage list"
  o_cohort :: "string \<Rightarrow> cohortEntry list"
  o_cohortExpected :: "(string \<times> int) list"
  o_cohortDrained :: "string \<Rightarrow> bool"

definition newAgentOrchestrator :: AgentOrchestrator where
  "newAgentOrchestrator =
     \<lparr>o_children = (\<lambda>_. []), o_waiters = (\<lambda>_. None), o_chans = [], o_historical = (\<lambda>_. []),
      o_summaries = (\<lambda>_ _. None), o_edges = (\<lambda>_. []), o_bus = (\<lambda>_. []), o_loop = (\<lambda>_. zeroLoop),
      o_queued = (\<lambda>_. []), o_cohort = (\<lambda>_. []), o_cohortExpected = [], o_cohortDrained = (\<lambda>_. False)\<rparr>"

section \<open>The cohort barrier\<close>

definition cohortKey :: "string \<Rightarrow> string \<Rightarrow> string" where
  "cohortKey parentRunID cohortID = parentRunID @ ''/'' @ cohortID"

definition expectedAt :: "AgentOrchestrator \<Rightarrow> string \<Rightarrow> int" where
  "expectedAt s k = (case map_of (o_cohortExpected s) k of None \<Rightarrow> 0 | Some n \<Rightarrow> n)"

definition registerCohortMember :: "string \<Rightarrow> string \<Rightarrow> AgentOrchestrator \<Rightarrow> AgentOrchestrator" where
  "registerCohortMember parentRunID cohortID s =
     (let k = cohortKey parentRunID cohortID
      in s\<lparr>o_cohortDrained := (o_cohortDrained s)(k := False),
           o_cohortExpected := AList.update k (expectedAt s k + 1) (o_cohortExpected s)\<rparr>)"

definition preRegisterCohort :: "string \<Rightarrow> string \<Rightarrow> int \<Rightarrow> AgentOrchestrator \<Rightarrow> AgentOrchestrator" where
  "preRegisterCohort parentRunID cohortID count s =
     (let k = cohortKey parentRunID cohortID;
          s1 = s\<lparr>o_cohortDrained := (o_cohortDrained s)(k := False)\<rparr>
      in if expectedAt s1 k = 0 then s1\<lparr>o_cohortExpected := AList.update k count (o_cohortExpected s1)\<rparr> else s1)"

text \<open>The seat of an entry: the first buffered entry with the same trimmed label.\<close>

fun seatIndex :: "string \<Rightarrow> cohortEntry list \<Rightarrow> nat option" where
  "seatIndex l [] = None"
| "seatIndex l (e # es) = (if TrimSpace (ce_Label e) = l then Some 0 else map_option Suc (seatIndex l es))"

definition bufferEntry :: "cohortEntry list \<Rightarrow> cohortEntry \<Rightarrow> cohortEntry list" where
  "bufferEntry buf e =
     (let label = TrimSpace (ce_Label e)
      in case (if label = '''' then None else seatIndex label buf) of
           None \<Rightarrow> buf @ [e]
         | Some i \<Rightarrow> if ce_Status (buf ! i) = ''cancelled'' \<and> ce_Status e \<noteq> ''cancelled'' then buf[i := e] else buf)"

definition appendCohortResult :: "string \<Rightarrow> string \<Rightarrow> cohortEntry \<Rightarrow> AgentOrchestrator \<Rightarrow> bool \<times> AgentOrchestrator" where
  "appendCohortResult parentRunID cohortID e s =
     (let k = cohortKey parentRunID cohortID
      in if o_cohortDrained s k then (True, s)
         else (False, s\<lparr>o_cohort := (o_cohort s)(k := bufferEntry (o_cohort s k) e)\<rparr>))"

definition cohortComplete :: "string \<Rightarrow> string \<Rightarrow> AgentOrchestrator \<Rightarrow> bool" where
  "cohortComplete parentRunID cohortID s =
     (let k = cohortKey parentRunID cohortID; ex = expectedAt s k in ex > 0 \<and> int (length (o_cohort s k)) \<ge> ex)"

definition inferCohortExpectedIfMissing :: "string \<Rightarrow> string \<Rightarrow> int \<Rightarrow> AgentOrchestrator \<Rightarrow> AgentOrchestrator" where
  "inferCohortExpectedIfMissing parentRunID cohortID knownMembers s =
     (let k = cohortKey parentRunID cohortID
      in if knownMembers \<le> 0 then s
         else if o_cohortDrained s k then s
         else if expectedAt s k = 0 then s\<lparr>o_cohortExpected := AList.update k knownMembers (o_cohortExpected s)\<rparr>
         else s)"

definition cohortExpectedCount :: "string \<Rightarrow> string \<Rightarrow> AgentOrchestrator \<Rightarrow> int" where
  "cohortExpectedCount parentRunID cohortID s = expectedAt s (cohortKey parentRunID cohortID)"

definition hasOpenCohort :: "string \<Rightarrow> AgentOrchestrator \<Rightarrow> bool" where
  "hasOpenCohort parentRunID s =
     list_ex (\<lambda>(k, ex). \<not> (ex \<le> 0 \<or> \<not> HasPrefix k (parentRunID @ ''/'')) \<and> int (length (o_cohort s k)) < ex)
       (o_cohortExpected s)"

definition drainCohort :: "string \<Rightarrow> string \<Rightarrow> AgentOrchestrator \<Rightarrow> cohortEntry list \<times> AgentOrchestrator" where
  "drainCohort parentRunID cohortID s =
     (let k = cohortKey parentRunID cohortID
      in (o_cohort s k,
          s\<lparr>o_cohort := (o_cohort s)(k := []), o_cohortExpected := AList.delete k (o_cohortExpected s),
            o_cohortDrained := (o_cohortDrained s)(k := True)\<rparr>))"

section \<open>Children, completion channels and summaries\<close>

definition registerChild :: "string \<Rightarrow> string \<Rightarrow> AgentOrchestrator \<Rightarrow> AgentOrchestrator" where
  "registerChild parentRunID childRunID s =
     s\<lparr>o_children := (o_children s)(parentRunID := o_children s parentRunID @ [childRunID])\<rparr>"

definition listChildren :: "string \<Rightarrow> AgentOrchestrator \<Rightarrow> string list" where
  "listChildren parentRunID s = o_children s parentRunID"

definition openWaiter :: "string \<Rightarrow> AgentOrchestrator \<Rightarrow> nat \<times> AgentOrchestrator" where
  "openWaiter childRunID s =
     (length (o_chans s),
      s\<lparr>o_chans := o_chans s @ [\<lparr>ch_buffer = [], ch_closed = False\<rparr>], o_waiters := (o_waiters s)(childRunID \<mapsto> length (o_chans s))\<rparr>)"

text \<open>\<open>None\<close>: the send blocks (the buffer is full) or panics (the channel is closed).\<close>

definition sendClose :: "agentCompletion \<Rightarrow> completionChan \<Rightarrow> completionChan option" where
  "sendClose c ch =
     (if ch_closed ch \<or> length (ch_buffer ch) \<ge> 1 then None
      else Some \<lparr>ch_buffer = ch_buffer ch @ [c], ch_closed = True\<rparr>)"

definition signalChild :: "string \<Rightarrow> agentCompletion \<Rightarrow> AgentOrchestrator \<Rightarrow> AgentOrchestrator option" where
  "signalChild childRunID c s =
     (case o_waiters s childRunID of
        None \<Rightarrow> Some s
      | Some i \<Rightarrow>
          (case sendClose c (o_chans s ! i) of
             None \<Rightarrow> None
           | Some ch \<Rightarrow> Some (s\<lparr>o_waiters := (o_waiters s)(childRunID := None), o_chans := (o_chans s)[i := ch]\<rparr>)))"

definition setHistoricalChildren :: "string \<Rightarrow> AgentRunSummary list \<Rightarrow> AgentOrchestrator \<Rightarrow> AgentOrchestrator" where
  "setHistoricalChildren parentRunID summaries s =
     (if summaries = [] then s else s\<lparr>o_historical := (o_historical s)(parentRunID := summaries)\<rparr>)"

definition historicalChildren :: "string \<Rightarrow> AgentOrchestrator \<Rightarrow> AgentRunSummary list" where
  "historicalChildren parentRunID s = o_historical s parentRunID"

definition upsertSummary :: "string \<Rightarrow> AgentRunSummary \<Rightarrow> AgentOrchestrator \<Rightarrow> AgentOrchestrator" where
  "upsertSummary parentRunID summary s =
     (let summary1 =
            (case o_summaries s parentRunID (su_RunID summary) of
               Some old \<Rightarrow>
                 if su_VibeTaskIndex summary = 0
                 then summary\<lparr>su_VibeTaskIndex := su_VibeTaskIndex old, su_VibeTaskTotal := su_VibeTaskTotal old,
                              su_VibeTaskName := su_VibeTaskName old\<rparr>
                 else summary
             | None \<Rightarrow> summary)
      in s\<lparr>o_summaries := (o_summaries s)(parentRunID := (o_summaries s parentRunID)(su_RunID summary \<mapsto> summary1))\<rparr>)"

definition currentSummary :: "string \<Rightarrow> string \<Rightarrow> AgentOrchestrator \<Rightarrow> AgentRunSummary option" where
  "currentSummary parentRunID childRunID s = o_summaries s parentRunID childRunID"

definition blankSummary :: "string \<Rightarrow> string \<Rightarrow> AgentRunSummary" where
  "blankSummary runID parentRunID =
     \<lparr>su_RunID = runID, su_AgentName = [], su_Label = [], su_Role = [], su_Status = [], su_ParentRunID = parentRunID,
      su_CreatedAt = [], su_DependsOn = [], su_AgentStatus = [], su_ProviderKey = [], su_ModelName = [],
      su_WaitForResult = False, su_ActivationSeq = 0, su_VibeTaskIndex = 0, su_VibeTaskTotal = 0, su_VibeTaskName = []\<rparr>"

definition runsForParent :: "string \<Rightarrow> AgentOrchestrator \<Rightarrow> AgentRunSummary list" where
  "runsForParent parentRunID s =
     map (\<lambda>childID. case o_summaries s parentRunID childID of Some summary \<Rightarrow> summary | None \<Rightarrow> blankSummary childID parentRunID)
       (o_children s parentRunID)"

fun dedupRuns :: "string list \<Rightarrow> AgentRunSummary list \<Rightarrow> AgentRunSummary list" where
  "dedupRuns seen [] = []"
| "dedupRuns seen (r # rs) =
     (if su_RunID r \<in> set seen then dedupRuns seen rs else r # dedupRuns (su_RunID r # seen) rs)"

definition withRoundCap :: "AgentLoopState \<Rightarrow> AgentLoopState" where
  "withRoundCap st = (if ls_RoundCap st = 0 then st\<lparr>ls_RoundCap := 3\<rparr> else st)"

definition graphSnapshot :: "string \<Rightarrow> AgentOrchestrator \<Rightarrow> AgentGraphSnapshot" where
  "graphSnapshot parentRunID s =
     \<lparr>gs_ParentRunID = parentRunID, gs_Runs = dedupRuns [] (runsForParent parentRunID s @ o_historical s parentRunID),
      gs_Edges = o_edges s parentRunID, gs_BusMessages = o_bus s parentRunID,
      gs_LoopState = withRoundCap (o_loop s parentRunID)\<rparr>"

section \<open>The loop state\<close>

definition ensureLoop :: "string \<Rightarrow> AgentOrchestrator \<Rightarrow> AgentLoopState" where
  "ensureLoop parentRunID s = withRoundCap (o_loop s parentRunID)"

definition setLoop :: "string \<Rightarrow> AgentLoopState \<Rightarrow> AgentOrchestrator \<Rightarrow> AgentOrchestrator" where
  "setLoop parentRunID state s = s\<lparr>o_loop := (o_loop s)(parentRunID := withRoundCap state)\<rparr>"

definition loopStateFor :: "string \<Rightarrow> AgentOrchestrator \<Rightarrow> AgentLoopState" where
  "loopStateFor parentRunID s = o_loop s parentRunID"

definition loopMode :: "string \<Rightarrow> AgentOrchestrator \<Rightarrow> string" where
  "loopMode parentRunID s = ls_Mode (o_loop s parentRunID)"

definition mutateLoop :: "string \<Rightarrow> (AgentLoopState \<Rightarrow> AgentLoopState) \<Rightarrow> AgentOrchestrator \<Rightarrow> AgentOrchestrator" where
  "mutateLoop parentRunID f s = s\<lparr>o_loop := (o_loop s)(parentRunID := f (ensureLoop parentRunID s))\<rparr>"

definition LoopStatusTournamentEscalation :: string where
  "LoopStatusTournamentEscalation = ''tournament_escalation''"

definition pauseLoop :: "string \<Rightarrow> AgentLoopState \<Rightarrow> AgentLoopState" where
  "pauseLoop reason st = st\<lparr>ls_Status := ''paused'', ls_GateReason := reason\<rparr>"

definition resumeLoop :: "AgentLoopState \<Rightarrow> AgentLoopState" where
  "resumeLoop st =
     (if ls_Status st \<in> {''blocked'', ''done'', LoopStatusTournamentEscalation} then st
      else st\<lparr>ls_Status := ''running'', ls_GateReason := []\<rparr>)"

definition stopLoop :: "AgentLoopState \<Rightarrow> AgentLoopState" where
  "stopLoop st = st\<lparr>ls_Status := ''stopped'', ls_GateReason := ''stopped''\<rparr>"

definition advanceRound :: "AgentLoopState \<Rightarrow> AgentLoopState" where
  "advanceRound st =
     (let st1 = (if ls_Status st = '''' then st\<lparr>ls_Status := ''running''\<rparr> else st);
          st2 = st1\<lparr>ls_Round := ls_Round st1 + 1\<rparr>
      in if ls_Round st2 \<ge> ls_RoundCap st2 \<and> ls_RoundCap st2 > 0
         then st2\<lparr>ls_Status := ''stopped'', ls_GateReason := ''round cap reached''\<rparr> else st2)"

definition transitionLoop :: "string \<Rightarrow> AgentLoopState \<Rightarrow> AgentLoopState" where
  "transitionLoop kind st =
     (let paused = (ls_Status st = ''paused'');
          stat = (\<lambda>x. if paused then st else st\<lparr>ls_Status := x\<rparr>)
      in if kind = ''ready-for-review'' then (stat ''waiting_review'')\<lparr>ls_GateReason := ''ready for review''\<rparr>
         else if kind = ''changes-requested'' then (stat ''running'')\<lparr>ls_GateReason := ''changes requested''\<rparr>
         else if kind = ''approved'' then st\<lparr>ls_Status := ''approved'', ls_GateReason := ''approved''\<rparr>
         else if kind = ''rejected'' then
           (if ls_Status st \<in> {''blocked'', ''stopped'', ''done'', ''paused'', LoopStatusTournamentEscalation} then st
            else st\<lparr>ls_Status := ''rejected'', ls_GateReason := ''rejected''\<rparr>)
         else if kind = ''handoff'' then (stat ''running'')\<lparr>ls_GateReason := ''handoff to parent''\<rparr>
         else st)"

definition effectiveCap :: "AgentLoopState \<Rightarrow> int" where
  "effectiveCap st = (if ls_Cap st > 0 then ls_Cap st else if ls_RoundCap st > 0 then ls_RoundCap st else 3)"

definition NegotiationCapDefault :: int where
  "NegotiationCapDefault = 5"

definition effectiveNegotiationCap :: "AgentLoopState \<Rightarrow> int" where
  "effectiveNegotiationCap st = (if ls_NegotiationCap st > 0 then ls_NegotiationCap st else NegotiationCapDefault)"

definition effectiveExtendBy :: "AgentLoopState \<Rightarrow> int" where
  "effectiveExtendBy st = (if ls_ExtendBy st > 0 then ls_ExtendBy st else 2)"

section \<open>Bus and queued feedback\<close>

definition keepLoop :: "string \<Rightarrow> AgentOrchestrator \<Rightarrow> AgentOrchestrator" where
  "keepLoop parentRunID = mutateLoop parentRunID (\<lambda>st. st)"

definition addBus :: "string \<Rightarrow> AgentBusMessage \<Rightarrow> AgentOrchestrator \<Rightarrow> AgentOrchestrator" where
  "addBus parentRunID msg s =
     keepLoop parentRunID (s\<lparr>o_bus := (o_bus s)(parentRunID := o_bus s parentRunID @ [msg])\<rparr>)"

definition queueFeedback :: "string \<Rightarrow> AgentBusMessage \<Rightarrow> AgentOrchestrator \<Rightarrow> AgentOrchestrator" where
  "queueFeedback parentRunID msg s =
     keepLoop parentRunID (s\<lparr>o_queued := (o_queued s)(parentRunID := o_queued s parentRunID @ [msg]),
                             o_bus := (o_bus s)(parentRunID := o_bus s parentRunID @ [msg])\<rparr>)"

definition nextQueuedFeedback :: "string \<Rightarrow> AgentOrchestrator \<Rightarrow> AgentBusMessage option \<times> AgentOrchestrator" where
  "nextQueuedFeedback parentRunID s =
     (case o_queued s parentRunID of
        [] \<Rightarrow> (None, s)
      | msg # q \<Rightarrow> (Some msg, s\<lparr>o_queued := (o_queued s)(parentRunID := q)\<rparr>))"

fun takeFor :: "string \<Rightarrow> AgentBusMessage list \<Rightarrow> (AgentBusMessage \<times> AgentBusMessage list) option" where
  "takeFor toRunID [] = None"
| "takeFor toRunID (msg # q) =
     (if toRunID \<noteq> '''' \<and> bm_ToRunID msg \<noteq> '''' \<and> bm_ToRunID msg \<noteq> toRunID
      then map_option (\<lambda>(m, r). (m, msg # r)) (takeFor toRunID q)
      else Some (msg, q))"

definition nextQueuedFeedbackFor ::
  "string \<Rightarrow> string \<Rightarrow> AgentOrchestrator \<Rightarrow> AgentBusMessage option \<times> AgentOrchestrator" where
  "nextQueuedFeedbackFor parentRunID toRunID s =
     (case takeFor toRunID (o_queued s parentRunID) of
        None \<Rightarrow> (None, s)
      | Some (msg, q) \<Rightarrow> (Some msg, s\<lparr>o_queued := (o_queued s)(parentRunID := q)\<rparr>))"

end
