(* ===== verification/Cohort_Safety.thy ===== *)
theory Cohort_Safety
  imports Agent_Orchestrator "HOL-Library.Multiset"
begin

text \<open>
  The barrier of a cohort. Its buffer is specified by the entries appended so far: one result per seat. A
  member reports in separate critical sections (append, infer the expected count, test, drain), and the
  steps of the members interleave in any order: at most one delivery has results, and a barrier that was
  drained stays closed.
\<close>

section \<open>The buffer of a barrier\<close>

abbreviation seat :: "cohortEntry \<Rightarrow> string" where
  "seat e \<equiv> TrimSpace (ce_Label e)"

abbreviation placeholder :: "cohortEntry \<Rightarrow> bool" where
  "placeholder e \<equiv> ce_Status e = ''cancelled''"

text \<open>The entries that take a new place: the first of each label, and every one without a label.\<close>

fun arrivals :: "cohortEntry list \<Rightarrow> cohortEntry list" where
  "arrivals [] = []"
| "arrivals (e # es) = e # filter (\<lambda>x. seat x = '''' \<or> seat x \<noteq> seat e) (arrivals es)"

text \<open>The result of a seat: its first entry that is not a cancellation, or else its first entry.\<close>

definition seatResult :: "cohortEntry list \<Rightarrow> cohortEntry \<Rightarrow> cohortEntry" where
  "seatResult es e =
     (if seat e = '''' then e
      else if placeholder e then (case find (\<lambda>x. seat x = seat e \<and> \<not> placeholder x) es of None \<Rightarrow> e | Some x \<Rightarrow> x)
      else e)"

definition barrierResults :: "cohortEntry list \<Rightarrow> cohortEntry list" where
  "barrierResults es = map (seatResult es) (arrivals es)"

lemma set_arrivals: "set (arrivals es) \<subseteq> set es"
  by (induction es) auto

lemma seats_arrivals: "e \<in> set es \<Longrightarrow> seat e \<noteq> '''' \<Longrightarrow> \<exists>x\<in>set (arrivals es). seat x = seat e"
proof (induction es)
  case (Cons a es)
  then show ?case by (cases "seat a = seat e") (auto, metis)
qed simp

lemma arrivals_snoc:
  "arrivals (es @ [e]) =
     arrivals es @ (if seat e \<noteq> '''' \<and> (\<exists>x\<in>set es. seat x = seat e) then [] else [e])"
  by (induction es) auto

lemma seat_seatResult [simp]: "seat (seatResult es e) = seat e"
  by (auto simp: seatResult_def find_Some_iff split: option.split)

lemma seats_unique: "sorted_wrt (\<lambda>x y. seat x = [] \<or> seat y \<noteq> seat x) (arrivals es)"
  by (induction es) (auto simp: sorted_wrt_filter)

lemma seats_unique_nth:
  assumes "i < length (arrivals es)" and "j < length (arrivals es)"
    and "seat (arrivals es ! i) = seat (arrivals es ! j)" and "seat (arrivals es ! i) \<noteq> []"
  shows "i = j"
  using seats_unique [of es, unfolded sorted_wrt_iff_nth_less] assms by (metis nat_neq_iff)

section \<open>One append\<close>

lemma seatIndex_None: "seatIndex l buf = None \<longleftrightarrow> (\<forall>x\<in>set buf. seat x \<noteq> l)"
  by (induction buf) auto

lemma seatIndex_Some:
  "seatIndex l buf = Some i \<Longrightarrow> i < length buf \<and> seat (buf ! i) = l \<and> (\<forall>j<i. seat (buf ! j) \<noteq> l)"
  by (induction buf arbitrary: i) (auto split: if_splits simp: nth_Cons split: nat.splits)

lemma find_append: "find P (xs @ ys) = (case find P xs of None \<Rightarrow> find P ys | Some x \<Rightarrow> Some x)"
  by (induction xs) auto

lemma find_holds: "find P xs = Some x \<Longrightarrow> P x \<and> x \<in> set xs"
  by (induction xs) (auto split: if_splits)

lemma seatResult_snoc:
  "seatResult (es @ [e]) a =
     (if seat a \<noteq> [] \<and> seat a = seat e \<and> placeholder (seatResult es a) \<and> \<not> placeholder e then e else seatResult es a)"
  by (auto simp: seatResult_def find_append dest: find_holds split: option.split)

lemma bufferEntry_results: "bufferEntry (barrierResults es) e = barrierResults (es @ [e])"
proof (cases "seat e \<noteq> [] \<and> (\<exists>x\<in>set es. seat x = seat e)")
  case False
  then have new: "(if seat e = [] then None else seatIndex (seat e) (barrierResults es)) = None"
    using set_arrivals by (auto simp: seatIndex_None barrierResults_def)
  have "map (seatResult (es @ [e])) (arrivals es) = barrierResults es"
    unfolding barrierResults_def using False set_arrivals by (intro map_cong) (auto simp: seatResult_snoc)
  moreover have "seatResult (es @ [e]) e = e"
    using False by (auto simp: seatResult_def find_append find_Some_iff split: option.split)
  moreover have "arrivals (es @ [e]) = arrivals es @ [e]"
    using False by (auto simp: arrivals_snoc)
  moreover have "bufferEntry (barrierResults es) e = barrierResults es @ [e]"
    unfolding bufferEntry_def Let_def new by simp
  ultimately show ?thesis
    by (simp add: barrierResults_def)
next
  case True
  let ?as = "arrivals es" and ?buf = "barrierResults es"
  obtain i where i: "seatIndex (seat e) ?buf = Some i"
    using True seats_arrivals [of _ es] by (fastforce simp: seatIndex_None barrierResults_def simp flip: not_None_eq)
  then have len: "i < length ?as" and seat_i: "seat (?as ! i) = seat e"
    using seatIndex_Some [OF i] by (auto simp: barrierResults_def)
  have other: "seat (?as ! j) \<noteq> seat e" if "j < length ?as" "j \<noteq> i" for j
    using seats_unique_nth [OF len that(1)] that(2) True seat_i by auto
  have same: "arrivals (es @ [e]) = ?as"
    using True by (auto simp: arrivals_snoc)
  show ?thesis
  proof (cases "placeholder (?buf ! i) \<and> \<not> placeholder e")
    case upd: True
    have "?buf[i := e] = map (seatResult (es @ [e])) ?as"
      using len other seat_i True upd
      by (intro nth_equalityI) (auto simp: nth_list_update seatResult_snoc barrierResults_def)
    with upd i True same show ?thesis
      by (simp add: bufferEntry_def barrierResults_def)
  next
    case keep: False
    have "seatResult (es @ [e]) (?as ! j) = seatResult es (?as ! j)" if "j < length ?as" for j
      using other [OF that] keep that seat_i by (cases "j = i") (auto simp: seatResult_snoc barrierResults_def)
    then have "?buf = map (seatResult (es @ [e])) ?as"
      by (intro nth_equalityI) (simp_all add: barrierResults_def)
    moreover have "bufferEntry ?buf e = ?buf"
      using keep i True by (auto simp: bufferEntry_def)
    ultimately show ?thesis
      using same by (simp add: barrierResults_def)
  qed
qed

lemma foldl_bufferEntry: "foldl bufferEntry [] es = barrierResults es"
proof (induction es rule: rev_induct)
  case (snoc e es)
  then show ?case by (simp add: bufferEntry_results)
qed (simp add: barrierResults_def)

section \<open>Sequences of calls\<close>

datatype cohortOp =
    RegisterOp string string
  | PreRegisterOp string string int
  | AppendOp string string cohortEntry
  | InferOp string string int
  | DrainOp string string

fun cohortStep :: "cohortOp \<Rightarrow> AgentOrchestrator \<Rightarrow> AgentOrchestrator" where
  "cohortStep (RegisterOp p c) = registerCohortMember p c"
| "cohortStep (PreRegisterOp p c n) = preRegisterCohort p c n"
| "cohortStep (AppendOp p c e) = (\<lambda>s. snd (appendCohortResult p c e s))"
| "cohortStep (InferOp p c n) = inferCohortExpectedIfMissing p c n"
| "cohortStep (DrainOp p c) = (\<lambda>s. snd (drainCohort p c s))"

fun registers :: "string \<Rightarrow> cohortOp \<Rightarrow> bool" where
  "registers k (RegisterOp p c) = (cohortKey p c = k)"
| "registers k (PreRegisterOp p c n) = (cohortKey p c = k)"
| "registers k _ = False"

text \<open>A delivered barrier: no buffer, no expected count, and the tombstone.\<close>

definition deliveredAt :: "string \<Rightarrow> AgentOrchestrator \<Rightarrow> bool" where
  "deliveredAt k s \<longleftrightarrow> o_cohort s k = [] \<and> k \<notin> fst ` set (o_cohortExpected s) \<and> o_cohortDrained s k"

lemma keys_of_delete: "fst ` set (AList.delete k al) = fst ` set al - {k}"
  by (metis delete_keys set_map set_removeAll)

lemmas expected_conv = expectedAt_def update_conv' delete_conv' dom_update keys_of_delete

lemma delivered_unexpected: "deliveredAt k s \<Longrightarrow> expectedAt s k = 0"
  by (force simp: deliveredAt_def expectedAt_def dest: map_of_SomeD split: option.split)

lemma drain_delivers: "deliveredAt (cohortKey p c) (snd (drainCohort p c s))"
  by (simp add: drainCohort_def deliveredAt_def Let_def expected_conv)

lemma cohortStep_delivered:
  "deliveredAt k s \<Longrightarrow> \<not> registers k op \<Longrightarrow> deliveredAt k (cohortStep op s)"
  by (cases op)
    (auto simp: deliveredAt_def registerCohortMember_def preRegisterCohort_def appendCohortResult_def
      inferCohortExpectedIfMissing_def drainCohort_def Let_def expected_conv split: option.splits)

lemma fold_cohortStep_delivered:
  "deliveredAt k s \<Longrightarrow> \<forall>op\<in>set ops. \<not> registers k op \<Longrightarrow> deliveredAt k (fold cohortStep ops s)"
  by (induction ops arbitrary: s) (simp_all add: cohortStep_delivered)


text \<open>
  C32: A delivered cohort barrier stays closed: after a drain, whatever calls follow on any cohort, as long
  as nobody registers a member for this one, it is neither complete nor expecting, its buffer is empty, a
  late result is dropped, the expected count cannot be inferred again, and it is not what makes the parent
  look as if it had an open cohort.
\<close>

theorem drained_stays_closed:
  assumes "\<forall>op\<in>set ops. \<not> registers (cohortKey p c) op"
    and s': "s' = fold cohortStep ops (snd (drainCohort p c s))"
  shows "\<not> cohortComplete p c s' \<and> fst (appendCohortResult p c e s') \<and> fst (drainCohort p c s') = [] \<and>
     cohortExpectedCount p c (inferCohortExpectedIfMissing p c n s') = 0 \<and>
     (hasOpenCohort p s' \<longleftrightarrow>
       (\<exists>(k, ex)\<in>set (o_cohortExpected s').
          k \<noteq> cohortKey p c \<and> HasPrefix k (p @ ''/'') \<and> 0 < ex \<and> int (length (o_cohort s' k)) < ex))"
proof -
  have d: "deliveredAt (cohortKey p c) s'"
    unfolding s' by (rule fold_cohortStep_delivered [OF drain_delivers assms(1)])
  have "hasOpenCohort p s' \<longleftrightarrow>
       (\<exists>(k, ex)\<in>set (o_cohortExpected s').
          k \<noteq> cohortKey p c \<and> HasPrefix k (p @ ''/'') \<and> 0 < ex \<and> int (length (o_cohort s' k)) < ex)"
    using d by (force simp: hasOpenCohort_def list_ex_iff deliveredAt_def)
  with d delivered_unexpected [OF d] show ?thesis
    by (auto simp: deliveredAt_def cohortComplete_def appendCohortResult_def drainCohort_def
        inferCohortExpectedIfMissing_def cohortExpectedCount_def Let_def)
qed

section \<open>One delivery per generation\<close>

text \<open>
  What each terminal member does (\<open>handleChildStartTurnFailure\<close>, the skip of a stalled member, a stop, and the
  handlers of a completed and a failed turn): buffer its entry, restore a lost count, ask whether the barrier is
  full, and drain it if it is. Each of the four is a critical section of the orchestrator's mutex of its own, so
  the steps of members that report at the same time interleave; \<open>known\<close> is the number of live seats the
  restoring call counted, 0 where the caller makes none.
\<close>

datatype reportStage = Appending | Inferring | Checking | Draining | Reported

fun reportStep ::
  "string \<Rightarrow> string \<Rightarrow> reportStage \<Rightarrow> int \<Rightarrow> cohortEntry \<Rightarrow> AgentOrchestrator
     \<Rightarrow> reportStage \<times> cohortEntry list option \<times> AgentOrchestrator" where
  "reportStep p c Appending known e s = (Inferring, None, snd (appendCohortResult p c e s))"
| "reportStep p c Inferring known e s = (Checking, None, inferCohortExpectedIfMissing p c known s)"
| "reportStep p c Checking known e s = (if cohortComplete p c s then Draining else Reported, None, s)"
| "reportStep p c Draining known e s = (let (es, s') = drainCohort p c s in (Reported, Some es, s'))"
| "reportStep p c Reported known e s = (Reported, None, s)"

text \<open>The members that report, what they have appended so far in order, and what was delivered to the hub.\<close>

record barrierRun =
  br_orch :: AgentOrchestrator
  br_members :: "(reportStage \<times> int \<times> cohortEntry) list"
  br_appended :: "cohortEntry list"
  br_delivered :: "cohortEntry list list"

definition startReports :: "(int \<times> cohortEntry) list \<Rightarrow> AgentOrchestrator \<Rightarrow> barrierRun" where
  "startReports reports s = \<lparr>br_orch = s, br_members = map (Pair Appending) reports, br_appended = [], br_delivered = []\<rparr>"

definition memberStep :: "string \<Rightarrow> string \<Rightarrow> nat \<Rightarrow> barrierRun \<Rightarrow> barrierRun" where
  "memberStep p c i r =
     (if i < length (br_members r) then
        (case br_members r ! i of (st, known, e) \<Rightarrow>
           (case reportStep p c st known e (br_orch r) of (st', d, s') \<Rightarrow>
              r\<lparr>br_orch := s', br_members := (br_members r)[i := (st', known, e)],
                br_appended := br_appended r @ (if st = Appending then [e] else []),
                br_delivered := br_delivered r @ (case d of None \<Rightarrow> [] | Some es \<Rightarrow> [es])\<rparr>))
      else r)"

text \<open>A schedule names the member that makes each next step; a serial one lets a member finish its report.\<close>

definition runReports :: "string \<Rightarrow> string \<Rightarrow> nat list \<Rightarrow> barrierRun \<Rightarrow> barrierRun" where
  "runReports p c sched r = fold (memberStep p c) sched r"

definition serialSchedule :: "nat list \<Rightarrow> nat list" where
  "serialSchedule order = concat (map (replicate 4) order)"

abbreviation seatsFilled :: "cohortEntry list \<Rightarrow> nat" where
  "seatsFilled es \<equiv> length (arrivals es)"

lemma length_barrierResults [simp]: "length (barrierResults es) = seatsFilled es"
  by (simp add: barrierResults_def)

text \<open>The barrier before its delivery, and after it.\<close>

definition barrierOpen :: "string \<Rightarrow> nat \<Rightarrow> barrierRun \<Rightarrow> bool" where
  "barrierOpen k n r \<longleftrightarrow>
     \<not> o_cohortDrained (br_orch r) k \<and> o_cohort (br_orch r) k = barrierResults (br_appended r) \<and>
     expectedAt (br_orch r) k = int n \<and> br_delivered r = [] \<and>
     (seatsFilled (br_appended r) < n \<longrightarrow> (\<forall>m\<in>set (br_members r). fst m \<noteq> Draining)) \<and>
     (n \<le> seatsFilled (br_appended r) \<longrightarrow> (\<exists>m\<in>set (br_members r). fst m \<in> {Inferring, Checking, Draining}))"

definition barrierClosed :: "string \<Rightarrow> nat \<Rightarrow> barrierRun \<Rightarrow> bool" where
  "barrierClosed k n r \<longleftrightarrow>
     deliveredAt k (br_orch r) \<and>
     (\<exists>got later j. br_appended r = got @ later \<and> n \<le> seatsFilled got \<and>
        br_delivered r = barrierResults got # replicate j [])"

lemma seatsFilled_mono: "seatsFilled es \<le> seatsFilled (es @ es')"
  by (induction es' rule: rev_induct) (simp_all add: arrivals_snoc flip: append_assoc)

lemma set_updated: "i < length xs \<Longrightarrow> set (xs[i := x]) = insert x (set (take i xs) \<union> set (drop (Suc i) xs))"
  by (auto simp: upd_conv_take_nth_drop)

lemma set_split: "i < length xs \<Longrightarrow> set xs = insert (xs ! i) (set (take i xs) \<union> set (drop (Suc i) xs))"
  by (metis list_update_id set_updated)

lemma members_after:
  assumes "i < length ms"
  shows "(\<exists>m\<in>set (ms[i := x]). P m) \<longleftrightarrow> P x \<or> (\<exists>m\<in>set (take i ms) \<union> set (drop (Suc i) ms). P m)"
    and "(\<exists>m\<in>set ms. P m) \<longleftrightarrow> P (ms ! i) \<or> (\<exists>m\<in>set (take i ms) \<union> set (drop (Suc i) ms). P m)"
    and "(\<forall>m\<in>set (ms[i := x]). P m) \<longleftrightarrow> P x \<and> (\<forall>m\<in>set (take i ms) \<union> set (drop (Suc i) ms). P m)"
    and "(\<forall>m\<in>set ms. P m) \<longleftrightarrow> P (ms ! i) \<and> (\<forall>m\<in>set (take i ms) \<union> set (drop (Suc i) ms). P m)"
  using assms by (simp_all add: set_updated set_split)

lemma barrierClosedI:
  "deliveredAt k (br_orch r) \<Longrightarrow> br_appended r = got @ later \<Longrightarrow> n \<le> seatsFilled got \<Longrightarrow>
   br_delivered r = barrierResults got # replicate j [] \<Longrightarrow> barrierClosed k n r"
  by (auto simp: barrierClosed_def)

lemma step_from_open:
  assumes r: "barrierOpen (cohortKey p c) n r" and n: "0 < n"
  shows "barrierOpen (cohortKey p c) n (memberStep p c i r) \<or> barrierClosed (cohortKey p c) n (memberStep p c i r)"
proof (cases "i < length (br_members r)")
  case len: True
  obtain st known e where m: "br_members r ! i = (st, known, e)" by (cases "br_members r ! i")
  note o = r [unfolded barrierOpen_def members_after(2,4) [OF len] m]
  show ?thesis
  proof (cases st)
    case Appending
    have "seatsFilled (br_appended r) \<le> seatsFilled (br_appended r @ [e])" by (rule seatsFilled_mono)
    with o Appending show ?thesis
      by (intro disjI1) (auto simp: barrierOpen_def memberStep_def m len members_after [OF len]
          appendCohortResult_def Let_def bufferEntry_results expectedAt_def)
  next
    case Inferring
    with o n show ?thesis
      by (intro disjI1) (auto simp: barrierOpen_def memberStep_def m len members_after [OF len]
          inferCohortExpectedIfMissing_def Let_def)
  next
    case Checking
    with o n show ?thesis
      by (intro disjI1) (auto simp: barrierOpen_def memberStep_def m len members_after [OF len] cohortComplete_def Let_def)
  next
    case Draining
    with o have "n \<le> seatsFilled (br_appended r)" by auto
    with o Draining drain_delivers [of p c "br_orch r"] show ?thesis
      by (intro disjI2 barrierClosedI [of _ _ "br_appended r" "[]" _ 0])
        (auto simp: memberStep_def m len drainCohort_def Let_def)
  next
    case Reported
    with o n show ?thesis
      by (intro disjI1) (auto simp: barrierOpen_def memberStep_def m len members_after [OF len])
  qed
qed (use r in \<open>simp add: memberStep_def\<close>)

lemma step_from_closed:
  assumes r: "barrierClosed (cohortKey p c) n r"
  shows "barrierClosed (cohortKey p c) n (memberStep p c i r)"
proof (cases "i < length (br_members r)")
  case len: True
  obtain st known e where m: "br_members r ! i = (st, known, e)" by (cases "br_members r ! i")
  obtain got later j where d: "deliveredAt (cohortKey p c) (br_orch r)" and g: "br_appended r = got @ later" "n \<le> seatsFilled got"
    and del: "br_delivered r = barrierResults got # replicate j []"
    using r by (auto simp: barrierClosed_def)
  have d': "deliveredAt (cohortKey p c) (br_orch (memberStep p c i r))"
    using d drain_delivers [of p c "br_orch r"] cohortStep_delivered [OF d, of "AppendOp p c e"] cohortStep_delivered [OF d, of "InferOp p c known"]
    by (cases st) (auto simp: memberStep_def m len split_beta)
  have "br_appended (memberStep p c i r) = got @ (later @ (if st = Appending then [e] else []))"
    using g by (simp add: memberStep_def m len split_beta)
  moreover have "br_delivered (memberStep p c i r) = barrierResults got # replicate (if st = Draining then Suc j else j) []"
    using d del by (cases st) (auto simp: memberStep_def m len drainCohort_def Let_def deliveredAt_def replicate_append_same)
  ultimately show ?thesis
    using d' g(2) by (intro barrierClosedI)
qed (use r in \<open>simp add: memberStep_def\<close>)

lemma runReports_barrier:
  "barrierOpen (cohortKey p c) n r \<or> barrierClosed (cohortKey p c) n r \<Longrightarrow> 0 < n \<Longrightarrow>
   barrierOpen (cohortKey p c) n (runReports p c sched r) \<or> barrierClosed (cohortKey p c) n (runReports p c sched r)"
  by (induction sched arbitrary: r) (auto simp: runReports_def dest: step_from_open step_from_closed)

lemma startReports_open:
  "\<not> o_cohortDrained s k \<Longrightarrow> o_cohort s k = [] \<Longrightarrow> expectedAt s k = int n \<Longrightarrow> 0 < n \<Longrightarrow> barrierOpen k n (startReports reports s)"
  by (auto simp: barrierOpen_def startReports_def barrierResults_def)

text \<open>Every entry of a member past its append has been appended.\<close>

definition appendedAll :: "barrierRun \<Rightarrow> bool" where
  "appendedAll r \<longleftrightarrow>
     mset (br_appended r) = mset (map (\<lambda>m. snd (snd m)) (filter (\<lambda>m. fst m \<noteq> Appending) (br_members r)))"

lemma filter_updated:
  assumes "i < length ms"
  shows "filter P (ms[i := x]) = filter P (take i ms) @ (if P x then [x] else []) @ filter P (drop (Suc i) ms)"
    and "filter P ms = filter P (take i ms) @ (if P (ms ! i) then [ms ! i] else []) @ filter P (drop (Suc i) ms)"
proof -
  show *: "filter P (ms[i := x]) = filter P (take i ms) @ (if P x then [x] else []) @ filter P (drop (Suc i) ms)" for x
    using assms by (simp add: upd_conv_take_nth_drop)
  show "filter P ms = filter P (take i ms) @ (if P (ms ! i) then [ms ! i] else []) @ filter P (drop (Suc i) ms)"
    using * [of "ms ! i"] by simp
qed

lemma step_appendedAll: "appendedAll r \<Longrightarrow> appendedAll (memberStep p c i r)"
proof (cases "i < length (br_members r)")
  case len: True
  assume r: "appendedAll r"
  obtain st known e where m: "br_members r ! i = (st, known, e)" by (cases "br_members r ! i")
  show ?thesis
    using r [unfolded appendedAll_def filter_updated(2) [OF len] m]
    by (cases st) (simp_all add: appendedAll_def memberStep_def m len filter_updated(1) [OF len] split_beta)
qed (simp add: memberStep_def)

lemma step_members: "map snd (br_members (memberStep p c i r)) = map snd (br_members r)"
  by (auto simp: memberStep_def map_update split: prod.split intro!: list_update_same_conv [THEN iffD2])

lemma runReports_members:
  "appendedAll r \<Longrightarrow> appendedAll (runReports p c sched r) \<and> map snd (br_members (runReports p c sched r)) = map snd (br_members r)"
  by (induction sched arbitrary: r) (simp_all add: runReports_def step_appendedAll step_members)

text \<open>A member that is not interrupted never drains an empty buffer.\<close>

definition quietRun :: "barrierRun \<Rightarrow> bool" where
  "quietRun r \<longleftrightarrow> (\<forall>m\<in>set (br_members r). fst m \<in> {Appending, Reported}) \<and> [] \<notin> set (br_delivered r)"

lemma complete_nonempty: "cohortComplete p c s \<Longrightarrow> fst (drainCohort p c s) \<noteq> []"
  by (auto simp: cohortComplete_def drainCohort_def Let_def)

lemma report_uninterrupted:
  assumes "i < length (br_members r)" and "br_members r ! i = (Appending, known, e)"
  shows "\<exists>d. [] \<notin> set d \<and>
     br_members (fold (memberStep p c) (replicate 4 i) r) = (br_members r)[i := (Reported, known, e)] \<and>
     br_delivered (fold (memberStep p c) (replicate 4 i) r) = br_delivered r @ d"
proof (cases "cohortComplete p c (inferCohortExpectedIfMissing p c known (snd (appendCohortResult p c e (br_orch r))))")
  case True
  show ?thesis
    using assms True complete_nonempty [OF True]
    by (intro exI [of _ "[fst (drainCohort p c (inferCohortExpectedIfMissing p c known (snd (appendCohortResult p c e (br_orch r)))))]"])
      (simp add: numeral_eq_Suc memberStep_def split_beta)
next
  case False
  show ?thesis
    using assms False by (intro exI [of _ "[]"]) (simp add: numeral_eq_Suc memberStep_def split_beta)
qed

lemma block_quiet: "quietRun r \<Longrightarrow> quietRun (fold (memberStep p c) (replicate 4 i) r)"
proof (cases "i < length (br_members r)")
  case len: True
  assume r: "quietRun r"
  obtain st known e where m: "br_members r ! i = (st, known, e)" by (cases "br_members r ! i")
  then have "(st, known, e) \<in> set (br_members r)" using len nth_mem by metis
  with r have "st = Appending \<or> st = Reported" by (auto simp: quietRun_def)
  then show ?thesis
  proof
    assume "st = Appending"
    with report_uninterrupted [OF len, of known e p c] m r show ?thesis
      by (fastforce simp: quietRun_def dest: set_update_subset_insert [THEN subsetD])
  next
    assume "st = Reported"
    then have "memberStep p c i r = r" using m len by (simp add: memberStep_def list_update_same_conv [THEN iffD2])
    with r show ?thesis by (simp add: numeral_eq_Suc)
  qed
qed (simp add: memberStep_def numeral_eq_Suc)

lemma serial_quiet: "quietRun r \<Longrightarrow> quietRun (runReports p c (serialSchedule order) r)"
  by (induction order arbitrary: r) (simp_all add: runReports_def serialSchedule_def block_quiet del: fold_replicate)

text \<open>
  C31: A cohort that expects \<open>n\<close> members delivers its results once, however its members' reports, four critical
  sections each, interleave and whatever count is restored on the way. The first drain happens only after the
  results appended so far fill \<open>n\<close> seats, and it delivers for each seat its first result that is not a
  cancellation, in the order the seats were filled; every later drain is an empty one. When all members have
  reported, every result was appended once, and nothing was delivered iff the results do not fill \<open>n\<close> seats.
  Where no report is interrupted by another, as for the handlers that run under the service's mutex, there is
  no empty delivery either.
\<close>

theorem barrier_delivers_once:
  assumes "\<not> o_cohortDrained s (cohortKey p c)" and "o_cohort s (cohortKey p c) = []"
    and "cohortExpectedCount p c s = int n" and "0 < n"
    and r: "r = runReports p c sched (startReports reports s)"
  shows "(br_delivered r = [] \<or>
      (\<exists>got later j. br_appended r = got @ later \<and> n \<le> length (arrivals got) \<and>
         br_delivered r = barrierResults got # replicate j [])) \<and>
    ((\<forall>m\<in>set (br_members r). fst m = Reported) \<longrightarrow>
       mset (br_appended r) = mset (map snd reports) \<and>
       (br_delivered r = [] \<longleftrightarrow> length (arrivals (br_appended r)) < n)) \<and>
    ((\<exists>order. sched = serialSchedule order) \<longrightarrow> length (br_delivered r) \<le> 1)"
proof -
  let ?k = "cohortKey p c" and ?r0 = "startReports reports s"
  have inv: "barrierOpen ?k n r \<or> barrierClosed ?k n r"
    unfolding r using assms by (intro runReports_barrier disjI1 startReports_open) (simp_all add: cohortExpectedCount_def)
  have all: "appendedAll r \<and> map snd (br_members r) = reports"
    using runReports_members [of ?r0 p c sched] by (simp add: r appendedAll_def startReports_def comp_def)
  have reported: "mset (br_appended r) = mset (map snd reports) \<and> (br_delivered r = [] \<longleftrightarrow> seatsFilled (br_appended r) < n)"
    if fin: "\<forall>m\<in>set (br_members r). fst m = Reported"
  proof -
    have "filter (\<lambda>m. fst m \<noteq> Appending) (br_members r) = br_members r" using fin by simp
    moreover have "map (\<lambda>m. snd (snd m)) (br_members r) = map snd reports"
      using all by (auto simp: comp_def)
    ultimately have "mset (br_appended r) = mset (map snd reports)"
      using all unfolding appendedAll_def by metis
    moreover have "seatsFilled (br_appended r) < n" if "barrierOpen ?k n r"
      using that fin by (fastforce simp: barrierOpen_def)
    moreover have "n \<le> seatsFilled (br_appended r)" if "barrierClosed ?k n r"
      using that seatsFilled_mono order_trans by (fastforce simp: barrierClosed_def)
    moreover have "br_delivered r = []" if "barrierOpen ?k n r"
      using that by (simp add: barrierOpen_def)
    moreover have "br_delivered r \<noteq> []" if "barrierClosed ?k n r"
      using that by (auto simp: barrierClosed_def)
    ultimately show ?thesis using inv by (metis not_le)
  qed
  have serial: "length (br_delivered r) \<le> 1" if "sched = serialSchedule order" for order
  proof -
    have "quietRun r"
      unfolding r that by (rule serial_quiet) (auto simp: quietRun_def startReports_def)
    then show ?thesis using inv
      by (auto simp: quietRun_def barrierOpen_def barrierClosed_def)
  qed
  from inv reported serial show ?thesis
    by (auto simp: barrierOpen_def barrierClosed_def)
qed

definition demo_result :: "string \<Rightarrow> string \<Rightarrow> cohortEntry" where
  "demo_result label status =
     \<lparr>ce_Label = label, ce_Provider = [], ce_FinalMessage = [], ce_Status = status, ce_Err = [], ce_MachineVerdict = [], ce_VerdictDetail = []\<rparr>"

definition demo_reports :: "(int \<times> cohortEntry) list" where
  "demo_reports = map (Pair 1) [demo_result ''a'' ''cancelled'', demo_result ''a'' ''completed'', demo_result ''b'' ''failed'', demo_result ''a'' ''failed'']"

abbreviation demo_cohort :: AgentOrchestrator where
  "demo_cohort \<equiv> preRegisterCohort ''p'' ''c'' 2 newAgentOrchestrator"

theorem barrier_delivers_once_witness:
  "length (br_delivered (runReports ''p'' ''c'' (serialSchedule [0, 1, 2, 3]) (startReports demo_reports demo_cohort))) \<le> 1"
proof -
  have 1: "\<not> o_cohortDrained demo_cohort (cohortKey ''p'' ''c'')" and 2: "o_cohort demo_cohort (cohortKey ''p'' ''c'') = []"
    and 3: "cohortExpectedCount ''p'' ''c'' demo_cohort = int 2" by code_simp+
  show ?thesis
    using barrier_delivers_once [OF 1 2 3 _ refl, of "serialSchedule [0, 1, 2, 3]" demo_reports] by auto
qed

text \<open>The same reports one after the other, and two members whose steps alternate: both find the barrier full.\<close>

lemma serial_reports_deliver:
  "br_delivered (runReports ''p'' ''c'' (serialSchedule [0, 1, 2, 3]) (startReports demo_reports demo_cohort)) =
     [[demo_result ''a'' ''completed'', demo_result ''b'' ''failed'']]"
  by code_simp

lemma failing_members_deliver_twice:
  "br_delivered (runReports ''p'' ''c'' [0, 1, 0, 1, 0, 1, 0, 1]
     (startReports [(2, demo_result ''a'' ''failed''), (2, demo_result ''b'' ''failed'')] demo_cohort)) =
     [[demo_result ''a'' ''failed'', demo_result ''b'' ''failed''], []]"
  by code_simp

theorem drained_stays_closed_witness:
  "\<not> cohortComplete ''p'' ''c'' (fold cohortStep [AppendOp ''p'' ''c'' (demo_result ''a'' ''completed''), InferOp ''p'' ''c'' 1]
       (snd (drainCohort ''p'' ''c'' newAgentOrchestrator)))"
  using drained_stays_closed [of "[AppendOp ''p'' ''c'' (demo_result ''a'' ''completed''), InferOp ''p'' ''c'' 1]" "''p''" "''c''" _ newAgentOrchestrator, OF _ refl]
  by simp

end
