(* ===== verification/Review_Gate.thy ===== *)
theory Review_Gate
  imports Agent_Orchestrator Flow_Steps
begin

text \<open>
  Reviewer verdicts and the cohort join: how a member's verdict is buffered, consumed into its
  barrier entry, folded into the hub's verdict map, and read by the hub gates
  (\<open>runner/review_done_verdict.go\<close>), and what a member's completion or failure does to the barrier
  (\<open>settleFlowChildTurnCompletedLocked\<close> and \<open>emitLocked\<close> in \<open>runner/interactive_service.go\<close>). The
  handlers run under the service mutex, so each is one state function; what they start in a goroutine
  or hand to another subsystem (step writes, turns, hub prompts) is recorded in order as an effect. The
  Go maps of verdicts are association lists; the runs of the service are a list with one entry per id.
\<close>

section \<open>Runs, orchestrator and effects\<close>

type_synonym verdictMap = "(string \<times> string) list"

record reviewRun =
  vr_id :: string
  vr_runKind :: string
  vr_chatID :: string
  vr_legSeq :: int
  vr_legState :: string
  vr_parentRunID :: string
  vr_agentName :: string
  vr_label :: string
  vr_role :: string
  vr_status :: string
  vr_createdAt :: string
  vr_dependsOn :: "string list"
  vr_agentStatus :: string
  vr_providerKey :: string
  vr_modelName :: string
  vr_waitForResult :: bool
  vr_activationSeq :: int
  vr_flowCohortId :: string
  vr_cohortSkipConsumed :: bool
  vr_stepID :: string
  vr_lastTurnStepID :: string
  vr_flowEngineDriven :: bool
  vr_activeFlowNodes :: "FlowNode list"
  vr_activeFlowEdges :: "FlowEdge list"
  vr_activeHubNodeID :: string
  vr_activeFlowAcceptanceNodes :: "string list"
  vr_pendingReviewVerdictByLabel :: verdictMap
  vr_pendingReviewVerdictDetailByLabel :: verdictMap
  vr_lastReviewCohortVerdicts :: verdictMap
  vr_verdictAutoRedrives :: int
  vr_verdictRepromptCount :: int
  vr_reinvokeInFlight :: bool
  vr_verdictRepromptInFlight :: bool
  vr_pendingAgentContext :: "string list"
  vr_lastCohortNote :: string
  vr_vibeResumeConfirm :: bool

datatype joinEffect =
    TouchHubProgress string
  | StepWrite string string RuntimeWorkflowStepStatus
  | StepFailedWrite string string string
  | ScheduleChildTurn string string string
  | AutoReinvokeHubWithNote string string
  | AdvanceOrNotifyHub string string string string
  | AdvanceFromNodeOrReinvoke string string string string
  | AdvanceThroughInline string string string
  | SettleOwnerDebate string
  | EmitLoopTransition string string

record joinService =
  js_orch :: AgentOrchestrator
  js_runs :: "reviewRun list"
  js_effects :: "joinEffect list"

definition findRun :: "string \<Rightarrow> reviewRun list \<Rightarrow> reviewRun option" where
  "findRun i runs = find (\<lambda>r. vr_id r = i) runs"

definition updateRun :: "string \<Rightarrow> (reviewRun \<Rightarrow> reviewRun) \<Rightarrow> reviewRun list \<Rightarrow> reviewRun list" where
  "updateRun i f runs = map (\<lambda>r. if vr_id r = i then f r else r) runs"

definition lookupText :: "verdictMap \<Rightarrow> string \<Rightarrow> string" where
  "lookupText m k = (case map_of m k of None \<Rightarrow> [] | Some v \<Rightarrow> v)"

definition emit :: "joinEffect \<Rightarrow> joinService \<Rightarrow> joinService" where
  "emit x s = s\<lparr>js_effects := js_effects s @ [x]\<rparr>"

section \<open>The run that owns the flow topology\<close>

definition ensureChatTagging :: "reviewRun \<Rightarrow> reviewRun" where
  "ensureChatTagging r =
     (if vr_runKind r \<noteq> ''chat'' \<or> vr_chatID r \<noteq> '''' then r
      else r\<lparr>vr_chatID := vr_id r, vr_legSeq := 0,
             vr_legState := (if vr_legState r = '''' then ''active'' else vr_legState r)\<rparr>)"

definition legIsFlowRelay :: "reviewRun \<Rightarrow> bool" where
  "legIsFlowRelay r \<longleftrightarrow>
     vr_chatID r \<noteq> '''' \<and> vr_parentRunID r = '''' \<and> vr_flowEngineDriven r \<and> vr_activeFlowNodes r = []"

text \<open>The legs of a chat; a legacy leg named by the chat id is tagged on the way.\<close>

definition activeChatLegs :: "string \<Rightarrow> reviewRun list \<Rightarrow> reviewRun list \<times> reviewRun list" where
  "activeChatLegs chatID runs =
     (let runs1 = map (\<lambda>r. if vr_runKind r = ''chat'' \<and> vr_chatID r \<noteq> chatID \<and> vr_id r = chatID
                           then ensureChatTagging r else r) runs
      in (filter (\<lambda>r. vr_runKind r = ''chat'' \<and> vr_chatID r = chatID) runs1, runs1))"

definition newerLeg :: "reviewRun option \<Rightarrow> reviewRun \<Rightarrow> bool" where
  "newerLeg best leg \<longleftrightarrow> (case best of None \<Rightarrow> True | Some b \<Rightarrow> vr_legSeq leg > vr_legSeq b)"

fun newestMounted :: "reviewRun option \<Rightarrow> reviewRun list \<Rightarrow> reviewRun option" where
  "newestMounted best [] = best"
| "newestMounted best (leg # legs) =
     newestMounted
       (if vr_flowEngineDriven leg \<and> vr_activeFlowNodes leg \<noteq> [] \<and> newerLeg best leg
        then Some leg else best) legs"

definition flowLoopOwnerFor :: "reviewRun \<Rightarrow> reviewRun list \<Rightarrow> reviewRun option \<times> reviewRun list" where
  "flowLoopOwnerFor rs runs =
     (if \<not> legIsFlowRelay rs then (None, runs)
      else let (legs, runs1) = activeChatLegs (vr_chatID rs) runs in (newestMounted None legs, runs1))"

definition flowTopologySource :: "string \<Rightarrow> reviewRun list \<Rightarrow> reviewRun option \<times> reviewRun list" where
  "flowTopologySource i runs =
     (case findRun i runs of
        None \<Rightarrow> (None, runs)
      | Some rs \<Rightarrow>
          (case flowLoopOwnerFor rs runs of
             (Some owner, runs1) \<Rightarrow> (Some owner, runs1)
           | (None, runs1) \<Rightarrow> (Some rs, runs1)))"

section \<open>Which verdicts a hub waits for\<close>

definition synthesisAcceptanceNodeID :: string where
  "synthesisAcceptanceNodeID = ''synthesis''"

definition flowRequiresSynthesisMachineVerdict :: "reviewRun \<Rightarrow> bool" where
  "flowRequiresSynthesisMachineVerdict rs \<longleftrightarrow>
     list_ex (\<lambda>i. TrimSpace i = synthesisAcceptanceNodeID) (vr_activeFlowAcceptanceNodes rs)"

definition cohortNodeLabels :: "FlowNode list \<Rightarrow> string \<Rightarrow> string list" where
  "cohortNodeLabels nodes cohort =
     (let c = TrimSpace cohort
      in if c = '''' then []
         else filter (\<lambda>i. i \<noteq> '''') (map (\<lambda>n. TrimSpace (fn_ID n)) (filter (\<lambda>n. TrimSpace (fn_Cohort n) = c) nodes)))"

definition reviewCohortNodeLabels :: "FlowNode list \<Rightarrow> string list" where
  "reviewCohortNodeLabels nodes = cohortNodeLabels nodes ''review''"

definition hubInboundCohortName :: "string \<Rightarrow> string" where
  "hubInboundCohortName hubID =
     (let h = TrimSpace hubID
      in if h = ''plan_synthesis'' \<or> h = ''cp_synthesis'' then ''plan''
         else if h = ''synthesis'' then ''review'' else '''')"

definition flowRequiresHubMachineVerdict :: "reviewRun \<Rightarrow> string \<Rightarrow> bool" where
  "flowRequiresHubMachineVerdict rs hubID \<longleftrightarrow>
     (let cohort = hubInboundCohortName hubID
      in cohort \<noteq> '''' \<and> cohortNodeLabels (vr_activeFlowNodes rs) cohort \<noteq> [])"

definition vibeDebateSynthesisNodeID :: string where
  "vibeDebateSynthesisNodeID = ''debate_synthesis''"

definition ownerDebateGraph :: "FlowNode list \<Rightarrow> bool" where
  "ownerDebateGraph nodes \<longleftrightarrow>
     (let ids = map (\<lambda>n. TrimSpace (fn_ID n)) nodes
      in list_ex (\<lambda>i. i = ''owner_1'') ids \<and> list_ex (\<lambda>i. i = ''owner_2'') ids \<and>
         list_ex (\<lambda>i. i = vibeDebateSynthesisNodeID) ids)"

definition vibeOwnerDebateMemberRequiresVerdict :: "reviewRun \<Rightarrow> reviewRun \<Rightarrow> bool" where
  "vibeOwnerDebateMemberRequiresVerdict parent child \<longleftrightarrow>
     ownerDebateGraph (vr_activeFlowNodes parent) \<and>
     (let nodeID = (if TrimSpace (vr_stepID child) = '''' then TrimSpace (vr_label child) else TrimSpace (vr_stepID child))
      in list_ex (\<lambda>n. TrimSpace (fn_ID n) = nodeID \<and> TrimSpace (fn_Cohort n) = ''owner_debate'') (vr_activeFlowNodes parent))"

section \<open>Recording, folding and reading verdicts\<close>

definition recordReviewCohortMemberVerdict ::
  "string \<Rightarrow> string \<Rightarrow> string \<Rightarrow> string \<Rightarrow> reviewRun list \<Rightarrow> reviewRun list" where
  "recordReviewCohortMemberVerdict parentRunID label0 domainStatus0 detail0 runs =
     (let label = TrimSpace label0; domainStatus = TrimSpace domainStatus0; detail = TrimSpace detail0
      in if parentRunID = '''' \<or> label = '''' \<or> domainStatus = '''' then runs
         else case flowTopologySource parentRunID runs of
           (None, runs1) \<Rightarrow> runs1
         | (Some parent, runs1) \<Rightarrow>
             updateRun (vr_id parent)
               (\<lambda>p. p\<lparr>vr_pendingReviewVerdictByLabel := AList.update label domainStatus (vr_pendingReviewVerdictByLabel p),
                      vr_pendingReviewVerdictDetailByLabel :=
                        (if detail = '''' then vr_pendingReviewVerdictDetailByLabel p
                         else AList.update label detail (vr_pendingReviewVerdictDetailByLabel p))\<rparr>) runs1)"

definition foldEntry :: "cohortEntry \<Rightarrow> reviewRun \<Rightarrow> reviewRun" where
  "foldEntry e p =
     (let label = TrimSpace (ce_Label e); v = TrimSpace (ce_MachineVerdict e)
      in if label = '''' then p
         else if v \<noteq> '''' then p\<lparr>vr_lastReviewCohortVerdicts := AList.update label v (vr_lastReviewCohortVerdicts p),
                                  vr_verdictAutoRedrives := 0\<rparr>
         else p\<lparr>vr_lastReviewCohortVerdicts := AList.delete label (vr_lastReviewCohortVerdicts p)\<rparr>)"

definition snapshotReviewCohortVerdicts :: "string \<Rightarrow> cohortEntry list \<Rightarrow> reviewRun list \<Rightarrow> reviewRun list" where
  "snapshotReviewCohortVerdicts parentRunID entries runs =
     (case flowTopologySource parentRunID runs of
        (None, runs1) \<Rightarrow> runs1
      | (Some parent, runs1) \<Rightarrow> updateRun (vr_id parent) (fold foldEntry entries) runs1)"

text \<open>The reader's view of the verdicts: what landed late is credited, and leaves the pending map.\<close>

definition credited :: "reviewRun \<Rightarrow> verdictMap" where
  "credited p = filter (\<lambda>(k, v). map_of (vr_lastReviewCohortVerdicts p) k = None \<and> TrimSpace v \<noteq> '''')
     (vr_pendingReviewVerdictByLabel p)"

definition mergePendingReviewVerdicts :: "reviewRun \<Rightarrow> verdictMap \<times> reviewRun" where
  "mergePendingReviewVerdicts p =
     (vr_lastReviewCohortVerdicts p @ credited p,
      p\<lparr>vr_pendingReviewVerdictByLabel :=
          filter (\<lambda>(k, v). \<not> (map_of (vr_lastReviewCohortVerdicts p) k = None \<and> TrimSpace v \<noteq> ''''))
            (vr_pendingReviewVerdictByLabel p)\<rparr>)"

definition readVerdicts :: "reviewRun \<Rightarrow> reviewRun list \<Rightarrow> verdictMap \<times> reviewRun list" where
  "readVerdicts p runs =
     (let (m, p1) = mergePendingReviewVerdicts p in (m, updateRun (vr_id p) (\<lambda>_. p1) runs))"

definition missingVerdicts :: "verdictMap \<Rightarrow> string list \<Rightarrow> string list" where
  "missingVerdicts m expected = filter (\<lambda>l. lookupText m l = '''') expected"

definition notApproved :: "verdictMap \<Rightarrow> string list \<Rightarrow> string list" where
  "notApproved m expected =
     map (\<lambda>l. l @ ''='' @ lookupText m l) (filter (\<lambda>l. lookupText m l \<noteq> '''' \<and> lookupText m l \<noteq> ''approved'') expected)"

definition synthesisDoneVerdictError :: "string \<Rightarrow> reviewRun list \<Rightarrow> string option \<times> reviewRun list" where
  "synthesisDoneVerdictError parentRunID runs =
     (case flowTopologySource parentRunID runs of
        (None, runs1) \<Rightarrow>
          (Some ''applyFlowControl: synthesis done requires reviewer machine verdicts but no review cohort nodes are configured'', runs1)
      | (Some parent, runs1) \<Rightarrow>
          (let expected = reviewCohortNodeLabels (vr_activeFlowNodes parent);
               (m, runs2) = readVerdicts parent runs1
           in (if expected = [] then
                 (if cohortNodeLabels (vr_activeFlowNodes parent) ''owner_debate'' \<noteq> [] then None
                  else Some ''applyFlowControl: synthesis done requires reviewer machine verdicts but no review cohort nodes are configured'')
               else if missingVerdicts m expected \<noteq> [] then
                 Some (''applyFlowControl: synthesis done blocked '' @ emdash @ '' missing machine verdict from reviewer(s): ''
                       @ Join (missingVerdicts m expected) '', '')
               else if notApproved m expected \<noteq> [] then
                 Some (''applyFlowControl: synthesis done blocked '' @ emdash @ '' reviewer verdict not approved: ''
                       @ Join (notApproved m expected) '', '')
               else None, runs2)))"

definition hubDoneVerdictError :: "(string \<Rightarrow> string) \<Rightarrow> string \<Rightarrow> string \<Rightarrow> reviewRun list \<Rightarrow> string option \<times> reviewRun list" where
  "hubDoneVerdictError quote parentRunID hubID0 runs =
     (let hubID = TrimSpace hubID0; cohort = hubInboundCohortName hubID;
          unset = ''advanceHubDoneThroughEdge: '' @ hubID @ '' done requires '' @ cohort @ '' reviewer machine verdicts but no ''
                  @ cohort @ '' cohort nodes are configured''
      in if cohort = '''' then
           (Some (''advanceHubDoneThroughEdge: '' @ hubID @ '' done blocked '' @ emdash @ '' unknown hub '' @ quote hubID), runs)
         else case flowTopologySource parentRunID runs of
           (None, runs1) \<Rightarrow> (Some unset, runs1)
         | (Some parent, runs1) \<Rightarrow>
             (let expected = cohortNodeLabels (vr_activeFlowNodes parent) cohort;
                  (m, runs2) = readVerdicts parent runs1
              in (if expected = [] then Some unset
                  else if missingVerdicts m expected \<noteq> [] then
                    Some (''advanceHubDoneThroughEdge: '' @ hubID @ '' done blocked '' @ emdash @ '' missing machine verdict from ''
                          @ cohort @ '' reviewer(s): '' @ Join (missingVerdicts m expected) '', '')
                  else if notApproved m expected \<noteq> [] then
                    Some (''advanceHubDoneThroughEdge: '' @ hubID @ '' done blocked '' @ emdash @ '' reviewer verdict not approved: ''
                          @ Join (notApproved m expected) '', '')
                  else None, runs2)))"

definition hubDoneCohortHasChangesRequested :: "string \<Rightarrow> string \<Rightarrow> reviewRun list \<Rightarrow> bool \<times> reviewRun list" where
  "hubDoneCohortHasChangesRequested parentRunID hubID runs =
     (let cohort = hubInboundCohortName hubID
      in if cohort = '''' then (False, runs)
         else case findRun parentRunID runs of
           None \<Rightarrow> (False, runs)
         | Some parent \<Rightarrow>
             (let (m, runs1) = readVerdicts parent runs
              in (list_ex (\<lambda>l. lookupText m l = ''changes_requested'') (cohortNodeLabels (vr_activeFlowNodes parent) cohort), runs1)))"

text \<open>The transition a hub's prose turn drives: \<open>done\<close>, \<open>continue\<close>, or none.\<close>

definition proseStatus :: "verdictMap \<Rightarrow> string" where
  "proseStatus m =
     (if m = [] then ''''
      else if list_ex (\<lambda>(_, v). v \<noteq> ''approved'' \<and> v \<noteq> ''changes_requested'') m then ''''
      else if list_ex (\<lambda>(_, v). v = ''changes_requested'') m then ''continue'' else ''done'')"

definition hubProseVerdictDerivesFlowStatus :: "string \<Rightarrow> reviewRun list \<Rightarrow> string \<times> reviewRun list" where
  "hubProseVerdictDerivesFlowStatus parentRunID runs =
     (case flowTopologySource parentRunID runs of
        (None, runs1) \<Rightarrow> (proseStatus [], runs1)
      | (Some parent, runs1) \<Rightarrow>
          (let (m, runs2) = readVerdicts parent runs1;
               hubID = (if TrimSpace (vr_activeHubNodeID parent) = '''' then hubInlineNodeID (vr_activeFlowNodes parent)
                        else TrimSpace (vr_activeHubNodeID parent));
               expected = (if hubInboundCohortName hubID = '''' then []
                           else cohortNodeLabels (vr_activeFlowNodes parent) (hubInboundCohortName hubID))
           in (proseStatus (if expected = [] then m
                            else map (\<lambda>l. (l, lookupText m l)) (filter (\<lambda>l. map_of m l \<noteq> None) expected)), runs2)))"

end
