(* ===== verification/Cohort_Join.thy ===== *)
theory Cohort_Join
  imports Review_Gate
begin

text \<open>
  What the end of a cohort member's turn does (\<open>settleFlowChildTurnCompletedLocked\<close> for a completed
  turn, \<open>emitLocked\<close> for a failed one): the member's verdict is consumed or asked for again, its entry is
  buffered, the barrier is completed and drained, the verdicts are folded, and the hub or the next node
  is started with the joined note.
\<close>

section \<open>Texts\<close>

text \<open>Display fields are cut by rune; a rune of a valid text starts at a byte that is no continuation byte.\<close>

definition continuationByte :: "char \<Rightarrow> bool" where
  "continuationByte c \<longleftrightarrow> CHR 0x80 \<le> c \<and> c < CHR 0xC0"

fun takeRunes :: "nat \<Rightarrow> string \<Rightarrow> string" where
  "takeRunes n [] = []"
| "takeRunes n (c # cs) =
     (if continuationByte c then c # takeRunes n cs
      else case n of 0 \<Rightarrow> [] | Suc m \<Rightarrow> c # takeRunes m cs)"

definition truncateDisplayField :: "string \<Rightarrow> nat \<Rightarrow> string" where
  "truncateDisplayField x n =
     (if length (filter (\<lambda>c. \<not> continuationByte c) x) \<le> n then x
      else takeRunes n x @ [CHR 0xE2, CHR 0x80, CHR 0xA6])"

definition cohortNoteLine :: "(string \<Rightarrow> string) \<Rightarrow> cohortEntry \<Rightarrow> string" where
  "cohortNoteLine quote e =
     (let label = (if ce_Label e = '''' then ''agent'' else ce_Label e);
          who = quote label @ '' ('' @ ce_Provider e @ ''): '';
          nl = [CHR 0x0A]
      in if ce_Status e = ''failed'' then who @ ''failed: '' @ ce_Err e @ nl
         else if ce_Status e = ''cancelled'' then who @ ''cancelled'' @ nl
         else (let msg = TrimSpace (ce_FinalMessage e); v = TrimSpace (ce_MachineVerdict e); d = TrimSpace (ce_VerdictDetail e)
               in who @ (if msg = '''' then ''(completed with no final message captured)'' else msg) @ nl
                  @ (if v = '''' then '''' else ''  verdict='' @ v @ nl)
                  @ (if d = '''' then '''' else ''  verdict detail: '' @ d @ nl)))"

definition buildCohortNote :: "(string \<Rightarrow> string) \<Rightarrow> cohortEntry list \<Rightarrow> int \<Rightarrow> string" where
  "buildCohortNote quote entries rnd =
     ''[flow-engine joined result note]'' @ [CHR 0x0A]
     @ ''Flow round '' @ fmt_d rnd @ '' '' @ emdash @ '' '' @ fmt_d (int (length entries)) @ '' results joined.'' @ [CHR 0x0A]
     @ concat (map (cohortNoteLine quote) entries)
     @ ''---'' @ [CHR 0x0A]
     @ ''This joined result note is part of your current prompt context.'' @ [CHR 0x0A]
     @ ''Synthesize: dedup the findings, flag any conflicting verdicts, resolve them ''
     @ ''using the task context, then call the flow's control tool with the consolidated result.''"

definition verdictRepromptPrompt :: string where
  "verdictRepromptPrompt =
     ''Your previous turn ended without the required submit_review_outcome call '' @ emdash
     @ '' the verdict was never recorded (a tool call attached to your final message may have been ''
     @ ''cancelled in flight). Call submit_review_outcome NOW, as the FIRST action of this turn, ''
     @ ''with status=approved|changes_requested|blocked and a verdicts array containing one row ''
     @ ''per acceptance criterion. Wait for the tool result before writing any summary text.''"

section \<open>The loop, the hub and the context notes\<close>

definition vibeResumePausedReason :: string where
  "vibeResumePausedReason = ''paused''"

definition loopIsAdvancing :: "string \<Rightarrow> joinService \<Rightarrow> bool" where
  "loopIsAdvancing parentRunID s =
     (let st = loopStateFor parentRunID (js_orch s)
      in if ls_Status st \<in> {''paused'', ''stopped'', ''done''} then False
         else if ls_Status st = ''blocked'' then
           ls_BlockReason st = vibeResumePausedReason \<and>
           \<not> (case findRun parentRunID (js_runs s) of None \<Rightarrow> False | Some r \<Rightarrow> vr_vibeResumeConfirm r)
         else True)"

text \<open>
  In the state of the resume card \<open>loopIsAdvancing\<close> takes the service mutex, which the handlers of this
  theory hold when they call it: the call never returns, and with it the handler. Such a handler has
  the result \<open>None\<close>.
\<close>

definition relocksMutex :: "string \<Rightarrow> joinService \<Rightarrow> bool" where
  "relocksMutex parentRunID s \<longleftrightarrow>
     ls_Status (loopStateFor parentRunID (js_orch s)) = ''blocked'' \<and>
     ls_BlockReason (loopStateFor parentRunID (js_orch s)) = vibeResumePausedReason"

definition loopSealedForReinvoke :: "string \<Rightarrow> joinService \<Rightarrow> bool" where
  "loopSealedForReinvoke parentRunID s \<longleftrightarrow> ls_Status (loopStateFor parentRunID (js_orch s)) \<in> {''stopped'', ''done''}"

definition maxPendingAgentNotes :: nat where
  "maxPendingAgentNotes = 50"

definition appendPendingAgentContext :: "string \<Rightarrow> string \<Rightarrow> joinService \<Rightarrow> joinService" where
  "appendPendingAgentContext parentRunID note s =
     (if note = '''' then s
      else s\<lparr>js_runs := updateRun parentRunID
               (\<lambda>p. let notes = vr_pendingAgentContext p @ [note]
                    in p\<lparr>vr_pendingAgentContext := drop (length notes - maxPendingAgentNotes) notes\<rparr>) (js_runs s)\<rparr>)"

definition touchParentHubProgressFromChild :: "reviewRun \<Rightarrow> joinService \<Rightarrow> joinService" where
  "touchParentHubProgressFromChild child s =
     (case findRun (vr_parentRunID child) (js_runs s) of
        None \<Rightarrow> s
      | Some parent \<Rightarrow>
          if vr_parentRunID child = '''' \<or> vr_parentRunID parent \<noteq> '''' \<or> \<not> vr_flowEngineDriven parent then s
          else emit (TouchHubProgress (vr_id parent)) s)"

text \<open>The seats a cohort has: one per label, and one per run without a label.\<close>

definition ensureCohortExpected :: "string \<Rightarrow> string \<Rightarrow> joinService \<Rightarrow> joinService" where
  "ensureCohortExpected parentRunID0 cohortID0 s =
     (let parentRunID = TrimSpace parentRunID0; cohortID = TrimSpace cohortID0;
          seats = remdups (map (\<lambda>r. if TrimSpace (vr_label r) = '''' then vr_id r else TrimSpace (vr_label r))
                    (filter (\<lambda>r. vr_parentRunID r = parentRunID \<and> TrimSpace (vr_flowCohortId r) = cohortID) (js_runs s)))
      in if parentRunID = '''' \<or> cohortID = '''' \<or> seats = [] then s
         else s\<lparr>js_orch := inferCohortExpectedIfMissing parentRunID cohortID (int (length seats)) (js_orch s)\<rparr>)"

definition memberAlreadyBuffered :: "string \<Rightarrow> string \<Rightarrow> string \<Rightarrow> AgentOrchestrator \<Rightarrow> bool" where
  "memberAlreadyBuffered parentRunID cohortID label s =
     list_ex (\<lambda>e. TrimSpace (ce_Label e) = TrimSpace label) (o_cohort s (cohortKey parentRunID cohortID))"

definition openSeatForLabel :: "string \<Rightarrow> string \<Rightarrow> string \<Rightarrow> AgentOrchestrator \<Rightarrow> bool" where
  "openSeatForLabel parentRunID cohortID label s =
     (let k = cohortKey parentRunID cohortID; ex = expectedAt s k
      in \<not> (ex \<le> 0 \<or> int (length (o_cohort s k)) \<ge> ex) \<and>
         \<not> list_ex (\<lambda>e. TrimSpace (ce_Label e) = TrimSpace label \<and> ce_Status e \<noteq> ''cancelled'') (o_cohort s k))"

section \<open>Where a join leads\<close>

definition vibeLinearWriterNode :: "string \<Rightarrow> bool" where
  "vibeLinearWriterNode nodeID \<longleftrightarrow> TrimSpace nodeID \<in> {''cp_writer'', ''task_slicer'', ''task_plan_reader''}"

definition vibeLinearWriterCohort :: "cohortEntry list \<Rightarrow> bool" where
  "vibeLinearWriterCohort entries =
     (let finished = filter (\<lambda>e. ce_Status e = ''completed'') entries
      in list_all (\<lambda>e. vibeLinearWriterNode (ce_Label e)) finished \<and> finished \<noteq> [])"

definition flowNodeInlineDispatchable :: "FlowNode \<Rightarrow> bool" where
  "flowNodeInlineDispatchable n =
     canonicalIn [''command.validate'', ''artifact.audit_draft'', ''telegram.notify'', ''hub.notify'', ''hub.inline'',
       ''contract.freeze'', ''context.produce'', ''tournament.arbiter'', ''tournament.merge''] (fn_Behavior n)"

fun sharedTarget :: "FlowEdge list \<Rightarrow> string \<Rightarrow> cohortEntry list \<Rightarrow> string option" where
  "sharedTarget edges shared [] = Some shared"
| "sharedTarget edges shared (e # es) =
     (if TrimSpace (ce_Label e) = '''' then None
      else case forwardDoneTargets edges (ce_Label e) of
             [t] \<Rightarrow> if shared = '''' then sharedTarget edges t es
                    else if shared \<noteq> t then None else sharedTarget edges shared es
           | _ \<Rightarrow> None)"

definition flowSharedInlineJoinTarget :: "FlowNode list \<Rightarrow> FlowEdge list \<Rightarrow> cohortEntry list \<Rightarrow> FlowNode option" where
  "flowSharedInlineJoinTarget nodes edges entries =
     (case sharedTarget edges '''' entries of
        None \<Rightarrow> None
      | Some shared \<Rightarrow>
          if shared = '''' then None
          else case findFlowNode nodes shared of
            None \<Rightarrow> None
          | Some node \<Rightarrow>
              if \<not> flowNodeInlineDispatchable node then None
              else if canonicalIn [''hub.inline'', ''hub.notify''] (fn_Behavior node) then None
              else Some node)"

section \<open>A completed member\<close>

text \<open>The verdict recorded for the member leaves the parent's pending maps.\<close>

definition takeMemberVerdict :: "reviewRun \<Rightarrow> joinService \<Rightarrow> (string \<times> string) \<times> joinService" where
  "takeMemberVerdict rs s =
     (case findRun (vr_parentRunID rs) (js_runs s) of
        None \<Rightarrow> (([], []), s)
      | Some parent \<Rightarrow>
          ((lookupText (vr_pendingReviewVerdictByLabel parent) (vr_label rs),
            lookupText (vr_pendingReviewVerdictDetailByLabel parent) (vr_label rs)),
           s\<lparr>js_runs := updateRun (vr_parentRunID rs)
               (\<lambda>p. p\<lparr>vr_pendingReviewVerdictByLabel := AList.delete (vr_label rs) (vr_pendingReviewVerdictByLabel p),
                      vr_pendingReviewVerdictDetailByLabel := AList.delete (vr_label rs) (vr_pendingReviewVerdictDetailByLabel p)\<rparr>)
               (js_runs s)\<rparr>))"

text \<open>A member that owes a verdict and has reprompts left is asked for it again.\<close>

definition owesVerdict :: "reviewRun \<Rightarrow> joinService \<Rightarrow> bool \<times> joinService" where
  "owesVerdict rs s =
     (case flowTopologySource (vr_parentRunID rs) (js_runs s) of
        (None, runs1) \<Rightarrow> (False, s\<lparr>js_runs := runs1\<rparr>)
      | (Some parent, runs1) \<Rightarrow>
          ((flowRequiresSynthesisMachineVerdict parent \<or> flowRequiresHubMachineVerdict parent ''plan_synthesis''
            \<or> flowRequiresHubMachineVerdict parent ''synthesis'' \<or> flowRequiresHubMachineVerdict parent ''cp_synthesis''
            \<or> vibeOwnerDebateMemberRequiresVerdict parent rs) \<and> vr_verdictRepromptCount rs < 2,
           s\<lparr>js_runs := runs1\<rparr>))"

definition repromptStep :: "reviewRun \<Rightarrow> string" where
  "repromptStep rs =
     (if vr_stepID rs \<noteq> '''' then vr_stepID rs
      else if vr_lastTurnStepID rs \<noteq> '''' then vr_lastTurnStepID rs
      else ''verdict-reprompt-'' @ vr_id rs)"

definition memberSummary :: "reviewRun \<Rightarrow> AgentRunSummary" where
  "memberSummary rs =
     (blankSummary (vr_id rs) (vr_parentRunID rs))
       \<lparr>su_AgentName := vr_agentName rs, su_Label := vr_label rs, su_Role := vr_role rs, su_Status := vr_status rs,
        su_CreatedAt := vr_createdAt rs, su_DependsOn := vr_dependsOn rs, su_AgentStatus := vr_agentStatus rs,
        su_ProviderKey := vr_providerKey rs, su_ModelName := vr_modelName rs, su_WaitForResult := vr_waitForResult rs,
        su_ActivationSeq := vr_activationSeq rs\<rparr>"

definition repromptMember :: "reviewRun \<Rightarrow> joinService \<Rightarrow> joinService" where
  "repromptMember rs s =
     (let running = rs\<lparr>vr_verdictRepromptCount := vr_verdictRepromptCount rs + 1, vr_activationSeq := vr_activationSeq rs + 1,
                       vr_status := ''running'', vr_agentStatus := ''running''\<rparr>;
          f = (\<lambda>r. r\<lparr>vr_verdictRepromptCount := vr_verdictRepromptCount r + 1, vr_activationSeq := vr_activationSeq r + 1,
                     vr_status := ''running'', vr_agentStatus := ''running'',
                     vr_reinvokeInFlight := True, vr_verdictRepromptInFlight := True\<rparr>);
          s1 = s\<lparr>js_orch := upsertSummary (vr_parentRunID rs) (memberSummary running) (js_orch s),
                 js_runs := updateRun (vr_id rs) f (js_runs s)\<rparr>
      in emit (ScheduleChildTurn (vr_id rs) (repromptStep rs) verdictRepromptPrompt) (emit (TouchHubProgress (vr_id rs)) s1))"

definition completedEntry :: "reviewRun \<Rightarrow> string \<Rightarrow> string \<Rightarrow> string \<Rightarrow> cohortEntry" where
  "completedEntry rs finalMsg verdict detail =
     \<lparr>ce_Label = vr_label rs, ce_Provider = vr_providerKey rs, ce_FinalMessage = truncateDisplayField finalMsg 1500,
      ce_Status = ''completed'', ce_Err = [], ce_MachineVerdict = verdict, ce_VerdictDetail = truncateDisplayField detail 1500\<rparr>"

text \<open>The entry is buffered; a verdict whose entry a delivered barrier drops goes back to the pending maps.\<close>

definition bufferMember :: "reviewRun \<Rightarrow> string \<Rightarrow> string \<Rightarrow> string \<Rightarrow> joinService \<Rightarrow> joinService" where
  "bufferMember rs finalMsg verdict detail s =
     (let (dropped, o1) = appendCohortResult (vr_parentRunID rs) (vr_flowCohortId rs) (completedEntry rs finalMsg verdict detail) (js_orch s);
          s1 = s\<lparr>js_orch := o1\<rparr>
      in if dropped \<and> verdict \<noteq> ''''
         then s1\<lparr>js_runs := updateRun (vr_parentRunID rs)
                (\<lambda>p. p\<lparr>vr_pendingReviewVerdictByLabel := AList.update (vr_label rs) verdict (vr_pendingReviewVerdictByLabel p),
                       vr_pendingReviewVerdictDetailByLabel :=
                         (if detail = '''' then vr_pendingReviewVerdictDetailByLabel p
                          else AList.update (vr_label rs) detail (vr_pendingReviewVerdictDetailByLabel p))\<rparr>) (js_runs s1)\<rparr>
         else s1)"

definition parentFlowDriven :: "string \<Rightarrow> joinService \<Rightarrow> bool" where
  "parentFlowDriven parentRunID s = (case findRun parentRunID (js_runs s) of None \<Rightarrow> False | Some p \<Rightarrow> vr_flowEngineDriven p)"

definition emitAll :: "joinEffect list \<Rightarrow> joinService \<Rightarrow> joinService" where
  "emitAll xs s = s\<lparr>js_effects := js_effects s @ xs\<rparr>"

definition joinedLabels :: "cohortEntry list \<Rightarrow> string list" where
  "joinedLabels entries = map ce_Label (filter (\<lambda>e. ce_Status e = ''completed'' \<and> ce_Label e \<noteq> '''') entries)"

text \<open>The steps and the next turn of a joined cohort.\<close>

definition dispatchJoin :: "string \<Rightarrow> cohortEntry list \<Rightarrow> string \<Rightarrow> joinService \<Rightarrow> joinService option" where
  "dispatchJoin parentRunID entries note s =
     (let flowDriven = parentFlowDriven parentRunID s;
          nodes = (case findRun parentRunID (js_runs s) of None \<Rightarrow> [] | Some p \<Rightarrow> vr_activeFlowNodes p);
          edges = (case findRun parentRunID (js_runs s) of None \<Rightarrow> [] | Some p \<Rightarrow> vr_activeFlowEdges p);
          labels = (if flowDriven then joinedLabels entries else []);
          resolved = (if flowDriven then hubNodeIDForCohortJoin nodes edges labels else None);
          dual = (case resolved of None \<Rightarrow> False | Some h \<Rightarrow> h \<noteq> '''');
          hubNodeID = (if \<not> flowDriven then '''' else if dual then the resolved else hubInlineNodeID nodes);
          s1 = (if dual then s\<lparr>js_runs := updateRun parentRunID (\<lambda>p. p\<lparr>vr_activeHubNodeID := hubNodeID\<rparr>) (js_runs s)\<rparr> else s);
          writerJoin = vibeLinearWriterCohort entries;
          writer = find (\<lambda>e. ce_Status e = ''completed'' \<and> vibeLinearWriterNode (ce_Label e)) entries;
          delegateJoin = (if \<not> writerJoin \<and> flowDriven then singleMemberDelegateJoinTarget nodes edges entries else None);
          s2 = (if flowDriven then emitAll (map (\<lambda>i. StepWrite parentRunID i StepStatusDone) labels) s1 else s1);
          stampsHub = (flowDriven \<and> \<not> writerJoin \<and> delegateJoin = None \<and> hubNodeID \<noteq> '''');
          s3 = (if stampsHub \<and> loopIsAdvancing parentRunID s2 then emit (StepWrite parentRunID hubNodeID StepStatusRunning) s2 else s2);
          reinvokeHub = (if relocksMutex parentRunID s3 then None else Some (emit (AutoReinvokeHubWithNote parentRunID note) s3))
      in if stampsHub \<and> relocksMutex parentRunID s2 then None
         else if writerJoin
         then (case writer of None \<Rightarrow> Some (emit (AdvanceOrNotifyHub parentRunID [] [] []) s3)
               | Some w \<Rightarrow> Some (emit (AdvanceOrNotifyHub parentRunID (ce_Label w) (ce_Label w) (ce_FinalMessage w)) s3))
         else if flowDriven
         then (case delegateJoin of
                 Some (label, msg) \<Rightarrow> Some (emit (AdvanceFromNodeOrReinvoke parentRunID label msg note) s3)
               | None \<Rightarrow>
                   (case flowSharedInlineJoinTarget nodes edges entries of
                      Some target \<Rightarrow> Some (emit (AdvanceThroughInline parentRunID (fn_ID target) note) s3)
                    | None \<Rightarrow> reinvokeHub))
         else reinvokeHub)"

text \<open>The joined note is kept for the hub unless the loop is sealed.\<close>

definition keepNote :: "string \<Rightarrow> string \<Rightarrow> joinService \<Rightarrow> joinService" where
  "keepNote parentRunID note s =
     (let s1 = (if loopSealedForReinvoke parentRunID s then s else appendPendingAgentContext parentRunID note s)
      in s1\<lparr>js_runs := updateRun parentRunID (\<lambda>p. p\<lparr>vr_lastCohortNote := note\<rparr>) (js_runs s1)\<rparr>)"

definition joinCompleted :: "(string \<Rightarrow> string) \<Rightarrow> reviewRun \<Rightarrow> joinService \<Rightarrow> joinService option" where
  "joinCompleted quote rs s =
     (let (entries, o1) = drainCohort (vr_parentRunID rs) (vr_flowCohortId rs) (js_orch s);
          s1 = s\<lparr>js_orch := o1, js_runs := snapshotReviewCohortVerdicts (vr_parentRunID rs) entries (js_runs s)\<rparr>;
          note = buildCohortNote quote entries (ls_Round (gs_LoopState (graphSnapshot (vr_parentRunID rs) (js_orch s1))))
      in dispatchJoin (vr_parentRunID rs) entries note (keepNote (vr_parentRunID rs) note s1))"

definition settleCohortCompleted :: "(string \<Rightarrow> string) \<Rightarrow> reviewRun \<Rightarrow> string \<Rightarrow> joinService \<Rightarrow> joinService option" where
  "settleCohortCompleted quote rs finalMsg s =
     (let ((verdict, detail), s1) = takeMemberVerdict rs s;
          (owes, s2) = (if verdict = '''' then owesVerdict rs s1 else (False, s1))
      in if owes then Some (repromptMember rs s2)
         else let s3 = bufferMember rs finalMsg verdict detail s2;
                  s4 = (if parentFlowDriven (vr_parentRunID rs) s3 \<and> vr_label rs \<noteq> ''''
                        then emit (StepWrite (vr_parentRunID rs) (vr_label rs) StepStatusDone) s3 else s3);
                  s5 = ensureCohortExpected (vr_parentRunID rs) (vr_flowCohortId rs) s4
              in if cohortComplete (vr_parentRunID rs) (vr_flowCohortId rs) (js_orch s5) then joinCompleted quote rs s5 else Some s5)"

section \<open>A failed member\<close>

definition failedEntry :: "reviewRun \<Rightarrow> string \<Rightarrow> cohortEntry" where
  "failedEntry rs err =
     \<lparr>ce_Label = vr_label rs, ce_Provider = vr_providerKey rs, ce_FinalMessage = [], ce_Status = ''failed'',
      ce_Err = truncateDisplayField err 500, ce_MachineVerdict = [], ce_VerdictDetail = []\<rparr>"

text \<open>The hub a failed member leads to, and whether two hubs made the choice necessary.\<close>

definition failureHub :: "reviewRun \<Rightarrow> reviewRun \<Rightarrow> bool \<times> string" where
  "failureHub rs p =
     (case hubNodeIDForCohortJoin (vr_activeFlowNodes p) (vr_activeFlowEdges p) [vr_label rs] of
        Some resolved \<Rightarrow>
          (if resolved \<noteq> [] then (True, resolved)
           else (False, if vr_activeHubNodeID p = [] then hubInlineNodeID (vr_activeFlowNodes p) else vr_activeHubNodeID p))
      | None \<Rightarrow> (False, if vr_activeHubNodeID p = [] then hubInlineNodeID (vr_activeFlowNodes p) else vr_activeHubNodeID p))"

definition stampHubOnFailure :: "reviewRun \<Rightarrow> joinService \<Rightarrow> joinService option" where
  "stampHubOnFailure rs s =
     (case findRun (vr_parentRunID rs) (js_runs s) of
        None \<Rightarrow> Some s
      | Some p \<Rightarrow>
          (let (dual, hub) = failureHub rs p;
               s1 = (if dual then s\<lparr>js_runs := updateRun (vr_parentRunID rs) (\<lambda>q. q\<lparr>vr_activeHubNodeID := hub\<rparr>) (js_runs s)\<rparr> else s)
           in if hub = [] then Some s1
              else if relocksMutex (vr_parentRunID rs) s1 then None
              else if loopIsAdvancing (vr_parentRunID rs) s1
              then Some (emit (StepWrite (vr_parentRunID rs) hub StepStatusRunning) s1)
              else Some s1))"

definition joinFailed :: "(string \<Rightarrow> string) \<Rightarrow> reviewRun \<Rightarrow> joinService \<Rightarrow> joinService option" where
  "joinFailed quote rs s =
     (let (entries, o1) = drainCohort (vr_parentRunID rs) (vr_flowCohortId rs) (js_orch s);
          s1 = s\<lparr>js_orch := o1\<rparr>;
          note = buildCohortNote quote entries (ls_Round (gs_LoopState (graphSnapshot (vr_parentRunID rs) (js_orch s1))));
          s2 = keepNote (vr_parentRunID rs) note s1
      in if vibeLinearWriterNode (vr_label rs) then Some s2
         else map_option (emit (AutoReinvokeHubWithNote (vr_parentRunID rs) note)) (stampHubOnFailure rs s2))"

text \<open>What follows the join: the loop transition, and the settling of an owner debate.\<close>

definition failureRelayed :: "reviewRun \<Rightarrow> joinService \<Rightarrow> joinService" where
  "failureRelayed rs s =
     (let s1 = s\<lparr>js_orch := mutateLoop (vr_parentRunID rs) (transitionLoop ''rejected'') (js_orch s)\<rparr>;
          s2 = emit (EmitLoopTransition (vr_parentRunID rs) ''rejected'') s1
      in if vr_label rs = ''owner_1'' \<or> vr_label rs = ''owner_2'' then emit (SettleOwnerDebate (vr_parentRunID rs)) s2 else s2)"

definition settleCohortFailed :: "(string \<Rightarrow> string) \<Rightarrow> reviewRun \<Rightarrow> string \<Rightarrow> joinService \<Rightarrow> joinService option" where
  "settleCohortFailed quote rs err s =
     (if vr_cohortSkipConsumed rs then Some s
      else if memberAlreadyBuffered (vr_parentRunID rs) (vr_flowCohortId rs) (vr_label rs) (js_orch s) then Some s
      else let s1 = s\<lparr>js_orch := snd (appendCohortResult (vr_parentRunID rs) (vr_flowCohortId rs) (failedEntry rs err) (js_orch s))\<rparr>;
               s2 = touchParentHubProgressFromChild rs s1;
               s3 = (if parentFlowDriven (vr_parentRunID rs) s2 \<and> vr_label rs \<noteq> ''''
                     then emit (StepFailedWrite (vr_parentRunID rs) (vr_label rs) (truncateDisplayField err 500)) s2 else s2);
               s4 = ensureCohortExpected (vr_parentRunID rs) (vr_flowCohortId rs) s3
           in map_option (failureRelayed rs)
                (if cohortComplete (vr_parentRunID rs) (vr_flowCohortId rs) (js_orch s4) then joinFailed quote rs s4 else Some s4))"

end
