(* ===== verification/Review_Safety.thy ===== *)
theory Review_Safety
  imports Cohort_Safety Cohort_Join
begin

text \<open>
  What the hub gates see of a cohort join. A gate reads only some fields of the runs (\<open>gateKey\<close> blanks
  the others), so the notes and hub stamps of a join do not matter to it; what matters is whether the
  drained verdicts were folded.
\<close>

section \<open>What a gate reads\<close>

definition gateKey :: "reviewRun \<Rightarrow> reviewRun" where
  "gateKey r = r\<lparr>vr_pendingAgentContext := [], vr_lastCohortNote := [], vr_activeHubNodeID := []\<rparr>"

definition sameForGates :: "joinService \<Rightarrow> joinService \<Rightarrow> bool" where
  "sameForGates s s' \<longleftrightarrow> map gateKey (js_runs s') = map gateKey (js_runs s)"

lemma gateKey_simps [simp]:
  "vr_id (gateKey r) = vr_id r" "vr_runKind (gateKey r) = vr_runKind r" "vr_chatID (gateKey r) = vr_chatID r"
  "vr_legSeq (gateKey r) = vr_legSeq r" "vr_parentRunID (gateKey r) = vr_parentRunID r"
  "vr_flowEngineDriven (gateKey r) = vr_flowEngineDriven r" "vr_activeFlowNodes (gateKey r) = vr_activeFlowNodes r"
  "vr_pendingReviewVerdictByLabel (gateKey r) = vr_pendingReviewVerdictByLabel r"
  "vr_lastReviewCohortVerdicts (gateKey r) = vr_lastReviewCohortVerdicts r"
  by (simp_all add: gateKey_def)

text \<open>Changes of the runs that the choice of the topology source does not see.\<close>

definition keepsTopology :: "(reviewRun \<Rightarrow> reviewRun) \<Rightarrow> bool" where
  "keepsTopology g \<longleftrightarrow>
     (\<forall>r. vr_id (g r) = vr_id r \<and> vr_runKind (g r) = vr_runKind r \<and> vr_chatID (g r) = vr_chatID r \<and> vr_legSeq (g r) = vr_legSeq r \<and>
          vr_parentRunID (g r) = vr_parentRunID r \<and> vr_flowEngineDriven (g r) = vr_flowEngineDriven r \<and>
          vr_activeFlowNodes (g r) = vr_activeFlowNodes r \<and> ensureChatTagging (g r) = g (ensureChatTagging r))"

lemma keepsTopology_simps:
  assumes "keepsTopology g"
  shows "vr_id (g r) = vr_id r" "vr_runKind (g r) = vr_runKind r" "vr_chatID (g r) = vr_chatID r" "vr_legSeq (g r) = vr_legSeq r"
    "vr_flowEngineDriven (g r) = vr_flowEngineDriven r" "vr_activeFlowNodes (g r) = vr_activeFlowNodes r"
    "ensureChatTagging (g r) = g (ensureChatTagging r)" "legIsFlowRelay (g r) = legIsFlowRelay r"
  using assms by (simp_all add: keepsTopology_def legIsFlowRelay_def)

lemma findRun_kept: "keepsTopology g \<Longrightarrow> findRun i (map g runs) = map_option g (findRun i runs)"
  by (induction runs) (auto simp: findRun_def keepsTopology_simps)

lemma findRun_update:
  "\<forall>r. vr_id r = i \<longrightarrow> vr_id (f r) = i \<Longrightarrow> findRun i (updateRun i f runs) = map_option f (findRun i runs)"
  by (induction runs) (auto simp: findRun_def updateRun_def)

lemma newestMounted_kept:
  "keepsTopology g \<Longrightarrow> newestMounted (map_option g b) (map g legs) = map_option g (newestMounted b legs)"
proof (induction b legs rule: newestMounted.induct)
  case (2 best leg legs)
  have "newerLeg (map_option g best) (g leg) = newerLeg best leg"
    using 2 by (cases best) (simp_all add: keepsTopology_simps newerLeg_def)
  with 2 show ?case
    by (auto simp: keepsTopology_simps)
qed simp

lemma activeChatLegs_kept:
  assumes "keepsTopology g"
  shows "activeChatLegs c (map g runs) = map_prod (map g) (map g) (activeChatLegs c runs)"
proof -
  have tag: "(if vr_runKind (g r) = ''chat'' \<and> vr_chatID (g r) \<noteq> c \<and> vr_id (g r) = c then ensureChatTagging (g r) else g r)
     = g (if vr_runKind r = ''chat'' \<and> vr_chatID r \<noteq> c \<and> vr_id r = c then ensureChatTagging r else r)" for r
    by (simp add: keepsTopology_simps [OF assms])
  show ?thesis
    unfolding activeChatLegs_def Let_def list.map_comp comp_def tag filter_map by (simp add: keepsTopology_simps [OF assms])
qed

lemma flowTopologySource_kept:
  "keepsTopology g \<Longrightarrow> flowTopologySource i (map g runs) = map_prod (map_option g) (map g) (flowTopologySource i runs)"
  using newestMounted_kept [of g None]
  by (auto simp: flowTopologySource_def findRun_kept flowLoopOwnerFor_def keepsTopology_simps activeChatLegs_kept
      split: option.splits prod.splits)

lemma gateKey_kept [simp]: "keepsTopology gateKey"
  by (simp add: keepsTopology_def ensureChatTagging_def) (simp add: gateKey_def)

lemma view_gateKey: "fst (mergePendingReviewVerdicts (gateKey p)) = fst (mergePendingReviewVerdicts p)"
  by (simp add: mergePendingReviewVerdicts_def credited_def)

lemma hubDone_gateKey:
  "fst (hubDoneVerdictError q p h (map gateKey runs)) = fst (hubDoneVerdictError q p h runs)"
  using view_gateKey
  by (auto simp: hubDoneVerdictError_def flowTopologySource_kept readVerdicts_def Let_def
      split: option.splits prod.splits) (metis fst_conv)+

lemma sameForGates_hubDone:
  "sameForGates s s' \<Longrightarrow> fst (hubDoneVerdictError q p h (js_runs s')) = fst (hubDoneVerdictError q p h (js_runs s))"
  by (metis hubDone_gateKey sameForGates_def)

section \<open>The topology source is stable\<close>

definition topoKey :: "reviewRun \<Rightarrow> reviewRun" where
  "topoKey r = r\<lparr>vr_pendingReviewVerdictByLabel := [], vr_pendingReviewVerdictDetailByLabel := []\<rparr>"

lemma topoKey_kept [simp]: "keepsTopology topoKey"
  by (auto simp: keepsTopology_def ensureChatTagging_def topoKey_def)

lemma topoKey_update: "\<forall>r. topoKey (f r) = topoKey r \<Longrightarrow> map topoKey (updateRun i f runs) = map topoKey runs"
  by (simp add: updateRun_def)

lemma source_topoKey:
  assumes "map topoKey runs' = map topoKey runs"
  shows "map_option topoKey (fst (flowTopologySource i runs')) = map_option topoKey (fst (flowTopologySource i runs))"
proof -
  have "map_option topoKey (fst (flowTopologySource i rs)) = fst (flowTopologySource i (map topoKey rs))" for rs
    by (simp add: flowTopologySource_kept map_prod_def split_beta)
  then show ?thesis by (simp add: assms)
qed

definition tagLeg :: "string \<Rightarrow> reviewRun \<Rightarrow> reviewRun" where
  "tagLeg c r = (if vr_runKind r = ''chat'' \<and> vr_chatID r \<noteq> c \<and> vr_id r = c then ensureChatTagging r else r)"

lemma tagLeg_id [simp]: "vr_id (tagLeg c r) = vr_id r"
  by (simp add: tagLeg_def ensureChatTagging_def)

lemma tagLeg_tagged [simp]: "tagLeg c (tagLeg c r) = tagLeg c r"
  by (simp add: tagLeg_def ensureChatTagging_def)

lemma tagLeg_relay: "legIsFlowRelay r \<Longrightarrow> tagLeg c r = r"
  by (simp add: tagLeg_def ensureChatTagging_def legIsFlowRelay_def)

lemma activeChatLegs_tag:
  "activeChatLegs c runs =
     (filter (\<lambda>r. vr_runKind r = ''chat'' \<and> vr_chatID r = c) (map (tagLeg c) runs), map (tagLeg c) runs)"
  unfolding activeChatLegs_def Let_def tagLeg_def ..

lemma findRun_map_same_id: "\<forall>r. vr_id (g r) = vr_id r \<Longrightarrow> findRun i (map g runs) = map_option g (findRun i runs)"
  by (induction runs) (auto simp: findRun_def)

lemma relay_source:
  assumes "findRun i runs = Some leg" "legIsFlowRelay leg"
  shows "flowTopologySource i runs =
    (let runs1 = map (tagLeg (vr_chatID leg)) runs;
         legs = filter (\<lambda>r. vr_runKind r = ''chat'' \<and> vr_chatID r = vr_chatID leg) runs1
     in (Some (case newestMounted None legs of None \<Rightarrow> leg | Some owner \<Rightarrow> owner), runs1))"
  using assms
  by (simp add: flowTopologySource_def flowLoopOwnerFor_def activeChatLegs_tag Let_def split: option.split)

lemma relay_source_again:
  assumes leg: "findRun i runs = Some leg" "legIsFlowRelay leg"
    and first: "flowTopologySource i runs = (owner, runs1)"
  shows "fst (flowTopologySource i runs1) = owner \<and> findRun i runs1 = Some leg"
proof -
  have runs1: "runs1 = map (tagLeg (vr_chatID leg)) runs"
    using first by (simp add: relay_source [OF leg] Let_def)
  then have found: "findRun i runs1 = Some leg"
    using leg by (simp add: findRun_map_same_id tagLeg_relay)
  moreover have "map (tagLeg (vr_chatID leg)) runs1 = runs1"
    by (simp add: runs1 comp_def)
  ultimately show ?thesis
    using first leg by (simp add: relay_source [OF found] relay_source [OF leg] Let_def runs1 [symmetric])
qed

lemma source_stable:
  assumes "flowTopologySource i runs = (x, runs1)"
  shows "flowTopologySource i runs1 = (x, runs1)"
proof (cases "\<exists>leg. findRun i runs = Some leg \<and> legIsFlowRelay leg")
  case True
  then obtain leg where leg: "findRun i runs = Some leg" "legIsFlowRelay leg" by blast
  note again = relay_source_again [OF leg assms]
  have "runs1 = map (tagLeg (vr_chatID leg)) runs"
    using assms by (simp add: relay_source [OF leg] Let_def)
  then have "map (tagLeg (vr_chatID leg)) runs1 = runs1" by (simp add: comp_def)
  then have "snd (flowTopologySource i runs1) = runs1"
    using again leg by (simp add: relay_source [of i runs1 leg] Let_def)
  with again show ?thesis by (simp add: prod_eq_iff)
next
  case False
  with assms have "runs1 = runs"
    by (auto simp: flowTopologySource_def flowLoopOwnerFor_def split: option.splits)
  with assms show ?thesis by simp
qed

section \<open>The bookkeeping of a join does not reach the gates\<close>

lemma sameForGates_refl [simp]: "sameForGates s s"
  by (simp add: sameForGates_def)

lemma sameForGates_trans: "sameForGates a b \<Longrightarrow> sameForGates b c \<Longrightarrow> sameForGates a c"
  by (simp add: sameForGates_def)

lemma sameForGates_runs: "js_runs s' = js_runs s \<Longrightarrow> sameForGates s s'"
  by (simp add: sameForGates_def)

lemma sameForGates_update:
  "\<forall>r. gateKey (f r) = gateKey r \<Longrightarrow> js_runs s' = updateRun i f (js_runs s) \<Longrightarrow> sameForGates s s'"
  by (simp add: sameForGates_def updateRun_def)

lemma sameForGates_emit [simp]:
  "sameForGates s (emit x s') = sameForGates s s'" "sameForGates s (emitAll xs s') = sameForGates s s'"
  "sameForGates (emit x s) s' = sameForGates s s'" "sameForGates (emitAll xs s) s' = sameForGates s s'"
  by (simp_all add: sameForGates_def emit_def emitAll_def)

lemma sameForGates_orch [simp]:
  "sameForGates s (s'\<lparr>js_orch := o'\<rparr>) = sameForGates s s'" "sameForGates (s\<lparr>js_orch := o'\<rparr>) s' = sameForGates s s'"
  by (simp_all add: sameForGates_def)

lemma hubStamp_same: "sameForGates s (s\<lparr>js_runs := updateRun i (\<lambda>p. p\<lparr>vr_activeHubNodeID := h\<rparr>) (js_runs s)\<rparr>)"
  by (rule sameForGates_update [where f = "\<lambda>p. p\<lparr>vr_activeHubNodeID := h\<rparr>" and i = i]) (simp_all add: gateKey_def)

lemma appendPendingAgentContext_same: "sameForGates s (appendPendingAgentContext i note s)"
  by (simp add: sameForGates_def appendPendingAgentContext_def updateRun_def gateKey_def Let_def)

lemma keepNote_same: "sameForGates s (keepNote i note s)"
proof -
  let ?s1 = "if loopSealedForReinvoke i s then s else appendPendingAgentContext i note s"
  have "sameForGates s ?s1"
    by (simp add: appendPendingAgentContext_same)
  moreover have "sameForGates ?s1 (keepNote i note s)"
    unfolding keepNote_def Let_def by (rule sameForGates_update) (simp_all add: gateKey_def)
  ultimately show ?thesis by (rule sameForGates_trans)
qed

lemma dispatchJoin_same: "pred_option (sameForGates s) (dispatchJoin i entries note s)"
  unfolding dispatchJoin_def Let_def by (simp add: hubStamp_same split: option.split)

lemma stampHubOnFailure_same: "pred_option (sameForGates s) (stampHubOnFailure rs s)"
  unfolding stampHubOnFailure_def Let_def by (simp add: hubStamp_same split: option.split prod.split)

lemma pred_option_weaken: "pred_option P x \<Longrightarrow> \<forall>y. P y \<longrightarrow> Q y \<Longrightarrow> pred_option Q x"
  by (cases x) simp_all

lemma joinFailed_same: "pred_option (sameForGates s) (joinFailed quote rs s)"
proof -
  let ?s1 = "s\<lparr>js_orch := snd (drainCohort (vr_parentRunID rs) (vr_flowCohortId rs) (js_orch s))\<rparr>"
  have kept: "sameForGates s (keepNote i x ?s1)" for i x
    using keepNote_same [of ?s1] by simp
  moreover have "pred_option (sameForGates s) (stampHubOnFailure rs s')" if "sameForGates s s'" for s'
    using stampHubOnFailure_same by (rule pred_option_weaken) (use that sameForGates_trans in blast)
  ultimately show ?thesis
    by (simp add: joinFailed_def split_beta Let_def option.pred_map comp_def)
qed

lemma ensureCohortExpected_runs [simp]: "js_runs (ensureCohortExpected p c s) = js_runs s"
  by (simp add: ensureCohortExpected_def Let_def)

lemma touchParent_runs [simp]: "js_runs (touchParentHubProgressFromChild c s) = js_runs s"
  by (simp add: touchParentHubProgressFromChild_def emit_def split: option.split)

lemma emit_runs [simp]: "js_runs (emit x s) = js_runs s" "js_runs (emitAll xs s) = js_runs s"
  by (simp_all add: emit_def emitAll_def)

lemma emit_orch [simp]: "js_orch (emit x s) = js_orch s" "js_orch (emitAll xs s) = js_orch s"
  by (simp_all add: emit_def emitAll_def)

lemma failureRelayed_same [simp]: "sameForGates s (failureRelayed rs s') = sameForGates s s'"
  by (simp add: failureRelayed_def Let_def)

lemma settleCohortFailed_same: "pred_option (sameForGates s) (settleCohortFailed quote rs err s)"
proof -
  have quiet: "sameForGates s s4 \<Longrightarrow> pred_option (sameForGates s) (if b then joinFailed quote rs s4 else Some s4)" for s4 b
    using pred_option_weaken [OF joinFailed_same] sameForGates_trans by auto
  show ?thesis
    unfolding settleCohortFailed_def Let_def
    by (simp add: quiet sameForGates_runs option.pred_map comp_def del: if_split_asm)
qed

lemma keepNote_orch [simp]: "js_orch (keepNote i n s) = js_orch s"
  by (simp add: keepNote_def appendPendingAgentContext_def Let_def)

lemma stampHubOnFailure_orch: "stampHubOnFailure rs s = Some s' \<Longrightarrow> js_orch s' = js_orch s"
  unfolding stampHubOnFailure_def Let_def by (auto split: option.splits prod.splits if_splits)

lemma joinFailed_orch:
  "joinFailed quote rs s = Some s' \<Longrightarrow> js_orch s' = snd (drainCohort (vr_parentRunID rs) (vr_flowCohortId rs) (js_orch s))"
  by (auto simp: joinFailed_def split_beta Let_def dest!: stampHubOnFailure_orch split: if_splits)

lemma failureRelayed_cohort [simp]: "o_cohort (js_orch (failureRelayed rs s)) = o_cohort (js_orch s)"
  by (simp add: failureRelayed_def Let_def mutateLoop_def)

lemma ensureCohortExpected_cong:
  "js_runs s = js_runs s' \<Longrightarrow> js_orch s = js_orch s' \<Longrightarrow> js_orch (ensureCohortExpected p c s) = js_orch (ensureCohortExpected p c s')"
  by (simp add: ensureCohortExpected_def Let_def)

lemma touchParent_orch [simp]: "js_orch (touchParentHubProgressFromChild c s) = js_orch s"
  by (simp add: touchParentHubProgressFromChild_def split: option.split)

lemma mutateLoop_cohort [simp]: "o_cohort (mutateLoop i f s) = o_cohort s"
  by (simp add: mutateLoop_def)

lemma drained_buffer [simp]: "o_cohort (snd (drainCohort p c s)) (cohortKey p c) = []"
  by (simp add: drainCohort_def Let_def)

text \<open>The service when the failed entry has been buffered.\<close>

definition failureBuffered :: "reviewRun \<Rightarrow> string \<Rightarrow> joinService \<Rightarrow> joinService" where
  "failureBuffered rs err s =
     ensureCohortExpected (vr_parentRunID rs) (vr_flowCohortId rs)
       (s\<lparr>js_orch := snd (appendCohortResult (vr_parentRunID rs) (vr_flowCohortId rs) (failedEntry rs err) (js_orch s))\<rparr>)"

lemma settleCohortFailed_at:
  assumes "\<not> vr_cohortSkipConsumed rs"
    and "\<not> memberAlreadyBuffered (vr_parentRunID rs) (vr_flowCohortId rs) (vr_label rs) (js_orch s)"
  shows "\<exists>s4. js_orch s4 = js_orch (failureBuffered rs err s) \<and> js_runs s4 = js_runs s \<and>
           settleCohortFailed quote rs err s =
             map_option (failureRelayed rs)
               (if cohortComplete (vr_parentRunID rs) (vr_flowCohortId rs) (js_orch (failureBuffered rs err s))
                then joinFailed quote rs s4 else Some s4)"
proof -
  let ?s1 = "s\<lparr>js_orch := snd (appendCohortResult (vr_parentRunID rs) (vr_flowCohortId rs) (failedEntry rs err) (js_orch s))\<rparr>"
  let ?s2 = "touchParentHubProgressFromChild rs ?s1"
  let ?s3 = "if parentFlowDriven (vr_parentRunID rs) ?s2 \<and> vr_label rs \<noteq> []
     then emit (StepFailedWrite (vr_parentRunID rs) (vr_label rs) (truncateDisplayField err 500)) ?s2 else ?s2"
  let ?s4 = "ensureCohortExpected (vr_parentRunID rs) (vr_flowCohortId rs) ?s3"
  have "js_orch ?s4 = js_orch (failureBuffered rs err s)"
    unfolding failureBuffered_def by (rule ensureCohortExpected_cong) simp_all
  moreover have "js_runs ?s4 = js_runs s" by simp
  ultimately show ?thesis
    using assms unfolding settleCohortFailed_def Let_def by (intro exI [of _ ?s4]) simp
qed

text \<open>
  C34: When a failed member completes a reviewer barrier, the buffered entries are gone and none of their
  verdicts reaches a hub gate: every gate of every run decides as it did before the failure, on the
  verdicts of earlier rounds.
\<close>

theorem failed_join_discards_verdicts:
  assumes "\<not> vr_cohortSkipConsumed rs"
    and "\<not> memberAlreadyBuffered (vr_parentRunID rs) (vr_flowCohortId rs) (vr_label rs) (js_orch s)"
    and "cohortComplete (vr_parentRunID rs) (vr_flowCohortId rs) (js_orch (failureBuffered rs err s))"
    and returns: "settleCohortFailed quote rs err s = Some s'"
  shows "o_cohort (js_orch s') (cohortKey (vr_parentRunID rs) (vr_flowCohortId rs)) = [] \<and>
         fst (hubDoneVerdictError q p h (js_runs s')) = fst (hubDoneVerdictError q p h (js_runs s))"
proof
  have "sameForGates s s'"
    using settleCohortFailed_same [of s quote rs err] by (simp add: returns)
  then show "fst (hubDoneVerdictError q p h (js_runs s')) = fst (hubDoneVerdictError q p h (js_runs s))"
    by (rule sameForGates_hubDone)
  obtain s4 where "settleCohortFailed quote rs err s = map_option (failureRelayed rs) (joinFailed quote rs s4)"
    using settleCohortFailed_at [OF assms(1,2), of err quote] assms(3) by auto
  then obtain s5 where "s' = failureRelayed rs s5" "joinFailed quote rs s4 = Some s5"
    using returns by (cases "joinFailed quote rs s4") simp_all
  then show "o_cohort (js_orch s') (cohortKey (vr_parentRunID rs) (vr_flowCohortId rs)) = []"
    by (simp add: joinFailed_orch)
qed

section \<open>Handlers that never return\<close>

definition failureReachesHub :: "reviewRun \<Rightarrow> joinService \<Rightarrow> bool" where
  "failureReachesHub rs s \<longleftrightarrow>
     \<not> vibeLinearWriterNode (vr_label rs) \<and>
     (case map_option (failureHub rs) (findRun (vr_parentRunID rs) (js_runs s)) of None \<Rightarrow> False | Some (_, hub) \<Rightarrow> hub \<noteq> [])"

lemma relocks_loop: "o_loop (js_orch s') = o_loop (js_orch s) \<Longrightarrow> relocksMutex i s' = relocksMutex i s"
  by (simp add: relocksMutex_def loopStateFor_def)

lemma stampHub_hangs:
  "stampHubOnFailure rs s = None \<longleftrightarrow>
     relocksMutex (vr_parentRunID rs) s \<and>
     (case map_option (failureHub rs) (findRun (vr_parentRunID rs) (js_runs s)) of None \<Rightarrow> False | Some (_, hub) \<Rightarrow> hub \<noteq> [])"
  by (auto simp: stampHubOnFailure_def Let_def relocksMutex_def split: option.split prod.split)

lemma failureHub_cong:
  "vr_activeFlowNodes p = vr_activeFlowNodes q \<Longrightarrow> vr_activeFlowEdges p = vr_activeFlowEdges q \<Longrightarrow>
   vr_activeHubNodeID p = vr_activeHubNodeID q \<Longrightarrow> failureHub rs p = failureHub rs q"
  by (simp only: failureHub_def)

lemma runs_set: "js_runs (s\<lparr>js_runs := r\<rparr>) = r"
  by simp

lemma updateRun_hub:
  assumes "\<forall>r. vr_id (f r) = vr_id r" "\<forall>r. failureHub rs (f r) = failureHub rs r"
  shows "map_option (failureHub rs) (findRun i (updateRun i f runs)) = map_option (failureHub rs) (findRun i runs)"
  using assms by (subst findRun_update) (auto simp: option.map_comp comp_def)

lemma appendPendingAgentContext_hub:
  "map_option (failureHub rs) (findRun i (js_runs (appendPendingAgentContext i note s))) = map_option (failureHub rs) (findRun i (js_runs s))"
proof (cases "note = []")
  case False
  then show ?thesis
    unfolding appendPendingAgentContext_def Let_def if_not_P [OF False] runs_set
    by (intro updateRun_hub allI failureHub_cong) simp_all
qed (simp add: appendPendingAgentContext_def)

lemma keepNote_hub: "map_option (failureHub rs) (findRun i (js_runs (keepNote i note s))) = map_option (failureHub rs) (findRun i (js_runs s))"
proof -
  let ?s1 = "if loopSealedForReinvoke i s then s else appendPendingAgentContext i note s"
  have "map_option (failureHub rs) (findRun i (js_runs (keepNote i note s))) = map_option (failureHub rs) (findRun i (js_runs ?s1))"
    unfolding keepNote_def Let_def runs_set by (intro updateRun_hub allI failureHub_cong) simp_all
  also have "\<dots> = map_option (failureHub rs) (findRun i (js_runs s))"
    by (simp add: appendPendingAgentContext_hub)
  finally show ?thesis .
qed

lemma joinFailed_hangs:
  "joinFailed quote rs s = None \<longleftrightarrow> relocksMutex (vr_parentRunID rs) s \<and> failureReachesHub rs s"
proof -
  have "relocksMutex i (keepNote i x (s\<lparr>js_orch := snd (drainCohort p c (js_orch s))\<rparr>)) = relocksMutex i s" for i x p c
    by (rule relocks_loop) (simp add: drainCohort_def Let_def)
  then show ?thesis
    by (auto simp: joinFailed_def split_beta Let_def stampHub_hangs failureReachesHub_def keepNote_hub split: option.split)
qed

lemma failureBuffered_loop [simp]: "o_loop (js_orch (failureBuffered rs err s)) = o_loop (js_orch s)"
  by (simp add: failureBuffered_def ensureCohortExpected_def appendCohortResult_def inferCohortExpectedIfMissing_def Let_def)

text \<open>
  C35: The handler of a failed cohort member never returns, with the service mutex held, iff the failure
  completes the barrier, leads to a hub, and the parent's loop is held by the resume card.
\<close>

theorem failed_settle_hangs_iff:
  "settleCohortFailed quote rs err s = None \<longleftrightarrow>
     \<not> vr_cohortSkipConsumed rs \<and> \<not> memberAlreadyBuffered (vr_parentRunID rs) (vr_flowCohortId rs) (vr_label rs) (js_orch s) \<and>
     cohortComplete (vr_parentRunID rs) (vr_flowCohortId rs) (js_orch (failureBuffered rs err s)) \<and>
     failureReachesHub rs s \<and> relocksMutex (vr_parentRunID rs) s"
proof (cases "vr_cohortSkipConsumed rs \<or> memberAlreadyBuffered (vr_parentRunID rs) (vr_flowCohortId rs) (vr_label rs) (js_orch s)")
  case False
  then obtain s4 where s4: "js_orch s4 = js_orch (failureBuffered rs err s)" "js_runs s4 = js_runs s"
    and settled: "settleCohortFailed quote rs err s = map_option (failureRelayed rs)
      (if cohortComplete (vr_parentRunID rs) (vr_flowCohortId rs) (js_orch (failureBuffered rs err s)) then joinFailed quote rs s4 else Some s4)"
    using settleCohortFailed_at [of rs s err quote] by blast
  moreover have "relocksMutex (vr_parentRunID rs) s4 = relocksMutex (vr_parentRunID rs) s"
    by (rule relocks_loop) (simp add: s4)
  ultimately show ?thesis
    using False by (auto simp: joinFailed_hangs failureReachesHub_def s4)
qed (auto simp: settleCohortFailed_def)

lemma settleCohortFailed_returns: "\<not> relocksMutex (vr_parentRunID rs) s \<Longrightarrow> settleCohortFailed quote rs err s \<noteq> None"
proof (cases "vr_cohortSkipConsumed rs \<or> memberAlreadyBuffered (vr_parentRunID rs) (vr_flowCohortId rs) (vr_label rs) (js_orch s)")
  case False
  assume "\<not> relocksMutex (vr_parentRunID rs) s"
  then have returned: "joinFailed quote rs s4 \<noteq> None" if "js_orch s4 = js_orch (failureBuffered rs err s)" for s4
    using relocks_loop [of s4 s] that by (simp add: joinFailed_hangs)
  obtain s4 where "js_orch s4 = js_orch (failureBuffered rs err s)"
    and "settleCohortFailed quote rs err s = map_option (failureRelayed rs)
      (if cohortComplete (vr_parentRunID rs) (vr_flowCohortId rs) (js_orch (failureBuffered rs err s)) then joinFailed quote rs s4 else Some s4)"
    using settleCohortFailed_at [of rs s err quote] False by blast
  with returned [of s4] show ?thesis by simp
qed (auto simp: settleCohortFailed_def)

lemma dispatchJoin_returns: "\<not> relocksMutex i s \<Longrightarrow> dispatchJoin i entries note s \<noteq> None"
proof -
  assume held: "\<not> relocksMutex i s"
  have "o_loop (js_orch s') = o_loop (js_orch s) \<Longrightarrow> \<not> relocksMutex i s'" for s'
    using held relocks_loop by blast
  then show ?thesis
    unfolding dispatchJoin_def Let_def by (simp split: option.split)
qed

lemma joinCompleted_returns: "\<not> relocksMutex (vr_parentRunID rs) s \<Longrightarrow> joinCompleted quote rs s \<noteq> None"
  unfolding joinCompleted_def Let_def split_beta
  by (rule dispatchJoin_returns) (simp add: relocksMutex_def loopStateFor_def drainCohort_def Let_def)

section \<open>When a hub gate opens\<close>

text \<open>The verdict a gate reads for a label: the folded one, or else a late one.\<close>

definition lateVerdict :: "reviewRun \<Rightarrow> string \<Rightarrow> string" where
  "lateVerdict p l =
     (case map_of (vr_pendingReviewVerdictByLabel p) l of None \<Rightarrow> [] | Some v \<Rightarrow> if TrimSpace v = [] then [] else v)"

definition gateVerdict :: "reviewRun \<Rightarrow> string \<Rightarrow> string" where
  "gateVerdict p l = (case map_of (vr_lastReviewCohortVerdicts p) l of Some v \<Rightarrow> v | None \<Rightarrow> lateVerdict p l)"

text \<open>The run with its own flow: no leg that relays a flow mounted elsewhere.\<close>

definition ownsFlow :: "string \<Rightarrow> reviewRun list \<Rightarrow> reviewRun \<Rightarrow> bool" where
  "ownsFlow i runs p \<longleftrightarrow> findRun i runs = Some p \<and> \<not> legIsFlowRelay p \<and> distinct (map fst (vr_pendingReviewVerdictByLabel p))"

lemma ownsFlow_source: "ownsFlow i runs p \<Longrightarrow> flowTopologySource i runs = (Some p, runs)"
  by (simp add: ownsFlow_def flowTopologySource_def flowLoopOwnerFor_def)

lemma findRun_id: "findRun i runs = Some p \<Longrightarrow> vr_id p = i"
  unfolding findRun_def by (drule find_holds) simp

lemma map_of_filter_key:
  "distinct (map fst m) \<Longrightarrow> map_of (filter (\<lambda>(k, v). P k v) m) l = (case map_of m l of None \<Rightarrow> None | Some v \<Rightarrow> if P l v then Some v else None)"
  by (induction m) (auto split: option.split simp: map_of_eq_None_iff)

lemma view_gateVerdict:
  assumes "distinct (map fst (vr_pendingReviewVerdictByLabel p))"
  shows "lookupText (fst (mergePendingReviewVerdicts p)) l = gateVerdict p l"
  using assms
  by (auto simp: lookupText_def mergePendingReviewVerdicts_def credited_def map_add_def gateVerdict_def lateVerdict_def
      map_of_filter_key split: option.split)

lemma noComplaint:
  "missingVerdicts m xs = [] \<and> notApproved m xs = [] \<longleftrightarrow> (\<forall>l\<in>set xs. lookupText m l = ''approved'')"
  by (auto simp: missingVerdicts_def notApproved_def filter_empty_conv)

lemma hubDone_open_source:
  assumes "flowTopologySource i runs = (Some p, runs1)" and "distinct (map fst (vr_pendingReviewVerdictByLabel p))"
  shows "fst (hubDoneVerdictError q i h runs) = None \<longleftrightarrow>
           hubInboundCohortName (TrimSpace h) \<noteq> [] \<and>
           cohortNodeLabels (vr_activeFlowNodes p) (hubInboundCohortName (TrimSpace h)) \<noteq> [] \<and>
           (\<forall>l\<in>set (cohortNodeLabels (vr_activeFlowNodes p) (hubInboundCohortName (TrimSpace h))). gateVerdict p l = ''approved'')"
proof -
  let ?m = "fst (mergePendingReviewVerdicts p)"
  have m: "lookupText ?m l = gateVerdict p l" for l
    using assms view_gateVerdict by simp
  show ?thesis
    using noComplaint [of ?m "cohortNodeLabels (vr_activeFlowNodes p) (hubInboundCohortName (TrimSpace h))", unfolded m]
    by (auto simp: hubDoneVerdictError_def Let_def readVerdicts_def split_beta assms(1))
qed

lemma ownsFlow_distinct: "ownsFlow i runs p \<Longrightarrow> distinct (map fst (vr_pendingReviewVerdictByLabel p))"
  by (simp add: ownsFlow_def)

text \<open>After one read the late verdicts are spent: the next reader sees the folded verdicts only.\<close>

lemma read_spends_late:
  assumes "findRun i runs = Some p"
  obtains p' where "findRun i (snd (readVerdicts p runs)) = Some p'" and "credited p' = []"
    and "vr_lastReviewCohortVerdicts p' = vr_lastReviewCohortVerdicts p" and "vr_activeFlowNodes p' = vr_activeFlowNodes p"
    and "legIsFlowRelay p' = legIsFlowRelay p"
proof -
  let ?p' = "snd (mergePendingReviewVerdicts p)"
  have "vr_id ?p' = i" "vr_id p = i"
    using findRun_id [OF assms] by (simp_all add: mergePendingReviewVerdicts_def)
  then have "findRun i (snd (readVerdicts p runs)) = Some ?p'"
    using findRun_update [of i "\<lambda>_. ?p'" runs] assms by (simp add: readVerdicts_def split_beta)
  then show ?thesis
    by (rule that) (auto simp: mergePendingReviewVerdicts_def credited_def legIsFlowRelay_def filter_empty_conv)
qed

lemma hubDone_runs:
  assumes "ownsFlow i runs p" and "hubInboundCohortName (TrimSpace h) \<noteq> []"
  shows "snd (hubDoneVerdictError q i h runs) = snd (readVerdicts p runs)"
  using ownsFlow_source [OF assms(1)] assms(2) by (simp add: hubDoneVerdictError_def Let_def split_beta)

text \<open>The gates that read the verdicts, and whether one of them comes to the point of reading.\<close>

datatype verdictGate =
    HubDone string
  | HasChanges string
  | ProseStatus
  | SynthesisDone

datatype gateAnswer =
    Refusal "string option"
  | Changes bool
  | Signal string

fun askGate :: "(string \<Rightarrow> string) \<Rightarrow> string \<Rightarrow> verdictGate \<Rightarrow> reviewRun list \<Rightarrow> gateAnswer \<times> reviewRun list" where
  "askGate q i (HubDone h) runs = map_prod Refusal id (hubDoneVerdictError q i h runs)"
| "askGate q i (HasChanges h) runs = map_prod Changes id (hubDoneCohortHasChangesRequested i h runs)"
| "askGate q i ProseStatus runs = map_prod Signal id (hubProseVerdictDerivesFlowStatus i runs)"
| "askGate q i SynthesisDone runs = map_prod Refusal id (synthesisDoneVerdictError i runs)"

fun readsVerdicts :: "verdictGate \<Rightarrow> bool" where
  "readsVerdicts (HubDone h) = (hubInboundCohortName (TrimSpace h) \<noteq> [])"
| "readsVerdicts (HasChanges h) = (hubInboundCohortName h \<noteq> [])"
| "readsVerdicts ProseStatus = True"
| "readsVerdicts SynthesisDone = True"

lemma ask_runs: "ownsFlow i runs p \<Longrightarrow> readsVerdicts g \<Longrightarrow> snd (askGate q i g runs) = snd (readVerdicts p runs)"
  using ownsFlow_source [of i runs p]
  by (cases g) (auto simp: hubDoneVerdictError_def hubDoneCohortHasChangesRequested_def hubProseVerdictDerivesFlowStatus_def
      synthesisDoneVerdictError_def Let_def split_beta ownsFlow_def)

text \<open>What a gate answers depends on the verdicts it sees and on the flow, nothing else.\<close>

lemma ask_view:
  assumes "ownsFlow i runs p" and "ownsFlow i runs' p'"
    and "fst (mergePendingReviewVerdicts p') = fst (mergePendingReviewVerdicts p)"
    and "vr_activeFlowNodes p' = vr_activeFlowNodes p" and "vr_activeHubNodeID p' = vr_activeHubNodeID p"
  shows "fst (askGate q i g runs') = fst (askGate q i g runs)"
  using assms(1,2) assms(3-5) [symmetric] ownsFlow_source [OF assms(1)] ownsFlow_source [OF assms(2)]
  by (cases g) (auto simp: hubDoneVerdictError_def hubDoneCohortHasChangesRequested_def hubProseVerdictDerivesFlowStatus_def
      synthesisDoneVerdictError_def readVerdicts_def Let_def split_beta ownsFlow_def)

lemma owns_updated:
  assumes "ownsFlow i runs p" and "vr_id p' = vr_id p" and "legIsFlowRelay p' = legIsFlowRelay p"
    and "distinct (map fst (vr_pendingReviewVerdictByLabel p'))"
  shows "ownsFlow i (updateRun i (\<lambda>_. p') runs) p'"
  using assms findRun_id [of i runs p] findRun_update [of i "\<lambda>_. p'" runs] by (simp add: ownsFlow_def)

text \<open>
  C36: A verdict that landed late is read once. On a run with its own flow, the first gate that reads the
  verdicts, any of the four, answers as if the late verdicts it credits had been folded with the others; the
  next one, again any of the four, answers as if none had landed late. So a late request for changes that
  closes the hub gate is not seen by the question whether a reviewer requested changes, and the flow
  escalates instead of continuing.
\<close>

theorem late_verdict_read_once:
  assumes own: "ownsFlow i runs p" and reads: "readsVerdicts g" "readsVerdicts g'"
  shows "fst (askGate q i g runs) =
      fst (askGate q i g (updateRun i (\<lambda>_. p\<lparr>vr_lastReviewCohortVerdicts := vr_lastReviewCohortVerdicts p @ credited p,
                                              vr_pendingReviewVerdictByLabel := []\<rparr>) runs)) \<and>
    fst (askGate q i g' (snd (askGate q i g runs))) =
      fst (askGate q i g' (updateRun i (\<lambda>_. p\<lparr>vr_pendingReviewVerdictByLabel := []\<rparr>) runs))"
proof
  let ?folded = "p\<lparr>vr_lastReviewCohortVerdicts := vr_lastReviewCohortVerdicts p @ credited p, vr_pendingReviewVerdictByLabel := []\<rparr>"
  let ?none = "p\<lparr>vr_pendingReviewVerdictByLabel := []\<rparr>" and ?spent = "snd (mergePendingReviewVerdicts p)"
  have ids: "vr_id p = i" using own findRun_id [of i runs p] by (simp add: ownsFlow_def)
  have folded: "ownsFlow i (updateRun i (\<lambda>_. ?folded) runs) ?folded"
    by (rule owns_updated [OF own]) (simp_all add: legIsFlowRelay_def)
  show "fst (askGate q i g runs) = fst (askGate q i g (updateRun i (\<lambda>_. ?folded) runs))"
    by (rule ask_view [OF folded own]) (simp_all add: mergePendingReviewVerdicts_def credited_def)
  have spent: "ownsFlow i (updateRun i (\<lambda>_. ?spent) runs) ?spent"
    by (rule owns_updated [OF own])
      (use own in \<open>simp_all add: mergePendingReviewVerdicts_def legIsFlowRelay_def ownsFlow_def distinct_map_filter\<close>)
  have none: "ownsFlow i (updateRun i (\<lambda>_. ?none) runs) ?none"
    by (rule owns_updated [OF own]) (simp_all add: legIsFlowRelay_def)
  have "snd (askGate q i g runs) = updateRun i (\<lambda>_. ?spent) runs"
    by (simp add: ask_runs [OF own reads(1)] readVerdicts_def split_beta ids)
  moreover have "fst (askGate q i g' (updateRun i (\<lambda>_. ?spent) runs)) = fst (askGate q i g' (updateRun i (\<lambda>_. ?none) runs))"
    by (rule ask_view [OF none spent]) (auto simp: mergePendingReviewVerdicts_def credited_def filter_empty_conv)
  ultimately show "fst (askGate q i g' (snd (askGate q i g runs))) = fst (askGate q i g' (updateRun i (\<lambda>_. ?none) runs))"
    by simp
qed

lemma spent_unread:
  assumes "credited p = []" and "map_of (vr_lastReviewCohortVerdicts p) l = None"
  shows "gateVerdict p l = []"
proof (cases "map_of (vr_pendingReviewVerdictByLabel p) l")
  case (Some v)
  then have "(l, v) \<in> set (vr_pendingReviewVerdictByLabel p)" by (rule map_of_SomeD)
  with assms have "TrimSpace v = []" by (auto simp: credited_def filter_empty_conv)
  with Some assms show ?thesis by (simp add: gateVerdict_def lateVerdict_def)
qed (use assms in \<open>simp add: gateVerdict_def lateVerdict_def\<close>)

text \<open>
  When a hub finishes in prose and its reviewers' verdicts derive \<open>done\<close>, but one of them landed late, the
  gate on the hub's own edge, read next, misses that verdict and refuses.
\<close>

theorem prose_approval_refused:
  assumes own: "ownsFlow i runs p" and hub: "TrimSpace h = h" "hubInboundCohortName h \<noteq> []"
    and derived: "fst (hubProseVerdictDerivesFlowStatus i runs) = ''done''"
    and late: "l \<in> set (cohortNodeLabels (vr_activeFlowNodes p) (hubInboundCohortName h))"
      "map_of (vr_lastReviewCohortVerdicts p) l = None"
  shows "fst (hubDoneVerdictError q i h (snd (hubProseVerdictDerivesFlowStatus i runs))) \<noteq> None"
proof -
  obtain p' where found: "findRun i (snd (readVerdicts p runs)) = Some p'" and spent: "credited p' = []"
    and same: "vr_lastReviewCohortVerdicts p' = vr_lastReviewCohortVerdicts p" "vr_activeFlowNodes p' = vr_activeFlowNodes p"
      "legIsFlowRelay p' = legIsFlowRelay p"
    using own read_spends_late [of i runs p] by (auto simp: ownsFlow_def)
  have "snd (hubProseVerdictDerivesFlowStatus i runs) = snd (readVerdicts p runs)"
    by (simp add: hubProseVerdictDerivesFlowStatus_def ownsFlow_source [OF own] split_beta Let_def)
  moreover have "flowTopologySource i (snd (readVerdicts p runs)) = (Some p', snd (readVerdicts p runs))"
    using found same own by (simp add: flowTopologySource_def flowLoopOwnerFor_def ownsFlow_def)
  moreover have "lookupText (fst (mergePendingReviewVerdicts p')) l = []"
    using spent same late by (simp add: mergePendingReviewVerdicts_def lookupText_def)
  then have "missingVerdicts (fst (mergePendingReviewVerdicts p')) (cohortNodeLabels (vr_activeFlowNodes p') (hubInboundCohortName h)) \<noteq> []"
    using late same by (auto simp: missingVerdicts_def filter_empty_conv)
  ultimately show ?thesis
    using hub by (simp add: hubDoneVerdictError_def Let_def readVerdicts_def split_beta)
qed

section \<open>A join completed by a completed member\<close>

text \<open>The verdict a gate reads after the entries were folded.\<close>

definition joinedVerdict :: "cohortEntry list \<Rightarrow> reviewRun \<Rightarrow> string \<Rightarrow> string" where
  "joinedVerdict entries p l =
     (case find (\<lambda>e. seat e = l) (rev entries) of
        None \<Rightarrow> gateVerdict p l
      | Some e \<Rightarrow> if TrimSpace (ce_MachineVerdict e) = [] then lateVerdict p l else TrimSpace (ce_MachineVerdict e))"

lemma foldEntry_last:
  "l \<noteq> [] \<Longrightarrow> map_of (vr_lastReviewCohortVerdicts (fold foldEntry es p)) l =
     (case find (\<lambda>e. seat e = l) (rev es) of
        None \<Rightarrow> map_of (vr_lastReviewCohortVerdicts p) l
      | Some e \<Rightarrow> if TrimSpace (ce_MachineVerdict e) = [] then None else Some (TrimSpace (ce_MachineVerdict e)))"
  by (induction es arbitrary: p rule: rev_induct) (auto simp: foldEntry_def Let_def update_conv' delete_conv')

lemma foldEntry_same [simp]:
  "vr_id (foldEntry e p) = vr_id p" "vr_activeFlowNodes (foldEntry e p) = vr_activeFlowNodes p"
  "vr_pendingReviewVerdictByLabel (foldEntry e p) = vr_pendingReviewVerdictByLabel p"
  "legIsFlowRelay (foldEntry e p) = legIsFlowRelay p"
  by (simp_all add: foldEntry_def Let_def legIsFlowRelay_def)

lemma fold_foldEntry_same [simp]:
  "vr_id (fold foldEntry es p) = vr_id p" "vr_activeFlowNodes (fold foldEntry es p) = vr_activeFlowNodes p"
  "vr_pendingReviewVerdictByLabel (fold foldEntry es p) = vr_pendingReviewVerdictByLabel p"
  "legIsFlowRelay (fold foldEntry es p) = legIsFlowRelay p"
  by (induction es arbitrary: p) simp_all

lemma joinedVerdict_fold: "l \<noteq> [] \<Longrightarrow> gateVerdict (fold foldEntry es p) l = joinedVerdict es p l"
  by (simp add: gateVerdict_def [of "fold foldEntry es p"] foldEntry_last joinedVerdict_def lateVerdict_def gateVerdict_def
      split: option.split)

lemma foldEntry_tag: "ensureChatTagging (fold foldEntry es r) = fold foldEntry es (ensureChatTagging r)"
proof (induction es arbitrary: r)
  case (Cons e es)
  have "ensureChatTagging (foldEntry e r) = foldEntry e (ensureChatTagging r)"
    by (simp add: foldEntry_def ensureChatTagging_def Let_def)
  with Cons show ?case by simp
qed simp

lemma foldEntry_topology [simp]:
  "vr_runKind (fold foldEntry es r) = vr_runKind r" "vr_chatID (fold foldEntry es r) = vr_chatID r"
  "vr_legSeq (fold foldEntry es r) = vr_legSeq r" "vr_parentRunID (fold foldEntry es r) = vr_parentRunID r"
  "vr_flowEngineDriven (fold foldEntry es r) = vr_flowEngineDriven r"
  by (induction es arbitrary: r) (simp_all add: foldEntry_def Let_def)

lemma snapshot_source:
  assumes "flowTopologySource i runs = (Some p, runs1)"
  shows "\<exists>runs2. flowTopologySource i (snapshotReviewCohortVerdicts i es runs) = (Some (fold foldEntry es p), runs2)"
proof -
  let ?g = "\<lambda>r. if vr_id r = vr_id p then fold foldEntry es r else r"
  have "keepsTopology ?g"
    by (simp add: keepsTopology_def foldEntry_tag) (simp add: ensureChatTagging_def)
  then have "flowTopologySource i (map ?g runs1) = map_prod (map_option ?g) (map ?g) (flowTopologySource i runs1)"
    by (rule flowTopologySource_kept)
  then have "flowTopologySource i (updateRun (vr_id p) (fold foldEntry es) runs1) = (Some (fold foldEntry es p), map ?g runs1)"
    by (simp add: updateRun_def source_stable [OF assms])
  then show ?thesis by (simp add: snapshotReviewCohortVerdicts_def assms)
qed

lemma js_runs_set: "js_runs (s\<lparr>js_orch := o', js_runs := r\<rparr>) = r"
  by simp

lemma cohortNodeLabels_named: "l \<in> set (cohortNodeLabels nodes c) \<Longrightarrow> l \<noteq> []"
  by (auto simp: cohortNodeLabels_def Let_def split: if_splits)

text \<open>
  C33: After a join that a completed member completes, the gate of a hub that waits for a cohort of reviewers
  opens iff the run whose flow it reads, the parent or the leg whose flow the parent relays, has nodes in that
  cohort, and the verdict read for each of them is \<open>approved\<close>: the one of its last delivered entry; if that
  entry carries none, one that landed late; and for a reviewer without an entry in this join the one it had
  before, so that an approval of an earlier round counts.
\<close>

theorem joined_verdicts_decide:
  assumes source: "fst (flowTopologySource (vr_parentRunID rs) (js_runs s)) = Some p"
    and keys: "distinct (map fst (vr_pendingReviewVerdictByLabel p))"
    and hub: "TrimSpace h = h" "hubInboundCohortName h \<noteq> []"
    and labels: "labels = cohortNodeLabels (vr_activeFlowNodes p) (hubInboundCohortName h)"
    and entries: "entries = fst (drainCohort (vr_parentRunID rs) (vr_flowCohortId rs) (js_orch s))"
    and returns: "joinCompleted quote rs s = Some s'"
  shows "fst (hubDoneVerdictError q (vr_parentRunID rs) h (js_runs s')) = None \<longleftrightarrow>
           labels \<noteq> [] \<and> (\<forall>l\<in>set labels. joinedVerdict entries p l = ''approved'')"
proof -
  let ?i = "vr_parentRunID rs"
  let ?o = "snd (drainCohort ?i (vr_flowCohortId rs) (js_orch s))"
  let ?s1 = "s\<lparr>js_orch := ?o, js_runs := snapshotReviewCohortVerdicts ?i entries (js_runs s)\<rparr>"
  have "pred_option (sameForGates ?s1) (dispatchJoin ?i entries x (keepNote ?i x ?s1))" for x
    using dispatchJoin_same by (rule pred_option_weaken) (use keepNote_same sameForGates_trans in blast)
  then have "pred_option (sameForGates ?s1) (joinCompleted quote rs s)"
    unfolding joinCompleted_def Let_def split_beta entries .
  then have gate: "fst (hubDoneVerdictError q ?i h (js_runs s')) = fst (hubDoneVerdictError q ?i h (js_runs ?s1))"
    unfolding returns by (intro sameForGates_hubDone) simp
  obtain runs2 where folded: "flowTopologySource ?i (js_runs ?s1) = (Some (fold foldEntry entries p), runs2)"
    using snapshot_source source by (metis prod.collapse js_runs_set)
  have opens: "fst (hubDoneVerdictError q ?i h (js_runs ?s1)) = None \<longleftrightarrow> labels \<noteq> [] \<and> (\<forall>l\<in>set labels. gateVerdict (fold foldEntry entries p) l = ''approved'')"
    using hubDone_open_source [OF folded, of q h] hub keys
    by (simp only: labels fold_foldEntry_same simp_thms)
  have verdicts: "(\<forall>l\<in>set labels. gateVerdict (fold foldEntry entries p) l = ''approved'')
      \<longleftrightarrow> (\<forall>l\<in>set labels. joinedVerdict entries p l = ''approved'')"
  proof (rule ball_cong [OF refl])
    fix l assume "l \<in> set labels"
    then have "l \<noteq> []" unfolding labels by (rule cohortNodeLabels_named)
    then show "gateVerdict (fold foldEntry entries p) l = ''approved'' \<longleftrightarrow> joinedVerdict entries p l = ''approved''"
      by (simp add: joinedVerdict_fold)
  qed
  show ?thesis
    unfolding gate opens verdicts ..
qed

section \<open>Witnesses\<close>

definition demo_reviewer :: "string \<Rightarrow> FlowNode" where
  "demo_reviewer i = (demo_node i ''agent.delegate'')\<lparr>fn_Cohort := ''review''\<rparr>"

definition demo_chat :: "string \<Rightarrow> string \<Rightarrow> string \<Rightarrow> reviewRun" where
  "demo_chat i parent label =
     \<lparr>vr_id = i, vr_runKind = [], vr_chatID = [], vr_legSeq = 0, vr_legState = [], vr_parentRunID = parent,
      vr_agentName = [], vr_label = label, vr_role = [], vr_status = ''running'', vr_createdAt = [], vr_dependsOn = [],
      vr_agentStatus = [], vr_providerKey = ''codex'', vr_modelName = [], vr_waitForResult = False, vr_activationSeq = 0,
      vr_flowCohortId = (if parent = [] then [] else ''c''), vr_cohortSkipConsumed = False, vr_stepID = label,
      vr_lastTurnStepID = [], vr_flowEngineDriven = (parent = []),
      vr_activeFlowNodes = (if parent = [] then [demo_reviewer ''a'', demo_reviewer ''b'', demo_node ''synthesis'' ''hub.inline''] else []),
      vr_activeFlowEdges = [], vr_activeHubNodeID = [], vr_activeFlowAcceptanceNodes = [],
      vr_pendingReviewVerdictByLabel = [], vr_pendingReviewVerdictDetailByLabel = [], vr_lastReviewCohortVerdicts = [],
      vr_verdictAutoRedrives = 0, vr_verdictRepromptCount = 0, vr_reinvokeInFlight = False,
      vr_verdictRepromptInFlight = False, vr_pendingAgentContext = [], vr_lastCohortNote = [], vr_vibeResumeConfirm = False\<rparr>"

definition demo_entry :: "string \<Rightarrow> string \<Rightarrow> cohortEntry" where
  "demo_entry label verdict =
     \<lparr>ce_Label = label, ce_Provider = ''codex'', ce_FinalMessage = ''x'', ce_Status = ''completed'', ce_Err = [],
      ce_MachineVerdict = verdict, ce_VerdictDetail = []\<rparr>"

text \<open>The second round of a review: reviewer \<open>a\<close> has answered; both had approved in the first round.\<close>

definition demo_join :: "cohortEntry list \<Rightarrow> joinService" where
  "demo_join entries =
     \<lparr>js_orch = newAgentOrchestrator\<lparr>o_cohort := (\<lambda>_. [])(''hub/c'' := entries), o_cohortExpected := [(''hub/c'', 2)]\<rparr>,
      js_runs = [(demo_chat ''hub'' [] [])\<lparr>vr_lastReviewCohortVerdicts := [(''a'', ''approved''), (''b'', ''approved'')]\<rparr>,
                 demo_chat ''ra'' ''hub'' ''a'', demo_chat ''rb'' ''hub'' ''b''],
      js_effects = []\<rparr>"

text \<open>Reviewer \<open>a\<close> now requests changes, reviewer \<open>b\<close> fails, and the gate stays open.\<close>

theorem failed_join_discards_verdicts_witness:
  "let s = demo_join [demo_entry ''a'' ''changes_requested''];
       s' = the (settleCohortFailed id (demo_chat ''rb'' ''hub'' ''b'') ''x'' s)
   in o_cohort (js_orch s') ''hub/c'' = [] \<and> fst (hubDoneVerdictError id ''hub'' ''synthesis'' (js_runs s')) = None"
proof -
  let ?rs = "demo_chat ''rb'' ''hub'' ''b''" and ?s = "demo_join [demo_entry ''a'' ''changes_requested'']"
  have 1: "\<not> vr_cohortSkipConsumed ?rs" by code_simp
  have 2: "\<not> memberAlreadyBuffered (vr_parentRunID ?rs) (vr_flowCohortId ?rs) (vr_label ?rs) (js_orch ?s)" by code_simp
  have 3: "cohortComplete (vr_parentRunID ?rs) (vr_flowCohortId ?rs) (js_orch (failureBuffered ?rs ''x'' ?s))" by code_simp
  have 4: "fst (hubDoneVerdictError id ''hub'' ''synthesis'' (js_runs ?s)) = None" by code_simp
  have 5: "cohortKey (vr_parentRunID ?rs) (vr_flowCohortId ?rs) = ''hub/c''" by code_simp
  have "\<not> relocksMutex (vr_parentRunID ?rs) ?s" by code_simp
  then have "settleCohortFailed id ?rs ''x'' ?s \<noteq> None" by (simp add: settleCohortFailed_returns)
  then have 6: "settleCohortFailed id ?rs ''x'' ?s = Some (the (settleCohortFailed id ?rs ''x'' ?s))" by simp
  show ?thesis
    using failed_join_discards_verdicts [OF 1 2 3 6, of id "''hub''" "''synthesis''"] 4
    by (simp add: 5 Let_def)
qed

definition demo_late :: "verdictMap \<Rightarrow> reviewRun" where
  "demo_late pending = (demo_chat ''hub'' [] [])\<lparr>vr_lastReviewCohortVerdicts := [(''a'', ''approved'')],
     vr_pendingReviewVerdictByLabel := pending\<rparr>"

theorem late_verdict_read_once_witness:
  "fst (askGate id ''hub'' (HubDone ''synthesis'') [demo_late [(''b'', ''changes_requested'')]]) \<noteq> Refusal None \<and>
   fst (askGate id ''hub'' (HasChanges ''synthesis'')
        (snd (askGate id ''hub'' (HubDone ''synthesis'') [demo_late [(''b'', ''changes_requested'')]]))) = Changes False"
proof
  show "fst (askGate id ''hub'' (HubDone ''synthesis'') [demo_late [(''b'', ''changes_requested'')]]) \<noteq> Refusal None"
    by code_simp
  let ?p = "demo_late [(''b'', ''changes_requested'')]"
  have 1: "ownsFlow ''hub'' [?p] ?p"
    by (simp add: ownsFlow_def findRun_def legIsFlowRelay_def demo_late_def demo_chat_def)
  have 2: "readsVerdicts (HubDone ''synthesis'')" "readsVerdicts (HasChanges ''synthesis'')"
    by code_simp+
  have "fst (askGate id ''hub'' (HasChanges ''synthesis'')
      (updateRun ''hub'' (\<lambda>_. ?p\<lparr>vr_pendingReviewVerdictByLabel := []\<rparr>) [?p])) = Changes False"
    by code_simp
  then show "fst (askGate id ''hub'' (HasChanges ''synthesis'') (snd (askGate id ''hub'' (HubDone ''synthesis'') [?p]))) = Changes False"
    using late_verdict_read_once [OF 1 2, of id] by simp
qed

theorem prose_approval_refused_witness:
  "fst (hubProseVerdictDerivesFlowStatus ''hub'' [demo_late [(''b'', ''approved'')]]) = ''done'' \<and>
   fst (hubDoneVerdictError id ''hub'' ''synthesis'' (snd (hubProseVerdictDerivesFlowStatus ''hub'' [demo_late [(''b'', ''approved'')]]))) \<noteq> None"
proof -
  let ?p = "demo_late [(''b'', ''approved'')]"
  have 1: "ownsFlow ''hub'' [?p] ?p"
    by (simp add: ownsFlow_def findRun_def legIsFlowRelay_def demo_late_def demo_chat_def)
  have 2: "TrimSpace ''synthesis'' = ''synthesis''" and 3: "hubInboundCohortName ''synthesis'' \<noteq> []"
    by code_simp+
  have 4: "fst (hubProseVerdictDerivesFlowStatus ''hub'' [?p]) = ''done''" by code_simp
  have 5: "''b'' \<in> set (cohortNodeLabels (vr_activeFlowNodes ?p) (hubInboundCohortName ''synthesis''))" by code_simp
  have 6: "map_of (vr_lastReviewCohortVerdicts ?p) ''b'' = None" by code_simp
  show ?thesis using 4 prose_approval_refused [OF 1 2 3 4 5 6, of id] by blast
qed

theorem joined_verdicts_decide_witness:
  "fst (hubDoneVerdictError id ''hub'' ''synthesis''
     (js_runs (the (joinCompleted id (demo_chat ''rb'' ''hub'' ''b'')
        (demo_join [demo_entry ''a'' ''changes_requested'', demo_entry ''b'' ''approved'']))))) \<noteq> None"
proof -
  let ?rs = "demo_chat ''rb'' ''hub'' ''b''" and ?s = "demo_join [demo_entry ''a'' ''changes_requested'', demo_entry ''b'' ''approved'']"
  let ?p = "(demo_chat ''hub'' [] [])\<lparr>vr_lastReviewCohortVerdicts := [(''a'', ''approved''), (''b'', ''approved'')]\<rparr>"
  have 1: "ownsFlow (vr_parentRunID ?rs) (js_runs ?s) ?p"
    by (simp add: ownsFlow_def findRun_def legIsFlowRelay_def demo_join_def demo_chat_def)
  note source = ownsFlow_source [OF 1, THEN arg_cong [of _ _ fst], unfolded fst_conv] ownsFlow_distinct [OF 1]
  have 2: "TrimSpace ''synthesis'' = ''synthesis''" and 3: "hubInboundCohortName ''synthesis'' \<noteq> []"
    by code_simp+
  have 4: "''a'' \<in> set (cohortNodeLabels (vr_activeFlowNodes ?p) (hubInboundCohortName ''synthesis''))" by code_simp
  have 5: "joinedVerdict (fst (drainCohort (vr_parentRunID ?rs) (vr_flowCohortId ?rs) (js_orch ?s))) ?p ''a'' \<noteq> ''approved''"
    by code_simp
  have 6: "vr_parentRunID ?rs = ''hub''" by code_simp
  have "\<not> relocksMutex (vr_parentRunID ?rs) ?s" by code_simp
  then have "joinCompleted id ?rs ?s \<noteq> None" by (rule joinCompleted_returns)
  then have 7: "joinCompleted id ?rs ?s = Some (the (joinCompleted id ?rs ?s))" by simp
  show ?thesis
    using joined_verdicts_decide [OF source 2 3 refl refl 7, of id] 4 5 unfolding 6 by blast
qed

text \<open>The review of the demo while the resume card of its hub is open: the failing reviewer's handler hangs.\<close>

definition demo_held :: joinService where
  "demo_held = (let s = demo_join [demo_entry ''a'' ''approved'']
     in s\<lparr>js_orch := setLoop ''hub'' (zeroLoop\<lparr>ls_Status := ''blocked'', ls_BlockReason := ''paused''\<rparr>) (js_orch s)\<rparr>)"

theorem failed_settle_hangs_iff_witness: "settleCohortFailed id (demo_chat ''rb'' ''hub'' ''b'') ''x'' demo_held = None"
proof -
  let ?rs = "demo_chat ''rb'' ''hub'' ''b''"
  have 1: "\<not> vr_cohortSkipConsumed ?rs" by code_simp
  have 2: "\<not> memberAlreadyBuffered (vr_parentRunID ?rs) (vr_flowCohortId ?rs) (vr_label ?rs) (js_orch demo_held)" by code_simp
  have 3: "cohortComplete (vr_parentRunID ?rs) (vr_flowCohortId ?rs) (js_orch (failureBuffered ?rs ''x'' demo_held))" by code_simp
  have 4: "failureReachesHub ?rs demo_held" by code_simp
  have 5: "relocksMutex (vr_parentRunID ?rs) demo_held" by code_simp
  show ?thesis using 1 2 3 4 5 by (simp add: failed_settle_hangs_iff)
qed

end
