(* ===== verification/Relay_Verdicts.thy ===== *)
theory Relay_Verdicts
  imports Review_Safety
begin

text \<open>
  Verdicts of reviewers under a relay leg. A chat leg that relays a flow mounted by another leg is the
  parent of the reviewers it spawns; their verdicts are recorded on the mounting leg, where the gates
  read them, and looked for on the relay leg when the reviewer's turn is settled.
\<close>

section \<open>Settling a reviewer of a relay leg\<close>

lemma topoKey_nodes [simp]:
  "vr_activeFlowNodes (topoKey p) = vr_activeFlowNodes p" "vr_activeFlowAcceptanceNodes (topoKey p) = vr_activeFlowAcceptanceNodes p"
  by (simp_all add: topoKey_def)

lemma owes_source:
  "fst (owesVerdict rs s) =
     (case map_option topoKey (fst (flowTopologySource (vr_parentRunID rs) (js_runs s))) of
        None \<Rightarrow> False
      | Some parent \<Rightarrow>
          (flowRequiresSynthesisMachineVerdict parent \<or> flowRequiresHubMachineVerdict parent ''plan_synthesis''
            \<or> flowRequiresHubMachineVerdict parent ''synthesis'' \<or> flowRequiresHubMachineVerdict parent ''cp_synthesis''
            \<or> vibeOwnerDebateMemberRequiresVerdict parent rs) \<and> vr_verdictRepromptCount rs < 2)"
proof -
  have keys: "flowRequiresSynthesisMachineVerdict (topoKey p) = flowRequiresSynthesisMachineVerdict p"
    "flowRequiresHubMachineVerdict (topoKey p) h = flowRequiresHubMachineVerdict p h"
    "vibeOwnerDebateMemberRequiresVerdict (topoKey p) rs = vibeOwnerDebateMemberRequiresVerdict p rs" for p h
    by (simp_all only: flowRequiresSynthesisMachineVerdict_def flowRequiresHubMachineVerdict_def
        vibeOwnerDebateMemberRequiresVerdict_def topoKey_nodes)
  show ?thesis
    by (simp add: owesVerdict_def keys split: option.split prod.split)
qed

lemma record_changes:
  assumes "flowTopologySource i runs = (Some owner, runs1)"
  shows "recordReviewCohortMemberVerdict i l v d runs = runs \<or>
    (\<exists>f. (\<forall>r. vr_id (f r) = vr_id r \<and> topoKey (f r) = topoKey r) \<and>
         recordReviewCohortMemberVerdict i l v d runs = updateRun (vr_id owner) f runs1)"
proof (cases "i = [] \<or> TrimSpace l = [] \<or> TrimSpace v = []")
  case False
  let ?f = "\<lambda>p. p\<lparr>vr_pendingReviewVerdictByLabel := AList.update (TrimSpace l) (TrimSpace v) (vr_pendingReviewVerdictByLabel p),
                  vr_pendingReviewVerdictDetailByLabel :=
                    (if TrimSpace d = [] then vr_pendingReviewVerdictDetailByLabel p
                     else AList.update (TrimSpace l) (TrimSpace d) (vr_pendingReviewVerdictDetailByLabel p))\<rparr>"
  have "recordReviewCohortMemberVerdict i l v d runs = updateRun (vr_id owner) ?f runs1"
    using False by (simp add: recordReviewCohortMemberVerdict_def assms Let_def)
  moreover have "\<forall>r. vr_id (?f r) = vr_id r \<and> topoKey (?f r) = topoKey r" by (simp add: topoKey_def)
  ultimately show ?thesis by (intro disjI2 exI [of _ ?f] conjI)
qed (auto simp: recordReviewCohortMemberVerdict_def Let_def)

lemma findRun_update_other: "i \<noteq> j \<Longrightarrow> \<forall>r. vr_id (f r) = vr_id r \<Longrightarrow> findRun i (updateRun j f runs) = findRun i runs"
  by (induction runs) (auto simp: findRun_def updateRun_def)

lemma record_keeps:
  assumes leg: "findRun i runs = Some leg" "legIsFlowRelay leg"
    and owner: "fst (flowTopologySource i runs) = Some owner" "vr_id owner \<noteq> i"
  shows "findRun i (recordReviewCohortMemberVerdict i l v d runs) = Some leg \<and>
    map_option topoKey (fst (flowTopologySource i (recordReviewCohortMemberVerdict i l v d runs))) = Some (topoKey owner)"
proof -
  obtain runs1 where src: "flowTopologySource i runs = (Some owner, runs1)"
    using owner by (cases "flowTopologySource i runs") auto
  have again: "fst (flowTopologySource i runs1) = Some owner" "findRun i runs1 = Some leg"
    using relay_source_again [OF leg src] by simp_all
  from record_changes [OF src, of l v d] show ?thesis
  proof
    assume "\<exists>f. (\<forall>r. vr_id (f r) = vr_id r \<and> topoKey (f r) = topoKey r) \<and>
         recordReviewCohortMemberVerdict i l v d runs = updateRun (vr_id owner) f runs1"
    then obtain f where f: "\<forall>r. vr_id (f r) = vr_id r" "\<forall>r. topoKey (f r) = topoKey r"
      and recorded: "recordReviewCohortMemberVerdict i l v d runs = updateRun (vr_id owner) f runs1" by blast
    have "map_option topoKey (fst (flowTopologySource i (updateRun (vr_id owner) f runs1))) = Some (topoKey owner)"
      using source_topoKey [OF topoKey_update [OF f(2)]] again by simp
    then show ?thesis
      using again owner f by (simp add: recorded findRun_update_other)
  qed (use leg owner in simp)
qed

lemma reprompt_effects:
  "ScheduleChildTurn (vr_id rs) (repromptStep rs) verdictRepromptPrompt \<in> set (js_effects (repromptMember rs s)) \<and>
   o_cohort (js_orch (repromptMember rs s)) = o_cohort (js_orch s)"
  by (simp add: repromptMember_def Let_def emit_def upsertSummary_def)

text \<open>
  C37: A reviewer under a leg that relays a flow mounted by another leg is asked for its verdict again,
  whatever verdict it has just submitted, as long as the flow requires the machine verdict of the reviewer, it
  was asked again less than twice (\<open>owesVerdict\<close>), and no verdict of its label is pending on the relay leg
  itself: the settle of its turn schedules a reprompt and buffers nothing.
\<close>

theorem relay_verdict_asked_again:
  assumes leg: "findRun (vr_parentRunID rs) (js_runs s) = Some leg" "legIsFlowRelay leg"
    and owner: "fst (flowTopologySource (vr_parentRunID rs) (js_runs s)) = Some owner" "vr_id owner \<noteq> vr_parentRunID rs"
    and unrecorded: "lookupText (vr_pendingReviewVerdictByLabel leg) (vr_label rs) = []"
    and owes: "fst (owesVerdict rs s)"
    and submitted: "s1 = s\<lparr>js_runs := recordReviewCohortMemberVerdict (vr_parentRunID rs) (vr_label rs) verdict detail (js_runs s)\<rparr>"
  shows "\<exists>s'. settleCohortCompleted quote rs finalMsg s1 = Some s' \<and>
    ScheduleChildTurn (vr_id rs) (repromptStep rs) verdictRepromptPrompt \<in> set (js_effects s') \<and>
    o_cohort (js_orch s') = o_cohort (js_orch s)"
proof -
  let ?i = "vr_parentRunID rs"
  have found: "findRun ?i (js_runs s1) = Some leg"
    and source: "map_option topoKey (fst (flowTopologySource ?i (js_runs s1))) = Some (topoKey owner)"
    using record_keeps [OF leg owner] by (simp_all add: submitted)
  define s2 where "s2 = snd (takeMemberVerdict rs s1)"
  have none: "fst (fst (takeMemberVerdict rs s1)) = []"
    and runs: "map topoKey (js_runs s2) = map topoKey (js_runs s1)" and orch: "js_orch s2 = js_orch s1"
    using unrecorded by (simp_all add: s2_def takeMemberVerdict_def found topoKey_update topoKey_def)
  have same: "map_option topoKey (fst (flowTopologySource ?i (js_runs s2))) = map_option topoKey (fst (flowTopologySource ?i (js_runs s)))"
    using source_topoKey [OF runs, of ?i] source owner by simp
  have "fst (owesVerdict rs s2) = fst (owesVerdict rs s)"
    unfolding owes_source same ..
  then have "fst (owesVerdict rs s2)" using owes by simp
  moreover have "js_orch (snd (owesVerdict rs s2)) = js_orch s"
    by (simp add: owesVerdict_def orch submitted split: option.split prod.split)
  ultimately show ?thesis
    using reprompt_effects [of rs "snd (owesVerdict rs s2)"] none
    by (simp add: settleCohortCompleted_def split_beta Let_def s2_def)
qed

section \<open>Witness\<close>

text \<open>A closed leg mounts the flow, the open leg \<open>relay\<close> runs it, and its reviewer \<open>a\<close> approves.\<close>

definition demo_relay :: joinService where
  "demo_relay =
     \<lparr>js_orch = newAgentOrchestrator,
      js_runs = [(demo_chat ''hub'' [] [])\<lparr>vr_runKind := ''chat'', vr_chatID := ''chat''\<rparr>,
                 (demo_chat ''relay'' [] [])\<lparr>vr_runKind := ''chat'', vr_chatID := ''chat'', vr_legSeq := 1, vr_activeFlowNodes := []\<rparr>,
                 demo_chat ''ra'' ''relay'' ''a''],
      js_effects = []\<rparr>"

theorem relay_verdict_asked_again_witness:
  "\<exists>s'. settleCohortCompleted id (demo_chat ''ra'' ''relay'' ''a'') ''LGTM''
      (demo_relay\<lparr>js_runs := recordReviewCohortMemberVerdict ''relay'' ''a'' ''approved'' [] (js_runs demo_relay)\<rparr>) = Some s' \<and>
    js_effects s' \<noteq> []"
proof -
  let ?rs = "demo_chat ''ra'' ''relay'' ''a''"
  let ?leg = "(demo_chat ''relay'' [] [])\<lparr>vr_runKind := ''chat'', vr_chatID := ''chat'', vr_legSeq := 1, vr_activeFlowNodes := []\<rparr>"
  let ?owner = "(demo_chat ''hub'' [] [])\<lparr>vr_runKind := ''chat'', vr_chatID := ''chat''\<rparr>"
  have parent: "vr_parentRunID ?rs = ''relay''" and label: "vr_label ?rs = ''a''" by code_simp+
  have 1: "findRun (vr_parentRunID ?rs) (js_runs demo_relay) = Some ?leg"
    by (simp add: demo_relay_def demo_chat_def findRun_def)
  have 2: "legIsFlowRelay ?leg" by (simp add: legIsFlowRelay_def demo_chat_def)
  have 3: "fst (flowTopologySource (vr_parentRunID ?rs) (js_runs demo_relay)) = Some ?owner"
    unfolding relay_source [OF 1 2] by (simp add: demo_relay_def demo_chat_def tagLeg_def newerLeg_def)
  have 4: "vr_id ?owner \<noteq> vr_parentRunID ?rs" by code_simp
  have 5: "lookupText (vr_pendingReviewVerdictByLabel ?leg) (vr_label ?rs) = []" by code_simp
  have 6: "fst (owesVerdict ?rs demo_relay)" by code_simp
  show ?thesis
    using relay_verdict_asked_again [OF 1 2 3 4 5 6 refl, of id "''LGTM''" "''approved''" "[]"] unfolding parent label by force
qed

end
