(* ===== verification/Review_Outcome.thy ===== *)
theory Review_Outcome
  imports Go_Value "HOL-Library.AList"
begin

text \<open>
  The tool calls an agent settles a turn with (\<open>runner/agent_orchestrator.go\<close>, \<open>runner/coder_outcome.go\<close>):
  parsing and validating \<open>flow_control\<close>, \<open>submit_review_outcome\<close> with its verdict rows, the coder's batch
  of signature requests and \<open>spawn_agent\<close>, and the mapping of a review outcome to a flow signal through
  the declared face. A face comes from pack data that the runner embeds; it is an argument here, and
  \<open>fallbackFace\<close> is the literal the code falls back to. Error texts are the constructors of \<open>toolError\<close>.
\<close>

section \<open>Data\<close>

record ReviewIssue =
  ri_ID :: string
  ri_Title :: string
  ri_Severity :: string
  ri_File :: string
  ri_Resolution :: string

record EvidenceItem =
  ev_Path :: string
  ev_Line :: int
  ev_Excerpt :: string

record VerdictRow =
  vw_ACID :: string
  vw_Verdict :: string
  vw_Evidence :: "EvidenceItem list"
  vw_Note :: string

record CoderBatchSignatureRequest =
  cb_Symbol :: string
  cb_File :: string
  cb_CurrentSignature :: string
  cb_ProposedSignature :: string
  cb_Rationale :: string

text \<open>A payload value: decoded JSON, or one of the typed lists the runner itself puts there.\<close>

datatype payloadValue =
    Decoded gvalue
  | Issues "ReviewIssue list"
  | Verdicts "VerdictRow list"
  | Batch "CoderBatchSignatureRequest list"

type_synonym payload = "(string \<times> payloadValue) list"

record ReviewOutcomeInput =
  ro_Status :: string
  ro_Issues :: "ReviewIssue list"
  ro_Feedback :: string
  ro_Verdicts :: "VerdictRow list"
  ro_BatchSignatureRequests :: "CoderBatchSignatureRequest list"

record FlowControlInput =
  fi_Status :: string
  fi_Summary :: string
  fi_Payload :: payload
  fi_viaReviewOutcome :: bool
  fi_reviewOutcomeStatus :: string
  fi_agentInitiated :: bool
  fi_viaEngineEdge :: bool

record SpawnAgentInput =
  sp_Agent :: string
  sp_Prompt :: string
  sp_Provider :: string
  sp_DependsOn :: "string list"
  sp_Wait :: bool
  sp_FlowCohortID :: string
  sp_Label :: string
  sp_CohortSize :: int
  sp_AutoOrchestrate :: bool

record FlowControlFace =
  ff_Tool :: string
  ff_Map :: "(string \<times> string) list"

datatype toolError =
    BadFlowStatus string
  | BadReviewStatus string
  | FeedbackRequired
  | BatchRequired
  | BatchNotArray
  | BatchRowNotObject nat
  | BatchRowIncomplete nat
  | VerdictsNotArray
  | VerdictNotObject
  | VerdictIDRequired
  | BadVerdict string
  | EvidenceNotObject
  | EvidencePathRequired
  | ApprovedInconsistent string string
  | UnknownOutcome string
  | AgentRequired
  | PromptRequired

section \<open>Reading decoded values\<close>

fun asString :: "gvalue \<Rightarrow> string" where
  "asString (GString x) = x"
| "asString _ = []"

fun asBool :: "gvalue \<Rightarrow> bool" where
  "asBool (GBool b) = b"
| "asBool _ = False"

fun asList :: "gvalue \<Rightarrow> gvalue list option" where
  "asList (GList xs) = Some xs"
| "asList _ = None"

fun asMap :: "gvalue \<Rightarrow> gmap option" where
  "asMap (GMap m) = Some m"
| "asMap _ = None"

definition fieldString :: "gmap \<Rightarrow> string \<Rightarrow> string" where
  "fieldString m k = asString (rawField k m)"

text \<open>Go's conversion of a float to an integer cuts the fraction off.\<close>

definition truncFloat :: "rat \<Rightarrow> int" where
  "truncFloat x = (if x < 0 then \<lceil>x\<rceil> else \<lfloor>x\<rfloor>)"

section \<open>flow control\<close>

definition flowControlStatus :: "string \<Rightarrow> bool" where
  "flowControlStatus x \<longleftrightarrow> x \<in> {''continue'', ''done'', ''escalate''}"

definition emptyInput :: FlowControlInput where
  "emptyInput =
     \<lparr>fi_Status = [], fi_Summary = [], fi_Payload = [], fi_viaReviewOutcome = False, fi_reviewOutcomeStatus = [],
      fi_agentInitiated = False, fi_viaEngineEdge = False\<rparr>"

definition parseFlowControlInput :: "gmap \<Rightarrow> toolError + FlowControlInput" where
  "parseFlowControlInput args =
     (let status = fieldString args ''status''
      in if \<not> flowControlStatus status then Inl (BadFlowStatus status)
         else Inr (emptyInput
                \<lparr>fi_Status := status, fi_Summary := fieldString args ''summary'',
                 fi_Payload := (case asMap (rawField ''payload'' args) of None \<Rightarrow> [] | Some m \<Rightarrow> map (\<lambda>(k, v). (k, Decoded v)) m)\<rparr>))"

section \<open>The coder's batch of signature requests\<close>

definition batchComplete :: "CoderBatchSignatureRequest \<Rightarrow> bool" where
  "batchComplete r \<longleftrightarrow>
     cb_Symbol r \<noteq> '''' \<and> cb_File r \<noteq> '''' \<and> cb_CurrentSignature r \<noteq> '''' \<and> cb_ProposedSignature r \<noteq> '''' \<and> cb_Rationale r \<noteq> ''''"

definition batchRow :: "gmap \<Rightarrow> CoderBatchSignatureRequest" where
  "batchRow row =
     \<lparr>cb_Symbol = TrimSpace (fieldString row ''symbol''), cb_File = TrimSpace (fieldString row ''file''),
      cb_CurrentSignature = TrimSpace (fieldString row ''current_signature''),
      cb_ProposedSignature = TrimSpace (fieldString row ''proposed_signature''),
      cb_Rationale = TrimSpace (fieldString row ''rationale'')\<rparr>"

fun batchRows :: "nat \<Rightarrow> gvalue list \<Rightarrow> toolError + CoderBatchSignatureRequest list" where
  "batchRows i [] = Inr []"
| "batchRows i (x # xs) =
     (case asMap x of
        None \<Rightarrow> Inl (BatchRowNotObject i)
      | Some row \<Rightarrow>
          if \<not> batchComplete (batchRow row) then Inl (BatchRowIncomplete i)
          else (case batchRows (Suc i) xs of Inl e \<Rightarrow> Inl e | Inr rs \<Rightarrow> Inr (batchRow row # rs)))"

fun typedRows :: "nat \<Rightarrow> CoderBatchSignatureRequest list \<Rightarrow> toolError option" where
  "typedRows i [] = None"
| "typedRows i (r # rs) = (if \<not> batchComplete r then Some (BatchRowIncomplete i) else typedRows (Suc i) rs)"

definition parseCoderBatchSignatureRequests :: "payload \<Rightarrow> toolError + CoderBatchSignatureRequest list" where
  "parseCoderBatchSignatureRequests body =
     (case map_of body ''batch_signature_requests'' of
        None \<Rightarrow> Inr []
      | Some (Decoded GNil) \<Rightarrow> Inr []
      | Some (Batch rs) \<Rightarrow> (case typedRows 0 rs of Some e \<Rightarrow> Inl e | None \<Rightarrow> Inr rs)
      | Some (Decoded (GList xs)) \<Rightarrow> batchRows 0 xs
      | Some _ \<Rightarrow> Inl BatchNotArray)"

section \<open>The review outcome\<close>

definition reviewOutcomeStatus :: "string \<Rightarrow> bool" where
  "reviewOutcomeStatus x \<longleftrightarrow> x \<in> {''approved'', ''changes_requested'', ''blocked'', ''renegotiate_signatures''}"

definition verdictEnumValue :: "string \<Rightarrow> bool" where
  "verdictEnumValue x \<longleftrightarrow> x \<in> {''pass'', ''fail'', ''blocked''}"

text \<open>The first of two aliased fields that is not empty.\<close>

definition aliased :: "gmap \<Rightarrow> string \<Rightarrow> string \<Rightarrow> string" where
  "aliased m k k' = (if fieldString m k = '''' then fieldString m k' else fieldString m k)"

definition issueOf :: "gmap \<Rightarrow> ReviewIssue" where
  "issueOf m =
     \<lparr>ri_ID = fieldString m ''id'', ri_Title = aliased m ''title'' ''description'', ri_Severity = fieldString m ''severity'',
      ri_File = aliased m ''file'' ''location'', ri_Resolution = fieldString m ''resolution''\<rparr>"

definition issuesOf :: "gvalue \<Rightarrow> ReviewIssue list" where
  "issuesOf v =
     (case asList v of
        None \<Rightarrow> []
      | Some xs \<Rightarrow> filter (\<lambda>r. ri_Title r \<noteq> '''') (map issueOf (List.map_filter asMap xs)))"

definition evidenceLine :: "gvalue \<Rightarrow> int" where
  "evidenceLine v = (case v of GFloat x \<Rightarrow> truncFloat x | GInt n \<Rightarrow> n | _ \<Rightarrow> 0)"

fun evidenceRows :: "gvalue list \<Rightarrow> toolError + EvidenceItem list" where
  "evidenceRows [] = Inr []"
| "evidenceRows (x # xs) =
     (case asMap x of
        None \<Rightarrow> Inl EvidenceNotObject
      | Some em \<Rightarrow>
          if TrimSpace (fieldString em ''path'') = '''' then Inl EvidencePathRequired
          else (case evidenceRows xs of
                  Inl e \<Rightarrow> Inl e
                | Inr es \<Rightarrow> Inr (\<lparr>ev_Path = fieldString em ''path'', ev_Line = evidenceLine (rawField ''line'' em),
                                   ev_Excerpt = fieldString em ''excerpt''\<rparr> # es)))"

definition verdictRow :: "gmap \<Rightarrow> toolError + VerdictRow" where
  "verdictRow m =
     (let acid = fieldString m ''ac_id''; verdict = fieldString m ''verdict''
      in if TrimSpace acid = '''' then Inl VerdictIDRequired
         else if \<not> verdictEnumValue verdict then Inl (BadVerdict verdict)
         else case (case asList (rawField ''evidence'' m) of None \<Rightarrow> Inr [] | Some xs \<Rightarrow> evidenceRows xs) of
           Inl e \<Rightarrow> Inl e
         | Inr es \<Rightarrow> Inr \<lparr>vw_ACID = acid, vw_Verdict = verdict, vw_Evidence = es, vw_Note = fieldString m ''note''\<rparr>)"

fun verdictRows :: "gvalue list \<Rightarrow> toolError + VerdictRow list" where
  "verdictRows [] = Inr []"
| "verdictRows (x # xs) =
     (case asMap x of
        None \<Rightarrow> Inl VerdictNotObject
      | Some m \<Rightarrow>
          (case verdictRow m of
             Inl e \<Rightarrow> Inl e
           | Inr r \<Rightarrow> (case verdictRows xs of Inl e \<Rightarrow> Inl e | Inr rs \<Rightarrow> Inr (r # rs))))"

definition failingRow :: "VerdictRow \<Rightarrow> bool" where
  "failingRow r \<longleftrightarrow> vw_Verdict r = ''fail'' \<or> vw_Verdict r = ''blocked''"

definition decodedArgs :: "gmap \<Rightarrow> payload" where
  "decodedArgs args = map (\<lambda>(k, v). (k, Decoded v)) args"

definition parseReviewOutcomeInput :: "gmap \<Rightarrow> toolError + ReviewOutcomeInput" where
  "parseReviewOutcomeInput args =
     (let boardPath = (fieldString args ''status'' = '''');
          status = (if boardPath then fieldString args ''outcome'' else fieldString args ''status'');
          feedback = fieldString args ''feedback''
      in if \<not> reviewOutcomeStatus status then Inl (BadReviewStatus status)
         else if \<not> boardPath \<and> status = ''changes_requested'' \<and> TrimSpace feedback = '''' then Inl FeedbackRequired
         else case parseCoderBatchSignatureRequests (decodedArgs args) of
           Inl e \<Rightarrow> Inl e
         | Inr reqs \<Rightarrow>
             if \<not> boardPath \<and> status = ''renegotiate_signatures'' \<and> reqs = [] then Inl BatchRequired
             else case (case map_of args ''verdicts'' of
                          None \<Rightarrow> Inr []
                        | Some v \<Rightarrow> (case asList v of None \<Rightarrow> Inl VerdictsNotArray | Some xs \<Rightarrow> verdictRows xs)) of
               Inl e \<Rightarrow> Inl e
             | Inr rows \<Rightarrow>
                 (case (if status = ''approved'' then find failingRow rows else None) of
                    Some r \<Rightarrow> Inl (ApprovedInconsistent (vw_ACID r) (vw_Verdict r))
                  | None \<Rightarrow> Inr \<lparr>ro_Status = status, ro_Issues = issuesOf (rawField ''issues'' args), ro_Feedback = feedback,
                                 ro_Verdicts = rows, ro_BatchSignatureRequests = reqs\<rparr>))"

section \<open>Faces\<close>

definition fallbackFace :: FlowControlFace where
  "fallbackFace =
     \<lparr>ff_Tool = ''submit_review_outcome'',
      ff_Map = [(''approved'', ''done''), (''changes_requested'', ''continue''), (''blocked'', ''escalate''),
                (''renegotiate_signatures'', ''continue'')]\<rparr>"

definition resolveFaceStatus :: "FlowControlFace \<Rightarrow> string \<Rightarrow> string option" where
  "resolveFaceStatus face domainStatus = map_of (ff_Map face) domainStatus"

definition reviewOutcomeToFlowControl :: "FlowControlFace \<Rightarrow> ReviewOutcomeInput \<Rightarrow> toolError + FlowControlInput" where
  "reviewOutcomeToFlowControl face i =
     (case resolveFaceStatus face (ro_Status i) of
        None \<Rightarrow> Inl (UnknownOutcome (ro_Status i))
      | Some generic \<Rightarrow>
          Inr \<lparr>fi_Status = generic, fi_Summary = ro_Feedback i,
               fi_Payload = [(''issues'', Issues (ro_Issues i)), (''feedback'', Decoded (GString (ro_Feedback i))),
                             (''verdicts'', Verdicts (ro_Verdicts i))]
                 @ (if ro_BatchSignatureRequests i = [] then []
                    else [(''batch_signature_requests'', Batch (ro_BatchSignatureRequests i))]),
               fi_viaReviewOutcome = True, fi_reviewOutcomeStatus = ro_Status i,
               fi_agentInitiated = False, fi_viaEngineEdge = False\<rparr>)"

section \<open>spawn agent\<close>

definition parseSpawnAgentInput :: "gmap \<Rightarrow> toolError + SpawnAgentInput" where
  "parseSpawnAgentInput args =
     (let agent = fieldString args ''agent''; prompt = fieldString args ''prompt''
      in if agent = '''' then Inl AgentRequired
         else if prompt = '''' then Inl PromptRequired
         else Inr \<lparr>sp_Agent = agent, sp_Prompt = prompt, sp_Provider = fieldString args ''provider'',
                   sp_DependsOn = (case asList (rawField ''dependsOn'' args) of None \<Rightarrow> []
                                   | Some xs \<Rightarrow> filter (\<lambda>d. d \<noteq> '''') (map asString xs)),
                   sp_Wait = asBool (rawField ''wait'' args), sp_FlowCohortID = fieldString args ''flowCohortId'',
                   sp_Label = fieldString args ''label'',
                   sp_CohortSize = (case rawField ''cohortSize'' args of GFloat x \<Rightarrow> truncFloat x | _ \<Rightarrow> 0),
                   sp_AutoOrchestrate = asBool (rawField ''autoOrchestrate'' args)\<rparr>)"

section \<open>Coherent outcomes\<close>

definition goodRow :: "VerdictRow \<Rightarrow> bool" where
  "goodRow r \<longleftrightarrow> TrimSpace (vw_ACID r) \<noteq> [] \<and> verdictEnumValue (vw_Verdict r) \<and> (\<forall>e\<in>set (vw_Evidence r). TrimSpace (ev_Path e) \<noteq> [])"

lemma evidenceRows_paths: "evidenceRows xs = Inr es \<Longrightarrow> \<forall>e\<in>set es. TrimSpace (ev_Path e) \<noteq> []"
  by (induction xs arbitrary: es) (auto split: option.splits if_splits sum.splits)

lemma verdictRow_good: "verdictRow m = Inr r \<Longrightarrow> goodRow r"
  by (auto simp: verdictRow_def goodRow_def Let_def dest: evidenceRows_paths split: if_splits option.splits sum.splits)

lemma verdictRows_good: "verdictRows xs = Inr rs \<Longrightarrow> list_all goodRow rs"
  by (induction xs arbitrary: rs) (auto dest: verdictRow_good split: option.splits sum.splits)

lemma batchRows_complete: "batchRows i xs = Inr rs \<Longrightarrow> list_all batchComplete rs \<and> length rs = length xs"
  by (induction xs arbitrary: i rs) (auto split: option.splits sum.splits if_splits)

lemma typedRows_complete: "typedRows i rs = None \<Longrightarrow> list_all batchComplete rs"
  by (induction rs arbitrary: i) (auto split: if_splits)

lemma parseBatch_complete: "parseCoderBatchSignatureRequests b = Inr rs \<Longrightarrow> list_all batchComplete rs"
  by (auto simp: parseCoderBatchSignatureRequests_def dest: batchRows_complete typedRows_complete
      split: option.splits payloadValue.splits gvalue.splits)

lemma find_none: "find P xs = None \<longleftrightarrow> (\<forall>x\<in>set xs. \<not> P x)"
  by (induction xs) auto

text \<open>What the parser promises of the outcome it accepts.\<close>

lemma parsed_outcome:
  assumes "parseReviewOutcomeInput args = Inr r"
  shows "reviewOutcomeStatus (ro_Status r)" and "list_all goodRow (ro_Verdicts r)"
    and "list_all batchComplete (ro_BatchSignatureRequests r)"
    and "ro_Status r = ''approved'' \<Longrightarrow> \<forall>v\<in>set (ro_Verdicts r). \<not> failingRow v"
  using assms
  by (auto simp: parseReviewOutcomeInput_def Let_def find_none dest: verdictRows_good parseBatch_complete
      split: if_splits option.splits sum.splits)

text \<open>
  C38: A review outcome that reaches the flow as \<open>done\<close> was approved and every one of its rows passes: no
  accepted tool call turns a failing or blocked criterion into a done signal.
\<close>

theorem done_outcome_passes:
  assumes "parseReviewOutcomeInput args = Inr r" and "reviewOutcomeToFlowControl fallbackFace r = Inr i" and "fi_Status i = ''done''"
  shows "ro_Status r = ''approved'' \<and> fi_reviewOutcomeStatus i = ''approved'' \<and>
         map_of (fi_Payload i) ''verdicts'' = Some (Verdicts (ro_Verdicts r)) \<and>
         (\<forall>v\<in>set (ro_Verdicts r). vw_Verdict v = ''pass'' \<and> goodRow v)"
proof -
  from assms(2,3) have approved: "ro_Status r = ''approved''"
    by (auto simp: reviewOutcomeToFlowControl_def resolveFaceStatus_def fallbackFace_def split: if_splits)
  moreover have "vw_Verdict v = ''pass'' \<and> goodRow v" if "v \<in> set (ro_Verdicts r)" for v
    using parsed_outcome(2,4) [OF assms(1)] approved that
    by (auto simp: list_all_iff failingRow_def goodRow_def verdictEnumValue_def)
  ultimately show ?thesis
    using assms(2) by (auto simp: reviewOutcomeToFlowControl_def split: option.splits)
qed

definition demo_outcome :: "string \<Rightarrow> gmap" where
  "demo_outcome verdict =
     [(''status'', GString ''approved''),
      (''verdicts'', GList [GMap [(''ac_id'', GString ''AC-1''), (''verdict'', GString verdict)]])]"

theorem done_outcome_passes_witness:
  "(\<exists>r i. parseReviewOutcomeInput (demo_outcome ''pass'') = Inr r \<and> reviewOutcomeToFlowControl fallbackFace r = Inr i \<and>
      fi_Status i = ''done'' \<and> (\<forall>v\<in>set (ro_Verdicts r). vw_Verdict v = ''pass'')) \<and>
   parseReviewOutcomeInput (demo_outcome ''fail'') = Inl (ApprovedInconsistent ''AC-1'' ''fail'')"
proof
  let ?r = "\<lparr>ro_Status = ''approved'', ro_Issues = [], ro_Feedback = [],
    ro_Verdicts = [\<lparr>vw_ACID = ''AC-1'', vw_Verdict = ''pass'', vw_Evidence = [], vw_Note = []\<rparr>], ro_BatchSignatureRequests = []\<rparr>"
  have 1: "parseReviewOutcomeInput (demo_outcome ''pass'') = Inr ?r" by code_simp
  obtain i where 2: "reviewOutcomeToFlowControl fallbackFace ?r = Inr i" and 3: "fi_Status i = ''done''"
    by (simp add: reviewOutcomeToFlowControl_def resolveFaceStatus_def fallbackFace_def)
  show "\<exists>r i. parseReviewOutcomeInput (demo_outcome ''pass'') = Inr r \<and> reviewOutcomeToFlowControl fallbackFace r = Inr i \<and>
      fi_Status i = ''done'' \<and> (\<forall>v\<in>set (ro_Verdicts r). vw_Verdict v = ''pass'')"
    using 1 2 3 done_outcome_passes [OF 1 2 3] by blast
  show "parseReviewOutcomeInput (demo_outcome ''fail'') = Inl (ApprovedInconsistent ''AC-1'' ''fail'')"
    by code_simp
qed

end
