(* ===== verification/Loop_Control.thy ===== *)
theory Loop_Control
  imports Agent_Orchestrator Review_Outcome
begin

text \<open>
  Flow signals and the review loop: the admission checks of \<open>applyFlowControl\<close> (known status, terminal loop,
  one decision per provider turn, open cohort) and what each signal and each operator action writes to
  the loop state (\<open>runner/interactive_service.go\<close>), with the resets of the round counter when a plan is
  approved or a sprint begins and the seed of a mounted flow (\<open>plan_approval_park.go\<close>, \<open>vibe_cp.go\<close>,
  \<open>flow_executor.go\<close>). The effects a signal has beyond the loop (step writes,
  canonical heads, verdict gate, parks, tournament rescue, persistence) are modelled in the other
  theories or not at all; here they appear only where they decide the loop's next state.
\<close>

section \<open>Admission of a signal\<close>

record FlowControlResult =
  fcr_Status :: string
  fcr_Round :: int
  fcr_Cap :: int
  fcr_OpenIssues :: int
  fcr_NextAction :: string

text \<open>The provider turn a run is in, and the turn whose decision it has taken.\<close>

record turnStamp =
  ts_currentTurnID :: string
  ts_lastFlowControlTurnID :: string

datatype flowError = RunNotFound string | UnknownStatus string | AlreadySubmitted

datatype admission =
    Refused flowError
  | Answered FlowControlResult
  | Admitted string

definition snapshotLoop :: "string \<Rightarrow> AgentOrchestrator \<Rightarrow> AgentLoopState" where
  "snapshotLoop parentRunID s = gs_LoopState (graphSnapshot parentRunID s)"

definition admitFlowControl ::
  "string \<Rightarrow> FlowControlInput \<Rightarrow> AgentOrchestrator \<Rightarrow> (string \<rightharpoonup> turnStamp) \<Rightarrow> admission \<times> (string \<rightharpoonup> turnStamp)" where
  "admitFlowControl parentRunID i s runs =
     (case runs parentRunID of
        None \<Rightarrow> (Refused (RunNotFound parentRunID), runs)
      | Some rs \<Rightarrow>
          (let status = TrimSpace (fi_Status i); loop = snapshotLoop parentRunID s;
               answer = (\<lambda>next. Answered \<lparr>fcr_Status = fi_Status i, fcr_Round = ls_Round loop, fcr_Cap = effectiveCap loop,
                                          fcr_OpenIssues = 0, fcr_NextAction = next\<rparr>)
           in if \<not> flowControlStatus status then (Refused (UnknownStatus (fi_Status i)), runs)
              else if ls_Status loop = ''stopped'' \<or> ls_Status loop = ''done'' then (answer ''rejected_terminal'', runs)
              else if ts_currentTurnID rs \<noteq> '''' \<and> ts_lastFlowControlTurnID rs = ts_currentTurnID rs
              then (Refused AlreadySubmitted, runs)
              else let stamped = (if ts_currentTurnID rs \<noteq> '''' then rs\<lparr>ts_lastFlowControlTurnID := ts_currentTurnID rs\<rparr> else rs);
                       unstamped = (if ts_currentTurnID rs \<noteq> '''' then rs\<lparr>ts_lastFlowControlTurnID := []\<rparr> else rs)
                   in if (status = ''done'' \<or> status = ''continue'') \<and> hasOpenCohort parentRunID s
                      then (answer ''rejected_cohort_incomplete'', runs(parentRunID \<mapsto> unstamped))
                      else (Admitted status, runs(parentRunID \<mapsto> stamped))))"

section \<open>What a signal writes to the loop\<close>

definition issueCount :: "payload \<Rightarrow> int" where
  "issueCount p =
     (case map_of p ''issues'' of
        Some (Issues xs) \<Rightarrow> int (length xs)
      | Some (Decoded (GList xs)) \<Rightarrow> int (length xs)
      | _ \<Rightarrow> 0)"

definition vibeCompletionPlanComplete :: string where
  "vibeCompletionPlanComplete = ''plan_complete''"

definition settleDoneLoop :: "bool \<Rightarrow> AgentLoopState \<Rightarrow> AgentLoopState" where
  "settleDoneLoop planDrained st =
     (let st1 = st\<lparr>ls_Status := ''done'', ls_OpenIssues := 0, ls_GateReason := []\<rparr>
      in if planDrained then st1\<lparr>ls_CompletionKind := vibeCompletionPlanComplete\<rparr> else st1)"

definition isNegotiationHubNode :: "string \<Rightarrow> bool" where
  "isNegotiationHubNode stepID \<longleftrightarrow> TrimSpace stepID = ''synthesis_negotiation''"

definition negotiationPhaseActive :: "string \<Rightarrow> string \<Rightarrow> bool" where
  "negotiationPhaseActive activeHubNodeID currentStepID \<longleftrightarrow>
     isNegotiationHubNode activeHubNodeID \<or> isNegotiationHubNode currentStepID"

definition closeNegotiation :: "AgentLoopState \<Rightarrow> AgentLoopState" where
  "closeNegotiation st = st\<lparr>ls_NegotiationRound := 0\<rparr>"

definition continueLoop :: "bool \<Rightarrow> int \<Rightarrow> AgentLoopState \<Rightarrow> FlowControlResult \<times> AgentLoopState" where
  "continueLoop negotiationPhase issues st =
     (if negotiationPhase then
        (let st1 = st\<lparr>ls_NegotiationRound := ls_NegotiationRound st + 1\<rparr>; negCap = effectiveNegotiationCap st1
         in if ls_NegotiationRound st1 \<ge> negCap
            then (\<lparr>fcr_Status = ''blocked'', fcr_Round = ls_Round st1, fcr_Cap = negCap, fcr_OpenIssues = 0, fcr_NextAction = ''awaiting_user''\<rparr>,
                  st1\<lparr>ls_Status := ''blocked'', ls_BlockReason := ''escalate'', ls_GateReason := ''signature-renegotiation cap exhausted''\<rparr>)
            else let st2 = st1\<lparr>ls_OpenIssues := issues, ls_Status := ''running'', ls_BlockReason := [], ls_GateReason := []\<rparr>
                 in (\<lparr>fcr_Status = ''continue'', fcr_Round = ls_Round st2, fcr_Cap = effectiveCap st2, fcr_OpenIssues = issues,
                      fcr_NextAction = ''looping''\<rparr>, st2))
      else
        (let cap = effectiveCap st; st1 = st\<lparr>ls_OpenIssues := issues, ls_Round := ls_Round st + 1\<rparr>
         in if cap > 0 \<and> ls_Round st1 \<ge> cap
            then (\<lparr>fcr_Status = ''blocked'', fcr_Round = ls_Round st1, fcr_Cap = cap, fcr_OpenIssues = issues, fcr_NextAction = ''awaiting_user''\<rparr>,
                  st1\<lparr>ls_Status := ''blocked'', ls_BlockReason := ''cap'',
                      ls_GateReason := ''cap '' @ fmt_d cap @ '' reached with '' @ fmt_d issues @ '' open issue(s)''\<rparr>)
            else (\<lparr>fcr_Status = ''continue'', fcr_Round = ls_Round st1, fcr_Cap = cap, fcr_OpenIssues = issues, fcr_NextAction = ''looping''\<rparr>,
                  st1\<lparr>ls_Status := ''running'', ls_BlockReason := [], ls_GateReason := []\<rparr>)))"

definition escalateLoop :: "string \<Rightarrow> AgentLoopState \<Rightarrow> AgentLoopState" where
  "escalateLoop gateReason st = st\<lparr>ls_Status := ''blocked'', ls_BlockReason := ''escalate'', ls_GateReason := gateReason\<rparr>"

text \<open>The reason on the card; the same reason again is marked as no progress.\<close>

definition escalateReason :: "string \<Rightarrow> string \<Rightarrow> string \<times> string" where
  "escalateReason summary lastEscalateReason =
     (let reason = (if TrimSpace summary = '''' then ''escalated'' else TrimSpace summary)
      in (if lastEscalateReason \<noteq> '''' \<and> lastEscalateReason = reason then reason @ '' (no progress since last continue)'' else reason,
          reason))"

definition raiseCap :: "AgentLoopState \<Rightarrow> AgentLoopState" where
  "raiseCap st =
     (let cap = effectiveCap st + effectiveExtendBy st
      in st\<lparr>ls_Cap := cap, ls_RoundCap := cap, ls_ExtendCount := ls_ExtendCount st + 1\<rparr>)"

definition extendCap :: "AgentLoopState \<Rightarrow> FlowControlResult \<times> AgentLoopState" where
  "extendCap st =
     (let st1 = raiseCap st;
          st2 = (if ls_Status st1 = ''blocked'' then st1\<lparr>ls_Status := ''running'', ls_GateReason := [], ls_BlockReason := []\<rparr> else st1)
      in (\<lparr>fcr_Status = ls_Status st2, fcr_Round = ls_Round st2, fcr_Cap = ls_Cap st2, fcr_OpenIssues = 0, fcr_NextAction = ''looping''\<rparr>, st2))"

definition resumeWithFeedback :: "AgentLoopState \<Rightarrow> bool \<times> AgentLoopState" where
  "resumeWithFeedback st =
     (if ls_Status st \<noteq> ''blocked'' then (False, st)
      else let st1 = (if ls_BlockReason st = ''cap'' then raiseCap st else st)
           in (True, st1\<lparr>ls_Status := ''running'', ls_GateReason := [], ls_BlockReason := []\<rparr>))"

section \<open>Resets and mounts\<close>

text \<open>A plan that was approved gives the code phase a fresh budget, and so does the start of a sprint.\<close>

definition resetPlanPhaseRound :: "AgentLoopState \<Rightarrow> AgentLoopState" where
  "resetPlanPhaseRound st = st\<lparr>ls_Round := 0\<rparr>"

definition startSprintLoop :: "AgentLoopState \<Rightarrow> AgentLoopState" where
  "startSprintLoop st = st\<lparr>ls_Round := 0, ls_ExtendCount := 0, ls_NegotiationRound := 0\<rparr>"

text \<open>The policy of a mounted flow; a mount over a parked flow leaves the loop alone.\<close>

definition policyCap :: "int \<Rightarrow> int" where
  "policyCap x = (if x \<le> 0 then 3 else x)"

definition policyExtendBy :: "int \<Rightarrow> int" where
  "policyExtendBy x = (if x \<le> 0 then 2 else x)"

definition mountLoop :: "bool \<Rightarrow> int \<Rightarrow> int \<Rightarrow> int \<Rightarrow> AgentLoopState \<Rightarrow> AgentLoopState" where
  "mountLoop overlayMount cap0 extendBy0 negotiationCap st =
     (let cap = policyCap cap0
      in if overlayMount then st
         else (if ls_ExtendCount st = 0 \<or> ls_Cap st < cap then st\<lparr>ls_Cap := cap, ls_RoundCap := cap\<rparr> else st)
                \<lparr>ls_ExtendBy := policyExtendBy extendBy0, ls_NegotiationCap := negotiationCap\<rparr>)"

text \<open>
  A restart sets the loop to what was persisted, unless that is blank, with the reasons of a park that is over
  cleared.
\<close>

definition restoreLoop :: "AgentLoopState \<Rightarrow> AgentLoopState \<Rightarrow> AgentLoopState" where
  "restoreLoop persisted st =
     (let status = TrimSpace (ls_Status persisted)
      in if ls_Mode persisted \<noteq> [] \<or> ls_Cap persisted > 0 \<or> ls_Round persisted > 0 \<or> status \<noteq> []
         then withRoundCap
           (if status = ''blocked'' then persisted
            else if status = ''paused'' \<or> status = ''stopped'' then persisted\<lparr>ls_BlockReason := []\<rparr>
            else persisted\<lparr>ls_BlockReason := [], ls_GateReason := []\<rparr>)
         else st)"

section \<open>Sequences of signals and actions\<close>

text \<open>What writes the status, the rounds or the caps of a loop; \<open>RestoreOp\<close> carries the persisted state.\<close>

datatype loopOp =
    ContinueOp bool int
  | DoneOp bool
  | EscalateOp string
  | ExtendOp
  | FeedbackOp
  | PauseOp string
  | ResumeOp
  | StopOp
  | AdvanceOp
  | TransitionOp string
  | PlanApprovedOp
  | SprintOp
  | MountOp bool int int int
  | RestoreOp AgentLoopState

fun loopStep :: "loopOp \<Rightarrow> AgentLoopState \<Rightarrow> AgentLoopState" where
  "loopStep (ContinueOp neg n) st = snd (continueLoop neg n st)"
| "loopStep (DoneOp d) st = settleDoneLoop d st"
| "loopStep (EscalateOp r) st = escalateLoop r st"
| "loopStep ExtendOp st = snd (extendCap st)"
| "loopStep FeedbackOp st = snd (resumeWithFeedback st)"
| "loopStep (PauseOp r) st = pauseLoop r st"
| "loopStep ResumeOp st = resumeLoop st"
| "loopStep StopOp st = stopLoop st"
| "loopStep AdvanceOp st = advanceRound st"
| "loopStep (TransitionOp k) st = transitionLoop k st"
| "loopStep PlanApprovedOp st = resetPlanPhaseRound st"
| "loopStep SprintOp st = startSprintLoop st"
| "loopStep (MountOp overlay cap ext neg) st = mountLoop overlay cap ext neg st"
| "loopStep (RestoreOp st0) st = restoreLoop st0 st"

definition runLoop :: "loopOp list \<Rightarrow> AgentLoopState \<Rightarrow> AgentLoopState" where
  "runLoop ops st = fold (\<lambda>op st. loopStep op (withRoundCap st)) ops st"

text \<open>
  The rounds an operation grants: the extension step of a raised cap, a fresh budget when the round counter
  is reset, what a mounted policy adds to the cap, and what a restored state has left.
\<close>

definition startsRound :: "loopOp \<Rightarrow> AgentLoopState \<Rightarrow> bool" where
  "startsRound op st \<longleftrightarrow> (case op of ContinueOp False n \<Rightarrow> fcr_NextAction (fst (continueLoop False n st)) = ''looping'' | _ \<Rightarrow> False)"

definition roundsLeft :: "AgentLoopState \<Rightarrow> int" where
  "roundsLeft st = (if effectiveCap st - 1 - ls_Round st < 0 then 0 else effectiveCap st - 1 - ls_Round st)"

definition granted :: "loopOp \<Rightarrow> AgentLoopState \<Rightarrow> int" where
  "granted op st =
     (case op of
        ExtendOp \<Rightarrow> effectiveExtendBy st
      | FeedbackOp \<Rightarrow> if ls_Status st = ''blocked'' \<and> ls_BlockReason st = ''cap'' then effectiveExtendBy st else 0
      | PlanApprovedOp \<Rightarrow> effectiveCap st - 1
      | SprintOp \<Rightarrow> effectiveCap st - 1
      | MountOp overlay cap ext neg \<Rightarrow>
          if \<not> overlay \<and> effectiveCap st < policyCap cap then policyCap cap - effectiveCap st else 0
      | RestoreOp st0 \<Rightarrow> roundsLeft st0
      | _ \<Rightarrow> 0)"

fun sumAlong :: "(loopOp \<Rightarrow> AgentLoopState \<Rightarrow> int) \<Rightarrow> loopOp list \<Rightarrow> AgentLoopState \<Rightarrow> int" where
  "sumAlong f [] st = 0"
| "sumAlong f (op # ops) st = f op (withRoundCap st) + sumAlong f ops (loopStep op (withRoundCap st))"

definition roundsStarted :: "loopOp list \<Rightarrow> AgentLoopState \<Rightarrow> int" where
  "roundsStarted = sumAlong (\<lambda>op st. if startsRound op st then 1 else 0)"

section \<open>Rounds are bounded\<close>

lemmas loop_defs = continueLoop_def settleDoneLoop_def escalateLoop_def extendCap_def raiseCap_def resumeWithFeedback_def
  pauseLoop_def resumeLoop_def stopLoop_def advanceRound_def transitionLoop_def Let_def

lemma effectiveCap_more [simp]:
  "effectiveCap (st\<lparr>ls_Status := x\<rparr>) = effectiveCap st" "effectiveCap (st\<lparr>ls_GateReason := x\<rparr>) = effectiveCap st"
  "effectiveCap (st\<lparr>ls_BlockReason := x\<rparr>) = effectiveCap st" "effectiveCap (st\<lparr>ls_OpenIssues := n\<rparr>) = effectiveCap st"
  "effectiveCap (st\<lparr>ls_Round := n\<rparr>) = effectiveCap st" "effectiveCap (st\<lparr>ls_NegotiationRound := n\<rparr>) = effectiveCap st"
  "effectiveCap (st\<lparr>ls_CompletionKind := x\<rparr>) = effectiveCap st" "effectiveCap (st\<lparr>ls_ExtendCount := n\<rparr>) = effectiveCap st"
  by (simp_all add: effectiveCap_def)

lemma effectiveExtendBy_pos [simp]: "effectiveExtendBy st > 0"
  by (simp add: effectiveExtendBy_def)

lemma effectiveCap_pos [simp]: "effectiveCap st > 0"
  by (simp add: effectiveCap_def)

lemma withRoundCap_same [simp]:
  "effectiveCap (withRoundCap st) = effectiveCap st" "ls_Round (withRoundCap st) = ls_Round st"
  "ls_ExtendBy (withRoundCap st) = ls_ExtendBy st" "ls_Status (withRoundCap st) = ls_Status st"
  by (simp_all add: withRoundCap_def effectiveCap_def)

lemma effectiveCap_set: "0 < ls_Cap st \<Longrightarrow> effectiveCap st = ls_Cap st"
  by (simp add: effectiveCap_def)

lemma raiseCap_effects:
  "effectiveCap (raiseCap st) = effectiveCap st + effectiveExtendBy st"
  "ls_Round (raiseCap st) = ls_Round st" "ls_ExtendBy (raiseCap st) = ls_ExtendBy st"
proof -
  have "0 < effectiveCap st + effectiveExtendBy st" by (intro add_pos_pos) simp_all
  then show "effectiveCap (raiseCap st) = effectiveCap st + effectiveExtendBy st"
    by (simp add: raiseCap_def Let_def effectiveCap_set)
qed (simp_all add: raiseCap_def Let_def)

lemma continue_rounds:
  "roundsLeft (snd (continueLoop neg n st)) + (if \<not> neg \<and> fcr_NextAction (fst (continueLoop neg n st)) = ''looping'' then 1 else 0)
     \<le> roundsLeft st"
  by (auto simp: continueLoop_def Let_def roundsLeft_def)

lemma raise_rounds: "roundsLeft (raiseCap st) \<le> roundsLeft st + effectiveExtendBy st"
  using effectiveExtendBy_pos [of st] by (auto simp: roundsLeft_def raiseCap_effects simp del: effectiveExtendBy_pos)

lemma roundsLeft_more [simp]:
  "roundsLeft (st\<lparr>ls_Status := x\<rparr>) = roundsLeft st" "roundsLeft (st\<lparr>ls_GateReason := x\<rparr>) = roundsLeft st"
  "roundsLeft (st\<lparr>ls_BlockReason := x\<rparr>) = roundsLeft st" "roundsLeft (st\<lparr>ls_OpenIssues := n\<rparr>) = roundsLeft st"
  "roundsLeft (st\<lparr>ls_CompletionKind := x\<rparr>) = roundsLeft st"
  by (simp_all add: roundsLeft_def)

lemma roundsLeft_round: "roundsLeft (st\<lparr>ls_Round := ls_Round st + 1\<rparr>) \<le> roundsLeft st"
  by (simp add: roundsLeft_def)

lemma transition_rounds [simp]: "roundsLeft (transitionLoop k st) = roundsLeft st"
  by (simp add: transitionLoop_def Let_def)

lemma advance_rounds: "roundsLeft (advanceRound st) \<le> roundsLeft st"
  by (simp add: advanceRound_def Let_def roundsLeft_def)

lemma policyCap_pos [simp]: "0 < policyCap x"
  by (simp add: policyCap_def)

lemma reset_rounds: "roundsLeft (resetPlanPhaseRound st) \<le> roundsLeft st + (effectiveCap st - 1)"
  "roundsLeft (startSprintLoop st) \<le> roundsLeft st + (effectiveCap st - 1)"
  using effectiveCap_pos [of st]
  by (auto simp: roundsLeft_def resetPlanPhaseRound_def startSprintLoop_def simp del: effectiveCap_pos)

lemma mount_cap:
  "effectiveCap (mountLoop overlay cap ext neg st) =
     (if \<not> overlay \<and> (ls_ExtendCount st = 0 \<or> ls_Cap st < policyCap cap) then policyCap cap else effectiveCap st)"
  "ls_Round (mountLoop overlay cap ext neg st) = ls_Round st"
  using policyCap_pos [of cap] by (auto simp: mountLoop_def effectiveCap_def Let_def simp del: policyCap_pos)

lemma mount_rounds:
  "roundsLeft (mountLoop overlay cap ext neg st)
     \<le> roundsLeft st + (if \<not> overlay \<and> effectiveCap st < policyCap cap then policyCap cap - effectiveCap st else 0)"
  by (auto simp: roundsLeft_def mount_cap)

lemma step_rounds:
  "roundsLeft (loopStep op st) + (if startsRound op st then 1 else 0) \<le> roundsLeft st + granted op st"
proof (cases op)
  case (ContinueOp neg n)
  then show ?thesis
    using continue_rounds [of neg n st] by (cases neg) (simp_all add: startsRound_def granted_def)
next
  case ExtendOp
  then show ?thesis
    using raise_rounds [of st] by (simp add: startsRound_def granted_def extendCap_def Let_def)
next
  case FeedbackOp
  then show ?thesis
    using raise_rounds [of st] by (simp add: startsRound_def granted_def resumeWithFeedback_def Let_def)
next
  case AdvanceOp
  then show ?thesis
    using advance_rounds by (simp add: startsRound_def granted_def)
next
  case (RestoreOp st0)
  have "0 \<le> roundsLeft st0" and "0 \<le> roundsLeft st" by (simp_all add: roundsLeft_def)
  moreover have "roundsLeft (restoreLoop st0 st) \<in> {roundsLeft st0, roundsLeft st}"
    by (simp add: roundsLeft_def restoreLoop_def Let_def)
  ultimately show ?thesis
    using RestoreOp by (auto simp: startsRound_def granted_def)
qed (use reset_rounds [of st] mount_rounds [of _ _ _ _ st] in
    \<open>simp_all add: startsRound_def granted_def settleDoneLoop_def escalateLoop_def pauseLoop_def resumeLoop_def stopLoop_def Let_def\<close>)

lemma roundsLeft_cap [simp]: "roundsLeft (withRoundCap st) = roundsLeft st"
  by (simp add: roundsLeft_def)

lemma rounds_along:
  "roundsStarted ops st + roundsLeft (runLoop ops st) \<le> roundsLeft st + sumAlong granted ops st"
proof (induction ops arbitrary: st)
  case (Cons op ops)
  let ?st = "loopStep op (withRoundCap st)"
  have "runLoop (op # ops) st = runLoop ops ?st"
    by (simp add: runLoop_def)
  with Cons.IH [of ?st] step_rounds [of op "withRoundCap st"] show ?case
    by (simp add: roundsStarted_def)
qed (simp add: runLoop_def roundsStarted_def)

lemma roundsLeft_nonneg [simp]: "0 \<le> roundsLeft st"
  by (simp add: roundsLeft_def)

text \<open>
  C39: Whatever signals, operator actions, child events, plan approvals, sprint starts, flow mounts and restarts a
  run sees, in any order, the review rounds it starts are bounded: by the rounds its cap had left at the start,
  plus what the operations on the way grant: the extension step for every time an operator raised the cap, a
  fresh budget for every approved plan and every new sprint, what a mounted policy adds to the cap, and what a
  restored state has left. No other operation grants a round.
\<close>

theorem review_rounds_bounded:
  "roundsStarted ops st \<le> roundsLeft st + sumAlong granted ops st"
  using rounds_along [of ops st] roundsLeft_nonneg [of "runLoop ops st"] by linarith

section \<open>Parked loops\<close>

definition parkedStatus :: "string \<Rightarrow> bool" where
  "parkedStatus x \<longleftrightarrow> x \<in> {''blocked'', ''done'', LoopStatusTournamentEscalation}"

text \<open>The actions a parked loop is proof against: a resume, and the failures of the children it cancels.\<close>

definition harmless :: "loopOp \<Rightarrow> bool" where
  "harmless op \<longleftrightarrow> (case op of ResumeOp \<Rightarrow> True | TransitionOp k \<Rightarrow> k = ''rejected'' | _ \<Rightarrow> False)"

lemma harmless_parked: "harmless op \<Longrightarrow> parkedStatus (ls_Status st) \<Longrightarrow> loopStep op st = st"
  by (cases op) (auto simp: harmless_def parkedStatus_def resumeLoop_def transitionLoop_def Let_def)

text \<open>
  A loop parked on a decision, a tournament or its end keeps its status and the reason on its card over
  any number of resumes and failing children.
\<close>

theorem park_survives:
  assumes "list_all harmless ops" and "parkedStatus (ls_Status st)"
  shows "runLoop ops st = (if ops = [] then st else withRoundCap st)"
  using assms
proof (induction ops arbitrary: st)
  case (Cons op ops)
  have "parkedStatus (ls_Status (withRoundCap st))" using Cons.prems by simp
  moreover have "runLoop (op # ops) st = runLoop ops (loopStep op (withRoundCap st))" by (simp add: runLoop_def)
  moreover have "withRoundCap (withRoundCap st) = withRoundCap st" by (simp add: withRoundCap_def)
  ultimately show ?case
    using Cons harmless_parked [of op "withRoundCap st"] by simp
qed (simp add: runLoop_def)

text \<open>The pause endpoint is not: a pause and a resume set a loop running that waits for a decision.\<close>

lemma pause_frees_park:
  "ls_Status (runLoop [EscalateOp r, ResumeOp] st) = ''blocked''"
  "ls_Status (runLoop [EscalateOp r, PauseOp q, ResumeOp] st) = ''running'' \<and>
   ls_GateReason (runLoop [EscalateOp r, PauseOp q, ResumeOp] st) = [] \<and>
   ls_BlockReason (runLoop [EscalateOp r, PauseOp q, ResumeOp] st) = ''escalate''"
  by (simp_all add: runLoop_def escalateLoop_def pauseLoop_def resumeLoop_def withRoundCap_def LoopStatusTournamentEscalation_def)

theorem park_survives_witness:
  "ls_Status (runLoop [TransitionOp ''rejected'', ResumeOp] (escalateLoop ''why'' zeroLoop)) = ''blocked''"
proof -
  have 1: "list_all harmless [TransitionOp ''rejected'', ResumeOp]" and 2: "parkedStatus (ls_Status (escalateLoop ''why'' zeroLoop))"
    by code_simp+
  have "ls_Status (withRoundCap (escalateLoop ''why'' zeroLoop)) = ''blocked''" by code_simp
  then show ?thesis using park_survives [OF 1 2] by simp
qed

section \<open>Open cohorts\<close>

text \<open>
  While a cohort of the run is open no done or continue signal is admitted: it is answered or refused, and
  the turn's decision slot is left free for the signal the hub sends after the join.
\<close>

theorem open_cohort_defers:
  assumes "hasOpenCohort p s" and "TrimSpace (fi_Status i) \<in> {''done'', ''continue''}"
    and "admitFlowControl p i s runs = (a, runs')"
  shows "(case a of
            Admitted status \<Rightarrow> False
          | Refused e \<Rightarrow> runs' = runs
          | Answered r \<Rightarrow>
              (fcr_NextAction r = ''rejected_terminal'' \<and> runs' = runs) \<or>
              (fcr_NextAction r = ''rejected_cohort_incomplete'' \<and>
               (\<exists>ts. runs' p = Some ts \<and> (ts_currentTurnID ts = [] \<or> ts_lastFlowControlTurnID ts \<noteq> ts_currentTurnID ts))))"
  using assms
  by (auto simp: admitFlowControl_def Let_def flowControlStatus_def split: option.splits if_splits)

theorem open_cohort_defers_witness:
  "fst (admitFlowControl ''p'' (emptyInput\<lparr>fi_Status := ''done''\<rparr>) (preRegisterCohort ''p'' ''c'' 2 newAgentOrchestrator)
     [''p'' \<mapsto> \<lparr>ts_currentTurnID = ''t'', ts_lastFlowControlTurnID = []\<rparr>]) \<noteq> Admitted ''done''"
proof -
  let ?s = "preRegisterCohort ''p'' ''c'' 2 newAgentOrchestrator" and ?i = "emptyInput\<lparr>fi_Status := ''done''\<rparr>"
    and ?runs = "[''p'' \<mapsto> \<lparr>ts_currentTurnID = ''t'', ts_lastFlowControlTurnID = []\<rparr>]"
  have 1: "hasOpenCohort ''p'' ?s" and 2: "TrimSpace (fi_Status ?i) \<in> {''done'', ''continue''}" by code_simp+
  show ?thesis
    using open_cohort_defers [OF 1 2 surjective_pairing, of ?runs] by (auto split: admission.splits)
qed

end
