(* ===== verification/Feedback_Queue.thy ===== *)
theory Feedback_Queue
  imports Agent_Orchestrator
begin

text \<open>
  The queued feedback of a run (\<open>queueFeedback\<close>, \<open>nextQueuedFeedbackFor\<close>): one list in arrival order from
  which every child takes what is addressed to it or to nobody. The contract of such a queue is a locale;
  the orchestrator's queue of one parent is its instance.
\<close>

section \<open>Sequences of calls\<close>

datatype ('a, 'm) mailOp = Put 'm | Take 'a

fun mailRun ::
  "('m \<Rightarrow> 's \<Rightarrow> 's) \<Rightarrow> ('a \<Rightarrow> 's \<Rightarrow> 'm option \<times> 's) \<Rightarrow> ('a, 'm) mailOp list \<Rightarrow> 's \<Rightarrow> ('a \<times> 'm) list \<times> 's" where
  "mailRun put fetch [] s = ([], s)"
| "mailRun put fetch (Put m # ops) s = mailRun put fetch ops (put m s)"
| "mailRun put fetch (Take a # ops) s =
     (let (r, s1) = fetch a s; (ds, s2) = mailRun put fetch ops s1
      in ((case r of None \<Rightarrow> ds | Some m \<Rightarrow> (a, m) # ds), s2))"

fun puts :: "('a, 'm) mailOp list \<Rightarrow> 'm list" where
  "puts [] = []"
| "puts (Put m # ops) = m # puts ops"
| "puts (Take a # ops) = puts ops"

fun takers :: "('a, 'm) mailOp list \<Rightarrow> 'a list" where
  "takers [] = []"
| "takers (Put m # ops) = takers ops"
| "takers (Take a # ops) = a # takers ops"

section \<open>The contract\<close>

locale addressed_queue =
  fixes put :: "'m \<Rightarrow> 's \<Rightarrow> 's"
    and fetch :: "'a \<Rightarrow> 's \<Rightarrow> 'm option \<times> 's"
    and waiting :: "'a \<Rightarrow> 's \<Rightarrow> 'm list"
    and addr :: "'m \<Rightarrow> 'a"
    and named :: "'a \<Rightarrow> bool"
  assumes waiting_put: "named a \<Longrightarrow> waiting a (put m s) = waiting a s @ (if addr m = a then [m] else [])"
    and waiting_fetch: "named a \<Longrightarrow> named b \<Longrightarrow> fetch b s = (r, s') \<Longrightarrow>
      waiting a s = (case r of None \<Rightarrow> [] | Some m \<Rightarrow> if addr m = a then [m] else []) @ waiting a s'"
    and fetch_own: "named b \<Longrightarrow> fetch b s = (Some m, s') \<Longrightarrow> named (addr m) \<Longrightarrow> addr m = b"
begin

lemma in_order:
  "named a \<Longrightarrow> \<forall>b\<in>set (takers ops). named b \<Longrightarrow>
     filter (\<lambda>m. addr m = a) (map snd (fst (mailRun put fetch ops s))) @ waiting a (snd (mailRun put fetch ops s))
       = waiting a s @ filter (\<lambda>m. addr m = a) (puts ops)"
proof (induction ops arbitrary: s)
  case (Cons op ops)
  show ?case
  proof (cases op)
    case (Put m)
    with Cons show ?thesis by (simp add: waiting_put)
  next
    case (Take b)
    obtain r s1 where f: "fetch b s = (r, s1)" by (cases "fetch b s")
    with Cons.prems Take have "waiting a s = (case r of None \<Rightarrow> [] | Some m \<Rightarrow> if addr m = a then [m] else []) @ waiting a s1"
      by (intro waiting_fetch) auto
    with Cons Take f show ?thesis by (auto simp: split_beta split: option.splits)
  qed
qed simp

lemma right_taker:
  "\<forall>b\<in>set (takers ops). named b \<Longrightarrow> (b, m) \<in> set (fst (mailRun put fetch ops s)) \<Longrightarrow> named (addr m) \<Longrightarrow> addr m = b"
proof (induction ops arbitrary: s)
  case (Cons op ops)
  show ?case
  proof (cases op)
    case (Put m')
    with Cons show ?thesis by simp
  next
    case (Take c)
    with Cons show ?thesis
      by (cases "fetch c s") (auto simp: split_beta split: option.splits dest: fetch_own)
  qed
qed simp

end

section \<open>The queue of a parent run\<close>

definition waitingFor :: "string \<Rightarrow> string \<Rightarrow> AgentOrchestrator \<Rightarrow> AgentBusMessage list" where
  "waitingFor parentRunID a s = filter (\<lambda>m. bm_ToRunID m = a) (o_queued s parentRunID)"

lemma takeFor_own: "takeFor b q = Some (m, q') \<Longrightarrow> b \<noteq> [] \<Longrightarrow> bm_ToRunID m \<noteq> [] \<Longrightarrow> bm_ToRunID m = b"
  by (induction q arbitrary: q') (auto split: if_splits)

lemma takeFor_waiting:
  "takeFor b q = Some (m, q') \<Longrightarrow> b \<noteq> [] \<Longrightarrow> a \<noteq> [] \<Longrightarrow>
     filter (\<lambda>x. bm_ToRunID x = a) q = (if bm_ToRunID m = a then [m] else []) @ filter (\<lambda>x. bm_ToRunID x = a) q'"
  by (induction q arbitrary: q') (auto split: if_splits dest: takeFor_own)

lemma queueFeedback_queued: "o_queued (queueFeedback p m s) p = o_queued s p @ [m]"
  by (simp add: queueFeedback_def keepLoop_def mutateLoop_def)

interpretation mail: addressed_queue "queueFeedback p" "nextQueuedFeedbackFor p" "waitingFor p" bm_ToRunID "\<lambda>a. a \<noteq> []" for p
proof
  fix a b :: string and m :: AgentBusMessage and s s' :: AgentOrchestrator and r
  show "waitingFor p a (queueFeedback p m s) = waitingFor p a s @ (if bm_ToRunID m = a then [m] else [])"
    by (simp add: waitingFor_def queueFeedback_queued)
  show "waitingFor p a s = (case r of None \<Rightarrow> [] | Some m \<Rightarrow> if bm_ToRunID m = a then [m] else []) @ waitingFor p a s'"
    if "a \<noteq> []" "b \<noteq> []" "nextQueuedFeedbackFor p b s = (r, s')"
    using that takeFor_waiting
    by (auto simp: nextQueuedFeedbackFor_def waitingFor_def split: option.splits)
  show "bm_ToRunID m = b" if "b \<noteq> []" "nextQueuedFeedbackFor p b s = (Some m, s')" "bm_ToRunID m \<noteq> []"
    using that takeFor_own by (auto simp: nextQueuedFeedbackFor_def split: option.splits)
qed

text \<open>
  C40: Feedback addressed to a child is handed to that child only, in the order it was queued, and none is lost
  or repeated: what the child received so far followed by what still waits for it is what was queued.
\<close>

theorem feedback_in_order:
  assumes "a \<noteq> []" and "\<forall>b\<in>set (takers ops). b \<noteq> []"
    and run: "mailRun (queueFeedback p) (nextQueuedFeedbackFor p) ops s = (ds, s')"
  shows "map snd (filter (\<lambda>(b, m). bm_ToRunID m = a) ds) @ waitingFor p a s' = waitingFor p a s @ filter (\<lambda>m. bm_ToRunID m = a) (puts ops) \<and>
         (\<forall>(b, m)\<in>set ds. bm_ToRunID m = [] \<or> bm_ToRunID m = b)"
  using mail.in_order [OF assms(1,2), of p s] mail.right_taker [OF assms(2), of _ _ p s] run
  by (fastforce simp: filter_map comp_def split_def)

definition demo_msg :: "string \<Rightarrow> string \<Rightarrow> AgentBusMessage" where
  "demo_msg to msg =
     \<lparr>bm_ID = [], bm_ParentRunID = ''p'', bm_FromRunID = [], bm_ToRunID = to, bm_Kind = [], bm_Message = msg, bm_Queued = True, bm_OccurredAt = []\<rparr>"

theorem feedback_in_order_witness:
  "map snd (filter (\<lambda>(b, m). bm_ToRunID m = ''x'')
      (fst (mailRun (queueFeedback ''p'') (nextQueuedFeedbackFor ''p'')
         [Put (demo_msg ''x'' ''1''), Put (demo_msg ''y'' ''2''), Put (demo_msg ''x'' ''3''), Take ''x'', Take ''y'', Take ''x'']
         newAgentOrchestrator))) = [demo_msg ''x'' ''1'', demo_msg ''x'' ''3'']"
proof -
  let ?ops = "[Put (demo_msg ''x'' ''1''), Put (demo_msg ''y'' ''2''), Put (demo_msg ''x'' ''3''), Take ''x'', Take ''y'', Take ''x'']"
  let ?run = "mailRun (queueFeedback ''p'') (nextQueuedFeedbackFor ''p'') ?ops newAgentOrchestrator"
  have 1: "''x'' \<noteq> []" and 2: "\<forall>b\<in>set (takers ?ops). b \<noteq> []" by simp_all
  have 3: "waitingFor ''p'' ''x'' (snd ?run) = []" by code_simp
  have 4: "waitingFor ''p'' ''x'' newAgentOrchestrator = []" by code_simp
  have 5: "filter (\<lambda>m. bm_ToRunID m = ''x'') (puts ?ops) = [demo_msg ''x'' ''1'', demo_msg ''x'' ''3'']" by code_simp
  show ?thesis
    using feedback_in_order [OF 1 2 surjective_pairing, of "''p''" newAgentOrchestrator] 3 4 5 by simp
qed

end
