(* ===== verification/Agent_Tree.thy ===== *)
theory Agent_Tree
  imports Agent_Orchestrator
begin

text \<open>
  The agent tree: a child's completion channel is signalled at most once and never blocks the caller,
  and a snapshot lists every run once, with the live summary of a child first.
\<close>

section \<open>Completion channels\<close>

text \<open>Every registered channel is open, empty and nobody else's.\<close>

definition waitersReady :: "AgentOrchestrator \<Rightarrow> bool" where
  "waitersReady s \<longleftrightarrow>
     (\<forall>c i. o_waiters s c = Some i \<longrightarrow> i < length (o_chans s) \<and> o_chans s ! i = \<lparr>ch_buffer = [], ch_closed = False\<rparr>) \<and>
     (\<forall>c d i. o_waiters s c = Some i \<and> o_waiters s d = Some i \<longrightarrow> c = d)"

datatype waiterOp = OpenOp string | SignalOp string agentCompletion

fun waiterStep :: "waiterOp \<Rightarrow> AgentOrchestrator \<Rightarrow> AgentOrchestrator option" where
  "waiterStep (OpenOp c) s = Some (snd (openWaiter c s))"
| "waiterStep (SignalOp c x) s = signalChild c x s"

fun waiterRun :: "waiterOp list \<Rightarrow> AgentOrchestrator \<Rightarrow> AgentOrchestrator option" where
  "waiterRun [] s = Some s"
| "waiterRun (op # ops) s = (case waiterStep op s of None \<Rightarrow> None | Some s1 \<Rightarrow> waiterRun ops s1)"

definition chansSane :: "AgentOrchestrator \<Rightarrow> bool" where
  "chansSane s \<longleftrightarrow> (\<forall>ch\<in>set (o_chans s). length (ch_buffer ch) \<le> 1 \<and> (ch_closed ch \<longleftrightarrow> ch_buffer ch \<noteq> []))"

lemma openWaiter_ready: "waitersReady s \<Longrightarrow> waitersReady (snd (openWaiter c s))"
  by (auto simp: waitersReady_def openWaiter_def nth_append less_Suc_eq split: if_splits)

lemma signalChild_ready:
  assumes "waitersReady s"
  obtains s' where "signalChild c x s = Some s'" and "waitersReady s'"
proof (cases "o_waiters s c")
  case (Some i)
  with assms have "i < length (o_chans s)" and ch: "o_chans s ! i = \<lparr>ch_buffer = [], ch_closed = False\<rparr>"
    by (auto simp: waitersReady_def)
  then have "signalChild c x s = Some (s\<lparr>o_waiters := (o_waiters s)(c := None), o_chans := (o_chans s)[i := \<lparr>ch_buffer = [x], ch_closed = True\<rparr>]\<rparr>)"
    using Some by (simp add: signalChild_def sendClose_def)
  moreover have "waitersReady (s\<lparr>o_waiters := (o_waiters s)(c := None), o_chans := (o_chans s)[i := \<lparr>ch_buffer = [x], ch_closed = True\<rparr>]\<rparr>)"
    using assms Some by (auto simp: waitersReady_def nth_list_update split: if_splits)
  ultimately show ?thesis by (rule that)
qed (use assms that in \<open>simp add: signalChild_def\<close>)

lemma chansSane_step: "chansSane s \<Longrightarrow> waiterStep op s = Some s' \<Longrightarrow> chansSane s'"
  by (cases op)
    (auto simp: chansSane_def openWaiter_def signalChild_def sendClose_def Suc_le_eq dest!: set_update_subset_insert [THEN subsetD]
      split: option.splits if_splits)

lemma waiterRun_ready:
  "waitersReady s \<Longrightarrow> chansSane s \<Longrightarrow> \<exists>s'. waiterRun ops s = Some s' \<and> waitersReady s' \<and> chansSane s'"
proof (induction ops arbitrary: s)
  case (Cons op ops)
  obtain s1 where "waiterStep op s = Some s1" and "waitersReady s1"
  proof (cases op)
    case (OpenOp c)
    with Cons.prems that show ?thesis by (simp add: openWaiter_ready)
  next
    case (SignalOp c x)
    with Cons.prems that signalChild_ready [of s c x] show ?thesis by (metis waiterStep.simps(2))
  qed
  with Cons show ?case by (simp add: chansSane_step)
qed simp

text \<open>
  Completion signalling never blocks and never sends on a closed channel, however children register and
  finish; every channel carries at most one completion and is closed as soon as it carries it.
\<close>

theorem signals_once:
  "\<exists>s. waiterRun ops newAgentOrchestrator = Some s \<and> chansSane s \<and> waitersReady s"
  using waiterRun_ready [of newAgentOrchestrator ops] by (auto simp: waitersReady_def chansSane_def newAgentOrchestrator_def)

section \<open>Snapshots\<close>

lemma dedupRuns_distinct: "distinct (map su_RunID (dedupRuns seen rs)) \<and> set seen \<inter> su_RunID ` set (dedupRuns seen rs) = {}"
  by (induction seen rs rule: dedupRuns.induct) auto

lemma dedupRuns_ids: "su_RunID ` set (dedupRuns seen rs) = su_RunID ` set rs - set seen"
  by (induction seen rs rule: dedupRuns.induct) auto

lemma snapshot_runs_distinct: "distinct (map su_RunID (gs_Runs (graphSnapshot p s)))"
  using dedupRuns_distinct [of "[]"] by (simp add: graphSnapshot_def)

lemma snapshot_runs_all:
  "su_RunID ` set (gs_Runs (graphSnapshot p s)) = su_RunID ` set (runsForParent p s) \<union> su_RunID ` set (o_historical s p)"
  by (simp add: graphSnapshot_def dedupRuns_ids image_Un)

lemma upsert_keeps_stamp:
  "su_VibeTaskIndex x = 0 \<Longrightarrow> currentSummary p (su_RunID x) s = Some y \<Longrightarrow>
     \<exists>z. currentSummary p (su_RunID x) (upsertSummary p x s) = Some z \<and> su_Status z = su_Status x \<and>
         su_VibeTaskIndex z = su_VibeTaskIndex y \<and> su_VibeTaskName z = su_VibeTaskName y"
  by (simp add: currentSummary_def upsertSummary_def Let_def)

end
