(* ===== verification/Spec2Isabelle.thy ===== *)
theory Spec2Isabelle
  imports Dispatch_Local Dispatch_Recovery Settle_Wire Dispatch_Operator Workflow_Machine Gate_Safety
    Drift_Telemetry Tournament Step_Safety Relay_Verdicts Loop_Control Feedback_Queue Agent_Tree
begin

text \<open>
  A verification development of FlowPilot's local runner, the Go service under
  \<open>src/apps/local-runner/internal\<close> that drives coding agents through flows. The parts modelled are
  the ones that decide: whether a turn may be sent to a provider and what is recorded about it, when
  a terminal turn counts as settled, what a gate says about a turn, whether an agent drifts, which
  tournament candidate wins, whether a flow graph is safe, and how a running flow moves over it.

  \<^bold>\<open>The program.\<close> A turn has a dispatch record (\<open>runner/dispatch_record.go\<close>) in a store
  (\<open>dispatch_store.go\<close>) with an in-memory (\<open>dispatch_store_memory.go\<close>) and a file-backed
  (\<open>dispatch_store_local.go\<close>) implementation. The live service (\<open>dispatch_live.go\<close>) prepares, claims and
  sends turns, a recovery scanner (\<open>dispatch_recovery.go\<close>) looks at them after a restart, the settle
  driver (\<open>dispatch_settle.go\<close>, \<open>dispatch_settle_wire.go\<close>) runs their after-effects once, and an operator
  (\<open>dispatch_operator.go\<close>) resolves uncertain ones. After a turn the flow gate (\<open>flowgate/\<close>) evaluates
  rules; the drift detector (\<open>driftdetect/\<close>) scores the turn. A flow is a graph of nodes
  (\<open>agentpack/pack.go\<close>, checked by \<open>flow_safety_topology.go\<close>) that the executor
  (\<open>runner/flow_executor.go\<close>) walks; its steps are rows of a timeline (\<open>flow_step_runtime.go\<close>) with a
  log that is replayed after a restart (\<open>step_transition_log.go\<close>). Its agents form a tree
  (\<open>agent_orchestrator.go\<close>): members of a cohort report to a barrier, reviewers give verdicts that open
  the gates of a hub (\<open>review_done_verdict.go\<close>), the hub answers with a flow signal, and the signal ends
  the flow, starts a further review round or parks it for the user (\<open>interactive_service.go\<close>).

  \<^bold>\<open>Theories.\<close>
  \<^item> \<open>Prelude\<close>, \<open>Go_Text\<close>, \<open>Go_Value\<close>: 64-bit integers, Go's \<open>strings\<close>, \<open>path\<close> and \<open>regexp\<close> functions
    the code calls, decoded YAML and JSON values, first errors.
  \<^item> \<open>Dispatch_Record\<close>, \<open>Dispatch_Interface\<close>, \<open>Dispatch_Memory\<close>, \<open>Dispatch_Local\<close>: the records with their
    edge tables and guards, the operations of the store as one datatype of calls, and both stores.
    \<open>Store_Calculus\<close>, \<open>Store_Frames\<close>, \<open>Dispatch_Evolution\<close>, \<open>Dispatch_Safety\<close> carry the invariants: what a
    call may change, how a record evolves over any sequence of calls, and what follows for sends,
    stops, cancels and verdicts. \<open>Dispatch_Demo\<close> holds the concrete stores of the witnesses.
  \<^item> \<open>Dispatch_Recovery\<close>, \<open>Dispatch_Settle\<close>, \<open>Settle_Wire\<close>, \<open>Run_State\<close>, \<open>Dispatch_Live\<close>, \<open>Live_Safety\<close>,
    \<open>Dispatch_Operator\<close>: the scanner, the settle loop and its wiring, the run state with its durable
    idempotency keys, the live calls with their retries, and the operator's requests.
  \<^item> \<open>Workflow_Machine\<close>: the planner of \<open>workflow_state_machine.go\<close>, the orchestrator over an interface of
    the store, and the in-memory step table.
  \<^item> \<open>Gate_Rules\<close>, \<open>Gate_Evaluate\<close>, \<open>Gate_Safety\<close>: rule sets, verdict and precedence; every rule check over
    a turn; and what they guarantee together.
  \<^item> \<open>Drift_Detect\<close>, \<open>Drift_Telemetry\<close>: the signals and the score; the drift memory of the service with
    its eviction, the ladder actions and the routing to the owner debate (\<open>gate_hook.go\<close>, \<open>vibe_gate.go\<close>).
  \<^item> \<open>Tournament\<close>: scores, verdict, next action and configuration (\<open>tournament/\<close>).
  \<^item> \<open>Flow_Topology\<close>, \<open>Flow_Definition\<close>: the flow types, the safety pass and its meaning over the paths
    of the graph; the load-time validation.
  \<^item> \<open>Flow_Routing\<close>, \<open>Routing_Safety\<close>: the walks of the executor and what they compute.
  \<^item> \<open>Flow_Steps\<close>, \<open>Step_Safety\<close>: the step timeline, its log and replay, reseeding, sealing and rounds.
  \<^item> \<open>Agent_Orchestrator\<close>, \<open>Cohort_Safety\<close>, \<open>Agent_Tree\<close>, \<open>Feedback_Queue\<close>: the orchestrator's methods, the
    barrier under members whose reports interleave step by step, completion channels and snapshots, and
    the feedback queue as an instance of a locale of addressed queues.
  \<^item> \<open>Review_Gate\<close>, \<open>Cohort_Join\<close>, \<open>Review_Safety\<close>, \<open>Relay_Verdicts\<close>: recording, folding and reading of
    reviewer verdicts; what a completed and what a failed cohort member does to the barrier, the hub and
    the loop; what the hub gates see of it, on the run that owns the flow or through a leg that relays it;
    reviewers under such a leg.
  \<^item> \<open>Review_Outcome\<close>, \<open>Loop_Control\<close>: the tool calls that settle a turn, parsed and mapped to flow signals;
    the admission of signals and every write of the round counter and its cap: by signals, operator actions,
    child events, an approved plan (\<open>plan_approval_park.go\<close>), a new sprint (\<open>vibe_cp.go\<close>), the mount of a
    flow (\<open>flow_executor.go\<close>) and a restart (\<open>interactive_resume.go\<close>).

  \<^bold>\<open>How code becomes definitions.\<close> A struct is a record whose fields carry a two-letter prefix, an
  enumeration a datatype, a function a definition under its Go name (a helper definition for a loop
  or a block of it). A Go map is a partial function or an association list where order matters; an
  iteration over a map takes the order as an argument. Errors are constructors of an error type, in a
  sum or an option. A lock makes an operation atomic, so concurrency is a sequence of operations. Where
  a function releases the lock between steps, its definition takes a function \<open>w\<close> that changes
  the state between them, or it is a step function whose steps are interleaved (\<open>reportStep\<close>). Two
  simplifications remain: \<open>recordDriftTelemetry\<close> is one step for its two critical sections, and a filter
  in place (\<open>paths[:0]\<close>) is a filter, without its effect on the slice of the caller. A handler that locks a mutex it already holds never returns: its result is
  \<open>None\<close>. What a handler starts in a goroutine is recorded in order as an effect (\<open>joinEffect\<close>). Go's
  clock, environment, quoting (\<open>%q\<close>), hashes, JSON, files, the provider, the callbacks and the
  configuration of models are parameters, but the lines of the dispatch log are kept decoded: a line
  that was written whole is read back as it was. Integers are kept at 64 bits where
  the code adds to them. Paths are Unix paths. Strings are byte strings; \<open>ToLower\<close> and \<open>EqualFold\<close> are
  exact for what the code compares with ASCII text. A \<open>float64\<close> is the rational it stands for, each
  operation rounded to nearest even, without fused multiply-add (amd64).

  \<^bold>\<open>Bounds and fuel.\<close> The settle loop runs on six rounds of fuel, which \<open>settle_terminates\<close> shows to be
  enough; the retries of a commit are the four of the code; a repetition of a regular expression is
  bounded by the length of the text. All other loops end by a measure: the walks over a graph by the
  nodes not visited yet and the queue.

  \<^bold>\<open>What the lemmas show.\<close> For the dispatch: a turn is sent at most from a claim whose fences are open,
  cancels and stops are not lost, records only move forward, failing calls change nothing in memory,
  a restart gives back what was stored. For settling: effects are recorded before a phase advances
  and the loop ends. For gates: the verdict is the most severe effective action, requirement
  violations win. For drift, tournaments and flows: the score is a replay of the history, a verdict
  does not depend on the order of its candidates, the safety pass is the statement about all paths
  it is meant to be, a continue signal takes a nearest anchor by shortest forward distance, a seal
  fabricates no skips, and a replay of the log restores the timeline as long as terminal steps
  are left alone and the log was not degraded by a failed append. For agents: whatever the interleaving of
  its members, a barrier delivers results once, with one result per seat, and stays closed; the
  number of review rounds is bounded by the cap and what resets, raises and mounts grant; feedback arrives in order; a submitted
  outcome that ends a flow has no failing row; and it is stated which verdicts a hub gate sees after each
  kind of join. Several theorems state where the code does less than its comments promise.

  \<^bold>\<open>Not modelled.\<close> The terminal and desktop interfaces, the command line, HTTP handlers, the provider
  adapters, the language server client, stores behind HTTP (Supabase), file synchronization, prompts
  and their packing, skill and knowledge packs, worktrees and git: input and output around decisions
  made elsewhere, or third-party formats. Of the interactive service, the resume of sessions and the
  flow executor only the operations listed above are modelled; their
  remaining handlers spawn processes and edit a large shared state. Loading flow packs from YAML
  is a parameter: a flow starts as a decoded definition. The counters of the orchestrator are unbounded,
  the registration of a chat run and the persistence of a session are left out of the join, texts that
  are cut by rune are taken to be valid UTF-8, and the face of a review outcome is an argument.
\<close>

end
